(* ===== verification/KG_Prelude.thy ===== *)
theory KG_Prelude
  imports Main "HOL-Library.Word"
begin

text \<open>
  Shared vocabulary of the development: the C integer types as words, byte buffers and C strings,
  little- and big-endian decoding, faulting memory, and the documented behaviour of the BPF
  memory-read helpers (\<open>bpf_probe_read_*\<close>, \<open>bpf_probe_read_*_str\<close>) that every sensor calls.
  A buffer of type \<open>char[n]\<close> is a list of \<open>n\<close> bytes; a region whose contents the program did not
  write (a tracepoint record, a reserved ring-buffer sample, the BPF stack) is a function from
  offsets to bytes; an address space in which a read can fault maps an address to an optional byte.
\<close>

unbundle bit_operations_syntax

section \<open>Machine types\<close>

type_synonym u8 = "8 word"
type_synonym u16 = "16 word"
type_synonym u32 = "32 word"
type_synonym u64 = "64 word"

type_synonym ptr = "64 word"
type_synonym bytes = "u8 list"
type_synonym region = "nat \<Rightarrow> u8"
type_synonym mem = "u64 \<Rightarrow> u8 option"

named_theorems kg_defs \<open>unfolding rules of the sensor programs\<close>
named_theorems kg_len \<open>lengths of the buffers the programs write\<close>
named_theorems kg_frame \<open>state components an operation leaves alone\<close>

section \<open>Byte buffers\<close>

text \<open>The contents of \<open>n\<close> bytes of a region, from an offset.\<close>

definition arr_at :: "region \<Rightarrow> nat \<Rightarrow> nat \<Rightarrow> bytes" where
  "arr_at m off n = map (\<lambda>i. m (off + i)) [0..<n]"

text \<open>\<open>__builtin_memset(buf, 0, n)\<close> on a buffer of \<open>n\<close> bytes.\<close>

definition zeros :: "nat \<Rightarrow> bytes" where
  "zeros n = replicate n 0"

text \<open>The C string a buffer holds: its bytes up to the first NUL.\<close>

definition cstr :: "bytes \<Rightarrow> bytes" where
  "cstr bs = takeWhile (\<lambda>b. b \<noteq> 0) bs"

text \<open>A string stored in a buffer of \<open>n\<close> bytes, the rest zero.\<close>

definition pad0 :: "nat \<Rightarrow> bytes \<Rightarrow> bytes" where
  "pad0 n s = take n (s @ zeros n)"

text \<open>Writing a run of bytes at an offset of a buffer, as far as the buffer reaches.\<close>

definition blit :: "bytes \<Rightarrow> nat \<Rightarrow> bytes \<Rightarrow> bytes" where
  "blit dst off src = take (length dst) (take off dst @ src @ drop (off + length src) dst)"

section \<open>Integers in memory\<close>

fun le_val :: "bytes \<Rightarrow> nat" where
  "le_val [] = 0"
| "le_val (b # bs) = unat b + 256 * le_val bs"

definition le_bytes :: "nat \<Rightarrow> nat \<Rightarrow> bytes" where
  "le_bytes n v = map (\<lambda>i. word_of_nat (v div 256 ^ i)) [0..<n]"

definition u16_at :: "region \<Rightarrow> nat \<Rightarrow> u16" where
  "u16_at m off = word_of_nat (le_val (arr_at m off 2))"

definition u32_at :: "region \<Rightarrow> nat \<Rightarrow> u32" where
  "u32_at m off = word_of_nat (le_val (arr_at m off 4))"

definition u64_at :: "region \<Rightarrow> nat \<Rightarrow> u64" where
  "u64_at m off = word_of_nat (le_val (arr_at m off 8))"

text \<open>Two bytes in network order.\<close>

definition be16 :: "u8 \<Rightarrow> u8 \<Rightarrow> u16" where
  "be16 hi lo = push_bit 8 (ucast hi) OR ucast lo"

text \<open>A buffer seen as a region; bytes past its end read as zero.\<close>

definition region_of :: "bytes \<Rightarrow> region" where
  "region_of bs i = (if i < length bs then bs ! i else 0)"

section \<open>Memory reads that can fault\<close>

fun read_bytes :: "mem \<Rightarrow> u64 \<Rightarrow> nat \<Rightarrow> bytes option" where
  "read_bytes m a 0 = Some []"
| "read_bytes m a (Suc n) =
     (case m a of None \<Rightarrow> None | Some b \<Rightarrow> map_option (\<lambda>bs. b # bs) (read_bytes m (a + 1) n))"

text \<open>
  \<open>bpf_probe_read_user\<close> and \<open>bpf_probe_read_kernel\<close>: 0 and the bytes, or a negative errno
  (\<open>-EFAULT\<close>) and a zeroed destination.
\<close>

definition probe_read :: "mem \<Rightarrow> u64 \<Rightarrow> nat \<Rightarrow> int \<times> bytes" where
  "probe_read m a n = (case read_bytes m a n of None \<Rightarrow> (-14, zeros n) | Some bs \<Rightarrow> (0, bs))"

text \<open>
  The string helpers read at most \<open>n\<close> bytes and stop behind the first NUL; \<open>None\<close> is a fault.
\<close>

fun scan_str :: "nat \<Rightarrow> (nat \<Rightarrow> u8 option) \<Rightarrow> nat \<Rightarrow> bytes option" where
  "scan_str 0 src i = Some []"
| "scan_str (Suc n) src i =
     (case src i of
        None \<Rightarrow> None
      | Some b \<Rightarrow> if b = 0 then Some [0]
                  else map_option (\<lambda>bs. b # bs) (scan_str n src (Suc i)))"

text \<open>
  \<open>bpf_probe_read_user_str\<close> and \<open>bpf_probe_read_kernel_str\<close>: the number of bytes stored, the NUL
  included, and the new destination. A string that does not fit is cut at \<open>size - 1\<close> bytes and
  terminated; bytes behind the NUL keep what the destination held; a fault zeroes the destination.
\<close>

definition probe_read_str :: "nat \<Rightarrow> (nat \<Rightarrow> u8 option) \<Rightarrow> bytes \<Rightarrow> int \<times> bytes" where
  "probe_read_str sz src dst =
     (case scan_str sz src 0 of
        None \<Rightarrow> (-14, zeros sz)
      | Some bs \<Rightarrow>
          if bs \<noteq> [] \<and> last bs = 0 then (int (length bs), bs @ drop (length bs) dst)
          else (int sz, butlast bs @ [0] @ drop sz dst))"

text \<open>Sources of a string read: a user or kernel address, a buffer, a region.\<close>

definition src_mem :: "mem \<Rightarrow> u64 \<Rightarrow> nat \<Rightarrow> u8 option" where
  "src_mem m a i = m (a + of_nat i)"

definition src_buf :: "bytes \<Rightarrow> nat \<Rightarrow> u8 option" where
  "src_buf bs i = (if i < length bs then Some (bs ! i) else None)"

section \<open>Lemmas on buffers\<close>

lemma length_arr_at [simp, kg_len]: "length (arr_at m off n) = n"
  by (simp add: arr_at_def)

lemma nth_arr_at [simp]: "i < n \<Longrightarrow> arr_at m off n ! i = m (off + i)"
  by (simp add: arr_at_def)

lemma length_zeros [simp, kg_len]: "length (zeros n) = n"
  by (simp add: zeros_def)

lemma nth_zeros [simp]: "i < n \<Longrightarrow> zeros n ! i = 0"
  by (simp add: zeros_def)

lemma zeros_0 [simp]: "zeros 0 = []"
  by (simp add: zeros_def)

lemma drop_zeros [simp]: "drop k (zeros n) = zeros (n - k)"
  by (simp add: zeros_def)

lemma take_zeros [simp]: "take k (zeros n) = zeros (min k n)"
  by (simp add: zeros_def min_def)

lemma length_pad0 [simp, kg_len]: "length (pad0 n s) = n"
  by (simp add: pad0_def)

lemma nth_pad0: "i < n \<Longrightarrow> pad0 n s ! i = (if i < length s then s ! i else 0)"
  by (auto simp: pad0_def nth_append)

lemma pad0_short: "length s \<le> n \<Longrightarrow> pad0 n s = s @ zeros (n - length s)"
  by (simp add: pad0_def)

lemma length_blit [simp, kg_len]: "length (blit dst off src) = length dst"
  by (simp add: blit_def)

lemma nth_blit:
  assumes "i < length dst" "off + length src \<le> length dst"
  shows "blit dst off src ! i = (if off \<le> i \<and> i < off + length src then src ! (i - off) else dst ! i)"
proof -
  consider "i < off" | "off \<le> i" "i < off + length src" | "off + length src \<le> i" by linarith
  then show ?thesis
    using assms by cases (auto simp: blit_def nth_append)
qed

lemma cstr_no_nul: "0 \<notin> set (cstr bs)"
  unfolding cstr_def using set_takeWhileD by fastforce

lemma length_cstr_le: "length (cstr bs) \<le> length bs"
  by (simp add: cstr_def length_takeWhile_le)

lemma cstr_append_nul: "0 \<notin> set s \<Longrightarrow> cstr (s @ 0 # r) = s"
  by (induction s) (auto simp: cstr_def)

lemma cstr_id: "0 \<notin> set s \<Longrightarrow> cstr s = s"
  by (induction s) (auto simp: cstr_def)

lemma cstr_pad0: "0 \<notin> set s \<Longrightarrow> length s < n \<Longrightarrow> cstr (pad0 n s) = s"
proof -
  assume s: "0 \<notin> set s" "length s < n"
  then obtain k where "n - length s = Suc k" by (metis Suc_diff_Suc)
  with s show ?thesis by (simp add: pad0_short zeros_def cstr_append_nul)
qed

lemma pad0_inj:
  assumes "pad0 n s = pad0 n t" "0 \<notin> set s" "0 \<notin> set t" "length s < n" "length t < n"
  shows "s = t"
  using assms cstr_pad0 by metis

lemma nth_cstr: "i < length (cstr bs) \<Longrightarrow> cstr bs ! i = bs ! i"
  by (simp add: cstr_def takeWhile_nth)

text \<open>Reading a region that holds a buffer.\<close>

lemma arr_at_region_of: "off + n \<le> length bs \<Longrightarrow> arr_at (region_of bs) off n = take n (drop off bs)"
  by (intro nth_equalityI) (auto simp: region_of_def)

lemma region_of_app: "i < length x \<Longrightarrow> region_of (p @ x @ q) (length p + i) = x ! i"
  by (simp add: region_of_def nth_append)

section \<open>Lemmas on integers in memory\<close>

lemma le_val_bound: "le_val bs < 256 ^ length bs"
proof (induction bs)
  case (Cons b bs)
  have "unat b < 256" using unsigned_less [of b, where ?'a = nat] by simp
  moreover have "Suc (le_val bs) \<le> 256 ^ length bs" using Cons.IH by simp
  then have "256 * Suc (le_val bs) \<le> 256 * 256 ^ length bs" by (rule mult_le_mono2)
  ultimately show ?case by simp
qed simp

lemma length_le_bytes [simp, kg_len]: "length (le_bytes n v) = n"
  by (simp add: le_bytes_def)

lemma le_bytes_Suc: "le_bytes (Suc n) v = word_of_nat v # le_bytes n (v div 256)"
proof (rule nth_equalityI)
  show "length (le_bytes (Suc n) v) = length (word_of_nat v # le_bytes n (v div 256))" by simp
next
  fix i assume "i < length (le_bytes (Suc n) v)"
  then show "le_bytes (Suc n) v ! i = (word_of_nat v # le_bytes n (v div 256)) ! i"
    by (cases i) (auto simp: le_bytes_def div_mult2_eq simp del: upt_Suc)
qed

lemma le_val_le_bytes: "le_val (le_bytes n v) = v mod 256 ^ n"
proof (induction n arbitrary: v)
  case 0
  show ?case by (simp add: le_bytes_def)
next
  case (Suc n)
  have "unat (word_of_nat v :: u8) = v mod 256" by (simp add: unat_of_nat)
  then show ?case
    by (simp add: le_bytes_Suc Suc mod_mult2_eq)
qed

lemma le_val_append: "le_val (xs @ ys) = le_val xs + 256 ^ length xs * le_val ys"
  by (induction xs) (simp_all add: algebra_simps)

lemma arr_at_add: "arr_at m off (a + b) = arr_at m off a @ arr_at m (off + a) b"
  by (intro nth_equalityI) (auto simp: nth_append add.assoc)

text \<open>The low half of a 64-bit member is the 32-bit member at the same offset.\<close>

lemma u32_at_low: "u32_at m off = ucast (u64_at m off)"
proof -
  let ?lo = "le_val (arr_at m off 4)" and ?hi = "le_val (arr_at m (off + 4) 4)"
  have "le_val (arr_at m off 8) = ?lo + 2 ^ 32 * ?hi"
    using arr_at_add [of m off 4 4] by (simp add: le_val_append)
  moreover have "unat (u64_at m off) = le_val (arr_at m off 8)"
    using le_val_bound [of "arr_at m off 8"] by (simp add: u64_at_def unat_of_nat)
  ultimately have "unat (ucast (u64_at m off) :: u32) = ?lo mod 2 ^ 32"
    by (simp add: unsigned_ucast_eq take_bit_eq_mod)
  also have "\<dots> = unat (u32_at m off)" by (simp add: u32_at_def unat_of_nat)
  finally show ?thesis by (simp add: word_unat_eq_iff)
qed

lemma probe_read_length [kg_len]: "length (snd (probe_read m a n)) = n"
proof -
  have "read_bytes m a n = Some bs \<Longrightarrow> length bs = n" for bs
    by (induction n arbitrary: a bs) (auto split: option.splits)
  then show ?thesis by (auto simp: probe_read_def split: option.splits)
qed

lemma read_bytes_Some_iff:
  "read_bytes m a n = Some bs \<longleftrightarrow> length bs = n \<and> (\<forall>i<n. m (a + of_nat i) = Some (bs ! i))"
proof (induction n arbitrary: a bs)
  case (Suc n)
  show ?case
  proof (cases bs)
    case (Cons c cs)
    have "(\<forall>i<Suc n. m (a + of_nat i) = Some (bs ! i)) \<longleftrightarrow>
          m a = Some c \<and> (\<forall>i<n. m (a + 1 + of_nat i) = Some (cs ! i))"
      by (auto simp: Cons All_less_Suc2 add.assoc)
    with Cons Suc show ?thesis by (auto split: option.splits)
  qed (auto split: option.splits)
qed auto

section \<open>Lemmas on string reads\<close>

lemma scan_str_cases:
  assumes "scan_str n src i = Some bs"
  shows "(\<exists>s. bs = s @ [0] \<and> 0 \<notin> set s \<and> length s < n) \<or> (0 \<notin> set bs \<and> length bs = n)"
  using assms
proof (induction n src i arbitrary: bs rule: scan_str.induct)
  case (2 n src i)
  then show ?case by (fastforce split: option.splits if_splits intro: exI [of _ "_ # _"])
qed simp

lemma scan_str_buf:
  assumes "i + n \<le> length b"
  shows "scan_str n (src_buf b) i =
           (if length (cstr (drop i b)) < n then Some (cstr (drop i b) @ [0]) else Some (take n (drop i b)))"
  using assms
proof (induction n arbitrary: i)
  case (Suc n)
  from Suc.prems have i: "i < length b" by simp
  then have d: "drop i b = b ! i # drop (Suc i) b" by (simp add: Cons_nth_drop_Suc)
  show ?case
    using Suc i by (simp add: src_buf_def d cstr_def)
qed simp

lemma probe_read_str_length [kg_len]:
  assumes "length dst = sz" "0 < sz"
  shows "length (snd (probe_read_str sz src dst)) = sz"
proof (cases "scan_str sz src 0")
  case (Some bs)
  with assms show ?thesis
    using scan_str_cases [OF Some] by (auto simp: probe_read_str_def)
qed (simp add: probe_read_str_def)

text \<open>
  Reading the string of a buffer of the same size into a zeroed buffer copies exactly the string
  and leaves the rest zero, whatever followed the NUL in the source.
\<close>

lemma probe_read_str_buf_zeros:
  assumes "length b = n" "length (cstr b) < n"
  shows "probe_read_str n (src_buf b) (zeros n) = (int (length (cstr b)) + 1, pad0 n (cstr b))"
proof -
  have "cstr b @ [0] @ zeros (n - Suc (length (cstr b))) = pad0 n (cstr b)"
    using assms(2) by (intro nth_equalityI) (auto simp: nth_append nth_pad0 nth_Cons')
  with assms show ?thesis
    by (simp add: probe_read_str_def scan_str_buf)
qed

text \<open>A buffer without NUL is cut by one byte.\<close>

lemma probe_read_str_buf_cut:
  assumes "length b = n" "length (cstr b) = n" "0 < n" "length dst = n"
  shows "probe_read_str n (src_buf b) dst = (int n, butlast b @ [0])"
proof -
  from assms have c: "cstr b = b"
    by (metis cstr_def takeWhile_eq_take take_all order_refl)
  then have "0 \<notin> set b" using cstr_no_nul by metis
  moreover from assms have "b \<noteq> []" by auto
  ultimately have "last b \<noteq> 0" using last_in_set by metis
  with assms show ?thesis
    by (auto simp: probe_read_str_def scan_str_buf)
qed

end
