(* ===== verification/KG_Layout.thy ===== *)
theory KG_Layout
  imports KG_Prelude
begin

text \<open>
  The memory layout the C compiler gives the structs of the program (System V x86-64, the target of
  the \<open>bpf_x86_bpfel\<close> object): every member starts at the next multiple of its alignment, the
  struct's alignment is the largest of its members' and its size is rounded up to it. The program
  depends on it twice: a sensor reads its tracepoint record through a struct declared by hand, and
  user space decodes every ring-buffer sample by position. The locale \<open>c_struct\<close> states the
  guarantees of a layout once; each struct that is read by position interprets it.
\<close>

section \<open>Types, offsets, sizes\<close>

text \<open>A member type is its size and its alignment.\<close>

type_synonym cty = "nat \<times> nat"
type_synonym cfields = "(string \<times> cty) list"

definition c_u8 :: cty where "c_u8 = (1, 1)"
definition c_u16 :: cty where "c_u16 = (2, 2)"
definition c_u32 :: cty where "c_u32 = (4, 4)"
definition c_u64 :: cty where "c_u64 = (8, 8)"
definition c_ptr :: cty where "c_ptr = (8, 8)"

definition c_arr :: "nat \<Rightarrow> cty \<Rightarrow> cty" where
  "c_arr n t = (n * fst t, snd t)"

definition align_up :: "nat \<Rightarrow> nat \<Rightarrow> nat" where
  "align_up off a = (off + a - 1) div a * a"

fun offsets :: "nat \<Rightarrow> cfields \<Rightarrow> (string \<times> nat) list" where
  "offsets off [] = []"
| "offsets off ((f, s, a) # fs) = (f, align_up off a) # offsets (align_up off a + s) fs"

fun struct_end :: "nat \<Rightarrow> cfields \<Rightarrow> nat" where
  "struct_end off [] = off"
| "struct_end off ((f, s, a) # fs) = struct_end (align_up off a + s) fs"

definition struct_align :: "cfields \<Rightarrow> nat" where
  "struct_align fs = fold (\<lambda>(f, s, a) m. max a m) fs 1"

definition struct_size :: "cfields \<Rightarrow> nat" where
  "struct_size fs = align_up (struct_end 0 fs) (struct_align fs)"

definition c_struct_ty :: "cfields \<Rightarrow> cty" where
  "c_struct_ty fs = (struct_size fs, struct_align fs)"

definition offsetof :: "cfields \<Rightarrow> string \<Rightarrow> nat" where
  "offsetof fs f = (case map_of (offsets 0 fs) f of None \<Rightarrow> 0 | Some off \<Rightarrow> off)"

lemmas layout_defs =
  offsetof_def struct_size_def struct_align_def c_struct_ty_def align_up_def c_arr_def
  c_u8_def c_u16_def c_u32_def c_u64_def c_ptr_def

section \<open>What every layout guarantees\<close>

lemma align_up_ge: "0 < a \<Longrightarrow> off \<le> align_up off a"
proof -
  assume a: "0 < a"
  have "off + a - 1 = align_up off a + (off + a - 1) mod a"
    unfolding align_up_def by (rule div_mult_mod_eq [symmetric])
  moreover have "(off + a - 1) mod a < a" using a by simp
  ultimately show ?thesis using a by linarith
qed

lemma align_up_dvd: "a dvd align_up off a"
  by (simp add: align_up_def)

lemma align_up_less: "0 < a \<Longrightarrow> align_up off a < off + a"
proof -
  assume "0 < a"
  moreover have "align_up off a \<le> off + a - 1" by (simp add: align_up_def)
  ultimately show ?thesis by linarith
qed

lemma length_offsets [simp]: "length (offsets off fs) = length fs"
  by (induction off fs rule: offsets.induct) auto

lemma offsets_names: "map fst (offsets off fs) = map fst fs"
  by (induction off fs rule: offsets.induct) auto

lemma struct_end_ge: "list_all (\<lambda>(f, s, a). 0 < a) fs \<Longrightarrow> off \<le> struct_end off fs"
proof (induction off fs rule: struct_end.induct)
  case (2 off f s a fs)
  then show ?case using align_up_ge [of a off] by simp
qed simp

lemma offsets_ge:
  "list_all (\<lambda>(f, s, a). 0 < a) fs \<Longrightarrow> i < length fs \<Longrightarrow> off \<le> snd (offsets off fs ! i)"
proof (induction off fs arbitrary: i rule: offsets.induct)
  case (2 off f s a fs)
  then show ?case using align_up_ge [of a off] by (cases i) (fastforce dest: order_trans)+
qed simp

lemma offsets_end:
  "list_all (\<lambda>(f, s, a). 0 < a) fs \<Longrightarrow> i < length fs \<Longrightarrow>
   snd (offsets off fs ! i) + fst (snd (fs ! i)) \<le> struct_end off fs"
proof (induction off fs arbitrary: i rule: offsets.induct)
  case (2 off f s a fs)
  then show ?case using struct_end_ge [of fs "align_up off a + s"] by (cases i) auto
qed simp

lemma offsets_mono:
  "list_all (\<lambda>(f, s, a). 0 < a) fs \<Longrightarrow> i < j \<Longrightarrow> j < length fs \<Longrightarrow>
   snd (offsets off fs ! i) + fst (snd (fs ! i)) \<le> snd (offsets off fs ! j)"
proof (induction off fs arbitrary: i j rule: offsets.induct)
  case (2 off f s a fs)
  from 2 obtain k where k: "j = Suc k" by (cases j) auto
  with 2 show ?case using offsets_ge [of fs k "align_up off a + s"] by (cases i) auto
qed simp

lemma offsets_dvd:
  "i < length fs \<Longrightarrow> snd (snd (fs ! i)) dvd snd (offsets off fs ! i)"
proof (induction off fs arbitrary: i rule: offsets.induct)
  case (2 off f s a fs)
  then show ?case by (cases i) (auto simp: align_up_dvd)
qed simp

lemma struct_align_pos: "0 < struct_align fs"
proof -
  have "0 < m \<Longrightarrow> 0 < fold (\<lambda>(f, s, a) m. max a m) fs (m :: nat)" for m
    by (induction fs arbitrary: m) auto
  then show ?thesis by (simp add: struct_align_def)
qed

locale c_struct =
  fixes fs :: cfields
  assumes aligned_members: "list_all (\<lambda>(f, s, a). 0 < a) fs"
    and distinct_members: "distinct (map fst fs)"
begin

lemma offsetof_nth:
  assumes "i < length fs"
  shows "offsetof fs (fst (fs ! i)) = snd (offsets 0 fs ! i)"
proof -
  have d: "distinct (map fst (offsets 0 fs))" by (simp add: offsets_names distinct_members)
  have "fst (offsets 0 fs ! i) = fst (fs ! i)"
    using assms offsets_names by (metis length_offsets nth_map)
  moreover have "offsets 0 fs ! i \<in> set (offsets 0 fs)" using assms by simp
  ultimately have "map_of (offsets 0 fs) (fst (fs ! i)) = Some (snd (offsets 0 fs ! i))"
    using d by (metis map_of_is_SomeI prod.collapse)
  then show ?thesis by (simp add: offsetof_def)
qed

lemma member_in_bounds:
  assumes "(f, s, a) \<in> set fs"
  shows "offsetof fs f + s \<le> struct_size fs"
proof -
  from assms obtain i where i: "i < length fs" "fs ! i = (f, s, a)" by (metis in_set_conv_nth)
  have "offsetof fs f + s \<le> struct_end 0 fs"
    using offsets_end [OF aligned_members i(1), of 0] offsetof_nth [OF i(1)] i by simp
  also have "\<dots> \<le> struct_size fs"
    unfolding struct_size_def by (rule align_up_ge) (rule struct_align_pos)
  finally show ?thesis .
qed

lemma member_aligned:
  assumes "(f, s, a) \<in> set fs"
  shows "a dvd offsetof fs f"
proof -
  from assms obtain i where i: "i < length fs" "fs ! i = (f, s, a)" by (metis in_set_conv_nth)
  then show ?thesis using offsets_dvd [OF i(1), of 0] offsetof_nth [OF i(1)] by simp
qed

lemma members_disjoint:
  assumes "(f, s, a) \<in> set fs" "(g, t, b) \<in> set fs" "f \<noteq> g"
  shows "offsetof fs f + s \<le> offsetof fs g \<or> offsetof fs g + t \<le> offsetof fs f"
proof -
  from assms obtain i j where
    i: "i < length fs" "fs ! i = (f, s, a)" and j: "j < length fs" "fs ! j = (g, t, b)"
    by (metis in_set_conv_nth)
  with assms(3) have "i < j \<or> j < i" by (metis fst_conv nat_neq_iff)
  then show ?thesis
    using offsets_mono [OF aligned_members, of i j 0] offsets_mono [OF aligned_members, of j i 0]
      offsetof_nth [OF i(1)] offsetof_nth [OF j(1)] i j by auto
qed

end

end
