(* ===== verification/KG_Types.thy ===== *)
theory KG_Types
  imports KG_Layout
begin

text \<open>
  \<open>bpf/types.h\<close>: the event codes, the event structs written to the ring buffer, the per-task
  lineage record, the scratch buffers and the map key types. Every event struct comes with the list
  of its members in declaration order (for its layout) and with a view function that reads it out
  of raw bytes: a sample just reserved holds whatever the ring buffer held before, and a member the
  program does not assign is submitted with those bytes.
\<close>

section \<open>Constants\<close>

definition EVT_EXEC :: u32 where "EVT_EXEC = 1"
definition EVT_EXEC_BLOCKED :: u32 where "EVT_EXEC_BLOCKED = 2"
definition EVT_CONNECT :: u32 where "EVT_CONNECT = 3"
definition EVT_OPEN_SENSITIVE :: u32 where "EVT_OPEN_SENSITIVE = 4"
definition EVT_PTRACE :: u32 where "EVT_PTRACE = 5"
definition EVT_SETUID :: u32 where "EVT_SETUID = 6"
definition EVT_MODULE_LOAD :: u32 where "EVT_MODULE_LOAD = 7"
definition EVT_MEMFD :: u32 where "EVT_MEMFD = 8"
definition EVT_SENSITIVE_WRITE :: u32 where "EVT_SENSITIVE_WRITE = 9"
definition EVT_BLOCKED_WRITE :: u32 where "EVT_BLOCKED_WRITE = 10"
definition EVENT_PTRACE_BLOCKED :: u32 where "EVENT_PTRACE_BLOCKED = 11"
definition EVENT_KMOD_BLOCKED :: u32 where "EVENT_KMOD_BLOCKED = 12"
definition EVT_IO_URING :: u32 where "EVT_IO_URING = 13"
definition EVENT_LPE_BLOCKED :: u32 where "EVENT_LPE_BLOCKED = 14"
definition EVT_BRANCH_MISPREDICT :: u32 where "EVT_BRANCH_MISPREDICT = 15"
definition EVT_SENDTO :: u32 where "EVT_SENDTO = 16"
definition EVT_NS_CHANGE :: u32 where "EVT_NS_CHANGE = 17"
definition EVT_DNS_ANSWER :: u32 where "EVT_DNS_ANSWER = 18"
definition EVT_REVERSE_SHELL :: u32 where "EVT_REVERSE_SHELL = 19"
definition EVT_RWX_VIOLATION :: u32 where "EVT_RWX_VIOLATION = 20"
definition EVT_CAPABILITY_CHANGE :: u32 where "EVT_CAPABILITY_CHANGE = 21"
definition EVT_BPF_PROG_LOAD :: u32 where "EVT_BPF_PROG_LOAD = 22"
definition EVT_PROCESS_VM_READ :: u32 where "EVT_PROCESS_VM_READ = 23"
definition EVT_PROCESS_VM_WRITE :: u32 where "EVT_PROCESS_VM_WRITE = 24"

lemmas evt_defs =
  EVT_EXEC_def EVT_EXEC_BLOCKED_def EVT_CONNECT_def EVT_OPEN_SENSITIVE_def EVT_PTRACE_def
  EVT_SETUID_def EVT_MODULE_LOAD_def EVT_MEMFD_def EVT_SENSITIVE_WRITE_def EVT_BLOCKED_WRITE_def
  EVENT_PTRACE_BLOCKED_def EVENT_KMOD_BLOCKED_def EVT_IO_URING_def EVENT_LPE_BLOCKED_def
  EVT_BRANCH_MISPREDICT_def EVT_SENDTO_def EVT_NS_CHANGE_def EVT_DNS_ANSWER_def
  EVT_REVERSE_SHELL_def EVT_RWX_VIOLATION_def EVT_CAPABILITY_CHANGE_def EVT_BPF_PROG_LOAD_def
  EVT_PROCESS_VM_READ_def EVT_PROCESS_VM_WRITE_def

definition O_ACCMODE_MASK :: u32 where "O_ACCMODE_MASK = 0x0003"
definition O_WRONLY' :: u32 where "O_WRONLY' = 0x0001"
definition O_RDWR' :: u32 where "O_RDWR' = 0x0002"

abbreviation PATH_BUF_SIZE :: nat where "PATH_BUF_SIZE \<equiv> 256"

section \<open>The event header\<close>

record event_hdr =
  eh_timestamp_ns :: u64
  eh_pid :: u32
  eh_ppid :: u32
  eh_uid :: u32
  eh_gid :: u32
  eh_cgroup_id :: u64
  eh_event_type :: u32
  eh_comm :: bytes
  eh_ancestor_suspicious :: u8
  eh_ancestor_filename :: bytes
  eh_exe_dev :: u64
  eh_exe_ino :: u64
  eh_parent_exe_dev :: u64
  eh_parent_exe_ino :: u64
  eh_ret :: u32

definition event_hdr_fields :: cfields where
  "event_hdr_fields =
     [(''timestamp_ns'', c_u64), (''pid'', c_u32), (''ppid'', c_u32), (''uid'', c_u32),
      (''gid'', c_u32), (''cgroup_id'', c_u64), (''event_type'', c_u32),
      (''comm'', c_arr 16 c_u8), (''ancestor_suspicious'', c_u8),
      (''ancestor_filename'', c_arr 256 c_u8), (''exe_dev'', c_u64), (''exe_ino'', c_u64),
      (''parent_exe_dev'', c_u64), (''parent_exe_ino'', c_u64), (''ret'', c_u32)]"

text \<open>\<open>__builtin_memset(&e->hdr, 0, sizeof(e->hdr))\<close>.\<close>

definition event_hdr_zero :: event_hdr where
  "event_hdr_zero =
     \<lparr>eh_timestamp_ns = 0, eh_pid = 0, eh_ppid = 0, eh_uid = 0, eh_gid = 0, eh_cgroup_id = 0,
      eh_event_type = 0, eh_comm = zeros 16, eh_ancestor_suspicious = 0,
      eh_ancestor_filename = zeros 256, eh_exe_dev = 0, eh_exe_ino = 0, eh_parent_exe_dev = 0,
      eh_parent_exe_ino = 0, eh_ret = 0\<rparr>"

text \<open>The header as user space decodes it, by position.\<close>

definition event_hdr_at :: "region \<Rightarrow> event_hdr" where
  "event_hdr_at m =
     (let off = offsetof event_hdr_fields in
      \<lparr>eh_timestamp_ns = u64_at m (off ''timestamp_ns''), eh_pid = u32_at m (off ''pid''),
       eh_ppid = u32_at m (off ''ppid''), eh_uid = u32_at m (off ''uid''),
       eh_gid = u32_at m (off ''gid''), eh_cgroup_id = u64_at m (off ''cgroup_id''),
       eh_event_type = u32_at m (off ''event_type''), eh_comm = arr_at m (off ''comm'') 16,
       eh_ancestor_suspicious = m (off ''ancestor_suspicious''),
       eh_ancestor_filename = arr_at m (off ''ancestor_filename'') 256,
       eh_exe_dev = u64_at m (off ''exe_dev''), eh_exe_ino = u64_at m (off ''exe_ino''),
       eh_parent_exe_dev = u64_at m (off ''parent_exe_dev''),
       eh_parent_exe_ino = u64_at m (off ''parent_exe_ino''), eh_ret = u32_at m (off ''ret'')\<rparr>)"

definition hdr_ty :: cty where "hdr_ty = c_struct_ty event_hdr_fields"

section \<open>The event structs\<close>

record exec_event =
  ex_hdr :: event_hdr
  ex_filename :: bytes
  ex_args :: bytes
  ex_isFileless :: u8
  ex_path_truncated :: u8

definition exec_event_fields :: cfields where
  "exec_event_fields =
     [(''hdr'', hdr_ty), (''filename'', c_arr 256 c_u8), (''args'', c_arr 256 c_u8),
      (''isFileless'', c_u8), (''path_truncated'', c_u8)]"

definition exec_event_at :: "region \<Rightarrow> exec_event" where
  "exec_event_at m =
     (let off = offsetof exec_event_fields in
      \<lparr>ex_hdr = event_hdr_at m, ex_filename = arr_at m (off ''filename'') 256,
       ex_args = arr_at m (off ''args'') 256, ex_isFileless = m (off ''isFileless''),
       ex_path_truncated = m (off ''path_truncated'')\<rparr>)"

record connect_event =
  cn_hdr :: event_hdr
  cn_daddr :: u32
  cn_daddr6 :: bytes
  cn_dport :: u16
  cn_family :: u16
  cn_unix_path :: bytes

definition connect_event_fields :: cfields where
  "connect_event_fields =
     [(''hdr'', hdr_ty), (''daddr'', c_u32), (''daddr6'', c_arr 16 c_u8), (''dport'', c_u16),
      (''family'', c_u16), (''unix_path'', c_arr 108 c_u8)]"

definition connect_event_at :: "region \<Rightarrow> connect_event" where
  "connect_event_at m =
     (let off = offsetof connect_event_fields in
      \<lparr>cn_hdr = event_hdr_at m, cn_daddr = u32_at m (off ''daddr''),
       cn_daddr6 = arr_at m (off ''daddr6'') 16, cn_dport = u16_at m (off ''dport''),
       cn_family = u16_at m (off ''family''), cn_unix_path = arr_at m (off ''unix_path'') 108\<rparr>)"

record open_event =
  op_hdr :: event_hdr
  op_filename :: bytes
  op_isFileless :: u8
  op_path_truncated :: u8

definition open_event_fields :: cfields where
  "open_event_fields =
     [(''hdr'', hdr_ty), (''filename'', c_arr 256 c_u8), (''isFileless'', c_u8),
      (''path_truncated'', c_u8)]"

definition open_event_at :: "region \<Rightarrow> open_event" where
  "open_event_at m =
     (let off = offsetof open_event_fields in
      \<lparr>op_hdr = event_hdr_at m, op_filename = arr_at m (off ''filename'') 256,
       op_isFileless = m (off ''isFileless''), op_path_truncated = m (off ''path_truncated'')\<rparr>)"

record ptrace_event =
  pt_hdr :: event_hdr
  pt_target_pid :: u32
  pt_mode :: u32
  pt_caller_comm :: bytes
  pt_target_comm :: bytes

definition ptrace_event_fields :: cfields where
  "ptrace_event_fields =
     [(''hdr'', hdr_ty), (''target_pid'', c_u32), (''mode'', c_u32),
      (''caller_comm'', c_arr 64 c_u8), (''target_comm'', c_arr 64 c_u8)]"

definition ptrace_event_at :: "region \<Rightarrow> ptrace_event" where
  "ptrace_event_at m =
     (let off = offsetof ptrace_event_fields in
      \<lparr>pt_hdr = event_hdr_at m, pt_target_pid = u32_at m (off ''target_pid''),
       pt_mode = u32_at m (off ''mode''), pt_caller_comm = arr_at m (off ''caller_comm'') 64,
       pt_target_comm = arr_at m (off ''target_comm'') 64\<rparr>)"

record kmod_event =
  km_hdr :: event_hdr
  km_load_type :: u32

definition kmod_event_fields :: cfields where
  "kmod_event_fields = [(''hdr'', hdr_ty), (''load_type'', c_u32)]"

definition kmod_event_at :: "region \<Rightarrow> kmod_event" where
  "kmod_event_at m =
     \<lparr>km_hdr = event_hdr_at m, km_load_type = u32_at m (offsetof kmod_event_fields ''load_type'')\<rparr>"

record iouring_event =
  io_hdr :: event_hdr
  io_opcode :: u8
  io_filename :: bytes

definition iouring_event_fields :: cfields where
  "iouring_event_fields = [(''hdr'', hdr_ty), (''opcode'', c_u8), (''filename'', c_arr 256 c_u8)]"

definition iouring_event_at :: "region \<Rightarrow> iouring_event" where
  "iouring_event_at m =
     (let off = offsetof iouring_event_fields in
      \<lparr>io_hdr = event_hdr_at m, io_opcode = m (off ''opcode''),
       io_filename = arr_at m (off ''filename'') 256\<rparr>)"

record lpe_event =
  lp_hdr :: event_hdr
  lp_old_uid :: u32
  lp_new_uid :: u32

definition lpe_event_fields :: cfields where
  "lpe_event_fields = [(''hdr'', hdr_ty), (''old_uid'', c_u32), (''new_uid'', c_u32)]"

definition lpe_event_at :: "region \<Rightarrow> lpe_event" where
  "lpe_event_at m =
     (let off = offsetof lpe_event_fields in
      \<lparr>lp_hdr = event_hdr_at m, lp_old_uid = u32_at m (off ''old_uid''),
       lp_new_uid = u32_at m (off ''new_uid'')\<rparr>)"

record pmu_event =
  pm_hdr :: event_hdr
  pm_mispred_count :: u64

definition pmu_event_fields :: cfields where
  "pmu_event_fields = [(''hdr'', hdr_ty), (''mispred_count'', c_u64)]"

definition pmu_event_at :: "region \<Rightarrow> pmu_event" where
  "pmu_event_at m =
     \<lparr>pm_hdr = event_hdr_at m,
      pm_mispred_count = u64_at m (offsetof pmu_event_fields ''mispred_count'')\<rparr>"

record ns_change_event =
  ns_hdr :: event_hdr
  ns_flags :: u64
  ns_nstype :: u32
  ns_op :: u32

definition ns_change_event_fields :: cfields where
  "ns_change_event_fields =
     [(''hdr'', hdr_ty), (''flags'', c_u64), (''nstype'', c_u32), (''op'', c_u32)]"

definition ns_change_event_at :: "region \<Rightarrow> ns_change_event" where
  "ns_change_event_at m =
     (let off = offsetof ns_change_event_fields in
      \<lparr>ns_hdr = event_hdr_at m, ns_flags = u64_at m (off ''flags''),
       ns_nstype = u32_at m (off ''nstype''), ns_op = u32_at m (off ''op'')\<rparr>)"

record dns_answer_event =
  da_hdr :: event_hdr
  da_daddr :: u32
  da_daddr6 :: bytes
  da_family :: u16
  da_qname :: bytes

definition dns_answer_event_fields :: cfields where
  "dns_answer_event_fields =
     [(''hdr'', hdr_ty), (''daddr'', c_u32), (''daddr6'', c_arr 16 c_u8), (''family'', c_u16),
      (''qname'', c_arr 128 c_u8)]"

definition dns_answer_event_at :: "region \<Rightarrow> dns_answer_event" where
  "dns_answer_event_at m =
     (let off = offsetof dns_answer_event_fields in
      \<lparr>da_hdr = event_hdr_at m, da_daddr = u32_at m (off ''daddr''),
       da_daddr6 = arr_at m (off ''daddr6'') 16, da_family = u16_at m (off ''family''),
       da_qname = arr_at m (off ''qname'') 128\<rparr>)"

record mprotect_event =
  mp_hdr :: event_hdr
  mp_req_prot :: u64
  mp_prot :: u64

definition mprotect_event_fields :: cfields where
  "mprotect_event_fields = [(''hdr'', hdr_ty), (''req_prot'', c_u64), (''prot'', c_u64)]"

definition mprotect_event_at :: "region \<Rightarrow> mprotect_event" where
  "mprotect_event_at m =
     (let off = offsetof mprotect_event_fields in
      \<lparr>mp_hdr = event_hdr_at m, mp_req_prot = u64_at m (off ''req_prot''),
       mp_prot = u64_at m (off ''prot'')\<rparr>)"

record cap_event =
  cp_hdr :: event_hdr
  cp_cap :: u32
  cp_is_container :: u8

definition cap_event_fields :: cfields where
  "cap_event_fields = [(''hdr'', hdr_ty), (''cap'', c_u32), (''is_container'', c_u8)]"

definition cap_event_at :: "region \<Rightarrow> cap_event" where
  "cap_event_at m =
     (let off = offsetof cap_event_fields in
      \<lparr>cp_hdr = event_hdr_at m, cp_cap = u32_at m (off ''cap''),
       cp_is_container = m (off ''is_container'')\<rparr>)"

record bpf_prog_load_event =
  bl_hdr :: event_hdr
  bl_prog_type :: u32
  bl_attach_type :: u32
  bl_prog_name :: bytes

definition bpf_prog_load_event_fields :: cfields where
  "bpf_prog_load_event_fields =
     [(''hdr'', hdr_ty), (''prog_type'', c_u32), (''attach_type'', c_u32),
      (''prog_name'', c_arr 16 c_u8)]"

definition bpf_prog_load_event_at :: "region \<Rightarrow> bpf_prog_load_event" where
  "bpf_prog_load_event_at m =
     (let off = offsetof bpf_prog_load_event_fields in
      \<lparr>bl_hdr = event_hdr_at m, bl_prog_type = u32_at m (off ''prog_type''),
       bl_attach_type = u32_at m (off ''attach_type''),
       bl_prog_name = arr_at m (off ''prog_name'') 16\<rparr>)"

record vm_read_write_event =
  vm_hdr :: event_hdr
  vm_target_pid :: u32
  vm_nr_segs :: u64
  vm_len :: u64
  vm_target_comm :: bytes

definition vm_read_write_event_fields :: cfields where
  "vm_read_write_event_fields =
     [(''hdr'', hdr_ty), (''target_pid'', c_u32), (''nr_segs'', c_u64), (''len'', c_u64),
      (''target_comm'', c_arr 16 c_u8)]"

definition vm_read_write_event_at :: "region \<Rightarrow> vm_read_write_event" where
  "vm_read_write_event_at m =
     (let off = offsetof vm_read_write_event_fields in
      \<lparr>vm_hdr = event_hdr_at m, vm_target_pid = u32_at m (off ''target_pid''),
       vm_nr_segs = u64_at m (off ''nr_segs''), vm_len = u64_at m (off ''len''),
       vm_target_comm = arr_at m (off ''target_comm'') 16\<rparr>)"

text \<open>What the ring buffer carries: one sample of one of the structs.\<close>

datatype event =
    ExecEv exec_event
  | ConnectEv connect_event
  | OpenEv open_event
  | PtraceEv ptrace_event
  | KmodEv kmod_event
  | IouringEv iouring_event
  | LpeEv lpe_event
  | PmuEv pmu_event
  | NsChangeEv ns_change_event
  | DnsAnswerEv dns_answer_event
  | MprotectEv mprotect_event
  | CapEv cap_event
  | BpfProgLoadEv bpf_prog_load_event
  | VmReadWriteEv vm_read_write_event

fun hdr_of :: "event \<Rightarrow> event_hdr" where
  "hdr_of (ExecEv e) = ex_hdr e"
| "hdr_of (ConnectEv e) = cn_hdr e"
| "hdr_of (OpenEv e) = op_hdr e"
| "hdr_of (PtraceEv e) = pt_hdr e"
| "hdr_of (KmodEv e) = km_hdr e"
| "hdr_of (IouringEv e) = io_hdr e"
| "hdr_of (LpeEv e) = lp_hdr e"
| "hdr_of (PmuEv e) = pm_hdr e"
| "hdr_of (NsChangeEv e) = ns_hdr e"
| "hdr_of (DnsAnswerEv e) = da_hdr e"
| "hdr_of (MprotectEv e) = mp_hdr e"
| "hdr_of (CapEv e) = cp_hdr e"
| "hdr_of (BpfProgLoadEv e) = bl_hdr e"
| "hdr_of (VmReadWriteEv e) = vm_hdr e"

section \<open>Lineage, scratch buffers, keys\<close>

record process_lineage =
  parent_pid :: u32
  expected_uid :: u32
  setuid_allowed :: u8
  suspicious_ancestor :: u8
  socket_redirected :: u8
  ancestor_filename :: bytes

text \<open>Task storage is zeroed when it is created.\<close>

definition process_lineage_zero :: process_lineage where
  "process_lineage_zero =
     \<lparr>parent_pid = 0, expected_uid = 0, setuid_allowed = 0, suspicious_ancestor = 0,
      socket_redirected = 0, ancestor_filename = zeros PATH_BUF_SIZE\<rparr>"

record scratch_buffer =
  primary :: bytes
  walk :: bytes
  sb_lin :: process_lineage

record exec_scratch =
  es_args :: bytes

record file_id =
  fi_dev :: u64
  fi_ino :: u64

record lpm_prefix_key =
  lk_prefixlen :: u32
  lk_basename :: bytes

text \<open>The key and value of the pending DNS transactions (\<open>bpf/maps.h\<close>).\<close>

record dns_tx_key =
  resolver_ip :: u32
  client_port :: u16
  txid :: u16

record dns_tx_val =
  dv_qname :: bytes
  dv_cgroup_id :: u64

section \<open>Well-formed samples\<close>

definition hdr_wf :: "event_hdr \<Rightarrow> bool" where
  "hdr_wf h \<longleftrightarrow> length (eh_comm h) = 16 \<and> length (eh_ancestor_filename h) = 256"

text \<open>Every array member has its declared length.\<close>

fun event_sized :: "event \<Rightarrow> bool" where
  "event_sized (ExecEv e) \<longleftrightarrow> length (ex_filename e) = 256 \<and> length (ex_args e) = 256"
| "event_sized (ConnectEv e) \<longleftrightarrow> length (cn_daddr6 e) = 16 \<and> length (cn_unix_path e) = 108"
| "event_sized (OpenEv e) \<longleftrightarrow> length (op_filename e) = 256"
| "event_sized (PtraceEv e) \<longleftrightarrow> length (pt_caller_comm e) = 64 \<and> length (pt_target_comm e) = 64"
| "event_sized (IouringEv e) \<longleftrightarrow> length (io_filename e) = 256"
| "event_sized (DnsAnswerEv e) \<longleftrightarrow> length (da_daddr6 e) = 16 \<and> length (da_qname e) = 128"
| "event_sized (BpfProgLoadEv e) \<longleftrightarrow> length (bl_prog_name e) = 16"
| "event_sized (VmReadWriteEv e) \<longleftrightarrow> length (vm_target_comm e) = 16"
| "event_sized _ \<longleftrightarrow> True"

text \<open>
  The event codes each struct is submitted under. User space picks the struct to decode from the
  code in the header (\<open>Router.initHandlers\<close>), so a sample under a code of another struct would
  be decoded with the wrong layout.
\<close>

fun event_codes :: "event \<Rightarrow> u32 list" where
  "event_codes (ExecEv _) =
     [EVT_EXEC, EVT_EXEC_BLOCKED, EVT_REVERSE_SHELL, EVT_PTRACE, EVT_SETUID, EVT_MODULE_LOAD]"
| "event_codes (ConnectEv _) = [EVT_CONNECT, EVT_SENDTO]"
| "event_codes (OpenEv _) = [EVT_OPEN_SENSITIVE, EVT_MEMFD, EVT_SENSITIVE_WRITE, EVT_BLOCKED_WRITE]"
| "event_codes (PtraceEv _) = [EVENT_PTRACE_BLOCKED]"
| "event_codes (KmodEv _) = [EVENT_KMOD_BLOCKED]"
| "event_codes (IouringEv _) = [EVT_IO_URING]"
| "event_codes (LpeEv _) = [EVENT_LPE_BLOCKED]"
| "event_codes (PmuEv _) = [EVT_BRANCH_MISPREDICT]"
| "event_codes (NsChangeEv _) = [EVT_NS_CHANGE]"
| "event_codes (DnsAnswerEv _) = [EVT_DNS_ANSWER]"
| "event_codes (MprotectEv _) = [EVT_RWX_VIOLATION]"
| "event_codes (CapEv _) = [EVT_CAPABILITY_CHANGE]"
| "event_codes (BpfProgLoadEv _) = [EVT_BPF_PROG_LOAD]"
| "event_codes (VmReadWriteEv _) = [EVT_PROCESS_VM_READ, EVT_PROCESS_VM_WRITE]"

definition event_wf :: "event \<Rightarrow> bool" where
  "event_wf e \<longleftrightarrow> hdr_wf (hdr_of e) \<and> event_sized e \<and> eh_event_type (hdr_of e) \<in> set (event_codes e)"

definition lineage_wf :: "process_lineage \<Rightarrow> bool" where
  "lineage_wf l \<longleftrightarrow> length (ancestor_filename l) = PATH_BUF_SIZE"

lemma lineage_wf_zero [simp]: "lineage_wf process_lineage_zero"
  by (simp add: lineage_wf_def process_lineage_zero_def)

lemma hdr_wf_zero [simp]: "hdr_wf event_hdr_zero"
  by (simp add: hdr_wf_def event_hdr_zero_def)

section \<open>The layouts read by user space\<close>

lemma hdr_ty_eval: "hdr_ty = (352, 8)"
  by (simp add: hdr_ty_def event_hdr_fields_def layout_defs)

interpretation hdr_layout: c_struct event_hdr_fields
  by unfold_locales (simp_all add: event_hdr_fields_def layout_defs)

interpretation exec_layout: c_struct exec_event_fields
  by unfold_locales (simp_all add: exec_event_fields_def hdr_ty_eval layout_defs)

interpretation connect_layout: c_struct connect_event_fields
  by unfold_locales (simp_all add: connect_event_fields_def hdr_ty_eval layout_defs)

interpretation open_layout: c_struct open_event_fields
  by unfold_locales (simp_all add: open_event_fields_def hdr_ty_eval layout_defs)

interpretation dns_answer_layout: c_struct dns_answer_event_fields
  by unfold_locales (simp_all add: dns_answer_event_fields_def hdr_ty_eval layout_defs)

end
