(* ===== verification/KG_Btf.thy ===== *)
theory KG_Btf
  imports KG_Layout
begin

text \<open>
  The layout of the kernel structs of \<open>bpf/include/vmlinux.h\<close>. Beside plain members these have
  bit-fields, unnamed padding (\<open>long: 64;\<close>) and unions. Positions are in bits: a plain member starts at
  the next multiple of its alignment; a bit-field of \<open>w\<close> bits is placed behind its predecessor unless
  it would cross a boundary of its declared type, in which case it starts a new unit; an unnamed
  bit-field reserves its bits but does not raise the alignment of the struct. The locale \<open>kstruct\<close>
  states what a layout guarantees, and structs without bit-fields are laid out as in \<open>KG_Layout\<close>.
\<close>

section \<open>Members, offsets, sizes\<close>

datatype kmember = Fld string cty | Bits string cty nat

type_synonym kfields = "kmember list"

fun k_name :: "kmember \<Rightarrow> string" where
  "k_name (Fld f t) = f"
| "k_name (Bits f t w) = f"

fun k_start :: "nat \<Rightarrow> kmember \<Rightarrow> nat" where
  "k_start off (Fld f t) = align_up off (8 * snd t)"
| "k_start off (Bits f t w) =
     (let unit = 8 * fst t in
      if off div unit = (off + w - 1) div unit then off else align_up off unit)"

fun k_width :: "kmember \<Rightarrow> nat" where
  "k_width (Fld f t) = 8 * fst t"
| "k_width (Bits f t w) = w"

fun k_align :: "kmember \<Rightarrow> nat" where
  "k_align (Fld f t) = snd t"
| "k_align (Bits f t w) = (if f = [] then 1 else snd t)"

fun k_end :: "nat \<Rightarrow> kfields \<Rightarrow> nat" where
  "k_end off [] = off"
| "k_end off (m # ms) = k_end (k_start off m + k_width m) ms"

text \<open>The position of a member in bits, and in whole bytes.\<close>

fun k_bitpos :: "nat \<Rightarrow> kfields \<Rightarrow> string \<Rightarrow> nat option" where
  "k_bitpos off [] f = None"
| "k_bitpos off (m # ms) f =
     (if k_name m = f then Some (k_start off m) else k_bitpos (k_start off m + k_width m) ms f)"

definition k_offsetof :: "kfields \<Rightarrow> string \<Rightarrow> nat" where
  "k_offsetof ms f = (case k_bitpos 0 ms f of None \<Rightarrow> 0 | Some b \<Rightarrow> b div 8)"

text \<open>Every member of a union starts at its beginning.\<close>

definition k_union_offsetof :: "kfields \<Rightarrow> string \<Rightarrow> nat" where
  "k_union_offsetof ms f = 0"

fun k_max_align :: "kfields \<Rightarrow> nat" where
  "k_max_align [] = 1"
| "k_max_align (m # ms) = max (k_align m) (k_max_align ms)"

fun k_max_width :: "kfields \<Rightarrow> nat" where
  "k_max_width [] = 0"
| "k_max_width (m # ms) = max (k_width m) (k_max_width ms)"

definition k_struct_ty :: "kfields \<Rightarrow> cty" where
  "k_struct_ty ms = (align_up ((k_end 0 ms + 7) div 8) (k_max_align ms), k_max_align ms)"

definition k_union_ty :: "kfields \<Rightarrow> cty" where
  "k_union_ty ms = (align_up ((k_max_width ms + 7) div 8) (k_max_align ms), k_max_align ms)"

text \<open>
  Evaluation: the type of a member list written out is computed member by member, while the type of
  a named list stays folded until its own equation rewrites it.
\<close>

lemma k_struct_ty_list [simp]:
  "k_struct_ty [] = (0, 1)"
  "k_struct_ty (m # ms) =
     (align_up ((k_end 0 (m # ms) + 7) div 8) (k_max_align (m # ms)), k_max_align (m # ms))"
  by (simp_all add: k_struct_ty_def align_up_def)

lemma k_union_ty_list [simp]:
  "k_union_ty [] = (0, 1)"
  "k_union_ty (m # ms) =
     (align_up ((k_max_width (m # ms) + 7) div 8) (k_max_align (m # ms)), k_max_align (m # ms))"
  by (simp_all add: k_union_ty_def align_up_def)

lemmas klayout_defs = align_up_def c_arr_def c_u8_def c_u16_def c_u32_def c_u64_def c_ptr_def

text \<open>A long struct is laid out part by part.\<close>

lemma k_end_append: "k_end off (xs @ ys) = k_end (k_end off xs) ys"
  by (induction xs arbitrary: off) auto

lemma k_max_align_append: "k_max_align (xs @ ys) = max (k_max_align xs) (k_max_align ys)"
proof -
  have "1 \<le> k_max_align ys" by (induction ys) auto
  then show ?thesis by (induction xs) (auto simp: max_def)
qed

lemma k_bitpos_append:
  "k_bitpos off (xs @ ys) f =
     (case k_bitpos off xs f of None \<Rightarrow> k_bitpos (k_end off xs) ys f | Some b \<Rightarrow> Some b)"
  by (induction xs arbitrary: off) (auto split: option.splits)

section \<open>What every layout guarantees\<close>

text \<open>A member has a positive alignment, and a bit-field fits its type.\<close>

fun k_ok :: "kmember \<Rightarrow> bool" where
  "k_ok (Fld f t) \<longleftrightarrow> 0 < snd t"
| "k_ok (Bits f t w) \<longleftrightarrow> 0 < fst t \<and> 0 < snd t \<and> w \<le> 8 * fst t"

lemma k_start_ge: "k_ok m \<Longrightarrow> off \<le> k_start off m"
  by (cases m) (auto simp: Let_def intro: align_up_ge)

lemma k_end_ge: "list_all k_ok ms \<Longrightarrow> off \<le> k_end off ms"
proof (induction ms arbitrary: off)
  case (Cons m ms)
  then have "k_start off m + k_width m \<le> k_end (k_start off m + k_width m) ms" by simp
  moreover have "off \<le> k_start off m" using Cons.prems by (intro k_start_ge) simp
  ultimately show ?case by simp
qed simp

text \<open>The member a name refers to.\<close>

definition k_member :: "kfields \<Rightarrow> string \<Rightarrow> kmember option" where
  "k_member ms f = List.find (\<lambda>m. k_name m = f) ms"

lemma k_member_Cons [simp]:
  "k_member [] f = None" "k_member (m # ms) f = (if k_name m = f then Some m else k_member ms f)"
  by (simp_all add: k_member_def)

lemma k_bitpos_range:
  assumes "list_all k_ok ms" "k_member ms f = Some m"
  shows "\<exists>b. k_bitpos off ms f = Some b \<and> off \<le> b \<and> b + k_width m \<le> k_end off ms"
  using assms
proof (induction ms arbitrary: off)
  case (Cons x ms)
  have ge: "off \<le> k_start off x" using Cons.prems by (intro k_start_ge) simp
  show ?case
  proof (cases "k_name x = f")
    case True
    then show ?thesis using Cons.prems ge k_end_ge [of ms "k_start off x + k_width x"] by auto
  next
    case False
    then show ?thesis using Cons.IH [of "k_start off x + k_width x"] Cons.prems ge by fastforce
  qed
qed simp

lemma k_bitpos_fld:
  assumes "k_bitpos off ms f = Some b" "k_member ms f = Some (Fld f t)"
  shows "8 * snd t dvd b"
  using assms
proof (induction ms arbitrary: off)
  case (Cons m ms)
  then show ?case by (cases "k_name m = f") (auto simp: align_up_dvd)
qed simp

lemma k_bitpos_disjoint:
  assumes "list_all k_ok ms" "k_bitpos off ms f = Some b" "k_bitpos off ms g = Some c" "f \<noteq> g"
    and "k_member ms f = Some m" "k_member ms g = Some n"
  shows "b + k_width m \<le> c \<or> c + k_width n \<le> b"
  using assms
proof (induction ms arbitrary: off)
  case (Cons x ms)
  let ?o = "k_start off x + k_width x"
  have ok: "list_all k_ok ms" using Cons.prems by simp
  consider (f) "k_name x = f" | (g) "k_name x = g" | (rest) "k_name x \<noteq> f" "k_name x \<noteq> g" by blast
  then show ?case
  proof cases
    case f
    then have "k_bitpos ?o ms g = Some c" "k_member ms g = Some n" "b = k_start off x" "m = x"
      using Cons.prems by auto
    then show ?thesis using k_bitpos_range [OF ok, of g n ?o] by simp
  next
    case g
    then have "k_bitpos ?o ms f = Some b" "k_member ms f = Some m" "c = k_start off x" "n = x"
      using Cons.prems by auto
    then show ?thesis using k_bitpos_range [OF ok, of f m ?o] by simp
  next
    case rest
    then show ?thesis using Cons.IH [of ?o] Cons.prems by auto
  qed
qed simp

lemma k_max_align_pos: "0 < k_max_align ms"
  by (induction ms) auto

locale kstruct =
  fixes ms :: kfields
  assumes members_ok: "list_all k_ok ms"
begin

text \<open>A plain member lies inside the struct, at a multiple of its alignment.\<close>

lemma member_in_bounds:
  assumes "k_member ms f = Some (Fld f t)"
  shows "k_offsetof ms f + fst t \<le> fst (k_struct_ty ms)" "snd t dvd k_offsetof ms f"
proof -
  obtain b where b: "k_bitpos 0 ms f = Some b" and e: "b + 8 * fst t \<le> k_end 0 ms"
    using k_bitpos_range [OF members_ok assms, of 0] by auto
  have d: "8 * snd t dvd b" by (rule k_bitpos_fld [OF b assms])
  have b8: "b = 8 * (b div 8)" using d by (auto simp: dvd_def)
  have "b div 8 + fst t \<le> (k_end 0 ms + 7) div 8" using e b8 by linarith
  also have "\<dots> \<le> fst (k_struct_ty ms)"
    by (simp add: k_struct_ty_def align_up_ge k_max_align_pos)
  finally show "k_offsetof ms f + fst t \<le> fst (k_struct_ty ms)" using b by (simp add: k_offsetof_def)
  from d obtain k where "b = 8 * snd t * k" by (auto simp: dvd_def)
  then show "snd t dvd k_offsetof ms f" using b by (simp add: k_offsetof_def mult.assoc)
qed

text \<open>Two plain members do not overlap.\<close>

lemma members_disjoint:
  assumes "k_member ms f = Some (Fld f t)" "k_member ms g = Some (Fld g u)" "f \<noteq> g"
  shows "k_offsetof ms f + fst t \<le> k_offsetof ms g \<or> k_offsetof ms g + fst u \<le> k_offsetof ms f"
proof -
  obtain b c where b: "k_bitpos 0 ms f = Some b" and c: "k_bitpos 0 ms g = Some c"
    using k_bitpos_range [OF members_ok assms(1), of 0] k_bitpos_range [OF members_ok assms(2), of 0] by auto
  have "8 dvd b" "8 dvd c"
    using k_bitpos_fld [OF b assms(1)] k_bitpos_fld [OF c assms(2)] by (auto simp: dvd_def)
  moreover have "b + 8 * fst t \<le> c \<or> c + 8 * fst u \<le> b"
    using k_bitpos_disjoint [OF members_ok b c assms(3,1,2)] by simp
  ultimately show ?thesis using b c by (auto simp: k_offsetof_def)
qed

end

text \<open>Without bit-fields the layout is the one of \<open>KG_Layout\<close>.\<close>

lemma align_up_8: "0 < a \<Longrightarrow> align_up (8 * off) (8 * a) = 8 * align_up off a"
proof -
  assume a: "0 < a"
  have "(8 * off + 8 * a - 1) div (8 * a) = (8 * off + 8 * a - 1) div 8 div a" by (rule div_mult2_eq)
  also have "(8 * off + 8 * a - 1) div 8 = off + a - 1" using a by linarith
  finally show ?thesis using a by (simp add: align_up_def mult.left_commute)
qed

abbreviation plain :: "cfields \<Rightarrow> kfields" where
  "plain fs \<equiv> map (\<lambda>(f, t). Fld f t) fs"

lemma k_end_plain:
  "list_all (\<lambda>(f, s, a). 0 < a) fs \<Longrightarrow> k_end (8 * off) (plain fs) = 8 * struct_end off fs"
proof (induction off fs rule: struct_end.induct)
  case (2 off f s a fs)
  have "8 * align_up off a + 8 * s = 8 * (align_up off a + s)" by simp
  then show ?case using 2 by (simp add: align_up_8 del: distrib_left distrib_left_numeral)
qed simp

lemma k_bitpos_plain:
  "list_all (\<lambda>(f, s, a). 0 < a) fs \<Longrightarrow>
   k_bitpos (8 * off) (plain fs) f = map_option (\<lambda>b. 8 * b) (map_of (offsets off fs) f)"
proof (induction off fs rule: offsets.induct)
  case (2 off g s a fs)
  have "8 * align_up off a + 8 * s = 8 * (align_up off a + s)" by simp
  then show ?case using 2 by (simp add: align_up_8 del: distrib_left distrib_left_numeral)
qed simp

lemma k_max_align_plain: "k_max_align (plain fs) = struct_align fs"
proof -
  have "fold (\<lambda>(f, s, a) m. max a m) fs m = max m (k_max_align (plain fs))" if "1 \<le> m" for m
    using that by (induction fs arbitrary: m) (auto simp: max.left_commute max.commute)
  then show ?thesis unfolding struct_align_def by (metis max_def_raw k_max_align_pos Suc_leI One_nat_def order_refl le_antisym nat_le_linear)
qed

lemma k_layout_plain:
  assumes "list_all (\<lambda>(f, s, a). 0 < a) fs"
  shows "k_struct_ty (plain fs) = c_struct_ty fs" "k_offsetof (plain fs) f = offsetof fs f"
  using k_end_plain [OF assms, of 0] k_bitpos_plain [OF assms, of 0 f]
  by (simp_all add: k_struct_ty_def c_struct_ty_def struct_size_def k_max_align_plain k_offsetof_def
      offsetof_def split: option.splits)

end
