(* ===== verification/KG_Vm_Embedded.thy ===== *)
theory KG_Vm_Embedded
  imports KG_Btf
begin

text \<open>
  \<open>bpf/include/vmlinux.h\<close>, first part: the types embedded in \<open>struct task_struct\<close>, from locks and
  list heads to scheduler entities and the saved processor state, each as the list of its members in
  declaration order. An anonymous struct or union is a member \<open>_anon1\<close>, \<open>_anon2\<close>, ...; an enum is an
  unsigned 32-bit integer. The lemma \<open>x_ty\<close> gives the size and alignment of a type \<open>x\<close>.
\<close>

named_theorems vm_ty \<open>sizes and alignments of the kernel types\<close>
named_theorems vm_end \<open>ends and alignments of the parts of a long struct\<close>

definition atomic_t_kfields :: kfields where
  "atomic_t_kfields =
     [Fld ''counter'' c_u32]"

lemma atomic_t_ty [vm_ty]: "k_struct_ty atomic_t_kfields = (4, 4)"
  by (simp add: atomic_t_kfields_def vm_ty klayout_defs flip: numeral_2_eq_2)

definition cpumask_kfields :: kfields where
  "cpumask_kfields =
     [Fld ''bits'' (c_arr 128 c_u64)]"

lemma cpumask_ty [vm_ty]: "k_struct_ty cpumask_kfields = (1024, 8)"
  by (simp add: cpumask_kfields_def vm_ty klayout_defs flip: numeral_2_eq_2)

definition kuid_t_kfields :: kfields where
  "kuid_t_kfields =
     [Fld ''val'' c_u32]"

lemma kuid_t_ty [vm_ty]: "k_struct_ty kuid_t_kfields = (4, 4)"
  by (simp add: kuid_t_kfields_def vm_ty klayout_defs flip: numeral_2_eq_2)

definition nodemask_t_kfields :: kfields where
  "nodemask_t_kfields =
     [Fld ''bits'' (c_arr 16 c_u64)]"

lemma nodemask_t_ty [vm_ty]: "k_struct_ty nodemask_t_kfields = (128, 8)"
  by (simp add: nodemask_t_kfields_def vm_ty klayout_defs flip: numeral_2_eq_2)

definition qspinlock_kfields :: kfields where
  "qspinlock_kfields =
     [Fld ''_anon1'' (k_union_ty [Fld ''val'' (k_struct_ty atomic_t_kfields),
      Fld ''_anon1'' (k_struct_ty [Fld ''locked'' c_u8, Fld ''pending'' c_u8]),
      Fld ''_anon2'' (k_struct_ty [Fld ''locked_pending'' c_u16, Fld ''tail'' c_u16])])]"

lemma qspinlock_ty [vm_ty]: "k_struct_ty qspinlock_kfields = (4, 4)"
  by (simp add: qspinlock_kfields_def vm_ty klayout_defs flip: numeral_2_eq_2)

definition raw_spinlock_kfields :: kfields where
  "raw_spinlock_kfields =
     [Fld ''raw_lock'' (k_struct_ty qspinlock_kfields)]"

lemma raw_spinlock_ty [vm_ty]: "k_struct_ty raw_spinlock_kfields = (4, 4)"
  by (simp add: raw_spinlock_kfields_def vm_ty klayout_defs flip: numeral_2_eq_2)

definition refcount_struct_kfields :: kfields where
  "refcount_struct_kfields =
     [Fld ''refs'' (k_struct_ty atomic_t_kfields)]"

lemma refcount_struct_ty [vm_ty]: "k_struct_ty refcount_struct_kfields = (4, 4)"
  by (simp add: refcount_struct_kfields_def vm_ty klayout_defs flip: numeral_2_eq_2)

definition seqcount_kfields :: kfields where
  "seqcount_kfields =
     [Fld ''sequence'' c_u32]"

lemma seqcount_ty [vm_ty]: "k_struct_ty seqcount_kfields = (4, 4)"
  by (simp add: seqcount_kfields_def vm_ty klayout_defs flip: numeral_2_eq_2)

definition seqcount_spinlock_kfields :: kfields where
  "seqcount_spinlock_kfields =
     [Fld ''seqcount'' (k_struct_ty seqcount_kfields)]"

lemma seqcount_spinlock_ty [vm_ty]: "k_struct_ty seqcount_spinlock_kfields = (4, 4)"
  by (simp add: seqcount_spinlock_kfields_def vm_ty klayout_defs flip: numeral_2_eq_2)

definition sigset_t_kfields :: kfields where
  "sigset_t_kfields =
     [Fld ''sig'' (c_arr 1 c_u64)]"

lemma sigset_t_ty [vm_ty]: "k_struct_ty sigset_t_kfields = (8, 8)"
  by (simp add: sigset_t_kfields_def vm_ty klayout_defs flip: numeral_2_eq_2)

definition spinlock_kfields :: kfields where
  "spinlock_kfields =
     [Fld ''_anon1'' (k_union_ty [Fld ''rlock'' (k_struct_ty raw_spinlock_kfields)])]"

lemma spinlock_ty [vm_ty]: "k_struct_ty spinlock_kfields = (4, 4)"
  by (simp add: spinlock_kfields_def vm_ty klayout_defs flip: numeral_2_eq_2)

definition llist_node_kfields :: kfields where
  "llist_node_kfields =
     [Fld ''next'' c_ptr]"

lemma llist_node_ty [vm_ty]: "k_struct_ty llist_node_kfields = (8, 8)"
  by (simp add: llist_node_kfields_def vm_ty klayout_defs flip: numeral_2_eq_2)

definition call_single_node_kfields :: kfields where
  "call_single_node_kfields =
     [Fld ''llist'' (k_struct_ty llist_node_kfields),
      Fld ''_anon1'' (k_union_ty [Fld ''u_flags'' c_u32,
      Fld ''a_flags'' (k_struct_ty atomic_t_kfields)]), Fld ''src'' c_u16, Fld ''dst'' c_u16]"

lemma call_single_node_ty [vm_ty]: "k_struct_ty call_single_node_kfields = (16, 8)"
  by (simp add: call_single_node_kfields_def vm_ty klayout_defs flip: numeral_2_eq_2)

definition callback_head_kfields :: kfields where
  "callback_head_kfields =
     [Fld ''next'' c_ptr, Fld ''func'' c_ptr]"

lemma callback_head_ty [vm_ty]: "k_struct_ty callback_head_kfields = (16, 8)"
  by (simp add: callback_head_kfields_def vm_ty klayout_defs flip: numeral_2_eq_2)

definition hlist_head_kfields :: kfields where
  "hlist_head_kfields =
     [Fld ''first'' c_ptr]"

lemma hlist_head_ty [vm_ty]: "k_struct_ty hlist_head_kfields = (8, 8)"
  by (simp add: hlist_head_kfields_def vm_ty klayout_defs flip: numeral_2_eq_2)

definition hlist_node_kfields :: kfields where
  "hlist_node_kfields =
     [Fld ''next'' c_ptr, Fld ''pprev'' c_ptr]"

lemma hlist_node_ty [vm_ty]: "k_struct_ty hlist_node_kfields = (16, 8)"
  by (simp add: hlist_node_kfields_def vm_ty klayout_defs flip: numeral_2_eq_2)

definition kmap_ctrl_kfields :: kfields where
  "kmap_ctrl_kfields =
     []"

lemma kmap_ctrl_ty [vm_ty]: "k_struct_ty kmap_ctrl_kfields = (0, 1)"
  by (simp add: kmap_ctrl_kfields_def vm_ty klayout_defs flip: numeral_2_eq_2)

definition latency_record_kfields :: kfields where
  "latency_record_kfields =
     [Fld ''backtrace'' (c_arr 12 c_u64), Fld ''count'' c_u32, Fld ''time'' c_u64, Fld ''max'' c_u64]"

lemma latency_record_ty [vm_ty]: "k_struct_ty latency_record_kfields = (120, 8)"
  by (simp add: latency_record_kfields_def vm_ty klayout_defs flip: numeral_2_eq_2)

definition list_head_kfields :: kfields where
  "list_head_kfields =
     [Fld ''next'' c_ptr, Fld ''prev'' c_ptr]"

lemma list_head_ty [vm_ty]: "k_struct_ty list_head_kfields = (16, 8)"
  by (simp add: list_head_kfields_def vm_ty klayout_defs flip: numeral_2_eq_2)

definition llist_head_kfields :: kfields where
  "llist_head_kfields =
     [Fld ''first'' c_ptr]"

lemma llist_head_ty [vm_ty]: "k_struct_ty llist_head_kfields = (8, 8)"
  by (simp add: llist_head_kfields_def vm_ty klayout_defs flip: numeral_2_eq_2)

definition atomic64_t_kfields :: kfields where
  "atomic64_t_kfields =
     [Fld ''counter'' c_u64]"

lemma atomic64_t_ty [vm_ty]: "k_struct_ty atomic64_t_kfields = (8, 8)"
  by (simp add: atomic64_t_kfields_def vm_ty klayout_defs flip: numeral_2_eq_2)

definition optimistic_spin_queue_kfields :: kfields where
  "optimistic_spin_queue_kfields =
     [Fld ''tail'' (k_struct_ty atomic_t_kfields)]"

lemma optimistic_spin_queue_ty [vm_ty]: "k_struct_ty optimistic_spin_queue_kfields = (4, 4)"
  by (simp add: optimistic_spin_queue_kfields_def vm_ty klayout_defs flip: numeral_2_eq_2)

definition mutex_kfields :: kfields where
  "mutex_kfields =
     [Fld ''owner'' (k_struct_ty atomic64_t_kfields),
      Fld ''wait_lock'' (k_struct_ty raw_spinlock_kfields),
      Fld ''osq'' (k_struct_ty optimistic_spin_queue_kfields),
      Fld ''wait_list'' (k_struct_ty list_head_kfields)]"

lemma mutex_ty [vm_ty]: "k_struct_ty mutex_kfields = (32, 8)"
  by (simp add: mutex_kfields_def vm_ty klayout_defs flip: numeral_2_eq_2)

definition page_frag_kfields :: kfields where
  "page_frag_kfields =
     [Fld ''page'' c_ptr, Fld ''offset'' c_u32, Fld ''size'' c_u32]"

lemma page_frag_ty [vm_ty]: "k_struct_ty page_frag_kfields = (16, 8)"
  by (simp add: page_frag_kfields_def vm_ty klayout_defs flip: numeral_2_eq_2)

definition plist_node_kfields :: kfields where
  "plist_node_kfields =
     [Fld ''prio'' c_u32, Fld ''prio_list'' (k_struct_ty list_head_kfields),
      Fld ''node_list'' (k_struct_ty list_head_kfields)]"

lemma plist_node_ty [vm_ty]: "k_struct_ty plist_node_kfields = (40, 8)"
  by (simp add: plist_node_kfields_def vm_ty klayout_defs flip: numeral_2_eq_2)

definition rb_root_kfields :: kfields where
  "rb_root_kfields =
     [Fld ''rb_node'' c_ptr]"

lemma rb_root_ty [vm_ty]: "k_struct_ty rb_root_kfields = (8, 8)"
  by (simp add: rb_root_kfields_def vm_ty klayout_defs flip: numeral_2_eq_2)

definition rb_root_cached_kfields :: kfields where
  "rb_root_cached_kfields =
     [Fld ''rb_root'' (k_struct_ty rb_root_kfields), Fld ''rb_leftmost'' c_ptr]"

lemma rb_root_cached_ty [vm_ty]: "k_struct_ty rb_root_cached_kfields = (16, 8)"
  by (simp add: rb_root_cached_kfields_def vm_ty klayout_defs flip: numeral_2_eq_2)

definition timerqueue_head_kfields :: kfields where
  "timerqueue_head_kfields =
     [Fld ''rb_root'' (k_struct_ty rb_root_cached_kfields)]"

lemma timerqueue_head_ty [vm_ty]: "k_struct_ty timerqueue_head_kfields = (16, 8)"
  by (simp add: timerqueue_head_kfields_def vm_ty klayout_defs flip: numeral_2_eq_2)

definition posix_cputimer_base_kfields :: kfields where
  "posix_cputimer_base_kfields =
     [Fld ''nextevt'' c_u64, Fld ''tqhead'' (k_struct_ty timerqueue_head_kfields)]"

lemma posix_cputimer_base_ty [vm_ty]: "k_struct_ty posix_cputimer_base_kfields = (24, 8)"
  by (simp add: posix_cputimer_base_kfields_def vm_ty klayout_defs flip: numeral_2_eq_2)

definition posix_cputimers_kfields :: kfields where
  "posix_cputimers_kfields =
     [Fld ''bases'' (c_arr 3 (k_struct_ty posix_cputimer_base_kfields)), Fld ''timers_active'' c_u32,
      Fld ''expiry_active'' c_u32]"

lemma posix_cputimers_ty [vm_ty]: "k_struct_ty posix_cputimers_kfields = (80, 8)"
  by (simp add: posix_cputimers_kfields_def vm_ty klayout_defs flip: numeral_2_eq_2)

definition posix_cputimers_work_kfields :: kfields where
  "posix_cputimers_work_kfields =
     [Fld ''work'' (k_struct_ty callback_head_kfields), Fld ''mutex'' (k_struct_ty mutex_kfields),
      Fld ''scheduled'' c_u32]"

lemma posix_cputimers_work_ty [vm_ty]: "k_struct_ty posix_cputimers_work_kfields = (56, 8)"
  by (simp add: posix_cputimers_work_kfields_def vm_ty klayout_defs flip: numeral_2_eq_2)

definition prev_cputime_kfields :: kfields where
  "prev_cputime_kfields =
     [Fld ''utime'' c_u64, Fld ''stime'' c_u64, Fld ''lock'' (k_struct_ty raw_spinlock_kfields)]"

lemma prev_cputime_ty [vm_ty]: "k_struct_ty prev_cputime_kfields = (24, 8)"
  by (simp add: prev_cputime_kfields_def vm_ty klayout_defs flip: numeral_2_eq_2)

definition rb_node_kfields :: kfields where
  "rb_node_kfields =
     [Fld ''__rb_parent_color'' c_u64, Fld ''rb_right'' c_ptr, Fld ''rb_left'' c_ptr]"

lemma rb_node_ty [vm_ty]: "k_struct_ty rb_node_kfields = (24, 8)"
  by (simp add: rb_node_kfields_def vm_ty klayout_defs flip: numeral_2_eq_2)

definition restart_block_kfields :: kfields where
  "restart_block_kfields =
     [Fld ''arch_data'' c_u64, Fld ''fn'' c_ptr,
      Fld ''_anon1'' (k_union_ty [Fld ''futex'' (k_struct_ty [Fld ''uaddr'' c_ptr, Fld ''val'' c_u32,
      Fld ''flags'' c_u32, Fld ''bitset'' c_u32, Fld ''time'' c_u64, Fld ''uaddr2'' c_ptr]),
      Fld ''nanosleep'' (k_struct_ty [Fld ''clockid'' c_u32, Fld ''type'' c_u32,
      Fld ''_anon1'' (k_union_ty [Fld ''rmtp'' c_ptr, Fld ''compat_rmtp'' c_ptr]),
      Fld ''expires'' c_u64]), Fld ''poll'' (k_struct_ty [Fld ''ufds'' c_ptr, Fld ''nfds'' c_u32,
      Fld ''has_timeout'' c_u32, Fld ''tv_sec'' c_u64, Fld ''tv_nsec'' c_u64])])]"

lemma restart_block_ty [vm_ty]: "k_struct_ty restart_block_kfields = (56, 8)"
  by (simp add: restart_block_kfields_def vm_ty klayout_defs flip: numeral_2_eq_2)

definition timerqueue_node_kfields :: kfields where
  "timerqueue_node_kfields =
     [Fld ''node'' (k_struct_ty rb_node_kfields), Fld ''expires'' c_u64]"

lemma timerqueue_node_ty [vm_ty]: "k_struct_ty timerqueue_node_kfields = (32, 8)"
  by (simp add: timerqueue_node_kfields_def vm_ty klayout_defs flip: numeral_2_eq_2)

definition hrtimer_kfields :: kfields where
  "hrtimer_kfields =
     [Fld ''node'' (k_struct_ty timerqueue_node_kfields), Fld ''_softexpires'' c_u64,
      Fld ''function'' c_ptr, Fld ''base'' c_ptr, Fld ''state'' c_u8, Fld ''is_rel'' c_u8,
      Fld ''is_soft'' c_u8, Fld ''is_hard'' c_u8]"

lemma hrtimer_ty [vm_ty]: "k_struct_ty hrtimer_kfields = (64, 8)"
  by (simp add: hrtimer_kfields_def vm_ty klayout_defs flip: numeral_2_eq_2)

definition sched_dl_entity_kfields :: kfields where
  "sched_dl_entity_kfields =
     [Fld ''rb_node'' (k_struct_ty rb_node_kfields), Fld ''dl_runtime'' c_u64,
      Fld ''dl_deadline'' c_u64, Fld ''dl_period'' c_u64, Fld ''dl_bw'' c_u64,
      Fld ''dl_density'' c_u64, Fld ''runtime'' c_u64, Fld ''deadline'' c_u64, Fld ''flags'' c_u32,
      Bits ''dl_throttled'' c_u32 1, Bits ''dl_yielded'' c_u32 1, Bits ''dl_non_contending'' c_u32 1,
      Bits ''dl_overrun'' c_u32 1, Bits ''dl_server'' c_u32 1,
      Fld ''dl_timer'' (k_struct_ty hrtimer_kfields),
      Fld ''inactive_timer'' (k_struct_ty hrtimer_kfields), Fld ''rq'' c_ptr,
      Fld ''server_has_tasks'' c_ptr, Fld ''server_pick'' c_ptr, Fld ''pi_se'' c_ptr]"

lemma sched_dl_entity_ty [vm_ty]: "k_struct_ty sched_dl_entity_kfields = (248, 8)"
  by (simp add: sched_dl_entity_kfields_def vm_ty klayout_defs flip: numeral_2_eq_2)

definition load_weight_kfields :: kfields where
  "load_weight_kfields =
     [Fld ''weight'' c_u64, Fld ''inv_weight'' c_u32]"

lemma load_weight_ty [vm_ty]: "k_struct_ty load_weight_kfields = (16, 8)"
  by (simp add: load_weight_kfields_def vm_ty klayout_defs flip: numeral_2_eq_2)

definition sched_avg_kfields :: kfields where
  "sched_avg_kfields =
     [Fld ''last_update_time'' c_u64, Fld ''load_sum'' c_u64, Fld ''runnable_sum'' c_u64,
      Fld ''util_sum'' c_u32, Fld ''period_contrib'' c_u32, Fld ''load_avg'' c_u64,
      Fld ''runnable_avg'' c_u64, Fld ''util_avg'' c_u64, Fld ''util_est'' c_u32]"

lemma sched_avg_ty [vm_ty]: "k_struct_ty sched_avg_kfields = (64, 8)"
  by (simp add: sched_avg_kfields_def vm_ty klayout_defs flip: numeral_2_eq_2)

definition sched_entity_kfields :: kfields where
  "sched_entity_kfields =
     [Fld ''load'' (k_struct_ty load_weight_kfields), Fld ''run_node'' (k_struct_ty rb_node_kfields),
      Fld ''deadline'' c_u64, Fld ''min_vruntime'' c_u64,
      Fld ''group_node'' (k_struct_ty list_head_kfields), Fld ''on_rq'' c_u32,
      Fld ''exec_start'' c_u64, Fld ''sum_exec_runtime'' c_u64, Fld ''prev_sum_exec_runtime'' c_u64,
      Fld ''vruntime'' c_u64, Fld ''vlag'' c_u64, Fld ''slice'' c_u64, Fld ''nr_migrations'' c_u64,
      Fld ''depth'' c_u32, Fld ''parent'' c_ptr, Fld ''cfs_rq'' c_ptr, Fld ''my_q'' c_ptr,
      Fld ''runnable_weight'' c_u64, Bits '''' c_u64 64, Bits '''' c_u64 64,
      Fld ''avg'' (k_struct_ty sched_avg_kfields)]"

lemma sched_entity_ty [vm_ty]: "k_struct_ty sched_entity_kfields = (256, 8)"
  by (simp add: sched_entity_kfields_def vm_ty klayout_defs flip: numeral_2_eq_2)

definition sched_info_kfields :: kfields where
  "sched_info_kfields =
     [Fld ''pcount'' c_u64, Fld ''run_delay'' c_u64, Fld ''last_arrival'' c_u64,
      Fld ''last_queued'' c_u64]"

lemma sched_info_ty [vm_ty]: "k_struct_ty sched_info_kfields = (32, 8)"
  by (simp add: sched_info_kfields_def vm_ty klayout_defs flip: numeral_2_eq_2)

definition sched_rt_entity_kfields :: kfields where
  "sched_rt_entity_kfields =
     [Fld ''run_list'' (k_struct_ty list_head_kfields), Fld ''timeout'' c_u64,
      Fld ''watchdog_stamp'' c_u64, Fld ''time_slice'' c_u32, Fld ''on_rq'' c_u16,
      Fld ''on_list'' c_u16, Fld ''back'' c_ptr]"

lemma sched_rt_entity_ty [vm_ty]: "k_struct_ty sched_rt_entity_kfields = (48, 8)"
  by (simp add: sched_rt_entity_kfields_def vm_ty klayout_defs flip: numeral_2_eq_2)

definition sched_statistics_kfields :: kfields where
  "sched_statistics_kfields =
     [Fld ''wait_start'' c_u64, Fld ''wait_max'' c_u64, Fld ''wait_count'' c_u64,
      Fld ''wait_sum'' c_u64, Fld ''iowait_count'' c_u64, Fld ''iowait_sum'' c_u64,
      Fld ''sleep_start'' c_u64, Fld ''sleep_max'' c_u64, Fld ''sum_sleep_runtime'' c_u64,
      Fld ''block_start'' c_u64, Fld ''block_max'' c_u64, Fld ''sum_block_runtime'' c_u64,
      Fld ''exec_max'' c_u64, Fld ''slice_max'' c_u64, Fld ''nr_migrations_cold'' c_u64,
      Fld ''nr_failed_migrations_affine'' c_u64, Fld ''nr_failed_migrations_running'' c_u64,
      Fld ''nr_failed_migrations_hot'' c_u64, Fld ''nr_forced_migrations'' c_u64,
      Fld ''nr_wakeups'' c_u64, Fld ''nr_wakeups_sync'' c_u64, Fld ''nr_wakeups_migrate'' c_u64,
      Fld ''nr_wakeups_local'' c_u64, Fld ''nr_wakeups_remote'' c_u64,
      Fld ''nr_wakeups_affine'' c_u64, Fld ''nr_wakeups_affine_attempts'' c_u64,
      Fld ''nr_wakeups_passive'' c_u64, Fld ''nr_wakeups_idle'' c_u64,
      Fld ''core_forceidle_sum'' c_u64, Bits '''' c_u64 64, Bits '''' c_u64 64, Bits '''' c_u64 64]"

lemma sched_statistics_ty [vm_ty]: "k_struct_ty sched_statistics_kfields = (256, 8)"
  by (simp add: sched_statistics_kfields_def vm_ty klayout_defs flip: numeral_2_eq_2)

definition seccomp_kfields :: kfields where
  "seccomp_kfields =
     [Fld ''mode'' c_u32, Fld ''filter_count'' (k_struct_ty atomic_t_kfields), Fld ''filter'' c_ptr]"

lemma seccomp_ty [vm_ty]: "k_struct_ty seccomp_kfields = (16, 8)"
  by (simp add: seccomp_kfields_def vm_ty klayout_defs flip: numeral_2_eq_2)

definition sigpending_kfields :: kfields where
  "sigpending_kfields =
     [Fld ''list'' (k_struct_ty list_head_kfields), Fld ''signal'' (k_struct_ty sigset_t_kfields)]"

lemma sigpending_ty [vm_ty]: "k_struct_ty sigpending_kfields = (24, 8)"
  by (simp add: sigpending_kfields_def vm_ty klayout_defs flip: numeral_2_eq_2)

definition syscall_user_dispatch_kfields :: kfields where
  "syscall_user_dispatch_kfields =
     [Fld ''selector'' c_ptr, Fld ''offset'' c_u64, Fld ''len'' c_u64, Fld ''on_dispatch'' c_u8]"

lemma syscall_user_dispatch_ty [vm_ty]: "k_struct_ty syscall_user_dispatch_kfields = (32, 8)"
  by (simp add: syscall_user_dispatch_kfields_def vm_ty klayout_defs flip: numeral_2_eq_2)

definition sysv_sem_kfields :: kfields where
  "sysv_sem_kfields =
     [Fld ''undo_list'' c_ptr]"

lemma sysv_sem_ty [vm_ty]: "k_struct_ty sysv_sem_kfields = (8, 8)"
  by (simp add: sysv_sem_kfields_def vm_ty klayout_defs flip: numeral_2_eq_2)

definition sysv_shm_kfields :: kfields where
  "sysv_shm_kfields =
     [Fld ''shm_clist'' (k_struct_ty list_head_kfields)]"

lemma sysv_shm_ty [vm_ty]: "k_struct_ty sysv_shm_kfields = (16, 8)"
  by (simp add: sysv_shm_kfields_def vm_ty klayout_defs flip: numeral_2_eq_2)

definition task_io_accounting_kfields :: kfields where
  "task_io_accounting_kfields =
     [Fld ''rchar'' c_u64, Fld ''wchar'' c_u64, Fld ''syscr'' c_u64, Fld ''syscw'' c_u64,
      Fld ''read_bytes'' c_u64, Fld ''write_bytes'' c_u64, Fld ''cancelled_write_bytes'' c_u64]"

lemma task_io_accounting_ty [vm_ty]: "k_struct_ty task_io_accounting_kfields = (56, 8)"
  by (simp add: task_io_accounting_kfields_def vm_ty klayout_defs flip: numeral_2_eq_2)

definition thread_info_kfields :: kfields where
  "thread_info_kfields =
     [Fld ''flags'' c_u64, Fld ''syscall_work'' c_u64, Fld ''status'' c_u32, Fld ''cpu'' c_u32]"

lemma thread_info_ty [vm_ty]: "k_struct_ty thread_info_kfields = (24, 8)"
  by (simp add: thread_info_kfields_def vm_ty klayout_defs flip: numeral_2_eq_2)

definition desc_struct_kfields :: kfields where
  "desc_struct_kfields =
     [Fld ''limit0'' c_u16, Fld ''base0'' c_u16, Bits ''base1'' c_u16 8, Bits ''type'' c_u16 4,
      Bits ''s'' c_u16 1, Bits ''dpl'' c_u16 2, Bits ''p'' c_u16 1, Bits ''limit1'' c_u16 4,
      Bits ''avl'' c_u16 1, Bits ''l'' c_u16 1, Bits ''d'' c_u16 1, Bits ''g'' c_u16 1,
      Bits ''base2'' c_u16 8]"

lemma desc_struct_ty [vm_ty]: "k_struct_ty desc_struct_kfields = (8, 2)"
  by (simp add: desc_struct_kfields_def vm_ty klayout_defs flip: numeral_2_eq_2)

definition fregs_state_kfields :: kfields where
  "fregs_state_kfields =
     [Fld ''cwd'' c_u32, Fld ''swd'' c_u32, Fld ''twd'' c_u32, Fld ''fip'' c_u32, Fld ''fcs'' c_u32,
      Fld ''foo'' c_u32, Fld ''fos'' c_u32, Fld ''st_space'' (c_arr 20 c_u32), Fld ''status'' c_u32]"

lemma fregs_state_ty [vm_ty]: "k_struct_ty fregs_state_kfields = (112, 4)"
  by (simp add: fregs_state_kfields_def vm_ty klayout_defs flip: numeral_2_eq_2)

definition fxregs_state_kfields :: kfields where
  "fxregs_state_kfields =
     [Fld ''cwd'' c_u16, Fld ''swd'' c_u16, Fld ''twd'' c_u16, Fld ''fop'' c_u16,
      Fld ''_anon1'' (k_union_ty [Fld ''_anon1'' (k_struct_ty [Fld ''rip'' c_u64,
      Fld ''rdp'' c_u64]), Fld ''_anon2'' (k_struct_ty [Fld ''fip'' c_u32, Fld ''fcs'' c_u32,
      Fld ''foo'' c_u32, Fld ''fos'' c_u32])]), Fld ''mxcsr'' c_u32, Fld ''mxcsr_mask'' c_u32,
      Fld ''st_space'' (c_arr 32 c_u32), Fld ''xmm_space'' (c_arr 64 c_u32),
      Fld ''padding'' (c_arr 12 c_u32),
      Fld ''_anon2'' (k_union_ty [Fld ''padding1'' (c_arr 12 c_u32),
      Fld ''sw_reserved'' (c_arr 12 c_u32)])]"

lemma fxregs_state_ty [vm_ty]: "k_struct_ty fxregs_state_kfields = (512, 8)"
  by (simp add: fxregs_state_kfields_def vm_ty klayout_defs flip: numeral_2_eq_2)

definition swregs_state_kfields :: kfields where
  "swregs_state_kfields =
     [Fld ''cwd'' c_u32, Fld ''swd'' c_u32, Fld ''twd'' c_u32, Fld ''fip'' c_u32, Fld ''fcs'' c_u32,
      Fld ''foo'' c_u32, Fld ''fos'' c_u32, Fld ''st_space'' (c_arr 20 c_u32), Fld ''ftop'' c_u8,
      Fld ''changed'' c_u8, Fld ''lookahead'' c_u8, Fld ''no_update'' c_u8, Fld ''rm'' c_u8,
      Fld ''alimit'' c_u8, Fld ''info'' c_ptr, Fld ''entry_eip'' c_u32]"

lemma swregs_state_ty [vm_ty]: "k_struct_ty swregs_state_kfields = (136, 8)"
  by (simp add: swregs_state_kfields_def vm_ty klayout_defs flip: numeral_2_eq_2)

definition xstate_header_kfields :: kfields where
  "xstate_header_kfields =
     [Fld ''xfeatures'' c_u64, Fld ''xcomp_bv'' c_u64, Fld ''reserved'' (c_arr 6 c_u64)]"

lemma xstate_header_ty [vm_ty]: "k_struct_ty xstate_header_kfields = (64, 8)"
  by (simp add: xstate_header_kfields_def vm_ty klayout_defs flip: numeral_2_eq_2)

definition xregs_state_kfields :: kfields where
  "xregs_state_kfields =
     [Fld ''i387'' (k_struct_ty fxregs_state_kfields),
      Fld ''header'' (k_struct_ty xstate_header_kfields), Fld ''extended_state_area'' (c_arr 0 c_u8)]"

lemma xregs_state_ty [vm_ty]: "k_struct_ty xregs_state_kfields = (576, 8)"
  by (simp add: xregs_state_kfields_def vm_ty klayout_defs flip: numeral_2_eq_2)

definition fpregs_state_kfields :: kfields where
  "fpregs_state_kfields =
     [Fld ''fsave'' (k_struct_ty fregs_state_kfields),
      Fld ''fxsave'' (k_struct_ty fxregs_state_kfields),
      Fld ''soft'' (k_struct_ty swregs_state_kfields),
      Fld ''xsave'' (k_struct_ty xregs_state_kfields), Fld ''__padding'' (c_arr 4096 c_u8)]"

lemma fpregs_state_ty [vm_ty]: "k_union_ty fpregs_state_kfields = (4096, 8)"
  by (simp add: fpregs_state_kfields_def vm_ty klayout_defs flip: numeral_2_eq_2)

definition fpstate_kfields :: kfields where
  "fpstate_kfields =
     [Fld ''size'' c_u32, Fld ''user_size'' c_u32, Fld ''xfeatures'' c_u64,
      Fld ''user_xfeatures'' c_u64, Fld ''xfd'' c_u64, Bits ''is_valloc'' c_u32 1,
      Bits ''is_guest'' c_u32 1, Bits ''is_confidential'' c_u32 1, Bits ''in_use'' c_u32 1,
      Bits '''' c_u64 64, Bits '''' c_u64 64, Bits '''' c_u64 64,
      Fld ''regs'' (k_union_ty fpregs_state_kfields)]"

lemma fpstate_ty [vm_ty]: "k_struct_ty fpstate_kfields = (4160, 8)"
  by (simp add: fpstate_kfields_def vm_ty klayout_defs flip: numeral_2_eq_2)

definition fpu_state_perm_kfields :: kfields where
  "fpu_state_perm_kfields =
     [Fld ''__state_perm'' c_u64, Fld ''__state_size'' c_u32, Fld ''__user_state_size'' c_u32]"

lemma fpu_state_perm_ty [vm_ty]: "k_struct_ty fpu_state_perm_kfields = (16, 8)"
  by (simp add: fpu_state_perm_kfields_def vm_ty klayout_defs flip: numeral_2_eq_2)

definition fpu_kfields :: kfields where
  "fpu_kfields =
     [Fld ''last_cpu'' c_u32, Fld ''avx512_timestamp'' c_u64, Fld ''fpstate'' c_ptr,
      Fld ''__task_fpstate'' c_ptr, Fld ''perm'' (k_struct_ty fpu_state_perm_kfields),
      Fld ''guest_perm'' (k_struct_ty fpu_state_perm_kfields),
      Fld ''__fpstate'' (k_struct_ty fpstate_kfields)]"

lemma fpu_ty [vm_ty]: "k_struct_ty fpu_kfields = (4224, 8)"
  by (simp add: fpu_kfields_def vm_ty klayout_defs flip: numeral_2_eq_2)

definition thread_shstk_kfields :: kfields where
  "thread_shstk_kfields =
     [Fld ''base'' c_u64, Fld ''size'' c_u64]"

lemma thread_shstk_ty [vm_ty]: "k_struct_ty thread_shstk_kfields = (16, 8)"
  by (simp add: thread_shstk_kfields_def vm_ty klayout_defs flip: numeral_2_eq_2)

definition thread_struct_kfields :: kfields where
  "thread_struct_kfields =
     [Fld ''tls_array'' (c_arr 3 (k_struct_ty desc_struct_kfields)), Fld ''sp'' c_u64,
      Fld ''es'' c_u16, Fld ''ds'' c_u16, Fld ''fsindex'' c_u16, Fld ''gsindex'' c_u16,
      Fld ''fsbase'' c_u64, Fld ''gsbase'' c_u64, Fld ''ptrace_bps'' (c_arr 4 c_ptr),
      Fld ''virtual_dr6'' c_u64, Fld ''ptrace_dr7'' c_u64, Fld ''cr2'' c_u64, Fld ''trap_nr'' c_u64,
      Fld ''error_code'' c_u64, Fld ''io_bitmap'' c_ptr, Fld ''iopl_emul'' c_u64,
      Bits ''iopl_warn'' c_u32 1, Fld ''pkru'' c_u32, Fld ''features'' c_u64,
      Fld ''features_locked'' c_u64, Fld ''shstk'' (k_struct_ty thread_shstk_kfields),
      Bits '''' c_u64 64, Fld ''fpu'' (k_struct_ty fpu_kfields)]"

lemma thread_struct_ty [vm_ty]: "k_struct_ty thread_struct_kfields = (4416, 8)"
  by (simp add: thread_struct_kfields_def vm_ty klayout_defs flip: numeral_2_eq_2)

definition timer_list_kfields :: kfields where
  "timer_list_kfields =
     [Fld ''entry'' (k_struct_ty hlist_node_kfields), Fld ''expires'' c_u64, Fld ''function'' c_ptr,
      Fld ''flags'' c_u32]"

lemma timer_list_ty [vm_ty]: "k_struct_ty timer_list_kfields = (40, 8)"
  by (simp add: timer_list_kfields_def vm_ty klayout_defs flip: numeral_2_eq_2)

definition arch_tlbflush_unmap_batch_kfields :: kfields where
  "arch_tlbflush_unmap_batch_kfields =
     [Fld ''cpumask'' (k_struct_ty cpumask_kfields)]"

lemma arch_tlbflush_unmap_batch_ty [vm_ty]: "k_struct_ty arch_tlbflush_unmap_batch_kfields = (1024, 8)"
  by (simp add: arch_tlbflush_unmap_batch_kfields_def vm_ty klayout_defs flip: numeral_2_eq_2)

definition tlbflush_unmap_batch_kfields :: kfields where
  "tlbflush_unmap_batch_kfields =
     [Fld ''arch'' (k_struct_ty arch_tlbflush_unmap_batch_kfields), Fld ''flush_required'' c_u8,
      Fld ''writable'' c_u8]"

lemma tlbflush_unmap_batch_ty [vm_ty]: "k_struct_ty tlbflush_unmap_batch_kfields = (1032, 8)"
  by (simp add: tlbflush_unmap_batch_kfields_def vm_ty klayout_defs flip: numeral_2_eq_2)

definition uclamp_se_kfields :: kfields where
  "uclamp_se_kfields =
     [Bits ''value'' c_u32 11, Bits ''bucket_id'' c_u32 3, Bits ''active'' c_u32 1,
      Bits ''user_defined'' c_u32 1]"

lemma uclamp_se_ty [vm_ty]: "k_struct_ty uclamp_se_kfields = (4, 4)"
  by (simp add: uclamp_se_kfields_def vm_ty klayout_defs flip: numeral_2_eq_2)

definition vtime_kfields :: kfields where
  "vtime_kfields =
     [Fld ''seqcount'' (k_struct_ty seqcount_kfields), Fld ''starttime'' c_u64, Fld ''state'' c_u32,
      Fld ''cpu'' c_u32, Fld ''utime'' c_u64, Fld ''stime'' c_u64, Fld ''gtime'' c_u64]"

lemma vtime_ty [vm_ty]: "k_struct_ty vtime_kfields = (48, 8)"
  by (simp add: vtime_kfields_def vm_ty klayout_defs flip: numeral_2_eq_2)

definition wake_q_node_kfields :: kfields where
  "wake_q_node_kfields =
     [Fld ''next'' c_ptr]"

lemma wake_q_node_ty [vm_ty]: "k_struct_ty wake_q_node_kfields = (8, 8)"
  by (simp add: wake_q_node_kfields_def vm_ty klayout_defs flip: numeral_2_eq_2)

definition rcu_special_kfields :: kfields where
  "rcu_special_kfields =
     [Fld ''b'' (k_struct_ty [Fld ''blocked'' c_u8, Fld ''need_qs'' c_u8, Fld ''exp_hint'' c_u8,
      Fld ''need_mb'' c_u8]), Fld ''s'' c_u32]"

lemma rcu_special_ty [vm_ty]: "k_union_ty rcu_special_kfields = (4, 4)"
  by (simp add: rcu_special_kfields_def vm_ty klayout_defs flip: numeral_2_eq_2)

definition da_monitor_kfields :: kfields where
  "da_monitor_kfields =
     [Fld ''monitoring'' c_u8, Fld ''curr_state'' c_u32]"

lemma da_monitor_ty [vm_ty]: "k_struct_ty da_monitor_kfields = (8, 4)"
  by (simp add: da_monitor_kfields_def vm_ty klayout_defs flip: numeral_2_eq_2)

definition rv_task_monitor_kfields :: kfields where
  "rv_task_monitor_kfields =
     [Fld ''da_mon'' (k_struct_ty da_monitor_kfields)]"

lemma rv_task_monitor_ty [vm_ty]: "k_union_ty rv_task_monitor_kfields = (8, 4)"
  by (simp add: rv_task_monitor_kfields_def vm_ty klayout_defs flip: numeral_2_eq_2)

end
