(* ===== verification/KG_Vmlinux.thy ===== *)
theory KG_Vmlinux
  imports KG_Vm_Embedded
begin

text \<open>
  \<open>bpf/include/vmlinux.h\<close>, second part: the kernel structs the sensors read (\<open>task_struct\<close>,
  \<open>mm_struct\<close>, \<open>file\<close>, \<open>inode\<close>, \<open>super_block\<close>, \<open>dentry\<close>, \<open>linux_binprm\<close>, \<open>cred\<close>, the namespace and
  descriptor tables), the arguments of the bpf system call, the tracepoint and packet records, and
  the types embedded in them. Conventions as in \<open>KG_Vm_Embedded\<close>; an anonymous struct whose members
  are read directly has a definition of its own.
\<close>

definition task_struct_kfields_a :: kfields where
  "task_struct_kfields_a =
     [Fld ''thread_info'' (k_struct_ty thread_info_kfields), Fld ''__state'' c_u32,
      Fld ''saved_state'' c_u32, Fld ''stack'' c_ptr,
      Fld ''usage'' (k_struct_ty refcount_struct_kfields), Fld ''flags'' c_u32, Fld ''ptrace'' c_u32,
      Fld ''on_cpu'' c_u32, Fld ''wake_entry'' (k_struct_ty call_single_node_kfields),
      Fld ''wakee_flips'' c_u32, Fld ''wakee_flip_decay_ts'' c_u64, Fld ''last_wakee'' c_ptr,
      Fld ''recent_used_cpu'' c_u32, Fld ''wake_cpu'' c_u32, Fld ''on_rq'' c_u32, Fld ''prio'' c_u32,
      Fld ''static_prio'' c_u32, Fld ''normal_prio'' c_u32, Fld ''rt_priority'' c_u32,
      Fld ''se'' (k_struct_ty sched_entity_kfields),
      Fld ''rt'' (k_struct_ty sched_rt_entity_kfields),
      Fld ''dl'' (k_struct_ty sched_dl_entity_kfields), Fld ''dl_server'' c_ptr,
      Fld ''sched_class'' c_ptr, Fld ''core_node'' (k_struct_ty rb_node_kfields),
      Fld ''core_cookie'' c_u64, Fld ''core_occupation'' c_u32, Fld ''sched_task_group'' c_ptr,
      Fld ''uclamp_req'' (c_arr 2 (k_struct_ty uclamp_se_kfields)),
      Fld ''uclamp'' (c_arr 2 (k_struct_ty uclamp_se_kfields)), Bits '''' c_u64 64,
      Fld ''stats'' (k_struct_ty sched_statistics_kfields),
      Fld ''preempt_notifiers'' (k_struct_ty hlist_head_kfields), Fld ''btrace_seq'' c_u32,
      Fld ''policy'' c_u32, Fld ''nr_cpus_allowed'' c_u32, Fld ''cpus_ptr'' c_ptr,
      Fld ''user_cpus_ptr'' c_ptr, Fld ''cpus_mask'' (k_struct_ty cpumask_kfields),
      Fld ''migration_pending'' c_ptr]"

lemma task_struct_kfields_a_end [vm_end]: "k_end 0 task_struct_kfields_a = 16768"
  by (simp add: task_struct_kfields_a_def vm_ty klayout_defs flip: numeral_2_eq_2)

definition task_struct_kfields_b :: kfields where
  "task_struct_kfields_b =
     [Fld ''migration_disabled'' c_u16, Fld ''migration_flags'' c_u16,
      Fld ''rcu_read_lock_nesting'' c_u32,
      Fld ''rcu_read_unlock_special'' (k_union_ty rcu_special_kfields),
      Fld ''rcu_node_entry'' (k_struct_ty list_head_kfields), Fld ''rcu_blocked_node'' c_ptr,
      Fld ''rcu_tasks_nvcsw'' c_u64, Fld ''rcu_tasks_holdout'' c_u8, Fld ''rcu_tasks_idx'' c_u8,
      Fld ''rcu_tasks_idle_cpu'' c_u32,
      Fld ''rcu_tasks_holdout_list'' (k_struct_ty list_head_kfields),
      Fld ''rcu_tasks_exit_cpu'' c_u32, Fld ''rcu_tasks_exit_list'' (k_struct_ty list_head_kfields),
      Fld ''trc_reader_nesting'' c_u32, Fld ''trc_ipi_to_cpu'' c_u32,
      Fld ''trc_reader_special'' (k_union_ty rcu_special_kfields),
      Fld ''trc_holdout_list'' (k_struct_ty list_head_kfields),
      Fld ''trc_blkd_node'' (k_struct_ty list_head_kfields), Fld ''trc_blkd_cpu'' c_u32,
      Fld ''sched_info'' (k_struct_ty sched_info_kfields),
      Fld ''tasks'' (k_struct_ty list_head_kfields),
      Fld ''pushable_tasks'' (k_struct_ty plist_node_kfields),
      Fld ''pushable_dl_tasks'' (k_struct_ty rb_node_kfields), Fld ''mm'' c_ptr,
      Fld ''active_mm'' c_ptr, Fld ''faults_disabled_mapping'' c_ptr, Fld ''exit_state'' c_u32,
      Fld ''exit_code'' c_u32, Fld ''exit_signal'' c_u32, Fld ''pdeath_signal'' c_u32,
      Fld ''jobctl'' c_u64, Fld ''personality'' c_u32, Bits ''sched_reset_on_fork'' c_u32 1,
      Bits ''sched_contributes_to_load'' c_u32 1, Bits ''sched_migrated'' c_u32 1,
      Bits ''sched_task_hot'' c_u32 1, Bits '''' c_u64 28, Bits ''sched_remote_wakeup'' c_u32 1,
      Bits ''sched_rt_mutex'' c_u32 1, Bits ''in_execve'' c_u32 1]"

lemma task_struct_kfields_b_end [vm_end]: "k_end 16768 task_struct_kfields_b = 19331"
  by (simp add: task_struct_kfields_b_def vm_ty klayout_defs flip: numeral_2_eq_2)

definition task_struct_kfields_c :: kfields where
  "task_struct_kfields_c =
     [Bits ''in_iowait'' c_u32 1, Bits ''restore_sigmask'' c_u32 1, Bits ''in_user_fault'' c_u32 1,
      Bits ''in_lru_fault'' c_u32 1, Bits ''no_cgroup_migration'' c_u32 1, Bits ''frozen'' c_u32 1,
      Bits ''use_memdelay'' c_u32 1, Bits ''in_memstall'' c_u32 1, Bits ''in_eventfd'' c_u32 1,
      Bits ''pasid_activated'' c_u32 1, Bits ''reported_split_lock'' c_u32 1,
      Bits ''in_thrashing'' c_u32 1, Fld ''atomic_flags'' c_u64,
      Fld ''restart_block'' (k_struct_ty restart_block_kfields), Fld ''pid'' c_u32,
      Fld ''tgid'' c_u32, Fld ''stack_canary'' c_u64, Fld ''real_parent'' c_ptr,
      Fld ''parent'' c_ptr, Fld ''children'' (k_struct_ty list_head_kfields),
      Fld ''sibling'' (k_struct_ty list_head_kfields), Fld ''group_leader'' c_ptr,
      Fld ''ptraced'' (k_struct_ty list_head_kfields),
      Fld ''ptrace_entry'' (k_struct_ty list_head_kfields), Fld ''thread_pid'' c_ptr,
      Fld ''pid_links'' (c_arr 4 (k_struct_ty hlist_node_kfields)),
      Fld ''thread_node'' (k_struct_ty list_head_kfields), Fld ''vfork_done'' c_ptr,
      Fld ''set_child_tid'' c_ptr, Fld ''clear_child_tid'' c_ptr, Fld ''worker_private'' c_ptr,
      Fld ''utime'' c_u64, Fld ''stime'' c_u64, Fld ''gtime'' c_u64,
      Fld ''prev_cputime'' (k_struct_ty prev_cputime_kfields),
      Fld ''vtime'' (k_struct_ty vtime_kfields),
      Fld ''tick_dep_mask'' (k_struct_ty atomic_t_kfields), Fld ''nvcsw'' c_u64,
      Fld ''nivcsw'' c_u64, Fld ''start_time'' c_u64, Fld ''start_boottime'' c_u64,
      Fld ''min_flt'' c_u64]"

lemma task_struct_kfields_c_end [vm_end]: "k_end 19331 task_struct_kfields_c = 22848"
  by (simp add: task_struct_kfields_c_def vm_ty klayout_defs flip: numeral_2_eq_2)

definition task_struct_kfields_d :: kfields where
  "task_struct_kfields_d =
     [Fld ''maj_flt'' c_u64, Fld ''posix_cputimers'' (k_struct_ty posix_cputimers_kfields),
      Fld ''posix_cputimers_work'' (k_struct_ty posix_cputimers_work_kfields),
      Fld ''ptracer_cred'' c_ptr, Fld ''real_cred'' c_ptr, Fld ''cred'' c_ptr,
      Fld ''cached_requested_key'' c_ptr, Fld ''comm'' (c_arr 16 c_u8), Fld ''nameidata'' c_ptr,
      Fld ''sysvsem'' (k_struct_ty sysv_sem_kfields), Fld ''sysvshm'' (k_struct_ty sysv_shm_kfields),
      Fld ''last_switch_count'' c_u64, Fld ''last_switch_time'' c_u64, Fld ''fs'' c_ptr,
      Fld ''files'' c_ptr, Fld ''io_uring'' c_ptr, Fld ''nsproxy'' c_ptr, Fld ''signal'' c_ptr,
      Fld ''sighand'' c_ptr, Fld ''blocked'' (k_struct_ty sigset_t_kfields),
      Fld ''real_blocked'' (k_struct_ty sigset_t_kfields),
      Fld ''saved_sigmask'' (k_struct_ty sigset_t_kfields),
      Fld ''pending'' (k_struct_ty sigpending_kfields), Fld ''sas_ss_sp'' c_u64,
      Fld ''sas_ss_size'' c_u64, Fld ''sas_ss_flags'' c_u32, Fld ''task_works'' c_ptr,
      Fld ''audit_context'' c_ptr, Fld ''loginuid'' (k_struct_ty kuid_t_kfields),
      Fld ''sessionid'' c_u32, Fld ''seccomp'' (k_struct_ty seccomp_kfields),
      Fld ''syscall_dispatch'' (k_struct_ty syscall_user_dispatch_kfields),
      Fld ''parent_exec_id'' c_u64, Fld ''self_exec_id'' c_u64,
      Fld ''alloc_lock'' (k_struct_ty spinlock_kfields),
      Fld ''pi_lock'' (k_struct_ty raw_spinlock_kfields),
      Fld ''wake_q'' (k_struct_ty wake_q_node_kfields),
      Fld ''pi_waiters'' (k_struct_ty rb_root_cached_kfields), Fld ''pi_top_task'' c_ptr,
      Fld ''pi_blocked_on'' c_ptr]"

lemma task_struct_kfields_d_end [vm_end]: "k_end 22848 task_struct_kfields_d = 26816"
  by (simp add: task_struct_kfields_d_def vm_ty klayout_defs flip: numeral_2_eq_2)

definition task_struct_kfields_e :: kfields where
  "task_struct_kfields_e =
     [Fld ''in_ubsan'' c_u32, Fld ''journal_info'' c_ptr, Fld ''bio_list'' c_ptr, Fld ''plug'' c_ptr,
      Fld ''reclaim_state'' c_ptr, Fld ''io_context'' c_ptr, Fld ''capture_control'' c_ptr,
      Fld ''ptrace_message'' c_u64, Fld ''last_siginfo'' c_ptr,
      Fld ''ioac'' (k_struct_ty task_io_accounting_kfields), Fld ''psi_flags'' c_u32,
      Fld ''acct_rss_mem1'' c_u64, Fld ''acct_vm_mem1'' c_u64, Fld ''acct_timexpd'' c_u64,
      Fld ''mems_allowed'' (k_struct_ty nodemask_t_kfields),
      Fld ''mems_allowed_seq'' (k_struct_ty seqcount_spinlock_kfields),
      Fld ''cpuset_mem_spread_rotor'' c_u32, Fld ''cpuset_slab_spread_rotor'' c_u32,
      Fld ''cgroups'' c_ptr, Fld ''cg_list'' (k_struct_ty list_head_kfields), Fld ''closid'' c_u32,
      Fld ''rmid'' c_u32, Fld ''robust_list'' c_ptr, Fld ''compat_robust_list'' c_ptr,
      Fld ''pi_state_list'' (k_struct_ty list_head_kfields), Fld ''pi_state_cache'' c_ptr,
      Fld ''futex_exit_mutex'' (k_struct_ty mutex_kfields), Fld ''futex_state'' c_u32,
      Fld ''perf_event_ctxp'' c_ptr, Fld ''perf_event_mutex'' (k_struct_ty mutex_kfields),
      Fld ''perf_event_list'' (k_struct_ty list_head_kfields), Fld ''mempolicy'' c_ptr,
      Fld ''il_prev'' c_u16, Fld ''pref_node_fork'' c_u16, Fld ''numa_scan_seq'' c_u32,
      Fld ''numa_scan_period'' c_u32, Fld ''numa_scan_period_max'' c_u32,
      Fld ''numa_preferred_nid'' c_u32, Fld ''numa_migrate_retry'' c_u64, Fld ''node_stamp'' c_u64]"

lemma task_struct_kfields_e_end [vm_end]: "k_end 26816 task_struct_kfields_e = 30976"
  by (simp add: task_struct_kfields_e_def vm_ty klayout_defs flip: numeral_2_eq_2)

definition task_struct_kfields_f :: kfields where
  "task_struct_kfields_f =
     [Fld ''last_task_numa_placement'' c_u64, Fld ''last_sum_exec_runtime'' c_u64,
      Fld ''numa_work'' (k_struct_ty callback_head_kfields), Fld ''numa_group'' c_ptr,
      Fld ''numa_faults'' c_ptr, Fld ''total_numa_faults'' c_u64,
      Fld ''numa_faults_locality'' (c_arr 3 c_u64), Fld ''numa_pages_migrated'' c_u64,
      Fld ''rseq'' c_ptr, Fld ''rseq_len'' c_u32, Fld ''rseq_sig'' c_u32,
      Fld ''rseq_event_mask'' c_u64, Fld ''mm_cid'' c_u32, Fld ''last_mm_cid'' c_u32,
      Fld ''migrate_from_cpu'' c_u32, Fld ''mm_cid_active'' c_u32,
      Fld ''cid_work'' (k_struct_ty callback_head_kfields),
      Fld ''tlb_ubc'' (k_struct_ty tlbflush_unmap_batch_kfields), Fld ''splice_pipe'' c_ptr,
      Fld ''task_frag'' (k_struct_ty page_frag_kfields), Fld ''delays'' c_ptr,
      Fld ''nr_dirtied'' c_u32, Fld ''nr_dirtied_pause'' c_u32, Fld ''dirty_paused_when'' c_u64,
      Fld ''latency_record_count'' c_u32,
      Fld ''latency_record'' (c_arr 32 (k_struct_ty latency_record_kfields)),
      Fld ''timer_slack_ns'' c_u64, Fld ''default_timer_slack_ns'' c_u64,
      Fld ''curr_ret_stack'' c_u32, Fld ''curr_ret_depth'' c_u32, Fld ''ret_stack'' c_ptr,
      Fld ''ftrace_timestamp'' c_u64, Fld ''trace_overrun'' (k_struct_ty atomic_t_kfields),
      Fld ''tracing_graph_pause'' (k_struct_ty atomic_t_kfields), Fld ''trace_recursion'' c_u64,
      Fld ''memcg_in_oom'' c_ptr]"

lemma task_struct_kfields_f_end [vm_end]: "k_end 30976 task_struct_kfields_f = 72064"
  by (simp add: task_struct_kfields_f_def vm_ty klayout_defs flip: numeral_2_eq_2)

definition task_struct_kfields_g :: kfields where
  "task_struct_kfields_g =
     [Fld ''memcg_oom_gfp_mask'' c_u32, Fld ''memcg_oom_order'' c_u32,
      Fld ''memcg_nr_pages_over_high'' c_u32, Fld ''active_memcg'' c_ptr, Fld ''objcg'' c_ptr,
      Fld ''throttle_disk'' c_ptr, Fld ''utask'' c_ptr, Fld ''sequential_io'' c_u32,
      Fld ''sequential_io_avg'' c_u32, Fld ''kmap_ctrl'' (k_struct_ty kmap_ctrl_kfields),
      Fld ''rcu'' (k_struct_ty callback_head_kfields),
      Fld ''rcu_users'' (k_struct_ty refcount_struct_kfields), Fld ''pagefault_disabled'' c_u32,
      Fld ''oom_reaper_list'' c_ptr, Fld ''oom_reaper_timer'' (k_struct_ty timer_list_kfields),
      Fld ''stack_vm_area'' c_ptr, Fld ''stack_refcount'' (k_struct_ty refcount_struct_kfields),
      Fld ''patch_state'' c_u32, Fld ''security'' c_ptr, Fld ''bpf_storage'' c_ptr,
      Fld ''bpf_ctx'' c_ptr, Fld ''mce_vaddr'' c_ptr, Fld ''mce_kflags'' c_u64,
      Fld ''mce_addr'' c_u64, Bits ''mce_ripv'' c_u64 1, Bits ''mce_whole_page'' c_u64 1,
      Bits ''__mce_reserved'' c_u64 62, Fld ''mce_kill_me'' (k_struct_ty callback_head_kfields),
      Fld ''mce_count'' c_u32, Fld ''kretprobe_instances'' (k_struct_ty llist_head_kfields),
      Fld ''rethooks'' (k_struct_ty llist_head_kfields),
      Fld ''l1d_flush_kill'' (k_struct_ty callback_head_kfields),
      Fld ''rv'' (c_arr 1 (k_union_ty rv_task_monitor_kfields)), Fld ''user_event_mm'' c_ptr,
      Fld ''thread'' (k_struct_ty thread_struct_kfields)]"

lemma task_struct_kfields_g_end [vm_end]: "k_end 72064 task_struct_kfields_g = 109568"
  by (simp add: task_struct_kfields_g_def vm_ty klayout_defs flip: numeral_2_eq_2)

definition task_struct_kfields :: kfields where
  "task_struct_kfields =
     task_struct_kfields_a @ task_struct_kfields_b @ task_struct_kfields_c @ task_struct_kfields_d @ task_struct_kfields_e @ task_struct_kfields_f @ task_struct_kfields_g"

lemma task_struct_kfields_a_align [vm_end]: "k_max_align task_struct_kfields_a = 8"
  by (simp add: task_struct_kfields_a_def vm_ty klayout_defs)

lemma task_struct_kfields_b_align [vm_end]: "k_max_align task_struct_kfields_b = 8"
  by (simp add: task_struct_kfields_b_def vm_ty klayout_defs)

lemma task_struct_kfields_c_align [vm_end]: "k_max_align task_struct_kfields_c = 8"
  by (simp add: task_struct_kfields_c_def vm_ty klayout_defs)

lemma task_struct_kfields_d_align [vm_end]: "k_max_align task_struct_kfields_d = 8"
  by (simp add: task_struct_kfields_d_def vm_ty klayout_defs)

lemma task_struct_kfields_e_align [vm_end]: "k_max_align task_struct_kfields_e = 8"
  by (simp add: task_struct_kfields_e_def vm_ty klayout_defs)

lemma task_struct_kfields_f_align [vm_end]: "k_max_align task_struct_kfields_f = 8"
  by (simp add: task_struct_kfields_f_def vm_ty klayout_defs)

lemma task_struct_kfields_g_align [vm_end]: "k_max_align task_struct_kfields_g = 8"
  by (simp add: task_struct_kfields_g_def vm_ty klayout_defs)

lemma task_struct_ty [vm_ty]: "k_struct_ty task_struct_kfields = (13696, 8)"
  by (simp add: k_struct_ty_def task_struct_kfields_def k_end_append k_max_align_append vm_end align_up_def)

definition rw_semaphore_kfields :: kfields where
  "rw_semaphore_kfields =
     [Fld ''count'' (k_struct_ty atomic64_t_kfields), Fld ''owner'' (k_struct_ty atomic64_t_kfields),
      Fld ''osq'' (k_struct_ty optimistic_spin_queue_kfields),
      Fld ''wait_lock'' (k_struct_ty raw_spinlock_kfields),
      Fld ''wait_list'' (k_struct_ty list_head_kfields)]"

lemma rw_semaphore_ty [vm_ty]: "k_struct_ty rw_semaphore_kfields = (40, 8)"
  by (simp add: rw_semaphore_kfields_def vm_ty klayout_defs flip: numeral_2_eq_2)

definition mm_context_t_kfields :: kfields where
  "mm_context_t_kfields =
     [Fld ''ctx_id'' c_u64, Fld ''tlb_gen'' (k_struct_ty atomic64_t_kfields),
      Fld ''next_trim_cpumask'' c_u64, Fld ''ldt_usr_sem'' (k_struct_ty rw_semaphore_kfields),
      Fld ''ldt'' c_ptr, Fld ''flags'' c_u64, Fld ''lock'' (k_struct_ty mutex_kfields),
      Fld ''vdso'' c_ptr, Fld ''vdso_image'' c_ptr,
      Fld ''perf_rdpmc_allowed'' (k_struct_ty atomic_t_kfields), Fld ''pkey_allocation_map'' c_u16,
      Fld ''execute_only_pkey'' c_u16]"

lemma mm_context_t_ty [vm_ty]: "k_struct_ty mm_context_t_kfields = (136, 8)"
  by (simp add: mm_context_t_kfields_def vm_ty klayout_defs flip: numeral_2_eq_2)

definition lockdep_map_p_kfields :: kfields where
  "lockdep_map_p_kfields =
     []"

lemma lockdep_map_p_ty [vm_ty]: "k_struct_ty lockdep_map_p_kfields = (0, 1)"
  by (simp add: lockdep_map_p_kfields_def vm_ty klayout_defs flip: numeral_2_eq_2)

definition maple_tree_kfields :: kfields where
  "maple_tree_kfields =
     [Fld ''_anon1'' (k_union_ty [Fld ''ma_lock'' (k_struct_ty spinlock_kfields),
      Fld ''ma_external_lock'' (k_struct_ty lockdep_map_p_kfields)]), Fld ''ma_flags'' c_u32,
      Fld ''ma_root'' c_ptr]"

lemma maple_tree_ty [vm_ty]: "k_struct_ty maple_tree_kfields = (16, 8)"
  by (simp add: maple_tree_kfields_def vm_ty klayout_defs flip: numeral_2_eq_2)

definition percpu_counter_kfields :: kfields where
  "percpu_counter_kfields =
     [Fld ''lock'' (k_struct_ty raw_spinlock_kfields), Fld ''count'' c_u64,
      Fld ''list'' (k_struct_ty list_head_kfields), Fld ''counters'' c_ptr]"

lemma percpu_counter_ty [vm_ty]: "k_struct_ty percpu_counter_kfields = (40, 8)"
  by (simp add: percpu_counter_kfields_def vm_ty klayout_defs flip: numeral_2_eq_2)

definition uprobes_state_kfields :: kfields where
  "uprobes_state_kfields =
     [Fld ''xol_area'' c_ptr]"

lemma uprobes_state_ty [vm_ty]: "k_struct_ty uprobes_state_kfields = (8, 8)"
  by (simp add: uprobes_state_kfields_def vm_ty klayout_defs flip: numeral_2_eq_2)

definition work_struct_kfields :: kfields where
  "work_struct_kfields =
     [Fld ''data'' (k_struct_ty atomic64_t_kfields), Fld ''entry'' (k_struct_ty list_head_kfields),
      Fld ''func'' c_ptr]"

lemma work_struct_ty [vm_ty]: "k_struct_ty work_struct_kfields = (32, 8)"
  by (simp add: work_struct_kfields_def vm_ty klayout_defs flip: numeral_2_eq_2)

definition mm_struct_fields_kfields :: kfields where
  "mm_struct_fields_kfields =
     [Fld ''_anon1'' (k_struct_ty [Fld ''mm_count'' (k_struct_ty atomic_t_kfields),
      Bits '''' c_u64 64, Bits '''' c_u64 64, Bits '''' c_u64 64, Bits '''' c_u64 64,
      Bits '''' c_u64 64, Bits '''' c_u64 64, Bits '''' c_u64 64]),
      Fld ''mm_mt'' (k_struct_ty maple_tree_kfields), Fld ''get_unmapped_area'' c_ptr,
      Fld ''mmap_base'' c_u64, Fld ''mmap_legacy_base'' c_u64, Fld ''mmap_compat_base'' c_u64,
      Fld ''mmap_compat_legacy_base'' c_u64, Fld ''task_size'' c_u64, Fld ''pgd'' c_ptr,
      Fld ''membarrier_state'' (k_struct_ty atomic_t_kfields),
      Fld ''mm_users'' (k_struct_ty atomic_t_kfields), Fld ''pcpu_cid'' c_ptr,
      Fld ''mm_cid_next_scan'' c_u64, Fld ''pgtables_bytes'' (k_struct_ty atomic64_t_kfields),
      Fld ''map_count'' c_u32, Fld ''page_table_lock'' (k_struct_ty spinlock_kfields),
      Fld ''mmap_lock'' (k_struct_ty rw_semaphore_kfields),
      Fld ''mmlist'' (k_struct_ty list_head_kfields), Fld ''mm_lock_seq'' c_u32,
      Fld ''hiwater_rss'' c_u64, Fld ''hiwater_vm'' c_u64, Fld ''total_vm'' c_u64,
      Fld ''locked_vm'' c_u64, Fld ''pinned_vm'' (k_struct_ty atomic64_t_kfields),
      Fld ''data_vm'' c_u64, Fld ''exec_vm'' c_u64, Fld ''stack_vm'' c_u64, Fld ''def_flags'' c_u64,
      Fld ''write_protect_seq'' (k_struct_ty seqcount_kfields),
      Fld ''arg_lock'' (k_struct_ty spinlock_kfields), Fld ''start_code'' c_u64,
      Fld ''end_code'' c_u64, Fld ''start_data'' c_u64, Fld ''end_data'' c_u64,
      Fld ''start_brk'' c_u64, Fld ''brk'' c_u64, Fld ''start_stack'' c_u64, Fld ''arg_start'' c_u64,
      Fld ''arg_end'' c_u64, Fld ''env_start'' c_u64, Fld ''env_end'' c_u64,
      Fld ''saved_auxv'' (c_arr 52 c_u64),
      Fld ''rss_stat'' (c_arr 4 (k_struct_ty percpu_counter_kfields)), Fld ''binfmt'' c_ptr,
      Fld ''context'' (k_struct_ty mm_context_t_kfields), Fld ''flags'' c_u64,
      Fld ''ioctx_lock'' (k_struct_ty spinlock_kfields), Fld ''ioctx_table'' c_ptr,
      Fld ''owner'' c_ptr, Fld ''user_ns'' c_ptr, Fld ''exe_file'' c_ptr,
      Fld ''notifier_subscriptions'' c_ptr, Fld ''numa_next_scan'' c_u64,
      Fld ''numa_scan_offset'' c_u64, Fld ''numa_scan_seq'' c_u32,
      Fld ''tlb_flush_pending'' (k_struct_ty atomic_t_kfields),
      Fld ''tlb_flush_batched'' (k_struct_ty atomic_t_kfields),
      Fld ''uprobes_state'' (k_struct_ty uprobes_state_kfields),
      Fld ''hugetlb_usage'' (k_struct_ty atomic64_t_kfields),
      Fld ''async_put_work'' (k_struct_ty work_struct_kfields), Fld ''iommu_mm'' c_ptr,
      Fld ''ksm_merging_pages'' c_u64, Fld ''ksm_rmap_items'' c_u64,
      Fld ''ksm_zero_pages'' (k_struct_ty atomic64_t_kfields),
      Fld ''lru_gen'' (k_struct_ty [Fld ''list'' (k_struct_ty list_head_kfields),
      Fld ''bitmap'' c_u64, Fld ''memcg'' c_ptr]), Bits '''' c_u64 64, Bits '''' c_u64 64]"

lemma mm_struct_fields_ty [vm_ty]: "k_struct_ty mm_struct_fields_kfields = (1344, 8)"
  by (simp add: mm_struct_fields_kfields_def vm_ty klayout_defs flip: numeral_2_eq_2)

definition mm_struct_kfields :: kfields where
  "mm_struct_kfields =
     [Fld ''_anon1'' (k_struct_ty mm_struct_fields_kfields), Fld ''cpu_bitmap'' (c_arr 0 c_u64)]"

lemma mm_struct_ty [vm_ty]: "k_struct_ty mm_struct_kfields = (1344, 8)"
  by (simp add: mm_struct_kfields_def vm_ty klayout_defs flip: numeral_2_eq_2)

definition file_ra_state_kfields :: kfields where
  "file_ra_state_kfields =
     [Fld ''start'' c_u64, Fld ''size'' c_u32, Fld ''async_size'' c_u32, Fld ''ra_pages'' c_u32,
      Fld ''mmap_miss'' c_u32, Fld ''prev_pos'' c_u64]"

lemma file_ra_state_ty [vm_ty]: "k_struct_ty file_ra_state_kfields = (32, 8)"
  by (simp add: file_ra_state_kfields_def vm_ty klayout_defs flip: numeral_2_eq_2)

definition qrwlock_kfields :: kfields where
  "qrwlock_kfields =
     [Fld ''_anon1'' (k_union_ty [Fld ''cnts'' (k_struct_ty atomic_t_kfields),
      Fld ''_anon1'' (k_struct_ty [Fld ''wlocked'' c_u8, Fld ''__lstate'' (c_arr 3 c_u8)])]),
      Fld ''wait_lock'' (k_struct_ty qspinlock_kfields)]"

lemma qrwlock_ty [vm_ty]: "k_struct_ty qrwlock_kfields = (8, 4)"
  by (simp add: qrwlock_kfields_def vm_ty klayout_defs flip: numeral_2_eq_2)

definition rwlock_t_kfields :: kfields where
  "rwlock_t_kfields =
     [Fld ''raw_lock'' (k_struct_ty qrwlock_kfields)]"

lemma rwlock_t_ty [vm_ty]: "k_struct_ty rwlock_t_kfields = (8, 4)"
  by (simp add: rwlock_t_kfields_def vm_ty klayout_defs flip: numeral_2_eq_2)

definition fown_struct_kfields :: kfields where
  "fown_struct_kfields =
     [Fld ''lock'' (k_struct_ty rwlock_t_kfields), Fld ''pid'' c_ptr, Fld ''pid_type'' c_u32,
      Fld ''uid'' (k_struct_ty kuid_t_kfields), Fld ''euid'' (k_struct_ty kuid_t_kfields),
      Fld ''signum'' c_u32]"

lemma fown_struct_ty [vm_ty]: "k_struct_ty fown_struct_kfields = (32, 8)"
  by (simp add: fown_struct_kfields_def vm_ty klayout_defs flip: numeral_2_eq_2)

definition path_kfields :: kfields where
  "path_kfields =
     [Fld ''mnt'' c_ptr, Fld ''dentry'' c_ptr]"

lemma path_ty [vm_ty]: "k_struct_ty path_kfields = (16, 8)"
  by (simp add: path_kfields_def vm_ty klayout_defs flip: numeral_2_eq_2)

definition file_kfields :: kfields where
  "file_kfields =
     [Fld ''_anon1'' (k_union_ty [Fld ''f_task_work'' (k_struct_ty callback_head_kfields),
      Fld ''f_llist'' (k_struct_ty llist_node_kfields), Fld ''f_iocb_flags'' c_u32]),
      Fld ''f_lock'' (k_struct_ty spinlock_kfields), Fld ''f_mode'' c_u32,
      Fld ''f_count'' (k_struct_ty atomic64_t_kfields),
      Fld ''f_pos_lock'' (k_struct_ty mutex_kfields), Fld ''f_pos'' c_u64, Fld ''f_flags'' c_u32,
      Fld ''f_owner'' (k_struct_ty fown_struct_kfields), Fld ''f_cred'' c_ptr,
      Fld ''f_ra'' (k_struct_ty file_ra_state_kfields), Fld ''f_path'' (k_struct_ty path_kfields),
      Fld ''f_inode'' c_ptr, Fld ''f_op'' c_ptr, Fld ''f_version'' c_u64, Fld ''f_security'' c_ptr,
      Fld ''private_data'' c_ptr, Fld ''f_ep'' c_ptr, Fld ''f_mapping'' c_ptr,
      Fld ''f_wb_err'' c_u32, Fld ''f_sb_err'' c_u32]"

lemma file_ty [vm_ty]: "k_struct_ty file_kfields = (232, 8)"
  by (simp add: file_kfields_def vm_ty klayout_defs flip: numeral_2_eq_2)

definition kgid_t_kfields :: kfields where
  "kgid_t_kfields =
     [Fld ''val'' c_u32]"

lemma kgid_t_ty [vm_ty]: "k_struct_ty kgid_t_kfields = (4, 4)"
  by (simp add: kgid_t_kfields_def vm_ty klayout_defs flip: numeral_2_eq_2)

definition xarray_kfields :: kfields where
  "xarray_kfields =
     [Fld ''xa_lock'' (k_struct_ty spinlock_kfields), Fld ''xa_flags'' c_u32, Fld ''xa_head'' c_ptr]"

lemma xarray_ty [vm_ty]: "k_struct_ty xarray_kfields = (16, 8)"
  by (simp add: xarray_kfields_def vm_ty klayout_defs flip: numeral_2_eq_2)

definition address_space_kfields :: kfields where
  "address_space_kfields =
     [Fld ''host'' c_ptr, Fld ''i_pages'' (k_struct_ty xarray_kfields),
      Fld ''invalidate_lock'' (k_struct_ty rw_semaphore_kfields), Fld ''gfp_mask'' c_u32,
      Fld ''i_mmap_writable'' (k_struct_ty atomic_t_kfields),
      Fld ''i_mmap'' (k_struct_ty rb_root_cached_kfields), Fld ''nrpages'' c_u64,
      Fld ''writeback_index'' c_u64, Fld ''a_ops'' c_ptr, Fld ''flags'' c_u64,
      Fld ''i_mmap_rwsem'' (k_struct_ty rw_semaphore_kfields), Fld ''wb_err'' c_u32,
      Fld ''i_private_lock'' (k_struct_ty spinlock_kfields),
      Fld ''i_private_list'' (k_struct_ty list_head_kfields), Fld ''i_private_data'' c_ptr]"

lemma address_space_ty [vm_ty]: "k_struct_ty address_space_kfields = (192, 8)"
  by (simp add: address_space_kfields_def vm_ty klayout_defs flip: numeral_2_eq_2)

definition timespec64_kfields :: kfields where
  "timespec64_kfields =
     [Fld ''tv_sec'' c_u64, Fld ''tv_nsec'' c_u64]"

lemma timespec64_ty [vm_ty]: "k_struct_ty timespec64_kfields = (16, 8)"
  by (simp add: timespec64_kfields_def vm_ty klayout_defs flip: numeral_2_eq_2)

definition inode_nlink_kfields :: kfields where
  "inode_nlink_kfields =
     [Fld ''i_nlink'' c_u32, Fld ''__i_nlink'' c_u32]"

lemma inode_nlink_ty [vm_ty]: "k_union_ty inode_nlink_kfields = (4, 4)"
  by (simp add: inode_nlink_kfields_def vm_ty klayout_defs flip: numeral_2_eq_2)

definition inode_kfields :: kfields where
  "inode_kfields =
     [Fld ''i_mode'' c_u16, Fld ''i_opflags'' c_u16, Fld ''i_uid'' (k_struct_ty kuid_t_kfields),
      Fld ''i_lru'' (k_struct_ty list_head_kfields), Fld ''i_gid'' (k_struct_ty kgid_t_kfields),
      Fld ''i_flags'' c_u32, Fld ''i_acl'' c_ptr, Fld ''i_default_acl'' c_ptr, Fld ''i_op'' c_ptr,
      Fld ''i_sb'' c_ptr, Fld ''i_mapping'' c_ptr, Fld ''i_security'' c_ptr, Fld ''i_ino'' c_u64,
      Fld ''_anon1'' (k_union_ty inode_nlink_kfields), Fld ''i_rdev'' c_u32, Fld ''i_size'' c_u64,
      Fld ''__i_atime'' (k_struct_ty timespec64_kfields),
      Fld ''__i_mtime'' (k_struct_ty timespec64_kfields),
      Fld ''__i_ctime'' (k_struct_ty timespec64_kfields),
      Fld ''i_lock'' (k_struct_ty spinlock_kfields), Fld ''i_bytes'' c_u16, Fld ''i_blkbits'' c_u8,
      Fld ''i_write_hint'' c_u8, Fld ''i_blocks'' c_u64, Fld ''i_state'' c_u64,
      Fld ''i_rwsem'' (k_struct_ty rw_semaphore_kfields), Fld ''dirtied_when'' c_u64,
      Fld ''dirtied_time_when'' c_u64, Fld ''i_hash'' (k_struct_ty hlist_node_kfields),
      Fld ''i_io_list'' (k_struct_ty list_head_kfields), Fld ''i_wb'' c_ptr,
      Fld ''i_wb_frn_winner'' c_u32, Fld ''i_wb_frn_avg_time'' c_u16, Fld ''i_wb_frn_history'' c_u16,
      Fld ''i_sb_list'' (k_struct_ty list_head_kfields),
      Fld ''i_wb_list'' (k_struct_ty list_head_kfields),
      Fld ''_anon2'' (k_union_ty [Fld ''i_dentry'' (k_struct_ty hlist_head_kfields),
      Fld ''i_rcu'' (k_struct_ty callback_head_kfields)]),
      Fld ''i_version'' (k_struct_ty atomic64_t_kfields),
      Fld ''i_sequence'' (k_struct_ty atomic64_t_kfields),
      Fld ''i_count'' (k_struct_ty atomic_t_kfields),
      Fld ''i_dio_count'' (k_struct_ty atomic_t_kfields),
      Fld ''i_writecount'' (k_struct_ty atomic_t_kfields),
      Fld ''i_readcount'' (k_struct_ty atomic_t_kfields),
      Fld ''_anon3'' (k_union_ty [Fld ''i_fop'' c_ptr, Fld ''free_inode'' c_ptr]),
      Fld ''i_flctx'' c_ptr, Fld ''i_data'' (k_struct_ty address_space_kfields),
      Fld ''i_devices'' (k_struct_ty list_head_kfields),
      Fld ''_anon4'' (k_union_ty [Fld ''i_pipe'' c_ptr, Fld ''i_cdev'' c_ptr, Fld ''i_link'' c_ptr,
      Fld ''i_dir_seq'' c_u32]), Fld ''i_generation'' c_u32, Fld ''i_fsnotify_mask'' c_u32,
      Fld ''i_fsnotify_marks'' c_ptr, Fld ''i_crypt_info'' c_ptr, Fld ''i_verity_info'' c_ptr,
      Fld ''i_private'' c_ptr]"

lemma inode_ty [vm_ty]: "k_struct_ty inode_kfields = (632, 8)"
  by (simp add: inode_kfields_def vm_ty klayout_defs flip: numeral_2_eq_2)

definition hlist_bl_head_kfields :: kfields where
  "hlist_bl_head_kfields =
     [Fld ''first'' c_ptr]"

lemma hlist_bl_head_ty [vm_ty]: "k_struct_ty hlist_bl_head_kfields = (8, 8)"
  by (simp add: hlist_bl_head_kfields_def vm_ty klayout_defs flip: numeral_2_eq_2)

definition list_lru_kfields :: kfields where
  "list_lru_kfields =
     [Fld ''node'' c_ptr, Fld ''list'' (k_struct_ty list_head_kfields), Fld ''shrinker_id'' c_u32,
      Fld ''memcg_aware'' c_u8, Fld ''xa'' (k_struct_ty xarray_kfields)]"

lemma list_lru_ty [vm_ty]: "k_struct_ty list_lru_kfields = (48, 8)"
  by (simp add: list_lru_kfields_def vm_ty klayout_defs flip: numeral_2_eq_2)

definition mem_dqinfo_kfields :: kfields where
  "mem_dqinfo_kfields =
     [Fld ''dqi_format'' c_ptr, Fld ''dqi_fmt_id'' c_u32,
      Fld ''dqi_dirty_list'' (k_struct_ty list_head_kfields), Fld ''dqi_flags'' c_u64,
      Fld ''dqi_bgrace'' c_u32, Fld ''dqi_igrace'' c_u32, Fld ''dqi_max_spc_limit'' c_u64,
      Fld ''dqi_max_ino_limit'' c_u64, Fld ''dqi_priv'' c_ptr]"

lemma mem_dqinfo_ty [vm_ty]: "k_struct_ty mem_dqinfo_kfields = (72, 8)"
  by (simp add: mem_dqinfo_kfields_def vm_ty klayout_defs flip: numeral_2_eq_2)

definition quota_info_kfields :: kfields where
  "quota_info_kfields =
     [Fld ''flags'' c_u32, Fld ''dqio_sem'' (k_struct_ty rw_semaphore_kfields),
      Fld ''files'' (c_arr 3 c_ptr), Fld ''info'' (c_arr 3 (k_struct_ty mem_dqinfo_kfields)),
      Fld ''ops'' (c_arr 3 c_ptr)]"

lemma quota_info_ty [vm_ty]: "k_struct_ty quota_info_kfields = (312, 8)"
  by (simp add: quota_info_kfields_def vm_ty klayout_defs flip: numeral_2_eq_2)

definition wait_queue_head_kfields :: kfields where
  "wait_queue_head_kfields =
     [Fld ''lock'' (k_struct_ty spinlock_kfields), Fld ''head'' (k_struct_ty list_head_kfields)]"

lemma wait_queue_head_ty [vm_ty]: "k_struct_ty wait_queue_head_kfields = (24, 8)"
  by (simp add: wait_queue_head_kfields_def vm_ty klayout_defs flip: numeral_2_eq_2)

definition rcu_sync_kfields :: kfields where
  "rcu_sync_kfields =
     [Fld ''gp_state'' c_u32, Fld ''gp_count'' c_u32,
      Fld ''gp_wait'' (k_struct_ty wait_queue_head_kfields),
      Fld ''cb_head'' (k_struct_ty callback_head_kfields)]"

lemma rcu_sync_ty [vm_ty]: "k_struct_ty rcu_sync_kfields = (48, 8)"
  by (simp add: rcu_sync_kfields_def vm_ty klayout_defs flip: numeral_2_eq_2)

definition rcuwait_kfields :: kfields where
  "rcuwait_kfields =
     [Fld ''task'' c_ptr]"

lemma rcuwait_ty [vm_ty]: "k_struct_ty rcuwait_kfields = (8, 8)"
  by (simp add: rcuwait_kfields_def vm_ty klayout_defs flip: numeral_2_eq_2)

definition percpu_rw_semaphore_kfields :: kfields where
  "percpu_rw_semaphore_kfields =
     [Fld ''rss'' (k_struct_ty rcu_sync_kfields), Fld ''read_count'' c_ptr,
      Fld ''writer'' (k_struct_ty rcuwait_kfields),
      Fld ''waiters'' (k_struct_ty wait_queue_head_kfields),
      Fld ''block'' (k_struct_ty atomic_t_kfields)]"

lemma percpu_rw_semaphore_ty [vm_ty]: "k_struct_ty percpu_rw_semaphore_kfields = (96, 8)"
  by (simp add: percpu_rw_semaphore_kfields_def vm_ty klayout_defs flip: numeral_2_eq_2)

definition sb_writers_kfields :: kfields where
  "sb_writers_kfields =
     [Fld ''frozen'' c_u16, Fld ''freeze_kcount'' c_u32, Fld ''freeze_ucount'' c_u32,
      Fld ''rw_sem'' (c_arr 3 (k_struct_ty percpu_rw_semaphore_kfields))]"

lemma sb_writers_ty [vm_ty]: "k_struct_ty sb_writers_kfields = (304, 8)"
  by (simp add: sb_writers_kfields_def vm_ty klayout_defs flip: numeral_2_eq_2)

definition uuid_t_kfields :: kfields where
  "uuid_t_kfields =
     [Fld ''b'' (c_arr 16 c_u8)]"

lemma uuid_t_ty [vm_ty]: "k_struct_ty uuid_t_kfields = (16, 1)"
  by (simp add: uuid_t_kfields_def vm_ty klayout_defs flip: numeral_2_eq_2)

definition super_block_kfields :: kfields where
  "super_block_kfields =
     [Fld ''s_list'' (k_struct_ty list_head_kfields), Fld ''s_dev'' c_u32,
      Fld ''s_blocksize_bits'' c_u8, Fld ''s_blocksize'' c_u64, Fld ''s_maxbytes'' c_u64,
      Fld ''s_type'' c_ptr, Fld ''s_op'' c_ptr, Fld ''dq_op'' c_ptr, Fld ''s_qcop'' c_ptr,
      Fld ''s_export_op'' c_ptr, Fld ''s_flags'' c_u64, Fld ''s_iflags'' c_u64,
      Fld ''s_magic'' c_u64, Fld ''s_root'' c_ptr,
      Fld ''s_umount'' (k_struct_ty rw_semaphore_kfields), Fld ''s_count'' c_u32,
      Fld ''s_active'' (k_struct_ty atomic_t_kfields), Fld ''s_security'' c_ptr,
      Fld ''s_xattr'' c_ptr, Fld ''s_cop'' c_ptr, Fld ''s_master_keys'' c_ptr, Fld ''s_vop'' c_ptr,
      Fld ''s_encoding'' c_ptr, Fld ''s_encoding_flags'' c_u16,
      Fld ''s_roots'' (k_struct_ty hlist_bl_head_kfields),
      Fld ''s_mounts'' (k_struct_ty list_head_kfields), Fld ''s_bdev'' c_ptr,
      Fld ''s_bdev_handle'' c_ptr, Fld ''s_bdi'' c_ptr, Fld ''s_mtd'' c_ptr,
      Fld ''s_instances'' (k_struct_ty hlist_node_kfields), Fld ''s_quota_types'' c_u32,
      Fld ''s_dquot'' (k_struct_ty quota_info_kfields),
      Fld ''s_writers'' (k_struct_ty sb_writers_kfields), Fld ''s_fs_info'' c_ptr,
      Fld ''s_time_gran'' c_u32, Fld ''s_time_min'' c_u64, Fld ''s_time_max'' c_u64,
      Fld ''s_fsnotify_mask'' c_u32, Fld ''s_fsnotify_marks'' c_ptr, Fld ''s_id'' (c_arr 32 c_u8),
      Fld ''s_uuid'' (k_struct_ty uuid_t_kfields), Fld ''s_max_links'' c_u32,
      Fld ''s_vfs_rename_mutex'' (k_struct_ty mutex_kfields), Fld ''s_subtype'' c_ptr,
      Fld ''s_d_op'' c_ptr, Fld ''s_shrink'' c_ptr,
      Fld ''s_remove_count'' (k_struct_ty atomic64_t_kfields),
      Fld ''s_fsnotify_connectors'' (k_struct_ty atomic64_t_kfields),
      Fld ''s_readonly_remount'' c_u32, Fld ''s_wb_err'' c_u32, Fld ''s_dio_done_wq'' c_ptr,
      Fld ''s_pins'' (k_struct_ty hlist_head_kfields), Fld ''s_user_ns'' c_ptr,
      Fld ''s_dentry_lru'' (k_struct_ty list_lru_kfields),
      Fld ''s_inode_lru'' (k_struct_ty list_lru_kfields),
      Fld ''rcu'' (k_struct_ty callback_head_kfields),
      Fld ''destroy_work'' (k_struct_ty work_struct_kfields),
      Fld ''s_sync_lock'' (k_struct_ty mutex_kfields), Fld ''s_stack_depth'' c_u32,
      Bits '''' c_u64 64, Bits '''' c_u64 64, Bits '''' c_u64 64, Bits '''' c_u64 64,
      Bits '''' c_u64 64, Fld ''s_inode_list_lock'' (k_struct_ty spinlock_kfields),
      Fld ''s_inodes'' (k_struct_ty list_head_kfields),
      Fld ''s_inode_wblist_lock'' (k_struct_ty spinlock_kfields),
      Fld ''s_inodes_wb'' (k_struct_ty list_head_kfields), Bits '''' c_u64 64, Bits '''' c_u64 64]"

lemma super_block_ty [vm_ty]: "k_struct_ty super_block_kfields = (1408, 8)"
  by (simp add: super_block_kfields_def vm_ty klayout_defs flip: numeral_2_eq_2)

definition hlist_bl_node_kfields :: kfields where
  "hlist_bl_node_kfields =
     [Fld ''next'' c_ptr, Fld ''pprev'' c_ptr]"

lemma hlist_bl_node_ty [vm_ty]: "k_struct_ty hlist_bl_node_kfields = (16, 8)"
  by (simp add: hlist_bl_node_kfields_def vm_ty klayout_defs flip: numeral_2_eq_2)

definition lockref_kfields :: kfields where
  "lockref_kfields =
     [Fld ''_anon1'' (k_union_ty [Fld ''lock_count'' c_u64,
      Fld ''_anon1'' (k_struct_ty [Fld ''lock'' (k_struct_ty spinlock_kfields),
      Fld ''count'' c_u32])])]"

lemma lockref_ty [vm_ty]: "k_struct_ty lockref_kfields = (8, 8)"
  by (simp add: lockref_kfields_def vm_ty klayout_defs flip: numeral_2_eq_2)

definition qstr_kfields :: kfields where
  "qstr_kfields =
     [Fld ''_anon1'' (k_union_ty [Fld ''_anon1'' (k_struct_ty [Fld ''hash'' c_u32,
      Fld ''len'' c_u32]), Fld ''hash_len'' c_u64]), Fld ''name'' c_ptr]"

lemma qstr_ty [vm_ty]: "k_struct_ty qstr_kfields = (16, 8)"
  by (simp add: qstr_kfields_def vm_ty klayout_defs flip: numeral_2_eq_2)

definition dentry_kfields :: kfields where
  "dentry_kfields =
     [Fld ''d_flags'' c_u32, Fld ''d_seq'' (k_struct_ty seqcount_spinlock_kfields),
      Fld ''d_hash'' (k_struct_ty hlist_bl_node_kfields), Fld ''d_parent'' c_ptr,
      Fld ''d_name'' (k_struct_ty qstr_kfields), Fld ''d_inode'' c_ptr,
      Fld ''d_iname'' (c_arr 40 c_u8), Fld ''d_lockref'' (k_struct_ty lockref_kfields),
      Fld ''d_op'' c_ptr, Fld ''d_sb'' c_ptr, Fld ''d_time'' c_u64, Fld ''d_fsdata'' c_ptr,
      Fld ''_anon1'' (k_union_ty [Fld ''d_lru'' (k_struct_ty list_head_kfields),
      Fld ''d_wait'' c_ptr]), Fld ''d_sib'' (k_struct_ty hlist_node_kfields),
      Fld ''d_children'' (k_struct_ty hlist_head_kfields),
      Fld ''d_u'' (k_union_ty [Fld ''d_alias'' (k_struct_ty hlist_node_kfields),
      Fld ''d_in_lookup_hash'' (k_struct_ty hlist_bl_node_kfields),
      Fld ''d_rcu'' (k_struct_ty callback_head_kfields)])]"

lemma dentry_ty [vm_ty]: "k_struct_ty dentry_kfields = (192, 8)"
  by (simp add: dentry_kfields_def vm_ty klayout_defs flip: numeral_2_eq_2)

definition rlimit_kfields :: kfields where
  "rlimit_kfields =
     [Fld ''rlim_cur'' c_u64, Fld ''rlim_max'' c_u64]"

lemma rlimit_ty [vm_ty]: "k_struct_ty rlimit_kfields = (16, 8)"
  by (simp add: rlimit_kfields_def vm_ty klayout_defs flip: numeral_2_eq_2)

definition linux_binprm_kfields :: kfields where
  "linux_binprm_kfields =
     [Fld ''vma'' c_ptr, Fld ''vma_pages'' c_u64, Fld ''mm'' c_ptr, Fld ''p'' c_u64,
      Fld ''argmin'' c_u64, Bits ''have_execfd'' c_u32 1, Bits ''execfd_creds'' c_u32 1,
      Bits ''secureexec'' c_u32 1, Bits ''point_of_no_return'' c_u32 1,
      Bits ''comm_from_dentry'' c_u32 1, Fld ''executable'' c_ptr, Fld ''interpreter'' c_ptr,
      Fld ''file'' c_ptr, Fld ''cred'' c_ptr, Fld ''unsafe'' c_u32, Fld ''per_clear'' c_u32,
      Fld ''argc'' c_u32, Fld ''envc'' c_u32, Fld ''filename'' c_ptr, Fld ''interp'' c_ptr,
      Fld ''fdpath'' c_ptr, Fld ''interp_flags'' c_u32, Fld ''execfd'' c_u32, Fld ''loader'' c_u64,
      Fld ''exec'' c_u64, Fld ''rlim_stack'' (k_struct_ty rlimit_kfields),
      Fld ''buf'' (c_arr 256 c_u8)]"

lemma linux_binprm_ty [vm_ty]: "k_struct_ty linux_binprm_kfields = (416, 8)"
  by (simp add: linux_binprm_kfields_def vm_ty klayout_defs flip: numeral_2_eq_2)

definition kernel_cap_t_kfields :: kfields where
  "kernel_cap_t_kfields =
     [Fld ''val'' c_u64]"

lemma kernel_cap_t_ty [vm_ty]: "k_struct_ty kernel_cap_t_kfields = (8, 8)"
  by (simp add: kernel_cap_t_kfields_def vm_ty klayout_defs flip: numeral_2_eq_2)

definition cred_kfields :: kfields where
  "cred_kfields =
     [Fld ''usage'' (k_struct_ty atomic64_t_kfields), Fld ''uid'' (k_struct_ty kuid_t_kfields),
      Fld ''gid'' (k_struct_ty kgid_t_kfields), Fld ''suid'' (k_struct_ty kuid_t_kfields),
      Fld ''sgid'' (k_struct_ty kgid_t_kfields), Fld ''euid'' (k_struct_ty kuid_t_kfields),
      Fld ''egid'' (k_struct_ty kgid_t_kfields), Fld ''fsuid'' (k_struct_ty kuid_t_kfields),
      Fld ''fsgid'' (k_struct_ty kgid_t_kfields), Fld ''securebits'' c_u32,
      Fld ''cap_inheritable'' (k_struct_ty kernel_cap_t_kfields),
      Fld ''cap_permitted'' (k_struct_ty kernel_cap_t_kfields),
      Fld ''cap_effective'' (k_struct_ty kernel_cap_t_kfields),
      Fld ''cap_bset'' (k_struct_ty kernel_cap_t_kfields),
      Fld ''cap_ambient'' (k_struct_ty kernel_cap_t_kfields), Fld ''jit_keyring'' c_u8,
      Fld ''session_keyring'' c_ptr, Fld ''process_keyring'' c_ptr, Fld ''thread_keyring'' c_ptr,
      Fld ''request_key_auth'' c_ptr, Fld ''security'' c_ptr, Fld ''user'' c_ptr,
      Fld ''user_ns'' c_ptr, Fld ''ucounts'' c_ptr, Fld ''group_info'' c_ptr,
      Fld ''_anon1'' (k_union_ty [Fld ''non_rcu'' c_u32,
      Fld ''rcu'' (k_struct_ty callback_head_kfields)])]"

lemma cred_ty [vm_ty]: "k_struct_ty cred_kfields = (184, 8)"
  by (simp add: cred_kfields_def vm_ty klayout_defs flip: numeral_2_eq_2)

definition nsproxy_kfields :: kfields where
  "nsproxy_kfields =
     [Fld ''count'' (k_struct_ty refcount_struct_kfields), Fld ''uts_ns'' c_ptr,
      Fld ''ipc_ns'' c_ptr, Fld ''mnt_ns'' c_ptr, Fld ''pid_ns_for_children'' c_ptr,
      Fld ''net_ns'' c_ptr, Fld ''time_ns'' c_ptr, Fld ''time_ns_for_children'' c_ptr,
      Fld ''cgroup_ns'' c_ptr]"

lemma nsproxy_ty [vm_ty]: "k_struct_ty nsproxy_kfields = (72, 8)"
  by (simp add: nsproxy_kfields_def vm_ty klayout_defs flip: numeral_2_eq_2)

definition ns_common_kfields :: kfields where
  "ns_common_kfields =
     [Fld ''stashed'' (k_struct_ty atomic64_t_kfields), Fld ''ops'' c_ptr, Fld ''inum'' c_u32,
      Fld ''count'' (k_struct_ty refcount_struct_kfields)]"

lemma ns_common_ty [vm_ty]: "k_struct_ty ns_common_kfields = (24, 8)"
  by (simp add: ns_common_kfields_def vm_ty klayout_defs flip: numeral_2_eq_2)

definition mnt_namespace_kfields :: kfields where
  "mnt_namespace_kfields =
     [Fld ''ns'' (k_struct_ty ns_common_kfields), Fld ''root'' c_ptr,
      Fld ''mounts'' (k_struct_ty rb_root_kfields), Fld ''user_ns'' c_ptr, Fld ''ucounts'' c_ptr,
      Fld ''seq'' c_u64, Fld ''poll'' (k_struct_ty wait_queue_head_kfields), Fld ''event'' c_u64,
      Fld ''nr_mounts'' c_u32, Fld ''pending_mounts'' c_u32]"

lemma mnt_namespace_ty [vm_ty]: "k_struct_ty mnt_namespace_kfields = (104, 8)"
  by (simp add: mnt_namespace_kfields_def vm_ty klayout_defs flip: numeral_2_eq_2)

definition fdtable_kfields :: kfields where
  "fdtable_kfields =
     [Fld ''max_fds'' c_u32, Fld ''fd'' c_ptr, Fld ''close_on_exec'' c_ptr, Fld ''open_fds'' c_ptr,
      Fld ''full_fds_bits'' c_ptr, Fld ''rcu'' (k_struct_ty callback_head_kfields)]"

lemma fdtable_ty [vm_ty]: "k_struct_ty fdtable_kfields = (56, 8)"
  by (simp add: fdtable_kfields_def vm_ty klayout_defs flip: numeral_2_eq_2)

definition files_struct_kfields :: kfields where
  "files_struct_kfields =
     [Fld ''count'' (k_struct_ty atomic_t_kfields), Fld ''resize_in_progress'' c_u8,
      Fld ''resize_wait'' (k_struct_ty wait_queue_head_kfields), Fld ''fdt'' c_ptr,
      Fld ''fdtab'' (k_struct_ty fdtable_kfields), Bits '''' c_u64 64, Bits '''' c_u64 64,
      Bits '''' c_u64 64, Bits '''' c_u64 64, Fld ''file_lock'' (k_struct_ty spinlock_kfields),
      Fld ''next_fd'' c_u32, Fld ''close_on_exec_init'' (c_arr 1 c_u64),
      Fld ''open_fds_init'' (c_arr 1 c_u64), Fld ''full_fds_bits_init'' (c_arr 1 c_u64),
      Fld ''fd_array'' (c_arr 64 c_ptr), Bits '''' c_u64 64, Bits '''' c_u64 64, Bits '''' c_u64 64,
      Bits '''' c_u64 64]"

lemma files_struct_ty [vm_ty]: "k_struct_ty files_struct_kfields = (704, 8)"
  by (simp add: files_struct_kfields_def vm_ty klayout_defs flip: numeral_2_eq_2)

definition bpf_attr_map_create_kfields :: kfields where
  "bpf_attr_map_create_kfields =
     [Fld ''map_type'' c_u32, Fld ''key_size'' c_u32, Fld ''value_size'' c_u32,
      Fld ''max_entries'' c_u32, Fld ''map_flags'' c_u32, Fld ''inner_map_fd'' c_u32,
      Fld ''numa_node'' c_u32, Fld ''map_name'' (c_arr 16 c_u8), Fld ''map_ifindex'' c_u32,
      Fld ''btf_fd'' c_u32, Fld ''btf_key_type_id'' c_u32, Fld ''btf_value_type_id'' c_u32,
      Fld ''btf_vmlinux_value_type_id'' c_u32, Fld ''map_extra'' c_u64]"

lemma bpf_attr_map_create_ty [vm_ty]: "k_struct_ty bpf_attr_map_create_kfields = (72, 8)"
  by (simp add: bpf_attr_map_create_kfields_def vm_ty klayout_defs flip: numeral_2_eq_2)

definition bpf_attr_map_elem_kfields :: kfields where
  "bpf_attr_map_elem_kfields =
     [Fld ''map_fd'' c_u32, Fld ''key'' c_u64, Fld ''_anon1'' (k_union_ty [Fld ''value'' c_u64,
      Fld ''next_key'' c_u64]), Fld ''flags'' c_u64]"

lemma bpf_attr_map_elem_ty [vm_ty]: "k_struct_ty bpf_attr_map_elem_kfields = (32, 8)"
  by (simp add: bpf_attr_map_elem_kfields_def vm_ty klayout_defs flip: numeral_2_eq_2)

definition bpf_attr_batch_kfields :: kfields where
  "bpf_attr_batch_kfields =
     [Fld ''in_batch'' c_u64, Fld ''out_batch'' c_u64, Fld ''keys'' c_u64, Fld ''values'' c_u64,
      Fld ''count'' c_u32, Fld ''map_fd'' c_u32, Fld ''elem_flags'' c_u64, Fld ''flags'' c_u64]"

lemma bpf_attr_batch_ty [vm_ty]: "k_struct_ty bpf_attr_batch_kfields = (56, 8)"
  by (simp add: bpf_attr_batch_kfields_def vm_ty klayout_defs flip: numeral_2_eq_2)

definition bpf_attr_prog_load_kfields :: kfields where
  "bpf_attr_prog_load_kfields =
     [Fld ''prog_type'' c_u32, Fld ''insn_cnt'' c_u32, Fld ''insns'' c_u64, Fld ''license'' c_u64,
      Fld ''log_level'' c_u32, Fld ''log_size'' c_u32, Fld ''log_buf'' c_u64,
      Fld ''kern_version'' c_u32, Fld ''prog_flags'' c_u32, Fld ''prog_name'' (c_arr 16 c_u8),
      Fld ''prog_ifindex'' c_u32, Fld ''expected_attach_type'' c_u32, Fld ''prog_btf_fd'' c_u32,
      Fld ''func_info_rec_size'' c_u32, Fld ''func_info'' c_u64, Fld ''func_info_cnt'' c_u32,
      Fld ''line_info_rec_size'' c_u32, Fld ''line_info'' c_u64, Fld ''line_info_cnt'' c_u32,
      Fld ''attach_btf_id'' c_u32, Fld ''_anon1'' (k_union_ty [Fld ''attach_prog_fd'' c_u32,
      Fld ''attach_btf_obj_fd'' c_u32]), Fld ''core_relo_cnt'' c_u32, Fld ''fd_array'' c_u64,
      Fld ''core_relos'' c_u64, Fld ''core_relo_rec_size'' c_u32, Fld ''log_true_size'' c_u32]"

lemma bpf_attr_prog_load_ty [vm_ty]: "k_struct_ty bpf_attr_prog_load_kfields = (144, 8)"
  by (simp add: bpf_attr_prog_load_kfields_def vm_ty klayout_defs flip: numeral_2_eq_2)

definition bpf_attr_obj_kfields :: kfields where
  "bpf_attr_obj_kfields =
     [Fld ''pathname'' c_u64, Fld ''bpf_fd'' c_u32, Fld ''file_flags'' c_u32, Fld ''path_fd'' c_u32]"

lemma bpf_attr_obj_ty [vm_ty]: "k_struct_ty bpf_attr_obj_kfields = (24, 8)"
  by (simp add: bpf_attr_obj_kfields_def vm_ty klayout_defs flip: numeral_2_eq_2)

definition bpf_attr_prog_attach_kfields :: kfields where
  "bpf_attr_prog_attach_kfields =
     [Fld ''_anon1'' (k_union_ty [Fld ''target_fd'' c_u32, Fld ''target_ifindex'' c_u32]),
      Fld ''attach_bpf_fd'' c_u32, Fld ''attach_type'' c_u32, Fld ''attach_flags'' c_u32,
      Fld ''replace_bpf_fd'' c_u32, Fld ''_anon2'' (k_union_ty [Fld ''relative_fd'' c_u32,
      Fld ''relative_id'' c_u32]), Fld ''expected_revision'' c_u64]"

lemma bpf_attr_prog_attach_ty [vm_ty]: "k_struct_ty bpf_attr_prog_attach_kfields = (32, 8)"
  by (simp add: bpf_attr_prog_attach_kfields_def vm_ty klayout_defs flip: numeral_2_eq_2)

definition bpf_attr_test_kfields :: kfields where
  "bpf_attr_test_kfields =
     [Fld ''prog_fd'' c_u32, Fld ''retval'' c_u32, Fld ''data_size_in'' c_u32,
      Fld ''data_size_out'' c_u32, Fld ''data_in'' c_u64, Fld ''data_out'' c_u64,
      Fld ''repeat'' c_u32, Fld ''duration'' c_u32, Fld ''ctx_size_in'' c_u32,
      Fld ''ctx_size_out'' c_u32, Fld ''ctx_in'' c_u64, Fld ''ctx_out'' c_u64, Fld ''flags'' c_u32,
      Fld ''cpu'' c_u32, Fld ''batch_size'' c_u32]"

lemma bpf_attr_test_ty [vm_ty]: "k_struct_ty bpf_attr_test_kfields = (80, 8)"
  by (simp add: bpf_attr_test_kfields_def vm_ty klayout_defs flip: numeral_2_eq_2)

definition bpf_attr_id_kfields :: kfields where
  "bpf_attr_id_kfields =
     [Fld ''start_id'' c_u32, Fld ''prog_id'' c_u32, Fld ''map_id'' c_u32, Fld ''btf_id'' c_u32,
      Fld ''link_id'' c_u32]"

lemma bpf_attr_id_ty [vm_ty]: "k_union_ty bpf_attr_id_kfields = (4, 4)"
  by (simp add: bpf_attr_id_kfields_def vm_ty klayout_defs flip: numeral_2_eq_2)

definition bpf_attr_get_id_kfields :: kfields where
  "bpf_attr_get_id_kfields =
     [Fld ''_anon1'' (k_union_ty bpf_attr_id_kfields), Fld ''next_id'' c_u32,
      Fld ''open_flags'' c_u32]"

lemma bpf_attr_get_id_ty [vm_ty]: "k_struct_ty bpf_attr_get_id_kfields = (12, 4)"
  by (simp add: bpf_attr_get_id_kfields_def vm_ty klayout_defs flip: numeral_2_eq_2)

definition bpf_attr_info_kfields :: kfields where
  "bpf_attr_info_kfields =
     [Fld ''bpf_fd'' c_u32, Fld ''info_len'' c_u32, Fld ''info'' c_u64]"

lemma bpf_attr_info_ty [vm_ty]: "k_struct_ty bpf_attr_info_kfields = (16, 8)"
  by (simp add: bpf_attr_info_kfields_def vm_ty klayout_defs flip: numeral_2_eq_2)

definition bpf_attr_query_kfields :: kfields where
  "bpf_attr_query_kfields =
     [Fld ''_anon1'' (k_union_ty [Fld ''target_fd'' c_u32, Fld ''target_ifindex'' c_u32]),
      Fld ''attach_type'' c_u32, Fld ''query_flags'' c_u32, Fld ''attach_flags'' c_u32,
      Fld ''prog_ids'' c_u64, Fld ''_anon2'' (k_union_ty [Fld ''prog_cnt'' c_u32,
      Fld ''count'' c_u32]), Fld ''prog_attach_flags'' c_u64, Fld ''link_ids'' c_u64,
      Fld ''link_attach_flags'' c_u64, Fld ''revision'' c_u64]"

lemma bpf_attr_query_ty [vm_ty]: "k_struct_ty bpf_attr_query_kfields = (64, 8)"
  by (simp add: bpf_attr_query_kfields_def vm_ty klayout_defs flip: numeral_2_eq_2)

definition bpf_attr_raw_tracepoint_kfields :: kfields where
  "bpf_attr_raw_tracepoint_kfields =
     [Fld ''name'' c_u64, Fld ''prog_fd'' c_u32]"

lemma bpf_attr_raw_tracepoint_ty [vm_ty]: "k_struct_ty bpf_attr_raw_tracepoint_kfields = (16, 8)"
  by (simp add: bpf_attr_raw_tracepoint_kfields_def vm_ty klayout_defs flip: numeral_2_eq_2)

definition bpf_attr_btf_load_kfields :: kfields where
  "bpf_attr_btf_load_kfields =
     [Fld ''btf'' c_u64, Fld ''btf_log_buf'' c_u64, Fld ''btf_size'' c_u32,
      Fld ''btf_log_size'' c_u32, Fld ''btf_log_level'' c_u32, Fld ''btf_log_true_size'' c_u32]"

lemma bpf_attr_btf_load_ty [vm_ty]: "k_struct_ty bpf_attr_btf_load_kfields = (32, 8)"
  by (simp add: bpf_attr_btf_load_kfields_def vm_ty klayout_defs flip: numeral_2_eq_2)

definition bpf_attr_task_fd_query_kfields :: kfields where
  "bpf_attr_task_fd_query_kfields =
     [Fld ''pid'' c_u32, Fld ''fd'' c_u32, Fld ''flags'' c_u32, Fld ''buf_len'' c_u32,
      Fld ''buf'' c_u64, Fld ''prog_id'' c_u32, Fld ''fd_type'' c_u32, Fld ''probe_offset'' c_u64,
      Fld ''probe_addr'' c_u64]"

lemma bpf_attr_task_fd_query_ty [vm_ty]: "k_struct_ty bpf_attr_task_fd_query_kfields = (48, 8)"
  by (simp add: bpf_attr_task_fd_query_kfields_def vm_ty klayout_defs flip: numeral_2_eq_2)

definition bpf_attr_link_create_kfields :: kfields where
  "bpf_attr_link_create_kfields =
     [Fld ''_anon1'' (k_union_ty [Fld ''prog_fd'' c_u32, Fld ''map_fd'' c_u32]),
      Fld ''_anon2'' (k_union_ty [Fld ''target_fd'' c_u32, Fld ''target_ifindex'' c_u32]),
      Fld ''attach_type'' c_u32, Fld ''flags'' c_u32,
      Fld ''_anon3'' (k_union_ty [Fld ''target_btf_id'' c_u32,
      Fld ''_anon1'' (k_struct_ty [Fld ''iter_info'' c_u64, Fld ''iter_info_len'' c_u32]),
      Fld ''perf_event'' (k_struct_ty [Fld ''bpf_cookie'' c_u64]),
      Fld ''kprobe_multi'' (k_struct_ty [Fld ''flags'' c_u32, Fld ''cnt'' c_u32, Fld ''syms'' c_u64,
      Fld ''addrs'' c_u64, Fld ''cookies'' c_u64]),
      Fld ''tracing'' (k_struct_ty [Fld ''target_btf_id'' c_u32, Fld ''cookie'' c_u64]),
      Fld ''netfilter'' (k_struct_ty [Fld ''pf'' c_u32, Fld ''hooknum'' c_u32,
      Fld ''priority'' c_u32, Fld ''flags'' c_u32]),
      Fld ''tcx'' (k_struct_ty [Fld ''_anon1'' (k_union_ty [Fld ''relative_fd'' c_u32,
      Fld ''relative_id'' c_u32]), Fld ''expected_revision'' c_u64]),
      Fld ''uprobe_multi'' (k_struct_ty [Fld ''path'' c_u64, Fld ''offsets'' c_u64,
      Fld ''ref_ctr_offsets'' c_u64, Fld ''cookies'' c_u64, Fld ''cnt'' c_u32, Fld ''flags'' c_u32,
      Fld ''pid'' c_u32]),
      Fld ''netkit'' (k_struct_ty [Fld ''_anon1'' (k_union_ty [Fld ''relative_fd'' c_u32,
      Fld ''relative_id'' c_u32]), Fld ''expected_revision'' c_u64])])]"

lemma bpf_attr_link_create_ty [vm_ty]: "k_struct_ty bpf_attr_link_create_kfields = (64, 8)"
  by (simp add: bpf_attr_link_create_kfields_def vm_ty klayout_defs flip: numeral_2_eq_2)

definition bpf_attr_link_update_kfields :: kfields where
  "bpf_attr_link_update_kfields =
     [Fld ''link_fd'' c_u32, Fld ''_anon1'' (k_union_ty [Fld ''new_prog_fd'' c_u32,
      Fld ''new_map_fd'' c_u32]), Fld ''flags'' c_u32,
      Fld ''_anon2'' (k_union_ty [Fld ''old_prog_fd'' c_u32, Fld ''old_map_fd'' c_u32])]"

lemma bpf_attr_link_update_ty [vm_ty]: "k_struct_ty bpf_attr_link_update_kfields = (16, 4)"
  by (simp add: bpf_attr_link_update_kfields_def vm_ty klayout_defs flip: numeral_2_eq_2)

definition bpf_attr_link_detach_kfields :: kfields where
  "bpf_attr_link_detach_kfields =
     [Fld ''link_fd'' c_u32]"

lemma bpf_attr_link_detach_ty [vm_ty]: "k_struct_ty bpf_attr_link_detach_kfields = (4, 4)"
  by (simp add: bpf_attr_link_detach_kfields_def vm_ty klayout_defs flip: numeral_2_eq_2)

definition bpf_attr_enable_stats_kfields :: kfields where
  "bpf_attr_enable_stats_kfields =
     [Fld ''type'' c_u32]"

lemma bpf_attr_enable_stats_ty [vm_ty]: "k_struct_ty bpf_attr_enable_stats_kfields = (4, 4)"
  by (simp add: bpf_attr_enable_stats_kfields_def vm_ty klayout_defs flip: numeral_2_eq_2)

definition bpf_attr_iter_create_kfields :: kfields where
  "bpf_attr_iter_create_kfields =
     [Fld ''link_fd'' c_u32, Fld ''flags'' c_u32]"

lemma bpf_attr_iter_create_ty [vm_ty]: "k_struct_ty bpf_attr_iter_create_kfields = (8, 4)"
  by (simp add: bpf_attr_iter_create_kfields_def vm_ty klayout_defs flip: numeral_2_eq_2)

definition bpf_attr_prog_bind_map_kfields :: kfields where
  "bpf_attr_prog_bind_map_kfields =
     [Fld ''prog_fd'' c_u32, Fld ''map_fd'' c_u32, Fld ''flags'' c_u32]"

lemma bpf_attr_prog_bind_map_ty [vm_ty]: "k_struct_ty bpf_attr_prog_bind_map_kfields = (12, 4)"
  by (simp add: bpf_attr_prog_bind_map_kfields_def vm_ty klayout_defs flip: numeral_2_eq_2)

definition bpf_attr_kfields :: kfields where
  "bpf_attr_kfields =
     [Fld ''_anon1'' (k_struct_ty bpf_attr_map_create_kfields),
      Fld ''_anon2'' (k_struct_ty bpf_attr_map_elem_kfields),
      Fld ''batch'' (k_struct_ty bpf_attr_batch_kfields),
      Fld ''_anon3'' (k_struct_ty bpf_attr_prog_load_kfields),
      Fld ''_anon4'' (k_struct_ty bpf_attr_obj_kfields),
      Fld ''_anon5'' (k_struct_ty bpf_attr_prog_attach_kfields),
      Fld ''test'' (k_struct_ty bpf_attr_test_kfields),
      Fld ''_anon6'' (k_struct_ty bpf_attr_get_id_kfields),
      Fld ''info'' (k_struct_ty bpf_attr_info_kfields),
      Fld ''query'' (k_struct_ty bpf_attr_query_kfields),
      Fld ''raw_tracepoint'' (k_struct_ty bpf_attr_raw_tracepoint_kfields),
      Fld ''_anon7'' (k_struct_ty bpf_attr_btf_load_kfields),
      Fld ''task_fd_query'' (k_struct_ty bpf_attr_task_fd_query_kfields),
      Fld ''link_create'' (k_struct_ty bpf_attr_link_create_kfields),
      Fld ''link_update'' (k_struct_ty bpf_attr_link_update_kfields),
      Fld ''link_detach'' (k_struct_ty bpf_attr_link_detach_kfields),
      Fld ''enable_stats'' (k_struct_ty bpf_attr_enable_stats_kfields),
      Fld ''iter_create'' (k_struct_ty bpf_attr_iter_create_kfields),
      Fld ''prog_bind_map'' (k_struct_ty bpf_attr_prog_bind_map_kfields)]"

lemma bpf_attr_ty [vm_ty]: "k_union_ty bpf_attr_kfields = (144, 8)"
  by (simp add: bpf_attr_kfields_def vm_ty klayout_defs flip: numeral_2_eq_2)

definition fred_cs_kfields :: kfields where
  "fred_cs_kfields =
     [Bits ''cs'' c_u64 16, Bits ''sl'' c_u64 2, Bits ''wfe'' c_u64 1]"

lemma fred_cs_ty [vm_ty]: "k_struct_ty fred_cs_kfields = (8, 8)"
  by (simp add: fred_cs_kfields_def vm_ty klayout_defs flip: numeral_2_eq_2)

definition fred_ss_kfields :: kfields where
  "fred_ss_kfields =
     [Bits ''ss'' c_u64 16, Bits ''sti'' c_u64 1, Bits ''swevent'' c_u64 1, Bits ''nmi'' c_u64 1,
      Bits '''' c_u32 13, Bits ''vector'' c_u64 8, Bits '''' c_u16 8, Bits ''type'' c_u64 4,
      Bits '''' c_u8 4, Bits ''enclave'' c_u64 1, Bits ''lm'' c_u64 1, Bits ''nested'' c_u64 1,
      Bits '''' c_u8 1, Bits ''insnlen'' c_u64 4]"

lemma fred_ss_ty [vm_ty]: "k_struct_ty fred_ss_kfields = (8, 8)"
  by (simp add: fred_ss_kfields_def vm_ty klayout_defs flip: numeral_2_eq_2)

definition pt_regs_kfields :: kfields where
  "pt_regs_kfields =
     [Fld ''r15'' c_u64, Fld ''r14'' c_u64, Fld ''r13'' c_u64, Fld ''r12'' c_u64, Fld ''bp'' c_u64,
      Fld ''bx'' c_u64, Fld ''r11'' c_u64, Fld ''r10'' c_u64, Fld ''r9'' c_u64, Fld ''r8'' c_u64,
      Fld ''ax'' c_u64, Fld ''cx'' c_u64, Fld ''dx'' c_u64, Fld ''si'' c_u64, Fld ''di'' c_u64,
      Fld ''orig_ax'' c_u64, Fld ''ip'' c_u64, Fld ''_anon1'' (k_union_ty [Fld ''cs'' c_u16,
      Fld ''csx'' c_u64, Fld ''fred_cs'' (k_struct_ty fred_cs_kfields)]), Fld ''flags'' c_u64,
      Fld ''sp'' c_u64, Fld ''_anon2'' (k_union_ty [Fld ''ss'' c_u16, Fld ''ssx'' c_u64,
      Fld ''fred_ss'' (k_struct_ty fred_ss_kfields)])]"

lemma pt_regs_ty [vm_ty]: "k_struct_ty pt_regs_kfields = (168, 8)"
  by (simp add: pt_regs_kfields_def vm_ty klayout_defs flip: numeral_2_eq_2)

definition bpf_perf_event_data_kfields :: kfields where
  "bpf_perf_event_data_kfields =
     [Fld ''regs'' (k_struct_ty pt_regs_kfields), Fld ''sample_period'' c_u64, Fld ''addr'' c_u64]"

lemma bpf_perf_event_data_ty [vm_ty]: "k_struct_ty bpf_perf_event_data_kfields = (184, 8)"
  by (simp add: bpf_perf_event_data_kfields_def vm_ty klayout_defs flip: numeral_2_eq_2)

definition trace_entry_kfields :: kfields where
  "trace_entry_kfields =
     [Fld ''type'' c_u16, Fld ''flags'' c_u8, Fld ''preempt_count'' c_u8, Fld ''pid'' c_u32]"

lemma trace_entry_ty [vm_ty]: "k_struct_ty trace_entry_kfields = (8, 4)"
  by (simp add: trace_entry_kfields_def vm_ty klayout_defs flip: numeral_2_eq_2)

definition trace_event_raw_io_uring_submit_req_kfields :: kfields where
  "trace_event_raw_io_uring_submit_req_kfields =
     [Fld ''ent'' (k_struct_ty trace_entry_kfields), Fld ''ctx'' c_ptr, Fld ''req'' c_ptr,
      Fld ''user_data'' c_u64, Fld ''opcode'' c_u8, Fld ''flags'' c_u64, Fld ''sq_thread'' c_u8,
      Fld ''__data_loc_op_str'' c_u32, Fld ''__data'' (c_arr 0 c_u8)]"

lemma trace_event_raw_io_uring_submit_req_ty [vm_ty]: "k_struct_ty trace_event_raw_io_uring_submit_req_kfields = (56, 8)"
  by (simp add: trace_event_raw_io_uring_submit_req_kfields_def vm_ty klayout_defs flip: numeral_2_eq_2)

definition trace_event_raw_sys_enter_kfields :: kfields where
  "trace_event_raw_sys_enter_kfields =
     [Fld ''ent'' (k_struct_ty trace_entry_kfields), Fld ''id'' c_u64, Fld ''args'' (c_arr 6 c_u64),
      Fld ''__data'' (c_arr 0 c_u8)]"

lemma trace_event_raw_sys_enter_ty [vm_ty]: "k_struct_ty trace_event_raw_sys_enter_kfields = (64, 8)"
  by (simp add: trace_event_raw_sys_enter_kfields_def vm_ty klayout_defs flip: numeral_2_eq_2)

definition trace_event_raw_sched_process_exec_kfields :: kfields where
  "trace_event_raw_sched_process_exec_kfields =
     [Fld ''ent'' (k_struct_ty trace_entry_kfields), Fld ''__data_loc_filename'' c_u32,
      Fld ''pid'' c_u32, Fld ''old_pid'' c_u32, Fld ''__data'' (c_arr 0 c_u8)]"

lemma trace_event_raw_sched_process_exec_ty [vm_ty]: "k_struct_ty trace_event_raw_sched_process_exec_kfields = (20, 4)"
  by (simp add: trace_event_raw_sched_process_exec_kfields_def vm_ty klayout_defs flip: numeral_2_eq_2)

definition sk_buff_kfields :: kfields where
  "sk_buff_kfields =
     [Fld ''len'' c_u32, Fld ''pkt_type'' c_u32, Fld ''mark'' c_u32, Fld ''queue_mapping'' c_u32,
      Fld ''protocol'' c_u32, Fld ''vlan_present'' c_u32, Fld ''vlan_tci'' c_u32,
      Fld ''vlan_proto'' c_u32, Fld ''priority'' c_u32, Fld ''ingress_ifindex'' c_u32,
      Fld ''ifindex'' c_u32, Fld ''tc_index'' c_u32, Fld ''cb'' (c_arr 5 c_u32), Fld ''hash'' c_u32,
      Fld ''tc_classid'' c_u32, Fld ''data'' c_u32, Fld ''data_end'' c_u32, Fld ''napi_id'' c_u32,
      Fld ''family'' c_u32, Fld ''remote_ip4'' c_u32, Fld ''local_ip4'' c_u32,
      Fld ''remote_ip6'' (c_arr 4 c_u32), Fld ''local_ip6'' (c_arr 4 c_u32),
      Fld ''remote_port'' c_u32, Fld ''local_port'' c_u32, Fld ''data_meta'' c_u32,
      Fld ''_anon1'' (k_union_ty [Fld ''flow_keys'' c_ptr]), Fld ''tstamp'' c_u64,
      Fld ''wire_len'' c_u32, Fld ''gso_segs'' c_u32, Fld ''_anon2'' (k_union_ty [Fld ''sk'' c_ptr]),
      Fld ''gso_size'' c_u32, Fld ''tstamp_type'' c_u8, Fld ''hwtstamp'' c_u64]"

lemma sk_buff_ty [vm_ty]: "k_struct_ty sk_buff_kfields = (192, 8)"
  by (simp add: sk_buff_kfields_def vm_ty klayout_defs flip: numeral_2_eq_2)

definition ethhdr_kfields :: kfields where
  "ethhdr_kfields =
     [Fld ''h_dest'' (c_arr 6 c_u8), Fld ''h_source'' (c_arr 6 c_u8), Fld ''h_proto'' c_u16]"

lemma ethhdr_ty [vm_ty]: "k_struct_ty ethhdr_kfields = (14, 2)"
  by (simp add: ethhdr_kfields_def vm_ty klayout_defs flip: numeral_2_eq_2)

definition iphdr_addrs_kfields :: kfields where
  "iphdr_addrs_kfields =
     [Fld ''saddr'' c_u32, Fld ''daddr'' c_u32]"

lemma iphdr_addrs_ty [vm_ty]: "k_struct_ty iphdr_addrs_kfields = (8, 4)"
  by (simp add: iphdr_addrs_kfields_def vm_ty klayout_defs flip: numeral_2_eq_2)

definition iphdr_kfields :: kfields where
  "iphdr_kfields =
     [Bits ''ihl'' c_u8 4, Bits ''version'' c_u8 4, Fld ''tos'' c_u8, Fld ''tot_len'' c_u16,
      Fld ''id'' c_u16, Fld ''frag_off'' c_u16, Fld ''ttl'' c_u8, Fld ''protocol'' c_u8,
      Fld ''check'' c_u16,
      Fld ''_anon1'' (k_union_ty [Fld ''_anon1'' (k_struct_ty iphdr_addrs_kfields),
      Fld ''addrs'' (k_struct_ty [Fld ''saddr'' c_u32, Fld ''daddr'' c_u32])])]"

lemma iphdr_ty [vm_ty]: "k_struct_ty iphdr_kfields = (20, 4)"
  by (simp add: iphdr_kfields_def vm_ty klayout_defs flip: numeral_2_eq_2)

definition udphdr_kfields :: kfields where
  "udphdr_kfields =
     [Fld ''source'' c_u16, Fld ''dest'' c_u16, Fld ''len'' c_u16, Fld ''check'' c_u16]"

lemma udphdr_ty [vm_ty]: "k_struct_ty udphdr_kfields = (8, 2)"
  by (simp add: udphdr_kfields_def vm_ty klayout_defs flip: numeral_2_eq_2)

definition user_msghdr_kfields :: kfields where
  "user_msghdr_kfields =
     [Fld ''msg_name'' c_ptr, Fld ''msg_namelen'' c_u32, Fld ''msg_iov'' c_ptr,
      Fld ''msg_iovlen'' c_u64, Fld ''msg_control'' c_ptr, Fld ''msg_controllen'' c_u64,
      Fld ''msg_flags'' c_u32]"

lemma user_msghdr_ty [vm_ty]: "k_struct_ty user_msghdr_kfields = (56, 8)"
  by (simp add: user_msghdr_kfields_def vm_ty klayout_defs flip: numeral_2_eq_2)

section \<open>Enumerations\<close>

text \<open>An enum is the list of its enumerators with their values.\<close>

type_synonym cenum = "(string \<times> nat) list"

definition bpf_cmd :: cenum where
  "bpf_cmd =
     [(''BPF_MAP_CREATE'', 0), (''BPF_MAP_LOOKUP_ELEM'', 1), (''BPF_MAP_UPDATE_ELEM'', 2),
      (''BPF_MAP_DELETE_ELEM'', 3), (''BPF_MAP_GET_NEXT_KEY'', 4), (''BPF_PROG_LOAD'', 5),
      (''BPF_OBJ_PIN'', 6), (''BPF_OBJ_GET'', 7), (''BPF_PROG_ATTACH'', 8), (''BPF_PROG_DETACH'', 9),
      (''BPF_PROG_TEST_RUN'', 10), (''BPF_PROG_RUN'', 10), (''BPF_PROG_GET_NEXT_ID'', 11),
      (''BPF_MAP_GET_NEXT_ID'', 12), (''BPF_PROG_GET_FD_BY_ID'', 13), (''BPF_MAP_GET_FD_BY_ID'', 14),
      (''BPF_OBJ_GET_INFO_BY_FD'', 15), (''BPF_PROG_QUERY'', 16), (''BPF_RAW_TRACEPOINT_OPEN'', 17),
      (''BPF_BTF_LOAD'', 18), (''BPF_BTF_GET_FD_BY_ID'', 19), (''BPF_TASK_FD_QUERY'', 20),
      (''BPF_MAP_LOOKUP_AND_DELETE_ELEM'', 21), (''BPF_MAP_FREEZE'', 22), (''BPF_BTF_GET_NEXT_ID'',
      23), (''BPF_MAP_LOOKUP_BATCH'', 24), (''BPF_MAP_LOOKUP_AND_DELETE_BATCH'', 25),
      (''BPF_MAP_UPDATE_BATCH'', 26), (''BPF_MAP_DELETE_BATCH'', 27), (''BPF_LINK_CREATE'', 28),
      (''BPF_LINK_UPDATE'', 29), (''BPF_LINK_GET_FD_BY_ID'', 30), (''BPF_LINK_GET_NEXT_ID'', 31),
      (''BPF_ENABLE_STATS'', 32), (''BPF_ITER_CREATE'', 33), (''BPF_LINK_DETACH'', 34),
      (''BPF_PROG_BIND_MAP'', 35)]"

definition kernel_read_file_id :: cenum where
  "kernel_read_file_id =
     [(''READING_UNKNOWN'', 0), (''READING_FIRMWARE'', 1), (''READING_MODULE'', 2),
      (''READING_KEXEC_IMAGE'', 3), (''READING_KEXEC_INITRAMFS'', 4), (''READING_POLICY'', 5),
      (''READING_X509_CERTIFICATE'', 6), (''READING_MAX_ID'', 7)]"

definition kernel_load_data_id :: cenum where
  "kernel_load_data_id =
     [(''LOADING_UNKNOWN'', 0), (''LOADING_FIRMWARE'', 1), (''LOADING_MODULE'', 2),
      (''LOADING_KEXEC_IMAGE'', 3), (''LOADING_KEXEC_INITRAMFS'', 4), (''LOADING_POLICY'', 5),
      (''LOADING_X509_CERTIFICATE'', 6), (''LOADING_MAX_ID'', 7)]"

lemmas vm_eval = vm_ty klayout_defs numeral_2_eq_2 [symmetric]

end
