(* ===== verification/KG_Kernel.thy ===== *)
theory KG_Kernel
  imports KG_Types KG_Vmlinux
begin

text \<open>
  What a BPF program sees of the kernel while it runs. The kernel structs of \<open>bpf/include/vmlinux.h\<close>
  the sensors dereference are records with the members the sensors read; they live in typed heaps,
  one per struct, and \<open>BPF_CORE_READ\<close> follows a pointer with a faulting read as zero. The record
  \<open>kenv\<close> collects the inputs of one invocation that no file of the repository computes: the
  current task, the helper results, the kernel and user memory, and the outcome of every call that
  may fail (ring-buffer reservation, task-storage creation).
\<close>

section \<open>Kernel structs\<close>

record task_struct =
  ts_pid :: u32
  ts_tgid :: u32
  ts_real_parent :: ptr
  ts_mm :: ptr
  ts_files :: ptr
  ts_nsproxy :: ptr
  ts_comm :: bytes

record mm_struct =
  mm_exe_file :: ptr
  mm_arg_start :: u64
  mm_arg_end :: u64

record kfile =
  f_inode :: ptr
  f_flags :: u32
  f_path_dentry :: ptr

record inode =
  i_mode :: u16
  i_ino :: u64
  i_nlink :: u32
  i_sb :: ptr

record super_block =
  s_dev :: u32
  s_magic :: u64

record dentry =
  d_sb :: ptr

record linux_binprm =
  bprm_file :: ptr

record cred =
  cred_uid :: u32

record nsproxy =
  nsp_mnt_ns :: ptr

record mnt_namespace =
  mns_inum :: u32

record files_struct =
  fs_fdt :: ptr

record fdtable =
  fdt_fd :: ptr

section \<open>Tracepoint records\<close>

text \<open>
  The record the kernel hands to a \<open>sys_enter_*\<close> tracepoint: a common header, the system call number
  and its six arguments, eight bytes each. The sensors declare their own struct for every system
  call and read its members by position; \<open>sys_enter_arg\<close> is what the kernel put there.
\<close>

definition sys_enter_arg :: "region \<Rightarrow> nat \<Rightarrow> u64" where
  "sys_enter_arg ctx i = u64_at ctx (k_offsetof trace_event_raw_sys_enter_kfields ''args'' + 8 * i)"

section \<open>The inputs of one invocation\<close>

record kenv =
  ke_pid_tgid :: u64
  ke_uid_gid :: u64
  ke_cgroup_id :: u64
  ke_ktime :: "nat \<Rightarrow> u64"
  ke_current :: ptr
  ke_cpu :: nat
  ke_tasks :: "ptr \<Rightarrow> task_struct option"
  ke_mms :: "ptr \<Rightarrow> mm_struct option"
  ke_kfiles :: "ptr \<Rightarrow> kfile option"
  ke_inodes :: "ptr \<Rightarrow> inode option"
  ke_sbs :: "ptr \<Rightarrow> super_block option"
  ke_dentries :: "ptr \<Rightarrow> dentry option"
  ke_binprms :: "ptr \<Rightarrow> linux_binprm option"
  ke_creds :: "ptr \<Rightarrow> cred option"
  ke_nsproxies :: "ptr \<Rightarrow> nsproxy option"
  ke_mnt_nss :: "ptr \<Rightarrow> mnt_namespace option"
  ke_files_structs :: "ptr \<Rightarrow> files_struct option"
  ke_fdtables :: "ptr \<Rightarrow> fdtable option"
  ke_kmem :: mem
  ke_umem :: mem
  ke_d_path :: "ptr \<Rightarrow> bytes \<Rightarrow> int \<times> bytes"
  ke_rb :: "nat \<Rightarrow> region option"
  ke_storage_ok :: "ptr \<Rightarrow> bool"
  ke_lru_ok :: bool
  ke_lru_evict :: "dns_tx_key \<Rightarrow> bool"
  ke_stack :: region

text \<open>
  \<open>ke_rb n\<close> is the outcome of the \<open>n\<close>-th reservation of the ring buffer: \<open>None\<close> when it is full,
  otherwise the bytes the reserved sample holds before the program writes to it. \<open>ke_d_path\<close> is
  \<open>bpf_d_path\<close> on the \<open>f_path\<close> of a file: a return code and the new contents of the buffer.
  \<open>ke_storage_ok t\<close> says whether storage for a task can be created, \<open>ke_lru_ok\<close> whether an update
  of the pending DNS transactions finds an element, and \<open>ke_lru_evict\<close> which entries it evicts. \<open>ke_stack\<close> is the program's
  stack before it is written.
\<close>

text \<open>One link of a \<open>BPF_CORE_READ\<close> chain: a null or unreadable pointer reads as zero.\<close>

definition core_read :: "(ptr \<Rightarrow> 'r option) \<Rightarrow> ptr \<Rightarrow> ('r \<Rightarrow> 'v::zero) \<Rightarrow> 'v" where
  "core_read h p sel = (if p = 0 then 0 else case h p of None \<Rightarrow> 0 | Some r \<Rightarrow> sel r)"

text \<open>The upper half of \<open>bpf_get_current_pid_tgid()\<close>, the process id.\<close>

definition current_tgid :: "kenv \<Rightarrow> u32" where
  "current_tgid E = ucast (drop_bit 32 (ke_pid_tgid E))"

text \<open>
  The \<open>comm\<close> member of a task as the source of a string read. The kernel keeps a NUL among its 16 bytes, so that a
  read ends there; a read behind them is taken for a fault.
\<close>

definition task_comm_src :: "kenv \<Rightarrow> ptr \<Rightarrow> nat \<Rightarrow> u8 option" where
  "task_comm_src E t =
     (if t = 0 then (\<lambda>_. None)
      else case ke_tasks E t of None \<Rightarrow> (\<lambda>_. None) | Some r \<Rightarrow> src_buf (ts_comm r))"

text \<open>
  \<open>bpf_get_current_comm(buf, n)\<close>: the task's name, cut to \<open>n - 1\<close> bytes, the rest of the buffer zero.
\<close>

definition current_comm :: "kenv \<Rightarrow> nat \<Rightarrow> bytes" where
  "current_comm E n =
     (case ke_tasks E (ke_current E) of
        None \<Rightarrow> zeros n
      | Some r \<Rightarrow> pad0 n (take (n - 1) (cstr (ts_comm r))))"

text \<open>
  The documented contract of \<open>bpf_d_path\<close>: it keeps the buffer's size, and on success returns the
  length of the path stored at the front of the buffer, its NUL included. The bytes behind are
  unspecified.
\<close>

definition d_path_contract :: "(ptr \<Rightarrow> bytes \<Rightarrow> int \<times> bytes) \<Rightarrow> bool" where
  "d_path_contract d \<longleftrightarrow>
     (\<forall>p b. length (snd (d p b)) = length b \<and>
        (0 \<le> fst (d p b) \<longrightarrow>
           0 < fst (d p b) \<and> nat (fst (d p b)) \<le> length b \<and>
           length (cstr (snd (d p b))) = nat (fst (d p b)) - 1))"

text \<open>Kernel inputs that keep the documented contracts.\<close>

definition kenv_ok :: "kenv \<Rightarrow> bool" where
  "kenv_ok E \<longleftrightarrow> d_path_contract (ke_d_path E)"

lemma length_current_comm [simp, kg_len]: "length (current_comm E n) = n"
  by (simp add: current_comm_def split: option.splits)

lemma sys_enter_arg_at: "sys_enter_arg ctx i = u64_at ctx (16 + 8 * i)"
  by (simp add: sys_enter_arg_def k_offsetof_def trace_event_raw_sys_enter_kfields_def vm_eval)

lemma core_read_null [simp]: "core_read h 0 sel = 0"
  by (simp add: core_read_def)

lemma core_read_Some: "p \<noteq> 0 \<Longrightarrow> h p = Some r \<Longrightarrow> core_read h p sel = sel r"
  by (simp add: core_read_def)

end
