(* ===== verification/KG_Maps.thy ===== *)
theory KG_Maps
  imports KG_Kernel
begin

text \<open>
  \<open>bpf/maps.h\<close> and the map of \<open>selfprotect.h\<close>: the state the BPF programs share. The part only
  user space writes (path lists, trust sets, switches) is the record \<open>policy\<close>; the part the
  programs themselves write (task storage, scratch buffers, pending DNS transactions, the ring
  buffer) is the rest of \<open>bstate\<close>. A hash map is a HOL map from key to value. The
  longest-prefix-match trie and the eviction of the LRU map belong to the kernel and appear as
  parameters, \<open>lpm_lookup\<close> and the \<open>ke_lru\<close> fields of the kernel inputs.

  The locale \<open>bpf_program\<close> is the contract every program of the object keeps towards the rest of
  the system; each sensor interprets it.
\<close>

section \<open>State\<close>

record policy =
  blocked_paths :: "bytes \<Rightarrow> u8 option"
  suspicious_paths :: "bytes \<Rightarrow> u8 option"
  sensitive_write_paths :: "bytes \<Rightarrow> u8 option"
  blocked_write_paths :: "bytes \<Rightarrow> u8 option"
  allowed_ptrace_attaches :: "file_id \<Rightarrow> u8 option"
  container_cgroups :: "u64 \<Rightarrow> u8 option"
  blocked_prefix :: "(lpm_prefix_key \<times> u8) list"
  lpm_lookup :: "(lpm_prefix_key \<times> u8) list \<Rightarrow> lpm_prefix_key \<Rightarrow> u8 option"
  protected_ids :: "u32 \<Rightarrow> u8 option"
  enforcement_enabled :: u8
  kmod_enforcement_enabled :: u8
  ptrace_enforcement_enabled :: u8
  self_pid :: u32
  host_mnt_ns_inum :: u32

record bstate =
  pol :: policy
  lineage_map :: "ptr \<Rightarrow> process_lineage option"
  scratch_map :: "nat \<Rightarrow> scratch_buffer option"
  exec_scratch_map :: "u64 \<Rightarrow> exec_scratch option"
  dns_pending_tx :: "dns_tx_key \<Rightarrow> dns_tx_val option"
  rb :: "event list"
  rb_seq :: nat

text \<open>
  \<open>rb\<close> holds the samples submitted so far, oldest first; \<open>rb_seq\<close> counts reservations.
\<close>

section \<open>Map operations\<close>

text \<open>\<open>bpf_map_lookup_elem(&scratch_map, &zero)\<close>: this CPU's scratch buffer.\<close>

definition get_scratch :: "kenv \<Rightarrow> bstate \<Rightarrow> scratch_buffer option" where
  "get_scratch E s = scratch_map s (ke_cpu E)"

definition put_scratch :: "kenv \<Rightarrow> scratch_buffer \<Rightarrow> bstate \<Rightarrow> bstate" where
  "put_scratch E b s = s\<lparr>scratch_map := (scratch_map s)(ke_cpu E := Some b)\<rparr>"

text \<open>\<open>bpf_task_storage_get(&lineage_map, t, 0, 0)\<close>.\<close>

definition storage_get :: "ptr \<Rightarrow> bstate \<Rightarrow> process_lineage option" where
  "storage_get t s = lineage_map s t"

text \<open>
  \<open>bpf_task_storage_get(..., BPF_LOCAL_STORAGE_GET_F_CREATE)\<close> followed by writes through the
  pointer: the entry is created zeroed when it is missing, and nothing happens when it can be
  neither found nor created.
\<close>

definition storage_upd ::
    "kenv \<Rightarrow> ptr \<Rightarrow> (process_lineage \<Rightarrow> process_lineage) \<Rightarrow> bstate \<Rightarrow> bstate" where
  "storage_upd E t f s =
     (case lineage_map s t of
        Some l \<Rightarrow> s\<lparr>lineage_map := (lineage_map s)(t \<mapsto> f l)\<rparr>
      | None \<Rightarrow>
          if ke_storage_ok E t
          then s\<lparr>lineage_map := (lineage_map s)(t \<mapsto> f process_lineage_zero)\<rparr>
          else s)"

text \<open>Writes through a pointer an earlier lookup returned.\<close>

definition storage_set :: "ptr \<Rightarrow> process_lineage \<Rightarrow> bstate \<Rightarrow> bstate" where
  "storage_set t l s = s\<lparr>lineage_map := (lineage_map s)(t \<mapsto> l)\<rparr>"

text \<open>
  \<open>bpf_ringbuf_reserve\<close>: the bytes of a fresh sample, or nothing; \<open>bpf_ringbuf_submit\<close>. A discarded
  sample is one that is never submitted.
\<close>

definition rb_reserve :: "kenv \<Rightarrow> bstate \<Rightarrow> region option \<times> bstate" where
  "rb_reserve E s = (ke_rb E (rb_seq s), s\<lparr>rb_seq := Suc (rb_seq s)\<rparr>)"

definition rb_submit :: "event \<Rightarrow> bstate \<Rightarrow> bstate" where
  "rb_submit e s = s\<lparr>rb := rb s @ [e]\<rparr>"

text \<open>
  Reserve, assign, submit, for a program that gives up when the reservation fails. The builder
  receives the reserved bytes and the state.
\<close>

definition emit :: "kenv \<Rightarrow> (region \<Rightarrow> bstate \<Rightarrow> event) \<Rightarrow> bstate \<Rightarrow> bstate" where
  "emit E f s =
     (let (sample, s') = rb_reserve E s in
      case sample of None \<Rightarrow> s' | Some m \<Rightarrow> rb_submit (f m s') s')"

text \<open>
  \<open>bpf_map_update_elem(&dns_pending_tx, ..., BPF_ANY)\<close> on an LRU hash: the entry is stored unless no
  element can be allocated, and any other entries may be evicted to make room.
\<close>

definition dns_update :: "kenv \<Rightarrow> dns_tx_key \<Rightarrow> dns_tx_val \<Rightarrow> bstate \<Rightarrow> bstate" where
  "dns_update E key val s =
     s\<lparr>dns_pending_tx :=
         (\<lambda>k. if k = key \<and> ke_lru_ok E then Some val
              else if k \<noteq> key \<and> ke_lru_evict E k then None
              else dns_pending_tx s k)\<rparr>"

definition dns_delete :: "dns_tx_key \<Rightarrow> bstate \<Rightarrow> bstate" where
  "dns_delete key s = s\<lparr>dns_pending_tx := (dns_pending_tx s)(key := None)\<rparr>"

section \<open>Well-formed states\<close>

definition scratch_wf :: "scratch_buffer \<Rightarrow> bool" where
  "scratch_wf b \<longleftrightarrow> length (primary b) = PATH_BUF_SIZE \<and> length (walk b) = PATH_BUF_SIZE"

definition exec_scratch_wf :: "exec_scratch \<Rightarrow> bool" where
  "exec_scratch_wf x \<longleftrightarrow> length (es_args x) = PATH_BUF_SIZE"

definition dns_val_wf :: "dns_tx_val \<Rightarrow> bool" where
  "dns_val_wf v \<longleftrightarrow> length (dv_qname v) = 128"

definition bstate_wf :: "bstate \<Rightarrow> bool" where
  "bstate_wf s \<longleftrightarrow>
     (\<forall>t l. lineage_map s t = Some l \<longrightarrow> lineage_wf l) \<and>
     (\<forall>c b. scratch_map s c = Some b \<longrightarrow> scratch_wf b) \<and>
     (\<forall>k x. exec_scratch_map s k = Some x \<longrightarrow> exec_scratch_wf x) \<and>
     (\<forall>k v. dns_pending_tx s k = Some v \<longrightarrow> dns_val_wf v) \<and>
     (\<forall>e \<in> set (rb s). event_wf e)"

text \<open>
  A step of the shared state as every program makes it: from a well-formed state it reaches a
  well-formed one, leaves the policy alone and only appends to the ring buffer.
\<close>

definition kg_step :: "bstate \<Rightarrow> bstate \<Rightarrow> bool" where
  "kg_step s s' \<longleftrightarrow>
     (bstate_wf s \<longrightarrow> bstate_wf s' \<and> pol s' = pol s \<and> (\<exists>evs. rb s' = rb s @ evs))"

section \<open>Lemmas\<close>

lemma kg_step_refl [intro!, simp]: "kg_step s s"
  by (simp add: kg_step_def)

lemma kg_step_trans [trans]: "kg_step s t \<Longrightarrow> kg_step t u \<Longrightarrow> kg_step s u"
  by (fastforce simp: kg_step_def)

lemma kg_stepI: "(bstate_wf s \<Longrightarrow> kg_step s s') \<Longrightarrow> kg_step s s'"
  by (auto simp: kg_step_def)

lemma kg_step_wf: "kg_step s s' \<Longrightarrow> bstate_wf s \<Longrightarrow> bstate_wf s'"
  by (simp add: kg_step_def)

lemma kg_step_pol: "kg_step s s' \<Longrightarrow> bstate_wf s \<Longrightarrow> pol s' = pol s"
  by (simp add: kg_step_def)

lemma storage_wf: "bstate_wf s \<Longrightarrow> storage_get t s = Some l \<Longrightarrow> lineage_wf l"
  by (auto simp: bstate_wf_def storage_get_def)

lemma get_scratch_wf: "bstate_wf s \<Longrightarrow> get_scratch E s = Some b \<Longrightarrow> scratch_wf b"
  by (auto simp: bstate_wf_def get_scratch_def)

lemma put_scratch_step:
  assumes "bstate_wf s \<Longrightarrow> scratch_wf b"
  shows "kg_step s (put_scratch E b s)"
  using assms by (auto simp: kg_step_def bstate_wf_def put_scratch_def)

lemma storage_upd_step:
  assumes "\<And>l. bstate_wf s \<Longrightarrow> lineage_wf l \<Longrightarrow> lineage_wf (f l)"
  shows "kg_step s (storage_upd E t f s)"
  using assms by (auto simp: kg_step_def bstate_wf_def storage_upd_def split: option.splits)

lemma storage_set_step:
  assumes "bstate_wf s \<Longrightarrow> lineage_wf l"
  shows "kg_step s (storage_set t l s)"
  using assms by (auto simp: kg_step_def bstate_wf_def storage_set_def)

lemma dns_update_step:
  assumes "dns_val_wf v"
  shows "kg_step s (dns_update E k v s)"
  using assms by (auto simp: kg_step_def bstate_wf_def dns_update_def split: if_splits)

lemma dns_delete_step: "kg_step s (dns_delete k s)"
  by (auto simp: kg_step_def bstate_wf_def dns_delete_def split: if_splits)

lemma rb_reserve_sel [simp]:
  "fst (rb_reserve E s) = ke_rb E (rb_seq s)"
  "lineage_map (snd (rb_reserve E s)) = lineage_map s"
  "scratch_map (snd (rb_reserve E s)) = scratch_map s"
  "exec_scratch_map (snd (rb_reserve E s)) = exec_scratch_map s"
  "dns_pending_tx (snd (rb_reserve E s)) = dns_pending_tx s"
  "pol (snd (rb_reserve E s)) = pol s"
  "rb (snd (rb_reserve E s)) = rb s"
  "rb_seq (snd (rb_reserve E s)) = Suc (rb_seq s)"
  by (simp_all add: rb_reserve_def)

lemma rb_submit_sel [simp, kg_frame]:
  "lineage_map (rb_submit e s) = lineage_map s"
  "scratch_map (rb_submit e s) = scratch_map s"
  "exec_scratch_map (rb_submit e s) = exec_scratch_map s"
  "dns_pending_tx (rb_submit e s) = dns_pending_tx s"
  "pol (rb_submit e s) = pol s"
  "rb (rb_submit e s) = rb s @ [e]"
  "rb_seq (rb_submit e s) = rb_seq s"
  by (simp_all add: rb_submit_def)

lemma rb_reserve_step: "kg_step s (snd (rb_reserve E s))"
  by (simp add: kg_step_def bstate_wf_def)

lemma rb_submit_step: "(bstate_wf s \<Longrightarrow> event_wf e) \<Longrightarrow> kg_step s (rb_submit e s)"
  by (auto simp: kg_step_def bstate_wf_def)

lemma bstate_wf_submit [simp]: "bstate_wf (rb_submit e s) \<longleftrightarrow> bstate_wf s \<and> event_wf e"
  by (auto simp: bstate_wf_def)

lemma rb_submit_after:
  assumes "kg_step s t" "bstate_wf s \<Longrightarrow> event_wf e"
  shows "kg_step s (rb_submit e t)"
  using assms by (simp add: kg_step_def) (metis append_assoc)

lemma emit_step:
  assumes "\<And>m s'. bstate_wf s' \<Longrightarrow> event_wf (f m s')"
  shows "kg_step s (emit E f s)"
proof (cases "ke_rb E (rb_seq s)")
  case None
  then show ?thesis using rb_reserve_step by (simp add: emit_def case_prod_unfold Let_def)
next
  case (Some m)
  have "kg_step s (rb_submit (f m (snd (rb_reserve E s))) (snd (rb_reserve E s)))"
    by (rule kg_step_trans [OF rb_reserve_step rb_submit_step]) (rule assms)
  with Some show ?thesis by (simp add: emit_def case_prod_unfold Let_def)
qed

text \<open>What each operation leaves alone.\<close>

lemma emit_frame [simp, kg_frame]:
  "lineage_map (emit E f s) = lineage_map s"
  "scratch_map (emit E f s) = scratch_map s"
  "exec_scratch_map (emit E f s) = exec_scratch_map s"
  "dns_pending_tx (emit E f s) = dns_pending_tx s"
  "pol (emit E f s) = pol s"
  "rb_seq (emit E f s) = Suc (rb_seq s)"
  by (simp_all add: emit_def Let_def case_prod_unfold split: option.splits)

lemma emit_rb:
  "rb (emit E f s) =
     rb s @ (case ke_rb E (rb_seq s) of None \<Rightarrow> [] | Some m \<Rightarrow> [f m (snd (rb_reserve E s))])"
  by (simp add: emit_def Let_def case_prod_unfold split: option.splits)

lemma put_scratch_frame [simp, kg_frame]:
  "lineage_map (put_scratch E b s) = lineage_map s"
  "exec_scratch_map (put_scratch E b s) = exec_scratch_map s"
  "dns_pending_tx (put_scratch E b s) = dns_pending_tx s"
  "pol (put_scratch E b s) = pol s"
  "rb (put_scratch E b s) = rb s"
  "rb_seq (put_scratch E b s) = rb_seq s"
  "get_scratch E (put_scratch E b s) = Some b"
  by (simp_all add: put_scratch_def get_scratch_def)

lemma storage_upd_frame [simp, kg_frame]:
  "scratch_map (storage_upd E t f s) = scratch_map s"
  "exec_scratch_map (storage_upd E t f s) = exec_scratch_map s"
  "dns_pending_tx (storage_upd E t f s) = dns_pending_tx s"
  "pol (storage_upd E t f s) = pol s"
  "rb (storage_upd E t f s) = rb s"
  "rb_seq (storage_upd E t f s) = rb_seq s"
  by (simp_all add: storage_upd_def split: option.splits)

lemma storage_upd_other [simp]:
  "t' \<noteq> t \<Longrightarrow> lineage_map (storage_upd E t f s) t' = lineage_map s t'"
  by (simp add: storage_upd_def split: option.splits)

lemma storage_set_frame [simp, kg_frame]:
  "lineage_map (storage_set t l s) = (lineage_map s)(t \<mapsto> l)"
  "scratch_map (storage_set t l s) = scratch_map s"
  "exec_scratch_map (storage_set t l s) = exec_scratch_map s"
  "dns_pending_tx (storage_set t l s) = dns_pending_tx s"
  "pol (storage_set t l s) = pol s"
  "rb (storage_set t l s) = rb s"
  "rb_seq (storage_set t l s) = rb_seq s"
  by (simp_all add: storage_set_def)

lemma dns_frame [simp, kg_frame]:
  "lineage_map (dns_update E k v s) = lineage_map s" "lineage_map (dns_delete k s) = lineage_map s"
  "scratch_map (dns_update E k v s) = scratch_map s" "scratch_map (dns_delete k s) = scratch_map s"
  "exec_scratch_map (dns_update E k v s) = exec_scratch_map s"
  "exec_scratch_map (dns_delete k s) = exec_scratch_map s"
  "pol (dns_update E k v s) = pol s" "pol (dns_delete k s) = pol s"
  "rb (dns_update E k v s) = rb s" "rb (dns_delete k s) = rb s"
  "rb_seq (dns_update E k v s) = rb_seq s" "rb_seq (dns_delete k s) = rb_seq s"
  "dns_pending_tx (dns_delete k s) = (dns_pending_tx s)(k := None)"
  by (simp_all add: dns_update_def dns_delete_def)

section \<open>The contract of a program\<close>

locale bpf_program =
  fixes run :: "kenv \<Rightarrow> 'c \<Rightarrow> bstate \<Rightarrow> int \<times> bstate"
  assumes step: "kenv_ok E \<Longrightarrow> kg_step s (snd (run E c s))"
begin

text \<open>A sequence of invocations, each with its own kernel inputs.\<close>

primrec runs :: "(kenv \<times> 'c) list \<Rightarrow> bstate \<Rightarrow> bstate" where
  "runs [] s = s"
| "runs (x # xs) s = runs xs (snd (run (fst x) (snd x) s))"

lemma runs_step: "\<forall>x \<in> set xs. kenv_ok (fst x) \<Longrightarrow> kg_step s (runs xs s)"
proof (induction xs arbitrary: s)
  case (Cons x xs)
  have "kg_step s (snd (run (fst x) (snd x) s))" using Cons.prems by (intro step) simp
  also have "kg_step \<dots> (runs xs \<dots>)" using Cons by simp
  finally show ?case by simp
qed simp

lemma runs_wf: "\<forall>x \<in> set xs. kenv_ok (fst x) \<Longrightarrow> bstate_wf s \<Longrightarrow> bstate_wf (runs xs s)"
  by (rule kg_step_wf [OF runs_step])

lemma runs_pol: "\<forall>x \<in> set xs. kenv_ok (fst x) \<Longrightarrow> bstate_wf s \<Longrightarrow> pol (runs xs s) = pol s"
  by (rule kg_step_pol [OF runs_step])

lemma runs_samples_kept:
  "\<forall>x \<in> set xs. kenv_ok (fst x) \<Longrightarrow> bstate_wf s \<Longrightarrow> e \<in> set (rb s) \<Longrightarrow> e \<in> set (rb (runs xs s))"
  using runs_step [of xs s] by (auto simp: kg_step_def)

end

text \<open>A sensor on a tracepoint, a perf event or a traffic hook never interferes: it returns 0.\<close>

locale sensor = bpf_program +
  assumes returns_0: "fst (run E c s) = 0"

text \<open>An LSM hook allows (0) or denies (\<open>-EPERM\<close>, that is \<open>-1\<close>).\<close>

locale lsm_hook = bpf_program +
  assumes verdict: "fst (run E c s) = 0 \<or> fst (run E c s) = -1"

sublocale sensor \<subseteq> lsm_hook
  by unfold_locales (simp add: returns_0)

end
