(* ===== verification/KG_Helpers.thy ===== *)
theory KG_Helpers
  imports KG_Maps "HOL-Library.Sublist"
begin

text \<open>
  \<open>bpf/helpers.h\<close>: the inline functions the sensors share. Executable identity of a task, the
  directory-prefix search over a path map, bounded path and argument reads, the common event
  header, the canonical absolute path, and the longest-prefix block list. Results an out-parameter
  carries are returned; a function that returns \<open>-1\<close> without writing its out-parameter returns
  \<open>None\<close>.
\<close>

section \<open>Operations\<close>

definition get_task_exe_id :: "kenv \<Rightarrow> ptr \<Rightarrow> file_id option" where
  "get_task_exe_id E task =
     (if task = 0 then None else
      let mm = core_read (ke_tasks E) task ts_mm in
      if mm = 0 then None else
      let exe = core_read (ke_mms E) mm mm_exe_file in
      if exe = 0 then None else
      let ino = core_read (ke_kfiles E) exe f_inode in
      if ino = 0 then None else
      Some \<lparr>fi_dev = ucast (core_read (ke_sbs E) (core_read (ke_inodes E) ino i_sb) s_dev),
            fi_ino = core_read (ke_inodes E) ino i_ino\<rparr>)"

definition get_current_exe_id :: "kenv \<Rightarrow> file_id option" where
  "get_current_exe_id E = get_task_exe_id E (ke_current E)"

text \<open>
  The loop of \<open>path_in_map\<close>, \<open>for (len = PATH_BUF_SIZE - 2; len >= 0; len--)\<close>; the argument is
  \<open>len + 1\<close>. It cuts the working copy one byte further in every iteration and looks it up behind
  every slash.
\<close>

fun prefix_walk :: "(bytes \<Rightarrow> u8 option) \<Rightarrow> nat \<Rightarrow> bytes \<Rightarrow> int \<times> bytes" where
  "prefix_walk m 0 full = (0, full)"
| "prefix_walk m (Suc len) full =
     (if full ! len = 0x2F
      then let cut = full[len + 1 := 0] in
           if m cut = Some 1 then (1, cut) else prefix_walk m len (cut[len + 1 := 0])
      else prefix_walk m len (full[len + 1 := 0]))"

definition path_in_map :: "kenv \<Rightarrow> bytes \<Rightarrow> (bytes \<Rightarrow> u8 option) \<Rightarrow> bstate \<Rightarrow> int \<times> bstate" where
  "path_in_map E path m s =
     (case get_scratch E s of
        None \<Rightarrow> (0, s)
      | Some scratch \<Rightarrow>
          let full = snd (probe_read_str PATH_BUF_SIZE (src_buf path) (zeros PATH_BUF_SIZE)) in
          if m full = Some 1 then (1, put_scratch E (scratch\<lparr>walk := full\<rparr>) s)
          else let (r, full') = prefix_walk m (PATH_BUF_SIZE - 1) full in
               (r, put_scratch E (scratch\<lparr>walk := full'\<rparr>) s))"

text \<open>Returns the helper's count, the destination and the truncation flag.\<close>

definition read_path :: "nat \<Rightarrow> (nat \<Rightarrow> u8 option) \<Rightarrow> bytes \<Rightarrow> int \<times> bytes \<times> u8" where
  "read_path dst_size src dst =
     (let (n, dst') = probe_read_str dst_size src dst in
      if n \<le> 0 then (n, dst', 0)
      else (n, dst', if n = int dst_size then 1 else 0))"

definition fill_common :: "kenv \<Rightarrow> u32 \<Rightarrow> bstate \<Rightarrow> event_hdr" where
  "fill_common E evt_type s =
     (let e = event_hdr_zero
            \<lparr>eh_timestamp_ns := ke_ktime E (rb_seq s),
             eh_pid := ucast (drop_bit 32 (ke_pid_tgid E)),
             eh_uid := ucast (ke_uid_gid E),
             eh_gid := ucast (drop_bit 32 (ke_uid_gid E)),
             eh_cgroup_id := ke_cgroup_id E,
             eh_event_type := evt_type,
             eh_comm := current_comm E 16\<rparr>;
          parent = core_read (ke_tasks E) (ke_current E) ts_real_parent;
          e = (if parent = 0 then e else
               let e = e\<lparr>eh_ppid := core_read (ke_tasks E) parent ts_tgid\<rparr> in
               case get_task_exe_id E parent of
                 None \<Rightarrow> e
               | Some x \<Rightarrow> e\<lparr>eh_parent_exe_dev := fi_dev x, eh_parent_exe_ino := fi_ino x\<rparr>);
          e = (case storage_get (ke_current E) s of
                 None \<Rightarrow> e
               | Some l \<Rightarrow> e\<lparr>eh_ancestor_suspicious := suspicious_ancestor l,
                             eh_ancestor_filename := ancestor_filename l\<rparr>)
      in case get_task_exe_id E (ke_current E) of
           None \<Rightarrow> e
         | Some x \<Rightarrow> e\<lparr>eh_exe_dev := fi_dev x, eh_exe_ino := fi_ino x\<rparr>)"

text \<open>
  The two clearing loops of \<open>get_safe_path\<close>: single bytes up to the next multiple of eight, then
  whole 64-bit words. The masking \<open>(pathlen + 7) & ~7U\<close> cannot wrap, since \<open>pathlen\<close> is at most
  the buffer size.
\<close>

definition clear_bytes :: "nat \<Rightarrow> nat \<Rightarrow> bytes \<Rightarrow> bytes" where
  "clear_bytes pathlen word_start buf =
     fold (\<lambda>i b. if pathlen + i < word_start \<and> pathlen + i < length b then b[pathlen + i := 0] else b)
       [0..<8] buf"

definition clear_words :: "nat \<Rightarrow> bytes \<Rightarrow> bytes" where
  "clear_words word_start buf =
     fold (\<lambda>i b. if i * 8 \<ge> word_start then blit b (i * 8) (zeros 8) else b)
       [0..<PATH_BUF_SIZE div 8] buf"

text \<open>Returns the helper's code, the buffer and the truncation flag, which an error leaves alone.\<close>

definition get_safe_path :: "kenv \<Rightarrow> ptr \<Rightarrow> bytes \<Rightarrow> u8 \<Rightarrow> int \<times> bytes \<times> u8" where
  "get_safe_path E path buf truncated =
     (let buf_size = length buf;
          (ret, buf) = ke_d_path E path (zeros buf_size) in
      if ret < 0 then (ret, buf, truncated) else
      let truncated = (if ret \<ge> int buf_size then 1 else 0);
          pathlen = (if ret > int buf_size then buf_size else nat ret);
          word_start = min buf_size ((pathlen + 7) div 8 * 8) in
      (ret, clear_words word_start (clear_bytes pathlen word_start buf), truncated))"

text \<open>The new contents of \<open>e->args\<close>.\<close>

definition read_process_args :: "kenv \<Rightarrow> bytes \<Rightarrow> bytes" where
  "read_process_args E args =
     (let mm = core_read (ke_tasks E) (ke_current E) ts_mm in
      if mm = 0 then args else
      let arg_start = core_read (ke_mms E) mm mm_arg_start;
          arg_end = core_read (ke_mms E) mm mm_arg_end;
          len = arg_end - arg_start in
      if len = 0 then args else
      let len = (if len > 256 - 2 then 256 - 2 else unat len);
          (r, bs) = probe_read (ke_umem E) arg_start len in
      if r = 0 then blit args 0 (bs @ [0, 0]) else blit args 0 bs)"

definition is_prefix_blocked :: "policy \<Rightarrow> bytes \<Rightarrow> int" where
  "is_prefix_blocked p path =
     (let key = \<lparr>lk_prefixlen = 256 * 8,
                 lk_basename = snd (probe_read_str 256 (src_buf path) (zeros 256))\<rparr> in
      case lpm_lookup p (blocked_prefix p) key of None \<Rightarrow> 0 | Some v \<Rightarrow> uint v)"

section \<open>Specification vocabulary\<close>

text \<open>The path a buffer holds, cut to what fits a map key with its NUL.\<close>

definition path_of :: "bytes \<Rightarrow> bytes" where
  "path_of b = take 255 (cstr b)"

text \<open>A path is listed in a map when it or one of its directories, slash included, is.\<close>

definition listed :: "(bytes \<Rightarrow> u8 option) \<Rightarrow> bytes \<Rightarrow> bool" where
  "listed m p \<longleftrightarrow>
     m (pad0 256 p) = Some 1 \<or> (\<exists>i<length p. p ! i = 0x2F \<and> m (pad0 256 (take (Suc i) p)) = Some 1)"

text \<open>
  The documented semantics of a longest-prefix-match map: an entry matches a key when the first
  \<open>prefixlen\<close> bits of their data agree, and the lookup returns the value of a longest match.
\<close>

definition bits_of :: "bytes \<Rightarrow> bool list" where
  "bits_of bs = concat (map (\<lambda>b. map (\<lambda>i. bit b (7 - i)) [0..<8]) bs)"

definition lpm_matches :: "lpm_prefix_key \<Rightarrow> lpm_prefix_key \<Rightarrow> bool" where
  "lpm_matches k key \<longleftrightarrow>
     unat (lk_prefixlen k) \<le> unat (lk_prefixlen key) \<and>
     take (unat (lk_prefixlen k)) (bits_of (lk_basename k)) =
     take (unat (lk_prefixlen k)) (bits_of (lk_basename key))"

definition lpm_contract ::
    "((lpm_prefix_key \<times> u8) list \<Rightarrow> lpm_prefix_key \<Rightarrow> u8 option) \<Rightarrow> bool" where
  "lpm_contract look \<longleftrightarrow>
     (\<forall>es key.
        (look es key = None \<longrightarrow> (\<forall>(k, v) \<in> set es. \<not> lpm_matches k key)) \<and>
        (\<forall>v. look es key = Some v \<longrightarrow>
           (\<exists>k. (k, v) \<in> set es \<and> lpm_matches k key \<and>
              (\<forall>(k', v') \<in> set es. lpm_matches k' key \<longrightarrow>
                 unat (lk_prefixlen k') \<le> unat (lk_prefixlen k)))))"

text \<open>The entry user space stores for a prefix (\<open>makeLpmKey256\<close> in the loader).\<close>

definition prefix_entry :: "bytes \<Rightarrow> lpm_prefix_key" where
  "prefix_entry p = \<lparr>lk_prefixlen = of_nat (length p * 8), lk_basename = pad0 256 p\<rparr>"

text \<open>A reference lookup, which shows that the contract can be met.\<close>

fun lpm_scan :: "(lpm_prefix_key \<times> u8) list \<Rightarrow> lpm_prefix_key \<Rightarrow> (nat \<times> u8) option" where
  "lpm_scan [] key = None"
| "lpm_scan ((k, v) # es) key =
     (case lpm_scan es key of
        None \<Rightarrow> if lpm_matches k key then Some (unat (lk_prefixlen k), v) else None
      | Some (n, w) \<Rightarrow>
          if lpm_matches k key \<and> n < unat (lk_prefixlen k) then Some (unat (lk_prefixlen k), v)
          else Some (n, w))"

definition lpm_ref :: "(lpm_prefix_key \<times> u8) list \<Rightarrow> lpm_prefix_key \<Rightarrow> u8 option" where
  "lpm_ref es key = map_option snd (lpm_scan es key)"

section \<open>The common header\<close>

lemma fill_common_type [simp]: "eh_event_type (fill_common E t s) = t"
  by (simp add: fill_common_def Let_def split: option.splits)

lemma fill_common_wf [simp, intro]: "bstate_wf s \<Longrightarrow> hdr_wf (fill_common E t s)"
  by (auto simp: fill_common_def Let_def hdr_wf_def event_hdr_zero_def lineage_wf_def
      dest: storage_wf split: option.splits)

lemma fill_common_ids [simp]:
  "eh_pid (fill_common E t s) = current_tgid E"
  "eh_uid (fill_common E t s) = ucast (ke_uid_gid E)"
  "eh_cgroup_id (fill_common E t s) = ke_cgroup_id E"
  "eh_comm (fill_common E t s) = current_comm E 16"
  by (simp_all add: fill_common_def Let_def current_tgid_def split: option.splits)

lemma fill_common_lineage:
  "eh_ancestor_suspicious (fill_common E t s) =
     (case storage_get (ke_current E) s of None \<Rightarrow> 0 | Some l \<Rightarrow> suspicious_ancestor l)"
  by (simp add: fill_common_def Let_def event_hdr_zero_def split: option.splits)

text \<open>The header depends on the state only through the task's lineage and the reservation count.\<close>

lemma fill_common_cong:
  "lineage_map s (ke_current E) = lineage_map s' (ke_current E) \<Longrightarrow> rb_seq s = rb_seq s' \<Longrightarrow>
   fill_common E t s = fill_common E t s'"
  by (simp add: fill_common_def storage_get_def)

section \<open>The prefix search\<close>

lemma length_prefix_walk [kg_len]: "length (snd (prefix_walk m n full)) = length full"
  by (induction m n full rule: prefix_walk.induct) (auto simp: Let_def)

lemma prefix_walk_spec:
  assumes "length full = 256" "n \<le> 255" "\<forall>i. n < i \<and> i < 256 \<longrightarrow> full ! i = 0"
  shows "fst (prefix_walk m n full) =
           (if \<exists>i<n. full ! i = 0x2F \<and> m (pad0 256 (take (Suc i) full)) = Some 1 then 1 else 0)"
  using assms
proof (induction n arbitrary: full)
  case (Suc n)
  let ?cut = "full[Suc n := 0]"
  have cut: "?cut = pad0 256 (take (Suc n) full)"
    using Suc.prems by (intro nth_equalityI) (auto simp: nth_pad0 nth_list_update)
  have again: "?cut[Suc n := 0] = ?cut" by simp
  have takes: "i < n \<Longrightarrow> take (Suc i) ?cut = take (Suc i) full" for i
    by (simp add: take_update_cancel)
  have nths: "i < n \<Longrightarrow> ?cut ! i = full ! i" for i by simp
  have "fst (prefix_walk m n ?cut) =
         (if \<exists>i<n. ?cut ! i = 0x2F \<and> m (pad0 256 (take (Suc i) ?cut)) = Some 1 then 1 else 0)"
    using Suc.prems by (intro Suc.IH) (auto simp: nth_list_update)
  also have "\<dots> = (if \<exists>i<n. full ! i = 0x2F \<and> m (pad0 256 (take (Suc i) full)) = Some 1 then 1 else 0)"
    using takes nths by (metis (no_types, lifting))
  finally have rest: "fst (prefix_walk m n ?cut) = \<dots>" .
  show ?case
  proof (cases "full ! n = 0x2F \<and> m ?cut = Some 1")
    case True
    then show ?thesis using cut by (auto simp: Let_def)
  next
    case False
    then have "fst (prefix_walk m (Suc n) full) = fst (prefix_walk m n ?cut)"
      using again by (auto simp: Let_def)
    then show ?thesis using rest False cut by (auto simp: less_Suc_eq)
  qed
qed simp

lemma path_buffer_copy:
  assumes "length b = 256"
  shows "snd (probe_read_str 256 (src_buf b) (zeros 256)) = pad0 256 (path_of b)"
proof (cases "length (cstr b) < 256")
  case True
  then show ?thesis
    using assms probe_read_str_buf_zeros [of b 256] by (simp add: path_of_def)
next
  case False
  with assms have l: "length (cstr b) = 256" using length_cstr_le [of b] by simp
  then have "cstr b = b" using assms by (metis cstr_def takeWhile_eq_take take_all order_refl)
  moreover have "butlast b @ [0] = pad0 256 (take 255 b)"
    using assms by (intro nth_equalityI) (auto simp: nth_append nth_pad0 nth_butlast)
  ultimately show ?thesis
    using assms l probe_read_str_buf_cut [of b 256 "zeros 256"] by (simp add: path_of_def)
qed

lemma length_path_of: "length (path_of b) \<le> 255"
  by (simp add: path_of_def)

lemma path_of_no_nul: "0 \<notin> set (path_of b)"
  unfolding path_of_def using cstr_no_nul by (metis in_set_takeD)

lemma path_in_map_fst:
  assumes "length b = 256" "get_scratch E s = Some sc"
  shows "fst (path_in_map E b m s) = (if listed m (path_of b) then 1 else 0)"
proof -
  let ?p = "path_of b" let ?full = "pad0 256 ?p"
  have lp: "length ?p \<le> 255" by (rule length_path_of)
  have "fst (prefix_walk m 255 ?full) =
      (if \<exists>i<255. ?full ! i = 0x2F \<and> m (pad0 256 (take (Suc i) ?full)) = Some 1 then 1 else 0)"
    using lp by (intro prefix_walk_spec) (auto simp: nth_pad0)
  also have "(\<exists>i<255. ?full ! i = 0x2F \<and> m (pad0 256 (take (Suc i) ?full)) = Some 1) \<longleftrightarrow>
      (\<exists>i<length ?p. ?p ! i = 0x2F \<and> m (pad0 256 (take (Suc i) ?p)) = Some 1)"
  proof -
    have "i < 255 \<and> ?full ! i = 0x2F \<and> m (pad0 256 (take (Suc i) ?full)) = Some 1 \<longleftrightarrow>
          i < length ?p \<and> ?p ! i = 0x2F \<and> m (pad0 256 (take (Suc i) ?p)) = Some 1" for i
    proof (cases "i < length ?p")
      case True
      then have "take (Suc i) ?full = take (Suc i) ?p" using lp by (simp add: pad0_def)
      with True lp show ?thesis by (simp add: nth_pad0)
    qed (auto simp: nth_pad0)
    then show ?thesis by simp
  qed
  finally show ?thesis
    using assms by (auto simp: path_in_map_def path_buffer_copy listed_def Let_def split: prod.splits)
qed

lemma path_in_map_state:
  assumes "length b = 256"
  obtains w where "length w = 256"
    and "snd (path_in_map E b m s) =
           (case get_scratch E s of None \<Rightarrow> s | Some sc \<Rightarrow> put_scratch E (sc\<lparr>walk := w\<rparr>) s)"
proof -
  let ?full = "pad0 256 (path_of b)"
  define w where "w = (if m ?full = Some 1 then ?full else snd (prefix_walk m 255 ?full))"
  have "length w = 256" by (simp add: w_def length_prefix_walk)
  then show thesis
    by (rule that) (simp add: path_in_map_def path_buffer_copy assms w_def Let_def
        split: option.splits prod.splits)
qed

lemma path_in_map_step:
  assumes "bstate_wf s \<Longrightarrow> length b = 256"
  shows "kg_step s (snd (path_in_map E b m s))"
proof (rule kg_stepI)
  assume wf: "bstate_wf s"
  show ?thesis
    by (rule path_in_map_state [OF assms [OF wf], of E m s])
      (auto intro!: put_scratch_step dest!: get_scratch_wf simp: scratch_wf_def split: option.splits)
qed

lemma path_in_map_frame [simp, kg_frame]:
  "lineage_map (snd (path_in_map E b m s)) = lineage_map s"
  "exec_scratch_map (snd (path_in_map E b m s)) = exec_scratch_map s"
  "dns_pending_tx (snd (path_in_map E b m s)) = dns_pending_tx s"
  "pol (snd (path_in_map E b m s)) = pol s"
  "rb (snd (path_in_map E b m s)) = rb s"
  "rb_seq (snd (path_in_map E b m s)) = rb_seq s"
  by (simp_all add: path_in_map_def Let_def split: option.splits prod.splits)

lemma path_in_map_scratch:
  "get_scratch E (snd (path_in_map E b m s)) = None \<longleftrightarrow> get_scratch E s = None"
  by (simp add: path_in_map_def Let_def split: option.splits prod.splits)

section \<open>Bounded reads\<close>

lemma read_path_length [kg_len]:
  "length dst = n \<Longrightarrow> 0 < n \<Longrightarrow> length (fst (snd (read_path n src dst))) = n"
  using probe_read_str_length [of dst n src] by (auto simp: read_path_def split: prod.splits)

lemma read_path_len_res:
  "read_path n src dst = (r, f, t) \<Longrightarrow> length dst = n \<Longrightarrow> 0 < n \<Longrightarrow> length f = n"
  using read_path_length [of dst n src] by simp

lemma length_read_process_args [simp, kg_len]: "length (read_process_args E args) = length args"
  by (simp add: read_process_args_def Let_def split: prod.splits)

section \<open>Canonical paths\<close>

lemma fold_clear_bytes:
  "length buf = n \<Longrightarrow> length (fold (\<lambda>i b. if p + i < w \<and> p + i < length b then b[p + i := 0] else b) xs buf) = n"
  by (induction xs arbitrary: buf) auto

lemma nth_fold_clear_bytes:
  "j < length buf \<Longrightarrow>
   fold (\<lambda>i b. if p + i < w \<and> p + i < length b then b[p + i := 0] else b) xs buf ! j =
     (if \<exists>i\<in>set xs. j = p + i \<and> j < w then 0 else buf ! j)"
  by (induction xs arbitrary: buf) (auto simp: nth_list_update)

lemma length_clear_bytes [simp, kg_len]: "length (clear_bytes p w buf) = length buf"
  by (simp add: clear_bytes_def fold_clear_bytes)

lemma nth_clear_bytes:
  "j < length buf \<Longrightarrow>
   clear_bytes p w buf ! j = (if p \<le> j \<and> j < p + 8 \<and> j < w then 0 else buf ! j)"
proof -
  assume "j < length buf"
  moreover have "(\<exists>i\<in>set [0..<8]. j = p + i \<and> j < w) \<longleftrightarrow> p \<le> j \<and> j < p + 8 \<and> j < w"
    by (auto intro: bexI [of _ "j - p"])
  ultimately show ?thesis by (simp add: clear_bytes_def nth_fold_clear_bytes del: set_upt)
qed

lemma nth_fold_clear_words:
  assumes "length buf = 256" "set xs \<subseteq> {0..<32}" "j < 256"
  shows "length (fold (\<lambda>i b. if i * 8 \<ge> w then blit b (i * 8) (zeros 8) else b) xs buf) = 256 \<and>
   fold (\<lambda>i b. if i * 8 \<ge> w then blit b (i * 8) (zeros 8) else b) xs buf ! j =
     (if \<exists>i\<in>set xs. i * 8 \<ge> w \<and> i = j div 8 then 0 else buf ! j)"
  using assms
proof (induction xs arbitrary: buf)
  case (Cons i xs)
  then have i: "i < 32" by auto
  let ?b = "if i * 8 \<ge> w then blit buf (i * 8) (zeros 8) else buf"
  have "?b ! j = (if i * 8 \<ge> w \<and> i = j div 8 then 0 else buf ! j)"
    using Cons.prems i by (auto simp: nth_blit)
  moreover have "length ?b = 256" using Cons.prems by simp
  ultimately show ?case using Cons.IH [of ?b] Cons.prems by auto
qed simp

lemma nth_clear_words:
  assumes "length buf = 256" "j < 256" "w mod 8 = 0 \<or> 256 \<le> w"
  shows "length (clear_words w buf) = 256" "clear_words w buf ! j = (if w \<le> j then 0 else buf ! j)"
proof -
  have sub: "set [0..<32] \<subseteq> {0..<32 :: nat}" by simp
  have "(\<exists>i\<in>set [0..<32]. i * 8 \<ge> w \<and> i = j div 8) \<longleftrightarrow> w \<le> j div 8 * 8"
    using assms(2) by auto
  also have "\<dots> \<longleftrightarrow> w \<le> j" using assms(2,3) by presburger
  finally have "(\<exists>i\<in>set [0..<32]. i * 8 \<ge> w \<and> i = j div 8) \<longleftrightarrow> w \<le> j" .
  then show "length (clear_words w buf) = 256" "clear_words w buf ! j = (if w \<le> j then 0 else buf ! j)"
    using nth_fold_clear_words [OF assms(1) sub assms(2), of w]
    by (simp_all add: clear_words_def del: set_upt)
qed

lemma clear_tail:
  assumes "length buf = 256" "p \<le> 256"
  shows "clear_words (min 256 ((p + 7) div 8 * 8)) (clear_bytes p (min 256 ((p + 7) div 8 * 8)) buf) =
           take p buf @ zeros (256 - p)"
proof (rule nth_equalityI)
  let ?w = "min 256 ((p + 7) div 8 * 8)"
  have w: "?w mod 8 = 0" "p \<le> ?w" "?w < p + 8" using assms(2) by (auto simp: min_def)
  show "length (clear_words ?w (clear_bytes p ?w buf)) = length (take p buf @ zeros (256 - p))"
    using assms w nth_clear_words(1) [of "clear_bytes p ?w buf" 0 ?w] by simp
  fix j assume "j < length (clear_words ?w (clear_bytes p ?w buf))"
  then have j: "j < 256" using assms w nth_clear_words(1) [of "clear_bytes p ?w buf" 0 ?w] by simp
  then have "clear_words ?w (clear_bytes p ?w buf) ! j =
      (if ?w \<le> j then 0 else if p \<le> j \<and> j < p + 8 \<and> j < ?w then 0 else buf ! j)"
    using assms w nth_clear_words(2) [of "clear_bytes p ?w buf" j ?w] nth_clear_bytes [of j buf p ?w]
    by simp
  also have "\<dots> = (if p \<le> j then 0 else buf ! j)" using w by auto
  also have "\<dots> = (take p buf @ zeros (256 - p)) ! j"
    using assms j by (simp add: nth_append)
  finally show "clear_words ?w (clear_bytes p ?w buf) ! j = (take p buf @ zeros (256 - p)) ! j" .
qed

text \<open>Under the contract of \<open>bpf_d_path\<close>, a resolved path leaves the buffer in canonical form.\<close>

lemma get_safe_path_ok:
  assumes "d_path_contract (ke_d_path E)" "length buf = 256"
    and "get_safe_path E f buf t = (ret, b, t')" "0 \<le> ret"
  shows "b = pad0 256 (cstr (snd (ke_d_path E f (zeros 256))))"
    and "cstr b = cstr (snd (ke_d_path E f (zeros 256)))"
    and "length (cstr b) = nat ret - 1" and "0 < ret" and "ret \<le> 256"
    and "t' = (if ret = 256 then 1 else 0)"
proof -
  obtain r d where rd: "ke_d_path E f (zeros 256) = (r, d)" by fastforce
  from assms(3) rd assms(2,4) have r: "r = ret"
    by (auto simp: get_safe_path_def Let_def split: if_splits)
  from assms(1) rd r assms(4) have c:
    "length d = 256" "0 < ret" "nat ret \<le> 256" "length (cstr d) = nat ret - 1"
    unfolding d_path_contract_def by (metis fst_conv snd_conv length_zeros)+
  have b: "b = take (nat ret) d @ zeros (256 - nat ret)" and t': "t' = (if ret = 256 then 1 else 0)"
    using assms(2,3) rd r c clear_tail [of d "nat ret"]
    by (auto simp: get_safe_path_def Let_def nat_le_iff split: if_splits)
  have l: "length (cstr d) < length d" using c by auto
  then have nul: "d ! (nat ret - 1) = 0"
    using c nth_length_takeWhile [of "\<lambda>b. b \<noteq> 0" d] by (simp add: cstr_def)
  have tk: "take (nat ret - 1) d = cstr d" using c by (metis cstr_def takeWhile_eq_take)
  have "b = pad0 256 (cstr d)"
  proof (rule nth_equalityI)
    show "length b = length (pad0 256 (cstr d))" using b c by simp
    fix i assume "i < length b"
    then have i: "i < 256" using b c by simp
    consider "i < nat ret - 1" | "i = nat ret - 1" | "nat ret \<le> i" by linarith
    then show "b ! i = pad0 256 (cstr d) ! i"
    proof cases
      case 1
      then have "i < length (cstr d)" "i < nat ret" using c by simp_all
      with 1 show ?thesis using b c i by (simp add: nth_append nth_pad0 nth_cstr)
    next
      case 2
      then show ?thesis using b c i nul by (auto simp: nth_append nth_pad0)
    next
      case 3
      then show ?thesis using b c i by (auto simp: nth_append nth_pad0)
    qed
  qed
  then show "b = pad0 256 (cstr (snd (ke_d_path E f (zeros 256))))" using rd by simp
  moreover have "cstr (pad0 256 (cstr d)) = cstr d"
    using c by (intro cstr_pad0 cstr_no_nul) auto
  ultimately show "cstr b = cstr (snd (ke_d_path E f (zeros 256)))" using rd by simp
  then show "length (cstr b) = nat ret - 1" using c rd by simp
  show "0 < ret" "ret \<le> 256" using c by simp_all
  show "t' = (if ret = 256 then 1 else 0)" by (rule t')
qed


lemma get_safe_path_length:
  assumes "d_path_contract (ke_d_path E)" "length buf = 256"
  shows "length (fst (snd (get_safe_path E f buf t))) = 256"
proof -
  obtain r d where rd: "ke_d_path E f (zeros 256) = (r, d)" by fastforce
  then have d: "length d = 256" using assms(1) unfolding d_path_contract_def
    by (metis snd_conv length_zeros)
  have "nat r \<le> 256" if "0 \<le> r" using that assms(1) rd unfolding d_path_contract_def
    by (metis fst_conv length_zeros)
  then show ?thesis
    using rd d assms(2) clear_tail [of d "nat r"] by (auto simp: get_safe_path_def Let_def)
qed

section \<open>The prefix block list\<close>

lemma bits_of_Cons: "bits_of (b # bs) = map (\<lambda>i. bit b (7 - i)) [0..<8] @ bits_of bs"
  by (simp add: bits_of_def)

lemma length_bits_of [simp]: "length (bits_of bs) = 8 * length bs"
  by (induction bs) (simp_all add: bits_of_def)

lemma bits_of_append: "bits_of (xs @ ys) = bits_of xs @ bits_of ys"
  by (simp add: bits_of_def)

lemma take_bits_of: "n \<le> length bs \<Longrightarrow> take (8 * n) (bits_of bs) = bits_of (take n bs)"
  by (metis append_take_drop_id bits_of_append length_bits_of length_take min.absorb2 append_eq_conv_conj)

lemma byte_bits_inj:
  "map (\<lambda>i. bit (a :: u8) (7 - i)) [0..<8] = map (\<lambda>i. bit b (7 - i)) [0..<8] \<Longrightarrow> a = b"
proof -
  assume h: "map (\<lambda>i. bit a (7 - i)) [0..<8] = map (\<lambda>i. bit b (7 - i)) [0..<8]"
  have "bit a n = bit b n" if "n < 8" for n
  proof -
    from h have "map (\<lambda>i. bit a (7 - i)) [0..<8] ! (7 - n) = map (\<lambda>i. bit b (7 - i)) [0..<8] ! (7 - n)"
      by simp
    moreover have "[0..<8] ! (7 - n) = 7 - n" using nth_upt [of 0 "7 - n" 8] by simp
    ultimately show ?thesis using that by simp
  qed
  then show "a = b" by (intro bit_word_eqI) simp
qed

lemma bits_of_inj: "length xs = length ys \<Longrightarrow> bits_of xs = bits_of ys \<longleftrightarrow> xs = ys"
proof (induction xs ys rule: list_induct2)
  case (Cons x xs y ys)
  have "bits_of (x # xs) = bits_of (y # ys) \<longleftrightarrow>
      map (\<lambda>i. bit x (7 - i)) [0..<8] = map (\<lambda>i. bit y (7 - i)) [0..<8] \<and> bits_of xs = bits_of ys"
    unfolding bits_of_Cons by (rule append_eq_append_conv) simp
  with Cons show ?case using byte_bits_inj [of x y] by blast
qed simp

text \<open>An entry for a prefix matches the key of a path exactly when the path starts with it.\<close>

lemma prefix_entry_matches:
  assumes "length p \<le> 255" "0 \<notin> set p" "length q \<le> 255"
  shows "lpm_matches (prefix_entry p) \<lparr>lk_prefixlen = 256 * 8, lk_basename = pad0 256 q\<rparr> \<longleftrightarrow> prefix p q"
proof -
  have u: "unat (of_nat (length p * 8) :: u32) = 8 * length p"
    using assms(1) by (simp add: unat_of_nat del: of_nat_mult)
  then have u': "unat (of_nat (length p) * 8 :: u32) = 8 * length p" by simp
  have "lpm_matches (prefix_entry p) \<lparr>lk_prefixlen = 256 * 8, lk_basename = pad0 256 q\<rparr> \<longleftrightarrow>
      bits_of (take (length p) (pad0 256 p)) = bits_of (take (length p) (pad0 256 q))"
    using assms(1) by (simp add: lpm_matches_def prefix_entry_def u' take_bits_of)
  also have "\<dots> \<longleftrightarrow> take (length p) (pad0 256 p) = take (length p) (pad0 256 q)"
    by (rule bits_of_inj) simp
  also have "\<dots> \<longleftrightarrow> p = take (length p) (pad0 256 q)"
    using assms(1) by (simp add: pad0_def)
  also have "\<dots> \<longleftrightarrow> prefix p q"
  proof (cases "length p \<le> length q")
    case True
    then show ?thesis using assms by (auto simp: pad0_def prefix_def) (metis append_take_drop_id)
  next
    case False
    then have "take (length p) (pad0 256 q) ! length q = 0"
      using assms by (simp add: nth_pad0)
    moreover have "p ! length q \<noteq> 0" using False assms(2) by (metis nth_mem not_le)
    ultimately show ?thesis using False by (metis prefix_length_le)
  qed
  finally show ?thesis .
qed

lemma lpm_scan_None: "lpm_scan es key = None \<Longrightarrow> (k, v) \<in> set es \<Longrightarrow> \<not> lpm_matches k key"
  by (induction es key rule: lpm_scan.induct) (auto split: option.splits if_splits prod.splits)

lemma lpm_scan_Some:
  "lpm_scan es key = Some (n, v) \<Longrightarrow>
   (\<exists>k. (k, v) \<in> set es \<and> lpm_matches k key \<and> unat (lk_prefixlen k) = n) \<and>
   (\<forall>(k, w) \<in> set es. lpm_matches k key \<longrightarrow> unat (lk_prefixlen k) \<le> n)"
proof (induction es key arbitrary: n v rule: lpm_scan.induct)
  case (2 k w es key)
  show ?case
  proof (cases "lpm_scan es key")
    case None
    with 2 lpm_scan_None [OF None] show ?thesis by (fastforce split: if_splits)
  next
    case (Some r)
    obtain n' v' where r: "r = (n', v')" by fastforce
    from 2(1) [OF Some [unfolded r]] 2(2) Some r show ?thesis by (fastforce split: if_splits)
  qed
qed simp

lemma lpm_ref_contract: "lpm_contract lpm_ref"
  unfolding lpm_contract_def
proof (intro allI conjI impI)
  fix es key
  assume "lpm_ref es key = None"
  then show "\<forall>(k, v) \<in> set es. \<not> lpm_matches k key"
    using lpm_scan_None [of es key] by (auto simp: lpm_ref_def)
next
  fix es key v
  assume "lpm_ref es key = Some v"
  then obtain n where "lpm_scan es key = Some (n, v)" by (auto simp: lpm_ref_def)
  from lpm_scan_Some [OF this]
  show "\<exists>k. (k, v) \<in> set es \<and> lpm_matches k key \<and>
          (\<forall>(k', v') \<in> set es. lpm_matches k' key \<longrightarrow> unat (lk_prefixlen k') \<le> unat (lk_prefixlen k))"
    by fastforce
qed

end
