(* ===== verification/KG_Sample.thy ===== *)
theory KG_Sample
  imports KG_Helpers
begin

text \<open>
  Concrete kernel inputs, a policy and an initial state, used to instantiate the theorems of the
  development: a kernel in which every address is unmapped and nothing fails, the policy of an agent
  with every switch off, and the state of freshly loaded maps.
\<close>

definition str :: "string \<Rightarrow> bytes" where
  "str cs = map of_char cs"

text \<open>A \<open>bpf_d_path\<close> that resolves every file to one path.\<close>

definition d_path_const :: "bytes \<Rightarrow> ptr \<Rightarrow> bytes \<Rightarrow> int \<times> bytes" where
  "d_path_const p f b =
     (if length p < length b then (int (length p) + 1, pad0 (length b) p) else (-36, b))"

definition kenv_quiet :: kenv where
  "kenv_quiet =
     \<lparr>ke_pid_tgid = 0x0000002A0000002A, ke_uid_gid = 0, ke_cgroup_id = 7, ke_ktime = (\<lambda>n. of_nat n),
      ke_current = 0x1000, ke_cpu = 0, ke_tasks = Map.empty, ke_mms = Map.empty,
      ke_kfiles = Map.empty, ke_inodes = Map.empty, ke_sbs = Map.empty, ke_dentries = Map.empty,
      ke_binprms = Map.empty, ke_creds = Map.empty, ke_nsproxies = Map.empty,
      ke_mnt_nss = Map.empty, ke_files_structs = Map.empty, ke_fdtables = Map.empty,
      ke_kmem = Map.empty, ke_umem = Map.empty, ke_d_path = d_path_const (str ''/usr/bin/nc''),
      ke_rb = (\<lambda>_. Some (\<lambda>_. 0)), ke_storage_ok = (\<lambda>_. True), ke_lru_ok = True,
      ke_lru_evict = (\<lambda>_. False), ke_stack = (\<lambda>_. 0)\<rparr>"

definition policy_off :: policy where
  "policy_off =
     \<lparr>blocked_paths = Map.empty, suspicious_paths = Map.empty, sensitive_write_paths = Map.empty,
      blocked_write_paths = Map.empty, allowed_ptrace_attaches = Map.empty,
      container_cgroups = Map.empty, blocked_prefix = [], lpm_lookup = lpm_ref,
      protected_ids = Map.empty, enforcement_enabled = 0, kmod_enforcement_enabled = 0,
      ptrace_enforcement_enabled = 0, self_pid = 0, host_mnt_ns_inum = 0\<rparr>"

definition scratch_zero :: scratch_buffer where
  "scratch_zero = \<lparr>primary = zeros 256, walk = zeros 256, sb_lin = process_lineage_zero\<rparr>"

text \<open>The maps as the loader creates them: empty hashes, zeroed arrays, an empty ring buffer.\<close>

definition bstate_init :: "policy \<Rightarrow> bstate" where
  "bstate_init p =
     \<lparr>pol = p, lineage_map = Map.empty, scratch_map = (\<lambda>_. Some scratch_zero),
      exec_scratch_map = Map.empty, dns_pending_tx = Map.empty, rb = [], rb_seq = 0\<rparr>"

lemma bstate_init_wf [simp]: "bstate_wf (bstate_init p)"
  by (simp add: bstate_wf_def bstate_init_def scratch_wf_def scratch_zero_def)

lemma bstate_init_sel [simp]:
  "pol (bstate_init p) = p" "lineage_map (bstate_init p) = Map.empty"
  "get_scratch E (bstate_init p) = Some scratch_zero" "rb (bstate_init p) = []"
  "rb_seq (bstate_init p) = 0" "dns_pending_tx (bstate_init p) = Map.empty"
  "exec_scratch_map (bstate_init p) = Map.empty" "storage_get t (bstate_init p) = None"
  by (simp_all add: bstate_init_def get_scratch_def storage_get_def)

lemma d_path_const_contract:
  assumes "0 \<notin> set p"
  shows "d_path_contract (d_path_const p)"
  unfolding d_path_contract_def d_path_const_def using assms by (auto simp: cstr_pad0)

lemma kenv_quiet_ok [simp]: "kenv_ok kenv_quiet"
  using d_path_const_contract [of "str ''/usr/bin/nc''"]
  by (simp add: kenv_ok_def kenv_quiet_def str_def)

section \<open>Shared functions of the sensors\<close>

lemma scan_str_at:
  assumes "\<forall>i<length x. src (k + i) = Some (x ! i)" "src (k + length x) = Some 0" "0 \<notin> set x"
  shows "scan_str n src k = Some (if length x < n then x @ [0] else take n x)"
  using assms
proof (induction x arbitrary: n k)
  case Nil
  then show ?case by (cases n) auto
next
  case (Cons b x)
  show ?case
  proof (cases n)
    case (Suc n')
    have "src k = Some b" using Cons.prems(1) by fastforce
    moreover have "scan_str n' src (Suc k) = Some (if length x < n' then x @ [0] else take n' x)"
      using Cons.prems by (intro Cons.IH) fastforce+
    ultimately show ?thesis using Suc Cons.prems(3) by auto
  qed simp
qed

text \<open>
  C13: \<open>path_in_map\<close> decides exactly whether the path of the buffer, or one of its directories with
  the trailing slash, is listed in the map with value 1. Bytes behind the NUL of the buffer do not
  count, and a path longer than 255 bytes is searched by its first 255.
\<close>

theorem path_in_map_listed:
  assumes "length path = PATH_BUF_SIZE" "get_scratch E s \<noteq> None"
  shows "fst (path_in_map E path m s) = (if listed m (path_of path) then 1 else 0)"
  using assms path_in_map_fst by blast

theorem path_in_map_listed_witness:
  "fst (path_in_map kenv_quiet (pad0 256 (str ''/etc/passwd'')) [pad0 256 (str ''/etc/'') \<mapsto> 1]
     (bstate_init policy_off)) = 1"
proof -
  let ?p = "str ''/etc/passwd''" and ?m = "[pad0 256 (str ''/etc/'') \<mapsto> (1 :: u8)]"
  have p: "path_of (pad0 256 ?p) = ?p" by (simp add: path_of_def cstr_pad0 str_def)
  have "take 5 ?p = str ''/etc/''" by (simp add: str_def)
  moreover have "?p ! 4 = 0x2F" by (simp add: str_def)
  moreover have "4 < length ?p" by (simp add: str_def)
  ultimately have "listed ?m ?p" unfolding listed_def by (intro disjI2 exI [of _ 4]) simp
  then show ?thesis using path_in_map_listed [of "pad0 256 ?p" kenv_quiet "bstate_init policy_off" ?m] p
    by simp
qed

text \<open>
  C23: under the documented contract of \<open>bpf_d_path\<close>, a successful \<open>get_safe_path\<close> leaves the path
  followed by zeros up to the end of the buffer, whatever the helper left behind the NUL. The
  buffer is therefore the one map key of that path, and the truncation flag is set exactly when
  the path fills the buffer.
\<close>

theorem get_safe_path_canonical:
  assumes "d_path_contract (ke_d_path E)" "length buf = PATH_BUF_SIZE"
    and "get_safe_path E f buf t = (ret, b, t')" "0 \<le> ret"
  shows "b = pad0 256 (cstr (snd (ke_d_path E f (zeros 256)))) \<and> length (cstr b) = nat ret - 1 \<and>
         (t' = 1 \<longleftrightarrow> ret = 256) \<and> (t' = 0 \<longleftrightarrow> ret < 256)"
  using get_safe_path_ok [OF assms] by auto

theorem get_safe_path_canonical_witness:
  "get_safe_path (kenv_quiet\<lparr>ke_d_path := d_path_const [0x2F]\<rparr>) 8 (zeros 256) 0 = (2, pad0 256 [0x2F], 0)"
proof -
  let ?E = "kenv_quiet\<lparr>ke_d_path := d_path_const [0x2F]\<rparr>"
  obtain ret b t where g: "get_safe_path ?E 8 (zeros 256) 0 = (ret, b, t)" by (metis prod_cases3)
  have c: "d_path_contract (ke_d_path ?E)" using d_path_const_contract [of "[0x2F]"] by simp
  have d: "ke_d_path ?E 8 (zeros 256) = (2, pad0 256 [0x2F])" by (simp add: d_path_const_def)
  have r: "ret = 2" using g d by (auto simp: get_safe_path_def Let_def split: if_splits)
  then have "b = pad0 256 (cstr (snd (ke_d_path ?E 8 (zeros 256)))) \<and> (t = 0 \<longleftrightarrow> ret < 256)"
    using get_safe_path_canonical [OF c _ g] by simp
  then show ?thesis using g d r by (simp add: cstr_pad0)
qed

text \<open>
  \<open>read_path\<close> on a terminated string stores its first \<open>dst_size - 1\<close> bytes as a C string, returns
  the number of bytes stored, NUL included, and raises the truncation flag from a string of
  \<open>dst_size - 1\<close> bytes on: the flag is also raised for a string that just fits.
\<close>

theorem read_path_string:
  assumes "\<forall>i<length x. src i = Some (x ! i)" "src (length x) = Some 0" "0 \<notin> set x"
    and "0 < n" "length dst = n"
  shows "read_path n src dst =
           (int (min (length x + 1) n), take (n - 1) x @ 0 # drop (min (length x + 1) n) dst,
            if n \<le> length x + 1 then 1 else 0)"
proof -
  have sc: "scan_str n src 0 = Some (if length x < n then x @ [0] else take n x)"
    using assms by (intro scan_str_at) auto
  show ?thesis
  proof (cases "length x < n")
    case True
    then show ?thesis using sc by (auto simp: read_path_def probe_read_str_def min_def)
  next
    case False
    then have "take n x \<noteq> []" using assms(4) by auto
    moreover from this have "last (take n x) \<noteq> 0" using assms(3) by (metis in_set_takeD last_in_set)
    moreover have "butlast (take n x) = take (n - 1) x"
      using False by (simp add: butlast_take)
    ultimately show ?thesis
      using sc False assms(4,5) by (auto simp: read_path_def probe_read_str_def min_def)
  qed
qed

theorem read_path_string_witness:
  "read_path 4 (src_buf [0x2F, 0x61, 0x62, 0]) [9, 9, 9, 9] = (4, [0x2F, 0x61, 0x62, 0], 1)"
proof -
  have x: "\<forall>i<length [0x2F, 0x61, 0x62 :: u8].
      src_buf [0x2F, 0x61, 0x62, 0] i = Some ([0x2F, 0x61, 0x62] ! i)"
    by (auto simp: src_buf_def less_Suc_eq numeral_eq_Suc)
  have z: "src_buf [0x2F, 0x61, 0x62, 0] (length [0x2F, 0x61, 0x62 :: u8]) = Some 0"
    by (simp add: src_buf_def)
  show ?thesis using read_path_string [OF x z, where n = 4 and dst = "[9, 9, 9, 9]"] by simp
qed

text \<open>
  \<open>read_process_args\<close> never writes outside the 256 bytes of \<open>args\<close>: it stores at most 254
  bytes of the argument area, as many as the (wrapping) difference of its bounds says, followed by
  two NULs, and leaves every later byte of the sample as it was.
\<close>

theorem read_process_args_bounded:
  assumes "length args = 256"
    and "mm = core_read (ke_tasks E) (ke_current E) ts_mm" "mm \<noteq> 0"
    and "a = core_read (ke_mms E) mm mm_arg_start"
    and "len = core_read (ke_mms E) mm mm_arg_end - a" "len \<noteq> 0"
    and "read_bytes (ke_umem E) a (min (unat len) 254) = Some bs"
  shows "length bs \<le> 254 \<and>
         read_process_args E args = bs @ [0, 0] @ drop (length bs + 2) args"
proof -
  have l: "length bs = min (unat len) 254"
    using assms(7) probe_read_length [of "ke_umem E" a "min (unat len) 254"]
    by (simp add: probe_read_def)
  have m: "254 < len \<longleftrightarrow> 254 < unat len" by (simp add: word_less_nat_alt)
  have "read_process_args E args = blit args 0 (bs @ [0, 0])"
  proof (cases "254 < unat len")
    case True
    then have "read_bytes (ke_umem E) a 254 = Some bs" using assms(7) by (simp add: min_def)
    with True show ?thesis using assms(2-6) m
      by (simp add: read_process_args_def Let_def probe_read_def)
  next
    case False
    then have "read_bytes (ke_umem E) a (unat len) = Some bs" using assms(7) by (simp add: min_def)
    with False show ?thesis using assms(2-6) m
      by (simp add: read_process_args_def Let_def probe_read_def)
  qed
  also have "\<dots> = bs @ [0, 0] @ drop (length bs + 2) args"
    using assms(1) l by (simp add: blit_def)
  finally show ?thesis using l by simp
qed

definition kenv_args :: kenv where
  "kenv_args = kenv_quiet
     \<lparr>ke_tasks := [0x1000 \<mapsto> \<lparr>ts_pid = 42, ts_tgid = 42, ts_real_parent = 0, ts_mm = 0x2000,
                              ts_files = 0, ts_nsproxy = 0, ts_comm = pad0 16 (str ''nc'')\<rparr>],
      ke_mms := [0x2000 \<mapsto> \<lparr>mm_exe_file = 0, mm_arg_start = 0x500, mm_arg_end = 0x502\<rparr>],
      ke_umem := [0x500 \<mapsto> 0x6E, 0x501 \<mapsto> 0x63]\<rparr>"

theorem read_process_args_bounded_witness:
  "read_process_args kenv_args (replicate 256 9) = [0x6E, 0x63, 0, 0] @ replicate 252 9"
proof -
  have "min (unat (2 :: u64)) 254 = Suc (Suc 0)" by simp
  then have r: "read_bytes (ke_umem kenv_args) 0x500 (min (unat (2 :: u64)) 254) = Some [0x6E, 0x63]"
    by (simp only:) (simp add: kenv_args_def)
  have t: "0x2000 = core_read (ke_tasks kenv_args) (ke_current kenv_args) ts_mm"
    and a: "0x500 = core_read (ke_mms kenv_args) 0x2000 mm_arg_start"
    and e: "2 = core_read (ke_mms kenv_args) 0x2000 mm_arg_end - 0x500"
    by (simp_all add: kenv_args_def core_read_def kenv_quiet_def)
  have nz: "(0x2000 :: u64) \<noteq> 0" "(2 :: u64) \<noteq> 0" "length (replicate 256 (9 :: u8)) = 256" by simp_all
  from read_process_args_bounded [OF nz(3) t nz(1) a e nz(2) r, THEN conjunct2]
  show ?thesis by (simp add: drop_replicate)
qed

lemma is_prefix_blocked_spec:
  assumes "lpm_contract (lpm_lookup p)"
    and "set (blocked_prefix p) = (\<lambda>(x, v). (prefix_entry x, v)) ` set rules"
    and "\<forall>(x, v) \<in> set rules. length x \<le> 255 \<and> 0 \<notin> set x" "length b = 256"
  shows "if \<exists>(x, v) \<in> set rules. prefix x (path_of b)
         then \<exists>(x, v) \<in> set rules. prefix x (path_of b) \<and> is_prefix_blocked p b = uint v \<and>
                (\<forall>(y, w) \<in> set rules. prefix y (path_of b) \<longrightarrow> length y \<le> length x)
         else is_prefix_blocked p b = 0"
proof -
  let ?q = "path_of b"
  let ?key = "\<lparr>lk_prefixlen = 256 * 8, lk_basename = pad0 256 ?q\<rparr>"
  let ?look = "lpm_lookup p (blocked_prefix p) ?key"
  have blk: "is_prefix_blocked p b = (case ?look of None \<Rightarrow> 0 | Some v \<Rightarrow> uint v)"
    using assms(4) by (simp add: is_prefix_blocked_def path_buffer_copy)
  have len: "unat (lk_prefixlen (prefix_entry x)) = 8 * length x" if "length x \<le> 255" for x
    using that by (simp add: prefix_entry_def unat_of_nat mult.commute del: of_nat_mult)
  have match: "lpm_matches (prefix_entry x) ?key \<longleftrightarrow> prefix x ?q" if "(x, v) \<in> set rules" for x v
    using that assms(3) length_path_of [of b] by (intro prefix_entry_matches) auto
  show ?thesis
  proof (cases ?look)
    case None
    then have "\<forall>(k, v) \<in> set (blocked_prefix p). \<not> lpm_matches k ?key"
      using assms(1) unfolding lpm_contract_def by blast
    then have "\<not> prefix x ?q" if "(x, v) \<in> set rules" for x v
      using that match [OF that] assms(2) by force
    with None blk show ?thesis by auto
  next
    case (Some v)
    then obtain k where k: "(k, v) \<in> set (blocked_prefix p)" "lpm_matches k ?key"
      and best: "\<forall>(k', v') \<in> set (blocked_prefix p).
        lpm_matches k' ?key \<longrightarrow> unat (lk_prefixlen k') \<le> unat (lk_prefixlen k)"
      using assms(1) unfolding lpm_contract_def by blast
    from k(1) assms(2) obtain x where x: "(x, v) \<in> set rules" "k = prefix_entry x" by auto
    have px: "prefix x ?q" using match [OF x(1)] k(2) x(2) by simp
    have "length y \<le> length x" if y: "(y, w) \<in> set rules" "prefix y ?q" for y w
    proof -
      have "(prefix_entry y, w) \<in> set (blocked_prefix p)" using y(1) assms(2) by force
      with best match [OF y(1)] y(2) have "unat (lk_prefixlen (prefix_entry y)) \<le> unat (lk_prefixlen k)"
        by fast
      then show ?thesis using len [of y] len [of x] x y assms(3) by fastforce
    qed
    moreover have "is_prefix_blocked p b = uint v" using blk Some by simp
    ultimately show ?thesis using px x(1) by auto
  qed
qed

text \<open>
  With the entries user space stores for its prefix rules and the documented longest-prefix-match
  semantics, \<open>is_prefix_blocked\<close> returns the mode of a longest configured prefix of the path, and 0
  when no configured prefix is one.
\<close>

theorem is_prefix_blocked_longest:
  assumes "lpm_contract (lpm_lookup p)"
    and "blocked_prefix p = map (\<lambda>(x, v). (prefix_entry x, v)) rules"
    and "\<forall>(x, v) \<in> set rules. length x \<le> 255 \<and> 0 \<notin> set x" "length b = 256"
  shows "if \<exists>(x, v) \<in> set rules. prefix x (path_of b)
         then \<exists>(x, v) \<in> set rules. prefix x (path_of b) \<and> is_prefix_blocked p b = uint v \<and>
                (\<forall>(y, w) \<in> set rules. prefix y (path_of b) \<longrightarrow> length y \<le> length x)
         else is_prefix_blocked p b = 0"
  using assms by (intro is_prefix_blocked_spec) simp_all

theorem is_prefix_blocked_longest_witness:
  "is_prefix_blocked
     (policy_off\<lparr>blocked_prefix := [(prefix_entry (str ''/tmp/''), 1), (prefix_entry (str ''/''), 2)]\<rparr>)
     (pad0 256 (str ''/tmp/x'')) = 1"
proof -
  let ?rules = "[(str ''/tmp/'', 1), (str ''/'', 2)] :: (bytes \<times> u8) list"
  let ?p = "policy_off\<lparr>blocked_prefix := map (\<lambda>(x, v). (prefix_entry x, v)) ?rules\<rparr>"
  have c: "lpm_contract (lpm_lookup ?p)" using lpm_ref_contract by (simp add: policy_off_def)
  have q: "path_of (pad0 256 (str ''/tmp/x'')) = str ''/tmp/x''"
    by (simp add: path_of_def cstr_pad0 str_def)
  have "if \<exists>(x, v) \<in> set ?rules. prefix x (str ''/tmp/x'')
        then \<exists>(x, v) \<in> set ?rules. prefix x (str ''/tmp/x'') \<and>
               is_prefix_blocked ?p (pad0 256 (str ''/tmp/x'')) = uint v \<and>
               (\<forall>(y, w) \<in> set ?rules. prefix y (str ''/tmp/x'') \<longrightarrow> length y \<le> length x)
        else is_prefix_blocked ?p (pad0 256 (str ''/tmp/x'')) = 0"
    using is_prefix_blocked_longest [OF c, of ?rules "pad0 256 (str ''/tmp/x'')", unfolded q]
    by (simp add: str_def)
  then show ?thesis by (simp add: str_def)
qed

end
