(* ===== verification/KG_Exec.thy ===== *)
theory KG_Exec
  imports KG_Sample
begin

text \<open>
  \<open>bpf/sensors/exec.h\<close>: the exec sensor. \<open>tp_schedexec\<close> reports every exec that took place and marks
  the task when the binary is on the suspicious list; the execve and fork tracepoints are attached
  but do nothing, lineage being inherited by the LSM hook on task allocation.
\<close>

section \<open>Operations\<close>

definition handle_suspicious_lineage :: "kenv \<Rightarrow> exec_event \<Rightarrow> bstate \<Rightarrow> bstate" where
  "handle_suspicious_lineage E e s =
     storage_upd E (ke_current E)
       (\<lambda>lin. lin\<lparr>suspicious_ancestor := 1, ancestor_filename := ex_filename e\<rparr>) s"

definition syscall_execve_args :: cfields where
  "syscall_execve_args =
     [(''common_tp_fields'', c_u64), (''syscall_nr'', c_u32), (''__pad'', c_u32),
      (''filename'', c_ptr), (''argv'', c_ptr), (''envp'', c_ptr)]"

definition tp_execve :: "kenv \<Rightarrow> region \<Rightarrow> bstate \<Rightarrow> int \<times> bstate" where
  "tp_execve E ctx s = (0, s)"

definition sched_process_fork_args :: cfields where
  "sched_process_fork_args =
     [(''common_type'', c_u16), (''common_flags'', c_u8), (''common_preempt_count'', c_u8),
      (''common_pid'', c_u32), (''parent_comm'', c_arr 16 c_u8), (''parent_pid'', c_u32),
      (''child_comm'', c_arr 16 c_u8), (''child_pid'', c_u32)]"

definition tp_schedfork :: "kenv \<Rightarrow> region \<Rightarrow> bstate \<Rightarrow> int \<times> bstate" where
  "tp_schedfork E ctx s = (0, s)"

definition sched_process_exec_args :: cfields where
  "sched_process_exec_args =
     [(''common_type'', c_u16), (''common_flags'', c_u8), (''common_preempt_count'', c_u8),
      (''common_pid'', c_u32), (''filename_loc'', c_u32), (''pid'', c_u32), (''old_pid'', c_u32)]"

text \<open>\<open>__u16 offset = ctx->filename_loc & 0xffff\<close>.\<close>

definition schedexec_offset :: "region \<Rightarrow> nat" where
  "schedexec_offset ctx =
     unat (ucast (u32_at ctx (offsetof sched_process_exec_args ''filename_loc'') AND 0xffff) :: u16)"

definition tp_schedexec :: "kenv \<Rightarrow> region \<Rightarrow> bstate \<Rightarrow> int \<times> bstate" where
  "tp_schedexec E ctx s =
     (case get_scratch E s of
        None \<Rightarrow> (0, s)
      | Some scratch \<Rightarrow>
          let off = schedexec_offset ctx;
              (read_res, filename, truncated) =
                read_path PATH_BUF_SIZE (\<lambda>i. Some (ctx (off + i))) (zeros PATH_BUF_SIZE);
              s = put_scratch E (scratch\<lparr>primary := filename\<rparr>) s in
          if read_res \<le> 0 then (0, s) else
          let (sample, s) = rb_reserve E s in
          case sample of
            None \<Rightarrow> (0, s)
          | Some m \<Rightarrow>
              let e = (exec_event_at m)\<lparr>ex_hdr := fill_common E EVT_EXEC s,
                                        ex_filename := filename,
                                        ex_path_truncated := truncated\<rparr>;
                  e = e\<lparr>ex_args := read_process_args E (ex_args e)\<rparr>;
                  (hit, s) = path_in_map E (ex_filename e) (suspicious_paths (pol s)) s;
                  s = (if hit \<noteq> 0 then handle_suspicious_lineage E e s else s) in
              (0, rb_submit (ExecEv e) s))"

section \<open>The contract\<close>

lemma handle_suspicious_lineage_step:
  "length (ex_filename e) = 256 \<Longrightarrow> kg_step s (handle_suspicious_lineage E e s)"
  unfolding handle_suspicious_lineage_def by (rule storage_upd_step) (simp add: lineage_wf_def)

interpretation execve: sensor tp_execve
  by unfold_locales (simp_all add: tp_execve_def)

interpretation schedfork: sensor tp_schedfork
  by unfold_locales (simp_all add: tp_schedfork_def)

text \<open>The state after a reported exec.\<close>

lemma tp_schedexec_submit:
  assumes "get_scratch E s = Some scratch"
    and "read_path 256 (\<lambda>i. Some (ctx (schedexec_offset ctx + i))) (zeros 256) = (r, f, t)" "0 < r"
    and "s2 = snd (rb_reserve E (put_scratch E (scratch\<lparr>primary := f\<rparr>) s))"
    and "ke_rb E (rb_seq s) = Some m"
    and "e = \<lparr>ex_hdr = fill_common E EVT_EXEC s2, ex_filename = f,
              ex_args = read_process_args E (ex_args (exec_event_at m)),
              ex_isFileless = ex_isFileless (exec_event_at m), ex_path_truncated = t\<rparr>"
    and "s3 = snd (path_in_map E f (suspicious_paths (pol s)) s2)"
  shows "tp_schedexec E ctx s =
           (0, rb_submit (ExecEv e)
                 (if listed (suspicious_paths (pol s)) (path_of f)
                  then handle_suspicious_lineage E e s3 else s3))"
proof -
  have lf: "length f = 256"
    using read_path_len_res [OF assms(2)] by simp
  have "get_scratch E s2 = Some (scratch\<lparr>primary := f\<rparr>)"
    by (simp add: assms(4) get_scratch_def put_scratch_def)
  from path_in_map_fst [OF lf this]
  have hit: "fst (path_in_map E f (suspicious_paths (pol s)) s2) \<noteq> 0 \<longleftrightarrow>
      listed (suspicious_paths (pol s)) (path_of f)" by simp
  have ev: "(exec_event_at m)\<lparr>ex_hdr := fill_common E EVT_EXEC s2, ex_filename := f,
      ex_path_truncated := t, ex_args := read_process_args E (ex_args (exec_event_at m))\<rparr> = e"
    by (simp add: assms(6) exec_event_at_def Let_def)
  have fe: "ex_filename e = f" by (simp add: assms(6))
  show ?thesis
    using assms(1-5,7) hit ev fe by (simp add: tp_schedexec_def Let_def case_prod_unfold)
qed

lemma tp_schedexec_step: "kg_step s (snd (tp_schedexec E ctx s))"
proof (cases "get_scratch E s")
  case None
  then show ?thesis by (simp add: tp_schedexec_def)
next
  case (Some scratch)
  obtain r f t where rp: "read_path 256 (\<lambda>i. Some (ctx (schedexec_offset ctx + i))) (zeros 256) = (r, f, t)"
    by (metis prod_cases3)
  then have lf: "length f = 256"
    using read_path_len_res by fastforce
  let ?s1 = "put_scratch E (scratch\<lparr>primary := f\<rparr>) s"
  let ?s2 = "snd (rb_reserve E ?s1)"
  let ?s3 = "snd (path_in_map E f (suspicious_paths (pol s)) ?s2)"
  have s1: "kg_step s ?s1"
    using get_scratch_wf [OF _ Some] lf by (intro put_scratch_step) (simp add: scratch_wf_def)
  then have s2: "kg_step s ?s2" by (rule kg_step_trans) (rule rb_reserve_step)
  show ?thesis
  proof (cases "0 < r \<and> (\<exists>m. ke_rb E (rb_seq s) = Some m)")
    case False
    then show ?thesis
      using Some rp s1 s2 by (auto simp: tp_schedexec_def Let_def case_prod_unfold split: option.splits)
  next
    case True
    then obtain m where r: "0 < r" and m: "ke_rb E (rb_seq s) = Some m" by auto
    let ?e = "\<lparr>ex_hdr = fill_common E EVT_EXEC ?s2, ex_filename = f,
              ex_args = read_process_args E (ex_args (exec_event_at m)),
              ex_isFileless = ex_isFileless (exec_event_at m), ex_path_truncated = t\<rparr>"
    have s3: "kg_step s ?s3" by (rule kg_step_trans [OF s2 path_in_map_step]) (rule lf)
    then have s4: "kg_step s (if listed (suspicious_paths (pol s)) (path_of f)
        then handle_suspicious_lineage E ?e ?s3 else ?s3)"
      using kg_step_trans [OF s3 handle_suspicious_lineage_step [of ?e]] lf by simp
    have "event_wf (ExecEv ?e)" if "bstate_wf s"
      using kg_step_wf [OF s2 that] lf by (simp add: event_wf_def exec_event_at_def Let_def)
    then show ?thesis
      using rb_submit_after [OF s4] tp_schedexec_submit [OF Some rp r refl m refl refl] by simp
  qed
qed

interpretation schedexec: sensor tp_schedexec
  by unfold_locales
    (simp_all add: tp_schedexec_step, simp add: tp_schedexec_def Let_def case_prod_unfold split: option.splits)

section \<open>What the exec sensor reports\<close>

lemma read_path_zeros:
  assumes "\<forall>i<length x. src i = Some (x ! i)" "src (length x) = Some 0" "0 \<notin> set x"
  shows "read_path 256 src (zeros 256) =
           (int (min (length x + 1) 256), pad0 256 (take 255 x), if 255 \<le> length x then 1 else 0)"
proof -
  have "scan_str 256 src 0 = Some (if length x < 256 then x @ [0] else take 256 x)"
    using assms by (intro scan_str_at) auto
  moreover have "x @ 0 # zeros (255 - length x) = pad0 256 (take 255 x)" if "length x < 256"
    using that by (intro nth_equalityI) (auto simp: nth_append nth_pad0 nth_Cons')
  moreover have "butlast (take 256 x) @ [0] = pad0 256 (take 255 x)" if "256 \<le> length x"
    using that by (intro nth_equalityI) (auto simp: butlast_take nth_append nth_pad0 nth_Cons')
  moreover have "last (take 256 x) \<noteq> 0" if "256 \<le> length x"
  proof -
    have "take 256 x \<noteq> []" using that by auto
    then show ?thesis using assms(3) by (metis in_set_takeD last_in_set)
  qed
  ultimately show ?thesis
    by (auto simp: read_path_def probe_read_str_def min_def Let_def)
qed

lemma tp_schedexec_string:
  assumes "get_scratch E s \<noteq> None" "ke_rb E (rb_seq s) = Some m"
    and "\<forall>i<length x. ctx (schedexec_offset ctx + i) = x ! i"
    and "ctx (schedexec_offset ctx + length x) = 0" "0 \<notin> set x"
  obtains e s3 where
    "tp_schedexec E ctx s = (0, rb_submit (ExecEv e)
       (if listed (suspicious_paths (pol s)) (take 255 x) then handle_suspicious_lineage E e s3 else s3))"
    "rb s3 = rb s" "lineage_map s3 = lineage_map s" "eh_event_type (ex_hdr e) = EVT_EXEC"
    "ex_filename e = pad0 256 (take 255 x)" "ex_path_truncated e = (if 255 \<le> length x then 1 else 0)"
    "ex_isFileless e = m (offsetof exec_event_fields ''isFileless'')"
    "eh_ancestor_suspicious (ex_hdr e) =
       (case storage_get (ke_current E) s of None \<Rightarrow> 0 | Some l \<Rightarrow> suspicious_ancestor l)"
proof -
  from assms(1) obtain scratch where sc: "get_scratch E s = Some scratch" by blast
  have rp: "read_path 256 (\<lambda>i. Some (ctx (schedexec_offset ctx + i))) (zeros 256) =
      (int (min (length x + 1) 256), pad0 256 (take 255 x), if 255 \<le> length x then 1 else 0)"
    using assms(3-5) by (intro read_path_zeros) auto
  have pos: "0 < int (min (length x + 1) 256)" by simp
  have p: "path_of (pad0 256 (take 255 x)) = take 255 x"
  proof -
    have "0 \<notin> set (take 255 x)" using assms(5) by (meson in_set_takeD)
    then show ?thesis by (simp add: path_of_def cstr_pad0)
  qed
  show thesis
    by (rule that, rule tp_schedexec_submit [OF sc rp pos refl assms(2) refl refl, unfolded p])
      (simp_all add: exec_event_at_def Let_def fill_common_lineage storage_get_def)
qed

text \<open>
  The exec sensor reports every exec whose path it can read and whose sample it can reserve: one
  EXEC sample with the path cut at 255 bytes and the truncation flag. The task is marked as having a
  suspicious ancestor, with that path, exactly when the path is listed as suspicious; the sample
  itself still carries the ancestry from before this exec.
\<close>

theorem tp_schedexec_reports:
  assumes "get_scratch E s \<noteq> None" "ke_rb E (rb_seq s) = Some m"
    and "\<forall>i<length x. ctx (schedexec_offset ctx + i) = x ! i"
    and "ctx (schedexec_offset ctx + length x) = 0" "0 \<notin> set x"
    and "storage_get (ke_current E) s \<noteq> None \<or> ke_storage_ok E (ke_current E)"
  shows "\<exists>e s'. tp_schedexec E ctx s = (0, s') \<and> rb s' = rb s @ [ExecEv e] \<and>
           eh_event_type (ex_hdr e) = EVT_EXEC \<and> ex_filename e = pad0 256 (take 255 x) \<and>
           ex_path_truncated e = (if 255 \<le> length x then 1 else 0) \<and>
           eh_ancestor_suspicious (ex_hdr e) =
             (case storage_get (ke_current E) s of None \<Rightarrow> 0 | Some l \<Rightarrow> suspicious_ancestor l) \<and>
           (if listed (suspicious_paths (pol s)) (take 255 x)
            then \<exists>l. storage_get (ke_current E) s' = Some l \<and> suspicious_ancestor l = 1 \<and>
                     ancestor_filename l = pad0 256 (take 255 x)
            else lineage_map s' = lineage_map s)"
proof -
  obtain e s3 where e: "tp_schedexec E ctx s = (0, rb_submit (ExecEv e)
       (if listed (suspicious_paths (pol s)) (take 255 x) then handle_suspicious_lineage E e s3 else s3))"
    "rb s3 = rb s" "lineage_map s3 = lineage_map s" "eh_event_type (ex_hdr e) = EVT_EXEC"
    "ex_filename e = pad0 256 (take 255 x)" "ex_path_truncated e = (if 255 \<le> length x then 1 else 0)"
    "eh_ancestor_suspicious (ex_hdr e) =
       (case storage_get (ke_current E) s of None \<Rightarrow> 0 | Some l \<Rightarrow> suspicious_ancestor l)"
    using tp_schedexec_string [OF assms(1-5)] by metis
  then show ?thesis
    using assms(6)
    by (intro exI [of _ e] exI [of _ "snd (tp_schedexec E ctx s)"])
      (auto simp: handle_suspicious_lineage_def storage_get_def storage_upd_def split: option.splits)
qed

definition ctx_exec :: region where
  "ctx_exec = region_of (zeros 8 @ [20, 0, 7, 0] @ zeros 8 @ str ''/bin/nc'' @ [0])"

theorem tp_schedexec_reports_witness:
  "\<exists>e s'. tp_schedexec kenv_quiet ctx_exec
            (bstate_init (policy_off\<lparr>suspicious_paths := [pad0 256 (str ''/bin/'') \<mapsto> 1]\<rparr>)) = (0, s') \<and>
     rb s' = [ExecEv e] \<and> ex_filename e = pad0 256 (str ''/bin/nc'') \<and>
     (\<exists>l. storage_get 0x1000 s' = Some l \<and> suspicious_ancestor l = 1)"
proof -
  let ?p = "policy_off\<lparr>suspicious_paths := [pad0 256 (str ''/bin/'') \<mapsto> (1 :: u8)]\<rparr>"
  let ?x = "str ''/bin/nc''"
  have off: "schedexec_offset ctx_exec = 20"
    by (simp add: schedexec_offset_def sched_process_exec_args_def layout_defs u32_at_def ctx_exec_def
        arr_at_region_of str_def)
  have x: "\<forall>i<length ?x. ctx_exec (schedexec_offset ctx_exec + i) = ?x ! i"
    and z: "ctx_exec (schedexec_offset ctx_exec + length ?x) = 0" and nn: "0 \<notin> set ?x"
  proof -
    let ?P = "zeros 8 @ [20, 0, 7, 0] @ zeros 8"
    have c: "ctx_exec = region_of (?P @ (?x @ [0]) @ [])" and P: "length ?P = 20"
      by (simp_all add: ctx_exec_def)
    show "\<forall>i<length ?x. ctx_exec (schedexec_offset ctx_exec + i) = ?x ! i"
      "ctx_exec (schedexec_offset ctx_exec + length ?x) = 0"
      unfolding off unfolding c using region_of_app [of _ "?x @ [0]" ?P "[]", unfolded P]
      by (simp_all add: nth_append)
    show "0 \<notin> set ?x" by (simp add: str_def)
  qed
  have "take 5 ?x = str ''/bin/''" "?x ! 4 = 0x2F" "4 < length ?x" by (simp_all add: str_def)
  then have "listed (suspicious_paths ?p) (take 255 ?x)"
    unfolding listed_def by (intro disjI2 exI [of _ 4]) (simp add: str_def)
  moreover have "ke_rb kenv_quiet (rb_seq (bstate_init ?p)) = Some (\<lambda>_. 0)"
    and "ke_storage_ok kenv_quiet (ke_current kenv_quiet)" "ke_current kenv_quiet = 0x1000"
    by (simp_all add: kenv_quiet_def)
  moreover have "take 255 ?x = ?x" by (simp add: str_def)
  ultimately show ?thesis
    using tp_schedexec_reports [OF _ _ x z nn, of kenv_quiet "bstate_init ?p" "\<lambda>_. 0"] by auto
qed

text \<open>
  \<open>tp_schedexec\<close> never assigns \<open>isFileless\<close>: an EXEC sample carries at that position the byte the
  ring buffer held before the reservation, whatever was executed. User space reads a 1 there as a
  fileless execution.
\<close>

theorem tp_schedexec_isFileless_stale:
  assumes "get_scratch E s \<noteq> None" "ke_rb E (rb_seq s) = Some m"
    and "\<forall>i<length x. ctx (schedexec_offset ctx + i) = x ! i"
    and "ctx (schedexec_offset ctx + length x) = 0" "0 \<notin> set x"
  shows "\<exists>e. rb (snd (tp_schedexec E ctx s)) = rb s @ [ExecEv e] \<and> ex_isFileless e = m 864"
proof -
  have o: "offsetof exec_event_fields ''isFileless'' = 864"
    by (simp add: exec_event_fields_def hdr_ty_eval layout_defs)
  obtain e s3 where "tp_schedexec E ctx s = (0, rb_submit (ExecEv e)
       (if listed (suspicious_paths (pol s)) (take 255 x) then handle_suspicious_lineage E e s3 else s3))"
    "rb s3 = rb s" "ex_isFileless e = m (offsetof exec_event_fields ''isFileless'')"
    using tp_schedexec_string [OF assms] by metis
  with o show ?thesis by (auto simp: handle_suspicious_lineage_def)
qed

theorem tp_schedexec_isFileless_stale_witness:
  "\<exists>e. rb (snd (tp_schedexec (kenv_quiet\<lparr>ke_rb := \<lambda>_. Some (\<lambda>_. 1)\<rparr>) (\<lambda>_. 0)
            (bstate_init policy_off))) = [ExecEv e] \<and> ex_isFileless e = 1"
  using tp_schedexec_isFileless_stale
    [of "kenv_quiet\<lparr>ke_rb := \<lambda>_. Some (\<lambda>_. 1)\<rparr>" "bstate_init policy_off" "\<lambda>_. 1" "[]" "\<lambda>_. 0"]
  by simp

end
