(* ===== verification/KG_File.thy ===== *)
theory KG_File
  imports KG_Exec
begin

text \<open>
  \<open>bpf/sensors/file.h\<close>: the open sensors, the memfd sensor and the LSM hook that denies writes to
  protected files. The open sensors see the path as the process passed it; the hook sees the
  absolute path of the opened file.
\<close>

section \<open>Operations\<close>

definition write_intent :: "u32 \<Rightarrow> bool" where
  "write_intent flags \<longleftrightarrow>
     flags AND O_ACCMODE_MASK = O_WRONLY' \<or> flags AND O_ACCMODE_MASK = O_RDWR'"

definition handle_open_checks :: "kenv \<Rightarrow> bytes \<Rightarrow> u8 \<Rightarrow> u32 \<Rightarrow> bstate \<Rightarrow> bstate" where
  "handle_open_checks E path truncated flags s =
     (let s = (if write_intent flags then
                 let (hit, s) = path_in_map E path (sensitive_write_paths (pol s)) s in
                 if hit \<noteq> 0 then
                   emit E (\<lambda>m s. OpenEv ((open_event_at m)
                     \<lparr>op_hdr := (fill_common E EVT_SENSITIVE_WRITE s)\<lparr>eh_ret := flags\<rparr>,
                      op_filename := path, op_path_truncated := truncated\<rparr>)) s
                 else s
               else s);
          (hit, s) = path_in_map E path (suspicious_paths (pol s)) s in
      if hit \<noteq> 0 then
        emit E (\<lambda>m s. OpenEv ((open_event_at m)
          \<lparr>op_hdr := fill_common E EVT_OPEN_SENSITIVE s,
           op_filename := path, op_path_truncated := truncated\<rparr>)) s
      else s)"

definition syscall_openat_args :: cfields where
  "syscall_openat_args =
     [(''common_tp_fields'', c_u64), (''syscall_nr'', c_u32), (''dfd'', c_u64),
      (''filename'', c_ptr), (''flags'', c_u32), (''mode'', c_u16)]"

definition tp_openat :: "kenv \<Rightarrow> region \<Rightarrow> bstate \<Rightarrow> int \<times> bstate" where
  "tp_openat E ctx s =
     (case get_scratch E s of
        None \<Rightarrow> (0, s)
      | Some scratch \<Rightarrow>
          let (n, path, truncated) =
                read_path PATH_BUF_SIZE
                  (src_mem (ke_umem E) (u64_at ctx (offsetof syscall_openat_args ''filename'')))
                  (primary scratch);
              s = put_scratch E (scratch\<lparr>primary := path\<rparr>) s in
          if n \<le> 0 then (0, s)
          else (0, handle_open_checks E path truncated
                     (u32_at ctx (offsetof syscall_openat_args ''flags'')) s))"

definition open_how_min :: cfields where
  "open_how_min = [(''flags'', c_u64), (''mode'', c_u64), (''resolve'', c_u64)]"

definition syscall_openat2_args :: cfields where
  "syscall_openat2_args =
     [(''common_tp_fields'', c_u64), (''syscall_nr'', c_u32), (''dfd'', c_u64),
      (''filename'', c_ptr), (''how'', c_ptr), (''usize'', c_u64)]"

text \<open>The 64-bit \<open>flags\<close> are passed to an \<open>int\<close> parameter: the low 32 bits remain.\<close>

definition tp_openat2 :: "kenv \<Rightarrow> region \<Rightarrow> bstate \<Rightarrow> int \<times> bstate" where
  "tp_openat2 E ctx s =
     (case get_scratch E s of
        None \<Rightarrow> (0, s)
      | Some scratch \<Rightarrow>
          let (n, path, truncated) =
                read_path PATH_BUF_SIZE
                  (src_mem (ke_umem E) (u64_at ctx (offsetof syscall_openat2_args ''filename'')))
                  (primary scratch);
              s = put_scratch E (scratch\<lparr>primary := path\<rparr>) s in
          if n \<le> 0 then (0, s) else
          let (r, how) = probe_read (ke_umem E) (u64_at ctx (offsetof syscall_openat2_args ''how''))
                           (struct_size open_how_min);
              flags = (if r = 0 then u64_at (region_of how) (offsetof open_how_min ''flags'') else 0) in
          (0, handle_open_checks E path truncated (ucast flags) s))"

definition syscall_memfd_create_args :: cfields where
  "syscall_memfd_create_args =
     [(''common_tp_fields'', c_u64), (''syscall_nr'', c_u32), (''uname'', c_ptr), (''flags'', c_u32)]"

definition tp_memfd_create :: "kenv \<Rightarrow> region \<Rightarrow> bstate \<Rightarrow> int \<times> bstate" where
  "tp_memfd_create E ctx s =
     (case get_scratch E s of
        None \<Rightarrow> (0, s)
      | Some scratch \<Rightarrow>
          let memfd_name =
                snd (probe_read_str PATH_BUF_SIZE
                  (src_mem (ke_umem E) (u64_at ctx (offsetof syscall_memfd_create_args ''uname'')))
                  (zeros PATH_BUF_SIZE));
              s = put_scratch E (scratch\<lparr>primary := memfd_name\<rparr>) s in
          (0, emit E (\<lambda>m s. OpenEv ((open_event_at m)
                \<lparr>op_hdr := fill_common E EVT_MEMFD s, op_filename := memfd_name\<rparr>)) s))"

text \<open>Declared for a sensor on \<open>write\<close>, which the object does not contain.\<close>

definition syscall_write_args :: cfields where
  "syscall_write_args =
     [(''common_tp_fields'', c_u64), (''__syscall_nr'', c_u32), (''__pad'', c_u32), (''fd'', c_u64),
      (''buf'', c_ptr), (''count'', c_u64)]"

definition emit_sensitive_write_event :: "kenv \<Rightarrow> bytes \<Rightarrow> u8 \<Rightarrow> bstate \<Rightarrow> bstate" where
  "emit_sensitive_write_event E path truncated =
     emit E (\<lambda>m s. OpenEv ((open_event_at m)
       \<lparr>op_hdr := fill_common E EVT_BLOCKED_WRITE s, op_filename := path,
        op_path_truncated := truncated, op_isFileless := 0\<rparr>))"

definition lsm_file_open :: "kenv \<Rightarrow> ptr \<Rightarrow> bstate \<Rightarrow> int \<times> bstate" where
  "lsm_file_open E file s =
     (if enforcement_enabled (pol s) = 0 then (0, s) else
      if \<not> write_intent (core_read (ke_kfiles E) file f_flags) then (0, s) else
      case get_scratch E s of
        None \<Rightarrow> (0, s)
      | Some scratch \<Rightarrow>
          let (ret, path, truncated) = get_safe_path E file (zeros PATH_BUF_SIZE) 0;
              s = put_scratch E (scratch\<lparr>primary := path\<rparr>) s in
          if ret < 0 then (0, s) else
          if blocked_write_paths (pol s) path = Some 1
          then (-1, emit_sensitive_write_event E path truncated s)
          else (0, s))"

section \<open>The contract\<close>

lemma open_event_wf:
  "bstate_wf s \<Longrightarrow> t \<in> {EVT_OPEN_SENSITIVE, EVT_MEMFD, EVT_SENSITIVE_WRITE, EVT_BLOCKED_WRITE} \<Longrightarrow>
   length f = 256 \<Longrightarrow>
   event_wf (OpenEv ((open_event_at m)\<lparr>op_hdr := (fill_common E t s)\<lparr>eh_ret := r\<rparr>, op_filename := f,
     op_path_truncated := p, op_isFileless := i\<rparr>))"
  using fill_common_wf [of s E t] by (auto simp: event_wf_def hdr_wf_def)

lemma handle_open_checks_step:
  assumes "length path = 256"
  shows "kg_step s (handle_open_checks E path truncated flags s)"
proof -
  have ev: "kg_step s (emit E (\<lambda>m s. OpenEv ((open_event_at m)
        \<lparr>op_hdr := (fill_common E EVT_SENSITIVE_WRITE s)\<lparr>eh_ret := flags\<rparr>,
         op_filename := path, op_path_truncated := truncated\<rparr>)) s)"
    "kg_step s (emit E (\<lambda>m s. OpenEv ((open_event_at m)
        \<lparr>op_hdr := fill_common E EVT_OPEN_SENSITIVE s,
         op_filename := path, op_path_truncated := truncated\<rparr>)) s)" for s
    using fill_common_wf assms
    by (auto intro!: emit_step simp: event_wf_def hdr_wf_def)
  have pm: "kg_step s (snd (path_in_map E path m s))" for m s
    by (rule path_in_map_step) (rule assms)
  show ?thesis
    unfolding handle_open_checks_def Let_def case_prod_unfold
    using kg_step_trans [OF kg_step_trans [OF pm ev(1)] pm]
      kg_step_trans [OF kg_step_trans [OF kg_step_trans [OF pm ev(1)] pm] ev(2)]
      kg_step_trans [OF pm pm] kg_step_trans [OF kg_step_trans [OF pm pm] ev(2)]
      pm kg_step_trans [OF pm ev(2)]
    by simp
qed

lemma put_primary_step:
  "get_scratch E s = Some sc \<Longrightarrow> (bstate_wf s \<Longrightarrow> length f = 256) \<Longrightarrow>
   kg_step s (put_scratch E (sc\<lparr>primary := f\<rparr>) s)"
  using get_scratch_wf by (intro put_scratch_step) (fastforce simp: scratch_wf_def)

lemma open_path_step:
  assumes "get_scratch E s = Some sc" "read_path 256 src (primary sc) = (n, path, t)"
  shows "kg_step s (put_scratch E (sc\<lparr>primary := path\<rparr>) s)"
    and "kg_step s (handle_open_checks E path t flags (put_scratch E (sc\<lparr>primary := path\<rparr>) s))"
proof -
  have l: "bstate_wf s \<Longrightarrow> length path = 256"
    using get_scratch_wf [OF _ assms(1)] read_path_len_res [OF assms(2)] by (simp add: scratch_wf_def)
  show p: "kg_step s (put_scratch E (sc\<lparr>primary := path\<rparr>) s)"
    by (rule put_primary_step [OF assms(1) l])
  show "kg_step s (handle_open_checks E path t flags (put_scratch E (sc\<lparr>primary := path\<rparr>) s))"
    by (rule kg_stepI, rule kg_step_trans [OF p handle_open_checks_step]) (rule l)
qed

lemma tp_openat_step: "kg_step s (snd (tp_openat E ctx s))"
  by (auto simp: tp_openat_def Let_def open_path_step split: option.splits prod.splits)

lemma tp_openat2_step: "kg_step s (snd (tp_openat2 E ctx s))"
  by (auto simp: tp_openat2_def Let_def open_path_step split: option.splits prod.splits)

lemma tp_memfd_create_step: "kg_step s (snd (tp_memfd_create E ctx s))"
proof (cases "get_scratch E s")
  case (Some sc)
  let ?n = "snd (probe_read_str 256
    (src_mem (ke_umem E) (u64_at ctx (offsetof syscall_memfd_create_args ''uname''))) (zeros 256))"
  have l: "length ?n = 256" by (rule probe_read_str_length) simp_all
  have "kg_step s (emit E (\<lambda>m s. OpenEv ((open_event_at m)
      \<lparr>op_hdr := fill_common E EVT_MEMFD s, op_filename := ?n\<rparr>)) (put_scratch E (sc\<lparr>primary := ?n\<rparr>) s))"
    by (rule kg_step_trans [OF put_primary_step [OF Some l] emit_step])
      (use l in \<open>simp add: event_wf_def\<close>)
  with Some show ?thesis by (simp add: tp_memfd_create_def Let_def)
qed (simp add: tp_memfd_create_def)

lemma emit_sensitive_write_event_step:
  "length path = 256 \<Longrightarrow> kg_step s (emit_sensitive_write_event E path t s)"
  unfolding emit_sensitive_write_event_def by (rule emit_step) (simp add: event_wf_def)

lemma lsm_file_open_step: "kenv_ok E \<Longrightarrow> kg_step s (snd (lsm_file_open E file s))"
proof (cases "get_scratch E s")
  case (Some sc)
  assume ok: "kenv_ok E"
  obtain ret path t where g: "get_safe_path E file (zeros 256) 0 = (ret, path, t)" by (metis prod_cases3)
  then have l: "length path = 256"
    using get_safe_path_length [of E "zeros 256" "file" 0] ok by (simp add: kenv_ok_def)
  note p = put_primary_step [OF Some l]
  show ?thesis
    using Some g p kg_step_trans [OF p emit_sensitive_write_event_step [OF l]]
    by (simp add: lsm_file_open_def Let_def)
qed (simp add: lsm_file_open_def)

interpretation openat: sensor tp_openat
  by unfold_locales (simp add: tp_openat_step,
    simp add: tp_openat_def Let_def split: option.splits prod.splits)

interpretation openat2: sensor tp_openat2
  by unfold_locales (simp add: tp_openat2_step,
    simp add: tp_openat2_def Let_def split: option.splits prod.splits)

interpretation memfd_create: sensor tp_memfd_create
  by unfold_locales (simp add: tp_memfd_create_step,
    simp add: tp_memfd_create_def Let_def split: option.splits prod.splits)

interpretation file_open: lsm_hook lsm_file_open
  by unfold_locales (simp add: lsm_file_open_step,
    simp add: lsm_file_open_def Let_def split: option.splits prod.splits)

section \<open>What the open sensors report\<close>

text \<open>Reading a user string into a buffer with old contents.\<close>

lemma read_path_user:
  assumes "\<forall>i<length x. m (a + of_nat i) = Some (x ! i)" "m (a + of_nat (length x)) = Some 0"
    and "0 \<notin> set x" "length dst = 256"
  obtains f where "read_path 256 (src_mem m a) dst =
      (int (min (length x + 1) 256), f, if 255 \<le> length x then 1 else 0)"
    "length f = 256" "cstr f = take 255 x" "path_of f = take 255 x"
proof -
  let ?f = "take 255 x @ 0 # drop (min (length x + 1) 256) dst"
  have n: "0 \<notin> set (take 255 x)" using assms(3) by (meson in_set_takeD)
  have "read_path 256 (src_mem m a) dst =
      (int (min (length x + 1) 256), ?f, if 255 \<le> length x then 1 else 0)"
    using assms by (subst read_path_string) (auto simp: src_mem_def)
  moreover have "length ?f = 256" using assms(4) by (auto simp: min_def)
  moreover have "cstr ?f = take 255 x" using n by (rule cstr_append_nul)
  ultimately show thesis using that by (simp add: path_of_def)
qed

text \<open>A sample reports a path under a code.\<close>

definition open_report :: "bytes \<Rightarrow> u8 \<Rightarrow> event \<Rightarrow> u32 \<Rightarrow> bool" where
  "open_report path truncated ev code \<longleftrightarrow>
     (\<exists>e. ev = OpenEv e \<and> eh_event_type (op_hdr e) = code \<and> cstr (op_filename e) = path \<and>
          op_path_truncated e = truncated)"

text \<open>One look-up followed by a report, as both halves of \<open>handle_open_checks\<close> do it.\<close>

lemma lookup_and_emit:
  assumes "length path = 256" "get_scratch E s \<noteq> None" "\<forall>n. ke_rb E n \<noteq> None" "\<And>m s. R (f m s) c"
    and q: "q = path_in_map E path mp s"
  shows "\<exists>es. rb (if fst q \<noteq> 0 then emit E f (snd q) else snd q) = rb s @ es \<and>
              list_all2 R es (if listed mp (path_of path) then [c] else [])"
    and "get_scratch E (if fst q \<noteq> 0 then emit E f (snd q) else snd q) \<noteq> None"
    and "pol (if fst q \<noteq> 0 then emit E f (snd q) else snd q) = pol s"
proof -
  have hit: "fst q \<noteq> 0 \<longleftrightarrow> listed mp (path_of path)"
    using assms(2) by (auto simp: q path_in_map_fst [OF assms(1)] split: if_splits)
  have n: "ke_rb E n \<noteq> None" for n using assms(3) by blast
  show "\<exists>es. rb (if fst q \<noteq> 0 then emit E f (snd q) else snd q) = rb s @ es \<and>
             list_all2 R es (if listed mp (path_of path) then [c] else [])"
    unfolding hit using assms(4) n [of "rb_seq s"] by (auto simp: q emit_rb)
  show "get_scratch E (if fst q \<noteq> 0 then emit E f (snd q) else snd q) \<noteq> None"
    using assms(2) path_in_map_scratch [of E path mp s] by (auto simp: q get_scratch_def)
  show "pol (if fst q \<noteq> 0 then emit E f (snd q) else snd q) = pol s" by (simp add: q)
qed

lemma handle_open_checks_rb:
  assumes "length path = 256" "get_scratch E s \<noteq> None" "\<forall>n. ke_rb E n \<noteq> None"
  shows "\<exists>es. rb (handle_open_checks E path t flags s) = rb s @ es \<and>
           list_all2 (open_report (cstr path) t) es
             ((if write_intent flags \<and> listed (sensitive_write_paths (pol s)) (path_of path)
               then [EVT_SENSITIVE_WRITE] else []) @
              (if listed (suspicious_paths (pol s)) (path_of path) then [EVT_OPEN_SENSITIVE] else []))"
proof -
  let ?R = "open_report (cstr path) t"
  define f where "f = (\<lambda>m s. OpenEv ((open_event_at m)
    \<lparr>op_hdr := (fill_common E EVT_SENSITIVE_WRITE s)\<lparr>eh_ret := flags\<rparr>, op_filename := path,
     op_path_truncated := t\<rparr>))"
  define g where "g = (\<lambda>m s. OpenEv ((open_event_at m)
    \<lparr>op_hdr := fill_common E EVT_OPEN_SENSITIVE s, op_filename := path, op_path_truncated := t\<rparr>))"
  define q where "q = path_in_map E path (sensitive_write_paths (pol s)) s"
  define s1 where "s1 = (if write_intent flags
    then if fst q \<noteq> 0 then emit E f (snd q) else snd q else s)"
  define r where "r = path_in_map E path (suspicious_paths (pol s1)) s1"
  have fg: "?R (f m s') EVT_SENSITIVE_WRITE" "?R (g m s') EVT_OPEN_SENSITIVE" for m s'
    by (auto simp: open_report_def f_def g_def)
  note A = lookup_and_emit [of path E _ ?R f, OF assms fg(1) q_def]
  have s1: "get_scratch E s1 \<noteq> None" "pol s1 = pol s" using A(2,3) assms(2) by (auto simp: s1_def)
  obtain es1 where e1: "rb s1 = rb s @ es1" "list_all2 ?R es1
      (if write_intent flags \<and> listed (sensitive_write_paths (pol s)) (path_of path)
       then [EVT_SENSITIVE_WRITE] else [])"
    using A(1) by (cases "write_intent flags") (auto simp: s1_def)
  obtain es2 where e2: "rb (if fst r \<noteq> 0 then emit E g (snd r) else snd r) = rb s1 @ es2"
    "list_all2 ?R es2 (if listed (suspicious_paths (pol s)) (path_of path) then [EVT_OPEN_SENSITIVE] else [])"
    using lookup_and_emit(1) [of path E _ ?R g, OF assms(1) s1(1) assms(3) fg(2) r_def] s1(2) by auto
  have "handle_open_checks E path t flags s = (if fst r \<noteq> 0 then emit E g (snd r) else snd r)"
    by (simp add: handle_open_checks_def Let_def case_prod_unfold f_def g_def q_def r_def s1_def)
  then have "rb (handle_open_checks E path t flags s) = rb s @ (es1 @ es2)" using e1(1) e2(1) by simp
  with list_all2_appendI [OF e1(2) e2(2)] show ?thesis by blast
qed

text \<open>
  An \<open>openat\<close> call is reported exactly as configured. With a readable path and room in the ring
  buffer, the sensor submits a SENSITIVE_WRITE sample when the flags ask for writing and the path is
  listed as write-sensitive, then an OPEN_SENSITIVE sample when the path is listed as suspicious,
  and nothing else; both name the path passed by the process (its first 255 bytes) and carry the
  truncation flag. The path and flags are the second and third argument of the system call.
\<close>

theorem tp_openat_samples:
  assumes "bstate_wf s" "get_scratch E s \<noteq> None" "\<forall>n. ke_rb E n \<noteq> None"
    and "\<forall>i<length x. ke_umem E (sys_enter_arg ctx 1 + of_nat i) = Some (x ! i)"
    and "ke_umem E (sys_enter_arg ctx 1 + of_nat (length x)) = Some 0" "0 \<notin> set x"
  shows "\<exists>es. rb (snd (tp_openat E ctx s)) = rb s @ es \<and>
           list_all2 (open_report (take 255 x) (if 255 \<le> length x then 1 else 0)) es
             ((if write_intent (ucast (sys_enter_arg ctx 2)) \<and>
                  listed (sensitive_write_paths (pol s)) (take 255 x)
               then [EVT_SENSITIVE_WRITE] else []) @
              (if listed (suspicious_paths (pol s)) (take 255 x) then [EVT_OPEN_SENSITIVE] else []))"
proof -
  have lay: "offsetof syscall_openat_args ''filename'' = 24" "offsetof syscall_openat_args ''flags'' = 32"
    by (simp_all add: syscall_openat_args_def layout_defs)
  from assms(2) obtain sc where sc: "get_scratch E s = Some sc" by blast
  then have "length (primary sc) = 256" using get_scratch_wf assms(1) by (auto simp: scratch_wf_def)
  from read_path_user [OF assms(4-6) this] obtain f where
    f: "read_path 256 (src_mem (ke_umem E) (sys_enter_arg ctx 1)) (primary sc) =
        (int (min (length x + 1) 256), f, if 255 \<le> length x then 1 else 0)"
      "length f = 256" "cstr f = take 255 x" "path_of f = take 255 x" by metis
  let ?s1 = "put_scratch E (sc\<lparr>primary := f\<rparr>) s"
  let ?t = "if 255 \<le> length x then 1 else 0 :: u8"
  let ?fl = "ucast (sys_enter_arg ctx 2) :: u32"
  have run: "snd (tp_openat E ctx s) = handle_open_checks E f ?t ?fl ?s1"
    using sc f(1) by (simp add: tp_openat_def Let_def lay sys_enter_arg_at u32_at_low)
  show ?thesis
    using handle_open_checks_rb [OF f(2) _ assms(3), of ?s1 ?t ?fl] f(3,4) unfolding run by auto
qed

definition kenv_open :: kenv where
  "kenv_open = kenv_quiet\<lparr>ke_umem := [0 \<mapsto> 0x2F, 1 \<mapsto> 0]\<rparr>"

theorem tp_openat_samples_witness:
  "\<exists>es. rb (snd (tp_openat kenv_open (\<lambda>i. if i = 32 then 1 else 0)
      (bstate_init (policy_off\<lparr>sensitive_write_paths := [pad0 256 [0x2F] \<mapsto> 1]\<rparr>)))) = es \<and>
    list_all2 (open_report [0x2F] 0) es [EVT_SENSITIVE_WRITE]"
proof -
  let ?c = "\<lambda>i :: nat. if i = 32 then 1 else 0 :: u8"
  let ?s = "bstate_init (policy_off\<lparr>sensitive_write_paths := [pad0 256 [0x2F] \<mapsto> (1 :: u8)]\<rparr>)"
  have a: "sys_enter_arg ?c 1 = 0" "ucast (sys_enter_arg ?c 2) = (1 :: u32)"
    by (simp_all add: sys_enter_arg_at u64_at_def arr_at_def upt_conv_Cons)
  have "listed [pad0 256 [0x2F] \<mapsto> (1 :: u8)] [0x2F]" by (simp add: listed_def)
  moreover have "write_intent 1" by (simp add: write_intent_def O_ACCMODE_MASK_def O_WRONLY'_def)
  moreover have "\<not> listed Map.empty p" for p by (simp add: listed_def)
  ultimately show ?thesis
    using tp_openat_samples [of ?s kenv_open "[0x2F]" ?c, unfolded a]
    by (auto simp: kenv_open_def kenv_quiet_def policy_off_def)
qed

text \<open>
  C12: the write hook denies (\<open>-EPERM\<close>) exactly the opens with write intent of a file whose absolute
  path is in \<open>blocked_write_paths\<close> with value 1, while enforcement is on and the path can be
  resolved; every other open is allowed.
\<close>

theorem lsm_file_open_verdict:
  assumes "kenv_ok E" "get_scratch E s \<noteq> None"
  shows "fst (lsm_file_open E file s) =
           (if enforcement_enabled (pol s) \<noteq> 0 \<and> write_intent (core_read (ke_kfiles E) file f_flags) \<and>
               0 \<le> fst (ke_d_path E file (zeros 256)) \<and>
               blocked_write_paths (pol s) (pad0 256 (cstr (snd (ke_d_path E file (zeros 256))))) = Some 1
            then -1 else 0)"
proof -
  from assms(2) obtain sc where sc: "get_scratch E s = Some sc" by blast
  obtain ret path t where g: "get_safe_path E file (zeros 256) 0 = (ret, path, t)" by (metis prod_cases3)
  have r: "ret = fst (ke_d_path E file (zeros 256))"
    using g by (auto simp: get_safe_path_def Let_def case_prod_unfold split: if_splits)
  have "0 \<le> ret \<Longrightarrow> path = pad0 256 (cstr (snd (ke_d_path E file (zeros 256))))"
    using get_safe_path_ok(1) [OF _ _ g] assms(1) by (simp add: kenv_ok_def)
  then show ?thesis using sc g r by (auto simp: lsm_file_open_def Let_def)
qed

definition kenv_write :: kenv where
  "kenv_write = kenv_quiet\<lparr>ke_kfiles := [0x3000 \<mapsto> \<lparr>f_inode = 0, f_flags = 2, f_path_dentry = 0\<rparr>]\<rparr>"

theorem lsm_file_open_verdict_witness:
  "fst (lsm_file_open kenv_write 0x3000
     (bstate_init (policy_off\<lparr>enforcement_enabled := 1,
        blocked_write_paths := [pad0 256 (str ''/usr/bin/nc'') \<mapsto> 1]\<rparr>))) = -1"
proof -
  have "cstr (pad0 256 (str ''/usr/bin/nc'')) = str ''/usr/bin/nc''" by (simp add: cstr_pad0 str_def)
  moreover have "ke_d_path kenv_write f (zeros 256) = (12, pad0 256 (str ''/usr/bin/nc''))" for f
    by (simp add: kenv_write_def kenv_quiet_def d_path_const_def str_def)
  moreover have "write_intent (core_read (ke_kfiles kenv_write) 0x3000 f_flags)"
    by (simp add: kenv_write_def core_read_def write_intent_def O_ACCMODE_MASK_def O_RDWR'_def)
  moreover have "kenv_ok kenv_write" using kenv_quiet_ok by (simp add: kenv_ok_def kenv_write_def)
  ultimately show ?thesis by (subst lsm_file_open_verdict) simp_all
qed

text \<open>
  Every denied write is on record: when the hook denies and the ring buffer has room, it has
  submitted exactly one BLOCKED_WRITE sample with the absolute path of the file.
\<close>

theorem lsm_file_open_denied_reported:
  assumes "kenv_ok E" "fst (lsm_file_open E file s) = -1" "ke_rb E (rb_seq s) \<noteq> None"
  shows "\<exists>e. rb (snd (lsm_file_open E file s)) = rb s @ [OpenEv e] \<and>
           eh_event_type (op_hdr e) = EVT_BLOCKED_WRITE \<and> op_isFileless e = 0 \<and>
           cstr (op_filename e) = cstr (snd (ke_d_path E file (zeros 256)))"
proof -
  obtain ret path t where g: "get_safe_path E file (zeros 256) 0 = (ret, path, t)" by (metis prod_cases3)
  from assms(2) g obtain sc where sc: "get_scratch E s = Some sc" "0 \<le> ret"
      "snd (lsm_file_open E file s) =
         emit_sensitive_write_event E path t (put_scratch E (sc\<lparr>primary := path\<rparr>) s)"
    by (auto simp: lsm_file_open_def Let_def split: if_splits option.splits)
  have "cstr path = cstr (snd (ke_d_path E file (zeros 256)))"
    using get_safe_path_ok(2) [OF _ _ g sc(2)] assms(1) by (simp add: kenv_ok_def)
  with sc(3) assms(3) show ?thesis
    by (auto simp: emit_sensitive_write_event_def emit_rb)
qed

theorem lsm_file_open_denied_reported_witness:
  "\<exists>e. rb (snd (lsm_file_open kenv_write 0x3000
     (bstate_init (policy_off\<lparr>enforcement_enabled := 1,
        blocked_write_paths := [pad0 256 (str ''/usr/bin/nc'') \<mapsto> 1]\<rparr>)))) = [OpenEv e] \<and>
     cstr (op_filename e) = str ''/usr/bin/nc''"
proof -
  let ?s = "bstate_init (policy_off\<lparr>enforcement_enabled := 1,
        blocked_write_paths := [pad0 256 (str ''/usr/bin/nc'') \<mapsto> 1]\<rparr>)"
  have c: "cstr (pad0 256 (str ''/usr/bin/nc'')) = str ''/usr/bin/nc''" by (simp add: cstr_pad0 str_def)
  have d: "ke_d_path kenv_write f (zeros 256) = (12, pad0 256 (str ''/usr/bin/nc''))" for f
    by (simp add: kenv_write_def kenv_quiet_def d_path_const_def str_def)
  have w: "write_intent (core_read (ke_kfiles kenv_write) 0x3000 f_flags)"
    by (simp add: kenv_write_def core_read_def write_intent_def O_ACCMODE_MASK_def O_RDWR'_def)
  have ok: "kenv_ok kenv_write" using kenv_quiet_ok by (simp add: kenv_ok_def kenv_write_def)
  obtain ret path t where g: "get_safe_path kenv_write 0x3000 (zeros 256) 0 = (ret, path, t)"
    by (metis prod_cases3)
  have r: "ret = 12" using g d by (auto simp: get_safe_path_def Let_def split: if_splits)
  then have p: "path = pad0 256 (str ''/usr/bin/nc'')"
    using get_safe_path_ok(1) [OF _ _ g] ok d c by (simp add: kenv_ok_def)
  have "fst (lsm_file_open kenv_write 0x3000 ?s) = -1"
    using g r p w by (simp add: lsm_file_open_def Let_def)
  moreover have "ke_rb kenv_write (rb_seq ?s) \<noteq> None" by (simp add: kenv_write_def kenv_quiet_def)
  ultimately show ?thesis using lsm_file_open_denied_reported [OF ok, of "0x3000" ?s] d c by auto
qed

end
