(* ===== verification/KG_Lsm.thy ===== *)
theory KG_Lsm
  imports KG_File
begin

text \<open>
  \<open>bpf/sensors/lsm.h\<close>: the LSM hooks that prevent (exec, ptrace, module load, change to uid 0), keep
  the lineage of tasks across fork, and watch memory protection and capability checks. A hook
  returns 0 to allow and \<open>-1\<close> (\<open>-EPERM\<close>) to deny. Kernel objects are passed by pointer.
\<close>

section \<open>Exec\<close>

definition TMPFS_MAGIC :: u64 where "TMPFS_MAGIC = 0x01021994"
definition PTRACE_MODE_READ :: u32 where "PTRACE_MODE_READ = 0x01"
definition S_ISUID :: u16 where "S_ISUID = 0x800"

definition emit_exec_event :: "kenv \<Rightarrow> u32 \<Rightarrow> bytes \<Rightarrow> u8 \<Rightarrow> u8 \<Rightarrow> bstate \<Rightarrow> bstate" where
  "emit_exec_event E type path truncated is_fileless s =
     (let (sample, s) = rb_reserve E s in
      case sample of
        None \<Rightarrow> s
      | Some m \<Rightarrow>
          let e = exec_event_at m;
              e = e\<lparr>ex_hdr := fill_common E type s, ex_args := read_process_args E (ex_args e),
                    ex_filename := path, ex_isFileless := is_fileless,
                    ex_path_truncated := truncated\<rparr> in
          case exec_scratch_map s (ke_pid_tgid E) of
            None \<Rightarrow> rb_submit (ExecEv e) s
          | Some scratch2 \<Rightarrow>
              rb_submit (ExecEv (e\<lparr>ex_args := es_args scratch2\<rparr>))
                (s\<lparr>exec_scratch_map := (exec_scratch_map s)(ke_pid_tgid E := None)\<rparr>))"

text \<open>Returns whether the file was a fileless payload, and the state.\<close>

definition check_fileless :: "kenv \<Rightarrow> ptr \<Rightarrow> bytes \<Rightarrow> u8 \<Rightarrow> bstate \<Rightarrow> bool \<times> bstate" where
  "check_fileless E bprm path truncated s =
     (let f = core_read (ke_binprms E) bprm bprm_file in
      if f = 0 then (False, s) else
      let ino = core_read (ke_kfiles E) f f_inode in
      if ino = 0 then (False, s) else
      let nlink = core_read (ke_inodes E) ino i_nlink;
          magic = core_read (ke_sbs E)
                    (core_read (ke_dentries E) (core_read (ke_kfiles E) f f_path_dentry) d_sb) s_magic in
      if nlink = 0 \<and> magic = TMPFS_MAGIC
      then (True, emit_exec_event E EVT_EXEC path truncated 1 s)
      else (False, s))"

definition lsm_bprm_check :: "kenv \<Rightarrow> ptr \<Rightarrow> bstate \<Rightarrow> int \<times> bstate" where
  "lsm_bprm_check E bprm s =
     (if enforcement_enabled (pol s) = 0 then (0, s) else
      case get_scratch E s of
        None \<Rightarrow> (0, s)
      | Some scratch \<Rightarrow>
          let (ret, path, truncated) =
                get_safe_path E (core_read (ke_binprms E) bprm bprm_file) (zeros PATH_BUF_SIZE) 0;
              s = put_scratch E (scratch\<lparr>primary := path\<rparr>) s in
          if ret < 0 then (0, s) else
          let lin = storage_get (ke_current E) s;
              redirected = (case lin of None \<Rightarrow> False | Some l \<Rightarrow> socket_redirected l \<noteq> 0);
              s = (if redirected then emit_exec_event E EVT_REVERSE_SHELL path truncated 0 s else s) in
          if redirected \<and> enforcement_enabled (pol s) \<noteq> 0 then (-1, s) else
          let (fileless, s) = check_fileless E bprm path truncated s in
          if fileless then (0, s) else
          let blocked = blocked_paths (pol s) path;
              s = (if (case blocked of None \<Rightarrow> False | Some v \<Rightarrow> v > 0)
                   then emit_exec_event E EVT_EXEC_BLOCKED path truncated 0 s else s) in
          if blocked = Some 1 then (-1, s) else
          let prefix_mode = is_prefix_blocked (pol s) path;
              s = (if prefix_mode > 0
                   then emit_exec_event E EVT_EXEC_BLOCKED path truncated 0 s else s) in
          if prefix_mode = 1 then (-1, s) else
          let f = core_read (ke_binprms E) bprm bprm_file;
              ino = core_read (ke_kfiles E) f f_inode in
          if f \<noteq> 0 \<and> ino \<noteq> 0
          then (0, case lin of
                     None \<Rightarrow> s
                   | Some l \<Rightarrow>
                       storage_set (ke_current E)
                         (l\<lparr>setuid_allowed :=
                              if core_read (ke_inodes E) ino i_mode AND S_ISUID \<noteq> 0 then 1 else 0\<rparr>) s)
          else (0, s))"

section \<open>Ptrace\<close>

definition emit_ptrace_event :: "kenv \<Rightarrow> ptr \<Rightarrow> u32 \<Rightarrow> bytes \<Rightarrow> bytes \<Rightarrow> bstate \<Rightarrow> bstate" where
  "emit_ptrace_event E child mode caller_comm target_comm =
     emit E (\<lambda>m s. PtraceEv ((ptrace_event_at m)
       \<lparr>pt_hdr := fill_common E EVENT_PTRACE_BLOCKED s,
        pt_target_pid := core_read (ke_tasks E) child ts_pid, pt_mode := mode,
        pt_caller_comm := caller_comm, pt_target_comm := target_comm\<rparr>))"

definition lsm_ptrace_access_check :: "kenv \<Rightarrow> ptr \<times> u32 \<Rightarrow> bstate \<Rightarrow> int \<times> bstate" where
  "lsm_ptrace_access_check E c s =
     (let (child, mode) = c in
      if ptrace_enforcement_enabled (pol s) = 0 then (0, s) else
      if mode AND PTRACE_MODE_READ \<noteq> 0 then (0, s) else
      if (case get_current_exe_id E of
            None \<Rightarrow> False
          | Some caller_id \<Rightarrow> allowed_ptrace_attaches (pol s) caller_id = Some 1)
      then (0, s) else
      let caller_comm = current_comm E 64;
          target_comm = snd (probe_read_str 64 (task_comm_src E child) (arr_at (ke_stack E) 0 64)) in
      (-1, emit_ptrace_event E child mode caller_comm target_comm s))"

section \<open>Kernel modules\<close>

definition emit_kmod_event :: "kenv \<Rightarrow> u32 \<Rightarrow> u32 \<Rightarrow> bstate \<Rightarrow> bstate" where
  "emit_kmod_event E type load_type =
     emit E (\<lambda>m s. KmodEv ((kmod_event_at m)
       \<lparr>km_hdr := (fill_common E type s)\<lparr>eh_comm := current_comm E 16\<rparr>,
        km_load_type := load_type\<rparr>))"

definition handle_kmod_check :: "kenv \<Rightarrow> u32 \<Rightarrow> bstate \<Rightarrow> int \<times> bstate" where
  "handle_kmod_check E ident s =
     (if ident \<noteq> 2 then (0, s) else
      if container_cgroups (pol s) (ke_cgroup_id E) = None then (0, s) else
      if kmod_enforcement_enabled (pol s) = 0 then (0, s) else
      (-1, emit_kmod_event E EVENT_KMOD_BLOCKED 2 s))"

text \<open>The context is the file, the purpose of the read and whether the contents are passed on.\<close>

definition kguard_kernel_read_file :: "kenv \<Rightarrow> ptr \<times> u32 \<times> bool \<Rightarrow> bstate \<Rightarrow> int \<times> bstate" where
  "kguard_kernel_read_file E c s = handle_kmod_check E (fst (snd c)) s"

definition kguard_kernel_load_data :: "kenv \<Rightarrow> u32 \<times> bool \<Rightarrow> bstate \<Rightarrow> int \<times> bstate" where
  "kguard_kernel_load_data E c s = handle_kmod_check E (fst c) s"

section \<open>Change of user id\<close>

definition emit_lpe_event :: "kenv \<Rightarrow> u32 \<Rightarrow> u32 \<Rightarrow> bstate \<Rightarrow> bstate" where
  "emit_lpe_event E old_uid new_uid =
     emit E (\<lambda>m s. LpeEv ((lpe_event_at m)
       \<lparr>lp_hdr := fill_common E EVENT_LPE_BLOCKED s, lp_old_uid := old_uid, lp_new_uid := new_uid\<rparr>))"

text \<open>The context is the new credentials, the old credentials and the flags.\<close>

definition kguard_task_fix_setuid :: "kenv \<Rightarrow> ptr \<times> ptr \<times> u32 \<Rightarrow> bstate \<Rightarrow> int \<times> bstate" where
  "kguard_task_fix_setuid E c s =
     (let (new, old, flags) = c in
      if enforcement_enabled (pol s) = 0 then (0, s) else
      let old_uid = core_read (ke_creds E) old cred_uid;
          new_uid = core_read (ke_creds E) new cred_uid in
      if old_uid = new_uid then (0, s) else
      case storage_get (ke_current E) s of
        None \<Rightarrow> (0, s)
      | Some lin \<Rightarrow>
          if old_uid \<noteq> 0 \<and> new_uid = 0 \<and> setuid_allowed lin = 0
          then (-1, emit_lpe_event E old_uid new_uid s)
          else (0, storage_set (ke_current E) (lin\<lparr>expected_uid := new_uid\<rparr>) s))"

section \<open>Fork\<close>

text \<open>The context is the new task and the clone flags.\<close>

definition kguard_task_alloc :: "kenv \<Rightarrow> ptr \<times> u64 \<Rightarrow> bstate \<Rightarrow> int \<times> bstate" where
  "kguard_task_alloc E c s =
     (let task = fst c;
          parent_lin = storage_get (ke_current E) s in
      (0, storage_upd E task
            (\<lambda>child_lin.
               (case parent_lin of
                  Some p \<Rightarrow> child_lin\<lparr>suspicious_ancestor := suspicious_ancestor p,
                                      expected_uid := expected_uid p,
                                      setuid_allowed := setuid_allowed p,
                                      socket_redirected := socket_redirected p,
                                      ancestor_filename := ancestor_filename p\<rparr>
                | None \<Rightarrow> child_lin\<lparr>expected_uid := ucast (ke_uid_gid E), setuid_allowed := 0,
                                    socket_redirected := 0\<rparr>)
               \<lparr>parent_pid := core_read (ke_tasks E) (ke_current E) ts_tgid\<rparr>) s))"

section \<open>Memory protection\<close>

definition PROT_WRITE :: u64 where "PROT_WRITE = 0x2"
definition PROT_EXEC :: u64 where "PROT_EXEC = 0x4"

definition check_rwx_violation :: "kenv \<Rightarrow> u64 \<Rightarrow> u64 \<Rightarrow> bstate \<Rightarrow> bstate" where
  "check_rwx_violation E req_prot prot s =
     (if req_prot AND PROT_WRITE \<noteq> 0 \<and> req_prot AND PROT_EXEC \<noteq> 0
      then emit E (\<lambda>m s. MprotectEv ((mprotect_event_at m)
             \<lparr>mp_hdr := fill_common E EVT_RWX_VIOLATION s, mp_req_prot := req_prot,
              mp_prot := prot\<rparr>)) s
      else s)"

text \<open>The contexts: file, requested protection, protection, flags; area, requested, protection.\<close>

definition lsm_mmap_file :: "kenv \<Rightarrow> ptr \<times> u64 \<times> u64 \<times> u64 \<Rightarrow> bstate \<Rightarrow> int \<times> bstate" where
  "lsm_mmap_file E c s =
     (let (f, reqprot, prot, flags) = c in (0, check_rwx_violation E reqprot prot s))"

definition lsm_file_mprotect :: "kenv \<Rightarrow> ptr \<times> u64 \<times> u64 \<Rightarrow> bstate \<Rightarrow> int \<times> bstate" where
  "lsm_file_mprotect E c s =
     (let (vma, reqprot, prot) = c in (0, check_rwx_violation E reqprot prot s))"

section \<open>Capabilities\<close>

definition CAP_SYS_ADMIN :: u32 where "CAP_SYS_ADMIN = 21"
definition CAP_SYS_MODULE :: u32 where "CAP_SYS_MODULE = 16"

text \<open>The context is the credentials, the user namespace, the capability and the options.\<close>

definition kguard_capable :: "kenv \<Rightarrow> ptr \<times> ptr \<times> u32 \<times> u32 \<Rightarrow> bstate \<Rightarrow> int \<times> bstate" where
  "kguard_capable E c s =
     (let cap = fst (snd (snd c)) in
      if cap \<noteq> CAP_SYS_ADMIN \<and> cap \<noteq> CAP_SYS_MODULE then (0, s) else
      if container_cgroups (pol s) (ke_cgroup_id E) \<noteq> Some 1 then (0, s) else
      let task = ke_current E;
          nsp = core_read (ke_tasks E) task ts_nsproxy;
          mnt = core_read (ke_nsproxies E) nsp nsp_mnt_ns in
      if task = 0 \<or> nsp = 0 \<or> mnt = 0 then (0, s) else
      let cur_inum = core_read (ke_mnt_nss E) mnt mns_inum in
      if cur_inum = host_mnt_ns_inum (pol s) then (0, s) else
      (0, emit E (\<lambda>m s. CapEv ((cap_event_at m)
            \<lparr>cp_hdr := fill_common E EVT_CAPABILITY_CHANGE s, cp_cap := cap,
             cp_is_container := 1\<rparr>)) s))"

section \<open>Specification vocabulary\<close>

text \<open>The file being executed, its resolved path and map key.\<close>

definition bprm_path :: "kenv \<Rightarrow> ptr \<Rightarrow> bytes option" where
  "bprm_path E bprm =
     (let (ret, b) = ke_d_path E (core_read (ke_binprms E) bprm bprm_file) (zeros 256) in
      if ret < 0 then None else Some (cstr b))"

text \<open>An unlinked file on tmpfs.\<close>

definition bprm_fileless :: "kenv \<Rightarrow> ptr \<Rightarrow> bool" where
  "bprm_fileless E bprm \<longleftrightarrow>
     (let f = core_read (ke_binprms E) bprm bprm_file;
          ino = core_read (ke_kfiles E) f f_inode in
      f \<noteq> 0 \<and> ino \<noteq> 0 \<and> core_read (ke_inodes E) ino i_nlink = 0 \<and>
      core_read (ke_sbs E) (core_read (ke_dentries E) (core_read (ke_kfiles E) f f_path_dentry) d_sb)
        s_magic = TMPFS_MAGIC)"

text \<open>The task redirected a socket to its standard streams, or descends from one that did.\<close>

definition redirected :: "ptr \<Rightarrow> bstate \<Rightarrow> bool" where
  "redirected t s \<longleftrightarrow> (\<exists>l. storage_get t s = Some l \<and> socket_redirected l \<noteq> 0)"

section \<open>The contract\<close>

lemma emit_exec_event_frame [simp, kg_frame]:
  "lineage_map (emit_exec_event E t p tr f s) = lineage_map s"
  "scratch_map (emit_exec_event E t p tr f s) = scratch_map s"
  "dns_pending_tx (emit_exec_event E t p tr f s) = dns_pending_tx s"
  "pol (emit_exec_event E t p tr f s) = pol s"
  "rb_seq (emit_exec_event E t p tr f s) = Suc (rb_seq s)"
  by (simp_all add: emit_exec_event_def Let_def case_prod_unfold split: option.splits)

lemma emit_exec_event_rb:
  assumes "ke_rb E (rb_seq s) \<noteq> None"
  obtains e where "rb (emit_exec_event E t p tr f s) = rb s @ [ExecEv e]"
    "eh_event_type (ex_hdr e) = t" "ex_filename e = p" "ex_isFileless e = f" "ex_path_truncated e = tr"
  using assms
  by (fastforce simp: emit_exec_event_def Let_def case_prod_unfold split: option.splits)

lemma emit_exec_event_step:
  assumes "length p = 256" "t \<in> {EVT_EXEC, EVT_EXEC_BLOCKED, EVT_REVERSE_SHELL}"
  shows "kg_step s (emit_exec_event E t p tr f s)"
proof (rule kg_stepI)
  assume wf: "bstate_wf s"
  let ?s = "snd (rb_reserve E s)"
  let ?d = "?s\<lparr>exec_scratch_map := (exec_scratch_map ?s)(ke_pid_tgid E := None)\<rparr>"
  have r: "kg_step s ?s" by (rule rb_reserve_step)
  then have wf': "bstate_wf ?s" using wf by (rule kg_step_wf)
  then have d: "kg_step s ?d" using r by (auto simp: kg_step_def bstate_wf_def)
  have x: "length (es_args x) = 256" if "exec_scratch_map ?s (ke_pid_tgid E) = Some x" for x
    using wf' that by (auto simp: bstate_wf_def exec_scratch_wf_def)
  have ev: "event_wf (ExecEv ((exec_event_at m)\<lparr>ex_hdr := fill_common E t ?s, ex_args := a,
      ex_filename := p, ex_isFileless := f, ex_path_truncated := tr\<rparr>))" if "length a = 256" for m a
    using that assms wf' by (auto simp: event_wf_def)
  show "kg_step s (emit_exec_event E t p tr f s)"
    using r rb_submit_after [OF r ev] rb_submit_after [OF d ev] x
    by (auto simp: emit_exec_event_def Let_def case_prod_unfold exec_event_at_def split: option.splits)
qed

lemma check_fileless_fst: "fst (check_fileless E bprm p tr s) = bprm_fileless E bprm"
  by (simp add: check_fileless_def bprm_fileless_def Let_def)

lemma check_fileless_snd:
  "snd (check_fileless E bprm p tr s) =
     (if bprm_fileless E bprm then emit_exec_event E EVT_EXEC p tr 1 s else s)"
  by (simp add: check_fileless_def bprm_fileless_def Let_def)

lemma maybe_exec_event_step:
  assumes "kg_step s u" "length p = 256" "t \<in> {EVT_EXEC, EVT_EXEC_BLOCKED, EVT_REVERSE_SHELL}"
  shows "kg_step s (if b then emit_exec_event E t p tr f u else u)"
  using assms kg_step_trans [OF assms(1) emit_exec_event_step [OF assms(2,3)]] by simp

lemma storage_get_cong: "lineage_map s' = lineage_map s \<Longrightarrow> storage_get t s' = storage_get t s"
  by (simp add: storage_get_def)

text \<open>The effect of an allowed exec on the lineage: whether the binary is set-user-id is noted.\<close>

definition note_setuid :: "kenv \<Rightarrow> ptr \<Rightarrow> bstate \<Rightarrow> bstate" where
  "note_setuid E bprm s =
     (let f = core_read (ke_binprms E) bprm bprm_file;
          ino = core_read (ke_kfiles E) f f_inode in
      if f = 0 \<or> ino = 0 then s else
      case storage_get (ke_current E) s of
        None \<Rightarrow> s
      | Some l \<Rightarrow>
          storage_set (ke_current E)
            (l\<lparr>setuid_allowed :=
                 if core_read (ke_inodes E) ino i_mode AND S_ISUID \<noteq> 0 then 1 else 0\<rparr>) s)"

text \<open>The last part of the hook: the two path lists and the note about the set-user-id bit.\<close>

definition bprm_lists ::
    "kenv \<Rightarrow> ptr \<Rightarrow> bytes \<Rightarrow> u8 \<Rightarrow> process_lineage option \<Rightarrow> bstate \<Rightarrow> int \<times> bstate" where
  "bprm_lists E bprm path truncated lin s =
     (let blocked = blocked_paths (pol s) path;
          s = (if (case blocked of None \<Rightarrow> False | Some v \<Rightarrow> v > 0)
               then emit_exec_event E EVT_EXEC_BLOCKED path truncated 0 s else s) in
      if blocked = Some 1 then (-1, s) else
      let prefix_mode = is_prefix_blocked (pol s) path;
          s = (if prefix_mode > 0
               then emit_exec_event E EVT_EXEC_BLOCKED path truncated 0 s else s) in
      if prefix_mode = 1 then (-1, s) else
      let f = core_read (ke_binprms E) bprm bprm_file;
          ino = core_read (ke_kfiles E) f f_inode in
      if f \<noteq> 0 \<and> ino \<noteq> 0
      then (0, case lin of
                 None \<Rightarrow> s
               | Some l \<Rightarrow>
                   storage_set (ke_current E)
                     (l\<lparr>setuid_allowed :=
                          if core_read (ke_inodes E) ino i_mode AND S_ISUID \<noteq> 0 then 1 else 0\<rparr>) s)
      else (0, s))"

text \<open>The hook as a decision, once enforcement is on and the path is resolved.\<close>

lemma lsm_bprm_check_decision:
  assumes "enforcement_enabled (pol s) \<noteq> 0" "get_scratch E s = Some sc"
    and "get_safe_path E (core_read (ke_binprms E) bprm bprm_file) (zeros 256) 0 = (ret, path, tr)"
    and "\<not> ret < 0" "s1 = put_scratch E (sc\<lparr>primary := path\<rparr>) s"
    and "s2 = (if (case blocked_paths (pol s) path of None \<Rightarrow> False | Some v \<Rightarrow> v > 0)
               then emit_exec_event E EVT_EXEC_BLOCKED path tr 0 s1 else s1)"
    and "s3 = (if is_prefix_blocked (pol s) path > 0
               then emit_exec_event E EVT_EXEC_BLOCKED path tr 0 s2 else s2)"
  shows "lsm_bprm_check E bprm s =
     (if redirected (ke_current E) s then (-1, emit_exec_event E EVT_REVERSE_SHELL path tr 0 s1)
      else if bprm_fileless E bprm then (0, emit_exec_event E EVT_EXEC path tr 1 s1)
      else if blocked_paths (pol s) path = Some 1 then (-1, s2)
      else if is_prefix_blocked (pol s) path = 1 then (-1, s3)
      else (0, note_setuid E bprm s3))"
proof -
  have pl: "pol s1 = pol s" "pol s2 = pol s" by (simp_all add: assms(5,6))
  have lm: "storage_get t s1 = storage_get t s" "storage_get t s3 = storage_get t s" for t
    by (rule storage_get_cong, simp add: assms(5-7))+
  let ?lin = "storage_get (ke_current E) s"
  have red: "(case ?lin of None \<Rightarrow> False | Some l \<Rightarrow> socket_redirected l \<noteq> 0) = redirected (ke_current E) s"
    by (simp add: redirected_def split: option.splits)
  show ?thesis
  proof (cases "redirected (ke_current E) s")
    case True
    then show ?thesis
      using assms(1-4) red lm(1)
      by (simp add: lsm_bprm_check_def Let_def assms(5) [symmetric] pl del: not_None_eq)
  next
    case False
    have fl: "check_fileless E bprm path tr u =
        (bprm_fileless E bprm, if bprm_fileless E bprm then emit_exec_event E EVT_EXEC path tr 1 u else u)" for u
      by (simp add: check_fileless_fst check_fileless_snd prod_eq_iff)
    have run: "lsm_bprm_check E bprm s =
        (let (fileless, u) = check_fileless E bprm path tr s1 in
         if fileless then (0, u) else bprm_lists E bprm path tr ?lin u)"
      using assms(1-4) False red lm(1)
      by (simp add: lsm_bprm_check_def bprm_lists_def Let_def assms(5) [symmetric] cong: if_cong)
    have "bprm_lists E bprm path tr ?lin s1 =
        (if blocked_paths (pol s) path = Some 1 then (-1, s2)
         else if is_prefix_blocked (pol s) path = 1 then (-1, s3) else (0, note_setuid E bprm s3))"
      unfolding bprm_lists_def Let_def pl(1) assms(6) [symmetric] pl(2) assms(7) [symmetric]
      by (simp add: note_setuid_def Let_def lm(2))
    with run fl False show ?thesis by simp
  qed
qed

lemma note_setuid_step: "kg_step s (note_setuid E bprm s)"
proof -
  have "kg_step s (storage_set (ke_current E) (l\<lparr>setuid_allowed := v\<rparr>) s)"
    if "storage_get (ke_current E) s = Some l" for l v
    using storage_wf [OF _ that] by (intro storage_set_step) (simp add: lineage_wf_def)
  then show ?thesis by (simp add: note_setuid_def Let_def split: option.splits)
qed

lemma lsm_bprm_check_step:
  assumes "kenv_ok E"
  shows "kg_step s (snd (lsm_bprm_check E bprm s))"
proof -
  let ?f = "core_read (ke_binprms E) bprm bprm_file"
  obtain ret path tr where g: "get_safe_path E ?f (zeros 256) 0 = (ret, path, tr)" by (metis prod_cases3)
  then have l: "length path = 256"
    using get_safe_path_length [of E "zeros 256" ?f 0] assms by (simp add: kenv_ok_def)
  show ?thesis
  proof (cases "enforcement_enabled (pol s) = 0 \<or> get_scratch E s = None")
    case True
    then show ?thesis by (auto simp: lsm_bprm_check_def)
  next
    case False
    then obtain sc where sc: "get_scratch E s = Some sc" and en: "enforcement_enabled (pol s) \<noteq> 0" by auto
    define s1 where "s1 = put_scratch E (sc\<lparr>primary := path\<rparr>) s"
    define s2 where "s2 = (if (case blocked_paths (pol s) path of None \<Rightarrow> False | Some v \<Rightarrow> v > 0)
      then emit_exec_event E EVT_EXEC_BLOCKED path tr 0 s1 else s1)"
    define s3 where "s3 = (if is_prefix_blocked (pol s) path > 0
      then emit_exec_event E EVT_EXEC_BLOCKED path tr 0 s2 else s2)"
    have k1: "kg_step s s1" unfolding s1_def by (rule put_primary_step [OF sc l])
    have k2: "kg_step s s2" unfolding s2_def by (rule maybe_exec_event_step [OF k1 l]) simp
    have k3: "kg_step s s3" unfolding s3_def by (rule maybe_exec_event_step [OF k2 l]) simp
    show ?thesis
    proof (cases "ret < 0")
      case True
      then show ?thesis using sc g en k1 by (simp add: lsm_bprm_check_def Let_def s1_def)
    next
      case nr: False
      show ?thesis
        unfolding lsm_bprm_check_decision [OF en sc g nr s1_def s2_def s3_def]
        using k2 k3 kg_step_trans [OF k3 note_setuid_step]
          kg_step_trans [OF k1 emit_exec_event_step [OF l]] by simp
    qed
  qed
qed

lemma emit_ptrace_event_step:
  "length c = 64 \<Longrightarrow> length t = 64 \<Longrightarrow> kg_step s (emit_ptrace_event E child mode c t s)"
  unfolding emit_ptrace_event_def by (rule emit_step) (simp add: event_wf_def)

lemma lsm_ptrace_access_check_step: "kg_step s (snd (lsm_ptrace_access_check E c s))"
proof -
  have "length (snd (probe_read_str 64 src (arr_at st 0 64))) = 64" for src st
    by (rule probe_read_str_length) simp_all
  then show ?thesis
    by (simp add: lsm_ptrace_access_check_def Let_def case_prod_unfold emit_ptrace_event_step)
qed

lemma handle_kmod_check_step: "kg_step s (snd (handle_kmod_check E ident s))"
  unfolding handle_kmod_check_def emit_kmod_event_def
  using fill_common_wf by (auto intro!: emit_step simp: event_wf_def hdr_wf_def)

lemma kguard_task_fix_setuid_step: "kg_step s (snd (kguard_task_fix_setuid E c s))"
proof -
  have "kg_step s (emit_lpe_event E a b s)" for a b
    unfolding emit_lpe_event_def by (rule emit_step) (simp add: event_wf_def)
  moreover have "kg_step s (storage_set (ke_current E) (l\<lparr>expected_uid := u\<rparr>) s)"
    if "storage_get (ke_current E) s = Some l" for l u
    using storage_wf [OF _ that] by (intro storage_set_step) (simp add: lineage_wf_def)
  ultimately show ?thesis
    by (simp add: kguard_task_fix_setuid_def Let_def case_prod_unfold split: option.splits)
qed

lemma kguard_task_alloc_step: "kg_step s (snd (kguard_task_alloc E c s))"
  unfolding kguard_task_alloc_def Let_def snd_conv
  by (rule storage_upd_step) (auto simp: lineage_wf_def dest: storage_wf split: option.splits)

lemma check_rwx_violation_step: "kg_step s (check_rwx_violation E r p s)"
  unfolding check_rwx_violation_def by (auto intro!: emit_step simp: event_wf_def)

lemma kguard_capable_step: "kg_step s (snd (kguard_capable E c s))"
proof -
  have "kg_step s (emit E (\<lambda>m s. CapEv ((cap_event_at m)
      \<lparr>cp_hdr := fill_common E EVT_CAPABILITY_CHANGE s, cp_cap := k, cp_is_container := 1\<rparr>)) s)" for k
    by (rule emit_step) (simp add: event_wf_def)
  then show ?thesis by (simp add: kguard_capable_def Let_def)
qed

lemmas lsm_step = lsm_bprm_check_step lsm_ptrace_access_check_step handle_kmod_check_step
  kguard_task_fix_setuid_step kguard_task_alloc_step check_rwx_violation_step kguard_capable_step

interpretation bprm_check: lsm_hook lsm_bprm_check
  by unfold_locales (simp add: lsm_step,
    simp add: lsm_bprm_check_def Let_def case_prod_unfold split: option.splits)

interpretation ptrace_access_check: lsm_hook lsm_ptrace_access_check
  by unfold_locales (simp add: lsm_step,
    simp add: lsm_ptrace_access_check_def Let_def case_prod_unfold split: option.splits)

interpretation kernel_read_file: lsm_hook kguard_kernel_read_file
  by unfold_locales (simp add: lsm_step kguard_kernel_read_file_def,
    simp add: kguard_kernel_read_file_def handle_kmod_check_def)

interpretation kernel_load_data: lsm_hook kguard_kernel_load_data
  by unfold_locales (simp add: lsm_step kguard_kernel_load_data_def,
    simp add: kguard_kernel_load_data_def handle_kmod_check_def)

interpretation task_fix_setuid: lsm_hook kguard_task_fix_setuid
  by unfold_locales (simp add: lsm_step,
    simp add: kguard_task_fix_setuid_def Let_def case_prod_unfold split: option.splits)

interpretation task_alloc: sensor kguard_task_alloc
  by unfold_locales (simp add: lsm_step, simp add: kguard_task_alloc_def Let_def)

interpretation mmap_file: sensor lsm_mmap_file
  by unfold_locales (simp_all add: lsm_step lsm_mmap_file_def case_prod_unfold)

interpretation file_mprotect: sensor lsm_file_mprotect
  by unfold_locales (simp_all add: lsm_step lsm_file_mprotect_def case_prod_unfold)

interpretation capable: sensor kguard_capable
  by unfold_locales (simp add: lsm_step, simp add: kguard_capable_def Let_def)

end
