(* ===== verification/KG_Net.thy ===== *)
theory KG_Net
  imports KG_Lsm
begin

text \<open>
  \<open>bpf/sensors/net.h\<close>, the system-call part: the connect sensor, the sensors on the send calls with
  an explicit destination, and the dup sensors that note when a socket becomes a standard stream.
  The sockaddr variants are read from user memory, the family first. The DNS part of the file is
  the theory \<open>KG_Dns\<close>.
\<close>

section \<open>Socket addresses\<close>

definition sockaddr_in_min :: cfields where
  "sockaddr_in_min = [(''sin_family'', c_u16), (''sin_port'', c_u16), (''sin_addr'', c_u32)]"

definition sockaddr_in6_min :: cfields where
  "sockaddr_in6_min =
     [(''sin6_family'', c_u16), (''sin6_port'', c_u16), (''sin6_flowinfo'', c_u32),
      (''sin6_addr'', c_arr 16 c_u8), (''sin6_scope_id'', c_u32)]"

definition sockaddr_un_min :: cfields where
  "sockaddr_un_min = [(''sun_family'', c_u16), (''sun_path'', c_arr 108 c_u8)]"

text \<open>\<open>((port & 0xff) << 8) | ((port >> 8) & 0xff)\<close>, stored in 16 bits.\<close>

definition swap_port :: "u16 \<Rightarrow> u16" where
  "swap_port p = push_bit 8 (p AND 0xff) OR (drop_bit 8 p AND 0xff)"

text \<open>\<open>bpf_probe_read_user(&family, 2, addr)\<close>; \<open>None\<close> is a fault.\<close>

definition read_family :: "kenv \<Rightarrow> ptr \<Rightarrow> u16 option" where
  "read_family E addr =
     (let (r, bs) = probe_read (ke_umem E) addr 2 in
      if r < 0 then None else Some (u16_at (region_of bs) 0))"

text \<open>A connect event of a family, every family-specific member zero.\<close>

definition connect_event_init :: "kenv \<Rightarrow> u32 \<Rightarrow> u16 \<Rightarrow> region \<Rightarrow> bstate \<Rightarrow> connect_event" where
  "connect_event_init E evt_type family m s =
     (connect_event_at m)\<lparr>cn_hdr := fill_common E evt_type s, cn_family := family, cn_daddr := 0,
                          cn_daddr6 := zeros 16, cn_dport := 0, cn_unix_path := zeros 108\<rparr>"

text \<open>The two internet families.\<close>

definition fill_inet :: "kenv \<Rightarrow> u16 \<Rightarrow> ptr \<Rightarrow> connect_event \<Rightarrow> connect_event" where
  "fill_inet E family addr e =
     (if family = 2 then
        let (r, bs) = probe_read (ke_umem E) addr (struct_size sockaddr_in_min); sa = region_of bs in
        if r = 0
        then e\<lparr>cn_daddr := u32_at sa (offsetof sockaddr_in_min ''sin_addr''),
               cn_dport := swap_port (u16_at sa (offsetof sockaddr_in_min ''sin_port''))\<rparr>
        else e
      else if family = 10 then
        let (r, bs) = probe_read (ke_umem E) addr (struct_size sockaddr_in6_min); sa6 = region_of bs in
        if r = 0
        then e\<lparr>cn_daddr6 := arr_at sa6 (offsetof sockaddr_in6_min ''sin6_addr'') 16,
               cn_dport := swap_port (u16_at sa6 (offsetof sockaddr_in6_min ''sin6_port''))\<rparr>
        else e
      else e)"

text \<open>All three families; the result of the \<open>AF_UNIX\<close> read is not checked.\<close>

definition fill_sockaddr :: "kenv \<Rightarrow> u16 \<Rightarrow> ptr \<Rightarrow> connect_event \<Rightarrow> connect_event" where
  "fill_sockaddr E family addr e =
     (if family = 1 then
        let (r, bs) = probe_read (ke_umem E) addr (struct_size sockaddr_un_min) in
        e\<lparr>cn_unix_path := arr_at (region_of bs) (offsetof sockaddr_un_min ''sun_path'') 108\<rparr>
      else fill_inet E family addr e)"

section \<open>Sensors on connect and the send calls\<close>

definition syscall_connect_args :: cfields where
  "syscall_connect_args =
     [(''common_tp_fields'', c_u64), (''syscall_nr'', c_u32), (''__pad'', c_u32), (''fd'', c_u64),
      (''uservaddr'', c_ptr), (''addrlen'', c_u64)]"

definition tp_connect :: "kenv \<Rightarrow> region \<Rightarrow> bstate \<Rightarrow> int \<times> bstate" where
  "tp_connect E ctx s =
     (let uservaddr = u64_at ctx (offsetof syscall_connect_args ''uservaddr'') in
      case read_family E uservaddr of
        None \<Rightarrow> (0, s)
      | Some family \<Rightarrow>
          (0, emit E (\<lambda>m s. ConnectEv
                (fill_sockaddr E family uservaddr (connect_event_init E EVT_CONNECT family m s))) s))"

definition syscall_sendto_args :: cfields where
  "syscall_sendto_args =
     [(''common_tp_fields'', c_u64), (''syscall_nr'', c_u32), (''__pad'', c_u32), (''fd'', c_u64),
      (''buff'', c_ptr), (''len'', c_u64), (''flags'', c_u64), (''addr'', c_ptr),
      (''addr_len'', c_u64)]"

definition tp_sendto :: "kenv \<Rightarrow> region \<Rightarrow> bstate \<Rightarrow> int \<times> bstate" where
  "tp_sendto E ctx s =
     (let addr = u64_at ctx (offsetof syscall_sendto_args ''addr'');
          addr_len = u64_at ctx (offsetof syscall_sendto_args ''addr_len'') in
      if addr = 0 \<or> addr_len = 0 then (0, s) else
      case read_family E addr of
        None \<Rightarrow> (0, s)
      | Some family \<Rightarrow>
          (0, emit E (\<lambda>m s. ConnectEv
                (fill_sockaddr E family addr (connect_event_init E EVT_SENDTO family m s))) s))"

definition syscall_sendmsg_args :: cfields where
  "syscall_sendmsg_args =
     [(''common_tp_fields'', c_u64), (''syscall_nr'', c_u32), (''__pad'', c_u32), (''fd'', c_u64),
      (''msg'', c_ptr), (''flags'', c_u64)]"

definition user_msghdr_min :: cfields where
  "user_msghdr_min = [(''msg_name'', c_ptr), (''msg_namelen'', c_u32)]"

text \<open>The name and its length in a message header; \<open>None\<close> is a fault.\<close>

definition read_msg_name :: "kenv \<Rightarrow> ptr \<Rightarrow> (ptr \<times> u32) option" where
  "read_msg_name E p =
     (let (r, bs) = probe_read (ke_umem E) p (struct_size user_msghdr_min); msg = region_of bs in
      if r < 0 then None
      else Some (u64_at msg (offsetof user_msghdr_min ''msg_name''),
                 u32_at msg (offsetof user_msghdr_min ''msg_namelen'')))"

definition tp_sendmsg :: "kenv \<Rightarrow> region \<Rightarrow> bstate \<Rightarrow> int \<times> bstate" where
  "tp_sendmsg E ctx s =
     (let msgp = u64_at ctx (offsetof syscall_sendmsg_args ''msg'') in
      if msgp = 0 then (0, s) else
      case read_msg_name E msgp of
        None \<Rightarrow> (0, s)
      | Some (msg_name, msg_namelen) \<Rightarrow>
          if msg_name = 0 \<or> msg_namelen = 0 then (0, s) else
          case read_family E msg_name of
            None \<Rightarrow> (0, s)
          | Some family \<Rightarrow>
              (0, emit E (\<lambda>m s. ConnectEv
                    (fill_sockaddr E family msg_name (connect_event_init E EVT_SENDTO family m s))) s))"

definition mmsghdr_min :: cfields where
  "mmsghdr_min = [(''msg_hdr'', c_struct_ty user_msghdr_min), (''msg_len'', c_u32)]"

definition syscall_sendmmsg_args :: cfields where
  "syscall_sendmmsg_args =
     [(''common_tp_fields'', c_u64), (''syscall_nr'', c_u32), (''__pad'', c_u32), (''fd'', c_u64),
      (''mmsg'', c_ptr), (''vlen'', c_u32), (''flags'', c_u32)]"

text \<open>Only the first message of the vector is inspected, and no \<open>AF_UNIX\<close> path is read.\<close>

definition tp_sendmmsg :: "kenv \<Rightarrow> region \<Rightarrow> bstate \<Rightarrow> int \<times> bstate" where
  "tp_sendmmsg E ctx s =
     (let mmsg = u64_at ctx (offsetof syscall_sendmmsg_args ''mmsg'');
          vlen = u32_at ctx (offsetof syscall_sendmmsg_args ''vlen'') in
      if mmsg = 0 \<or> vlen = 0 then (0, s) else
      case read_msg_name E (mmsg + of_nat (offsetof mmsghdr_min ''msg_hdr'')) of
        None \<Rightarrow> (0, s)
      | Some (msg_name, msg_namelen) \<Rightarrow>
          if msg_name = 0 \<or> msg_namelen = 0 then (0, s) else
          case read_family E msg_name of
            None \<Rightarrow> (0, s)
          | Some family \<Rightarrow>
              (0, emit E (\<lambda>m s. ConnectEv
                    (fill_inet E family msg_name (connect_event_init E EVT_SENDTO family m s))) s))"

section \<open>Sockets as standard streams\<close>

definition S_IFSOCK :: u16 where "S_IFSOCK = 0xC000"
definition S_IFMT :: u16 where "S_IFMT = 0xF000"

definition syscall_dup2_args :: cfields where
  "syscall_dup2_args =
     [(''common_tp_fields'', c_u64), (''syscall_nr'', c_u32), (''__pad'', c_u32), (''oldfd'', c_u64),
      (''newfd'', c_u64)]"

definition syscall_dup3_args :: cfields where
  "syscall_dup3_args =
     [(''common_tp_fields'', c_u64), (''syscall_nr'', c_u32), (''__pad'', c_u32), (''oldfd'', c_u64),
      (''newfd'', c_u64), (''flags'', c_u64)]"

definition check_socket_dup :: "kenv \<Rightarrow> u32 \<Rightarrow> u32 \<Rightarrow> bstate \<Rightarrow> bstate" where
  "check_socket_dup E oldfd newfd s =
     (if newfd > 2 then s else
      let task = ke_current E in
      if task = 0 then s else
      let files = core_read (ke_tasks E) task ts_files in
      if files = 0 then s else
      let fdt = core_read (ke_files_structs E) files fs_fdt in
      if fdt = 0 then s else
      let fd_array = core_read (ke_fdtables E) fdt fdt_fd in
      if fd_array = 0 then s else
      let (r, bs) = probe_read (ke_kmem E) (fd_array + 8 * ucast oldfd) 8;
          f = u64_at (region_of bs) 0 in
      if r < 0 \<or> f = 0 then s else
      let ino = core_read (ke_kfiles E) f f_inode in
      if ino = 0 then s else
      let mode = core_read (ke_inodes E) ino i_mode in
      if mode AND S_IFMT = S_IFSOCK
      then storage_upd E task (\<lambda>lin. lin\<lparr>socket_redirected := 1\<rparr>) s
      else s)"

definition tp_dup2 :: "kenv \<Rightarrow> region \<Rightarrow> bstate \<Rightarrow> int \<times> bstate" where
  "tp_dup2 E ctx s =
     (0, check_socket_dup E (ucast (u64_at ctx (offsetof syscall_dup2_args ''oldfd'')))
           (ucast (u64_at ctx (offsetof syscall_dup2_args ''newfd''))) s)"

definition tp_dup3 :: "kenv \<Rightarrow> region \<Rightarrow> bstate \<Rightarrow> int \<times> bstate" where
  "tp_dup3 E ctx s =
     (0, check_socket_dup E (ucast (u64_at ctx (offsetof syscall_dup3_args ''oldfd'')))
           (ucast (u64_at ctx (offsetof syscall_dup3_args ''newfd''))) s)"

section \<open>The contract\<close>

lemma connect_event_wf:
  assumes "bstate_wf s" "t \<in> {EVT_CONNECT, EVT_SENDTO}"
  shows "event_wf (ConnectEv (fill_inet E f a (connect_event_init E t f m s)))"
    and "event_wf (ConnectEv (fill_sockaddr E f a (connect_event_init E t f m s)))"
  using assms
  by (auto simp: event_wf_def fill_inet_def fill_sockaddr_def connect_event_init_def Let_def
      split: prod.splits)

lemma emit_connect_step:
  assumes "t \<in> {EVT_CONNECT, EVT_SENDTO}"
  shows "kg_step s (emit E (\<lambda>m s. ConnectEv (fill_inet E f a (connect_event_init E t f m s))) s)"
    and "kg_step s (emit E (\<lambda>m s. ConnectEv (fill_sockaddr E f a (connect_event_init E t f m s))) s)"
  using assms by (auto intro!: emit_step connect_event_wf)

lemma check_socket_dup_step: "kg_step s (check_socket_dup E o' n s)"
proof -
  have "kg_step s (storage_upd E t (\<lambda>lin. lin\<lparr>socket_redirected := 1\<rparr>) s)" for t
    by (rule storage_upd_step) (simp add: lineage_wf_def)
  then show ?thesis by (simp add: check_socket_dup_def Let_def split: prod.splits)
qed

interpretation connect: sensor tp_connect
  by unfold_locales
    (simp_all add: tp_connect_def Let_def emit_connect_step split: option.splits)

interpretation sendto: sensor tp_sendto
  by unfold_locales
    (simp_all add: tp_sendto_def Let_def emit_connect_step split: option.splits)

interpretation sendmsg: sensor tp_sendmsg
  by unfold_locales
    (simp_all add: tp_sendmsg_def Let_def emit_connect_step split: option.splits)

interpretation sendmmsg: sensor tp_sendmmsg
  by unfold_locales
    (simp_all add: tp_sendmmsg_def Let_def emit_connect_step split: option.splits)

interpretation dup2: sensor tp_dup2
  by unfold_locales (simp_all add: tp_dup2_def check_socket_dup_step)

interpretation dup3: sensor tp_dup3
  by unfold_locales (simp_all add: tp_dup3_def check_socket_dup_step)

section \<open>What the network sensors report\<close>

text \<open>A destination, and the destination a user-space sockaddr stands for.\<close>

datatype endpoint = Inet bytes u16 | Inet6 bytes u16 | Local bytes | Other u16

definition peer_at :: "mem \<Rightarrow> ptr \<Rightarrow> endpoint option" where
  "peer_at m a =
     (case read_bytes m a 2 of
        None \<Rightarrow> None
      | Some fam \<Rightarrow>
          Some (if fam = [2, 0] then
                  (case read_bytes m a 8 of
                     None \<Rightarrow> Inet (zeros 4) 0
                   | Some bs \<Rightarrow> Inet (drop 4 bs) (be16 (bs ! 2) (bs ! 3)))
                else if fam = [10, 0] then
                  (case read_bytes m a 28 of
                     None \<Rightarrow> Inet6 (zeros 16) 0
                   | Some bs \<Rightarrow> Inet6 (take 16 (drop 8 bs)) (be16 (bs ! 2) (bs ! 3)))
                else if fam = [1, 0] then
                  (case read_bytes m a 110 of
                     None \<Rightarrow> Local (zeros 108)
                   | Some bs \<Rightarrow> Local (drop 2 bs))
                else Other (be16 (fam ! 1) (fam ! 0))))"

text \<open>The destination a sample reports.\<close>

definition peer_of_event :: "connect_event \<Rightarrow> endpoint" where
  "peer_of_event e =
     (if cn_family e = 2 then Inet (le_bytes 4 (unat (cn_daddr e))) (cn_dport e)
      else if cn_family e = 10 then Inet6 (cn_daddr6 e) (cn_dport e)
      else if cn_family e = 1 then Local (cn_unix_path e)
      else Other (cn_family e))"

definition peer_report :: "u32 \<Rightarrow> endpoint \<Rightarrow> event \<Rightarrow> bool" where
  "peer_report code peer ev \<longleftrightarrow>
     (\<exists>e. ev = ConnectEv e \<and> eh_event_type (cn_hdr e) = code \<and> peer_of_event e = peer)"

lemma be16_val: "unat (be16 hi lo) = 256 * unat hi + unat lo"
proof -
  have d: "push_bit 8 (ucast hi :: u16) AND ucast lo = 0"
    by (rule bit_word_eqI) (auto simp: bit_simps dest: bit_imp_le_length)
  have "be16 hi lo = push_bit 8 (ucast hi) + ucast lo"
    unfolding be16_def by (rule disjunctive_add_eq_or [symmetric]) (rule d)
  moreover have lt: "unat x < 256" for x :: u8 using unsigned_less [of x, where ?'a = nat] by simp
  moreover have u: "unat (ucast x :: u16) = unat x" for x :: u8
    using lt [of x] by (simp add: unsigned_ucast_eq take_bit_eq_mod)
  moreover have "unat (push_bit 8 (ucast hi :: u16)) = 256 * unat hi"
    using lt [of hi] by (simp add: push_bit_eq_mult unat_word_ariths u)
  moreover have "256 * unat hi + unat lo < 65536" using lt [of hi] lt [of lo] by linarith
  ultimately show ?thesis by (simp add: unat_word_ariths)
qed

lemma u16_at_be16: "u16_at m off = be16 (m (Suc off)) (m off)"
proof -
  have "le_val (arr_at m off 2) = 256 * unat (m (Suc off)) + unat (m off)"
    by (simp add: arr_at_def numeral_2_eq_2)
  moreover have "unat (u16_at m off) = le_val (arr_at m off 2)"
    using le_val_bound [of "arr_at m off 2"] unfolding u16_at_def by (subst unat_of_nat) simp
  ultimately show ?thesis by (simp only: word_unat_eq_iff be16_val)
qed

lemma swap_be16: "swap_port (be16 a b) = be16 b a"
proof (rule bit_word_eqI)
  fix n assume n: "n < LENGTH(16)"
  have m: "(255 :: u16) = mask 8" by (simp add: mask_eq_exp_minus_1)
  show "bit (swap_port (be16 a b)) n = bit (be16 b a) n"
    using n unfolding swap_port_def be16_def m
    by (auto simp: bit_simps dest: bit_imp_le_length)
qed

lemma be16_inj: "be16 a b = be16 c d \<longleftrightarrow> a = c \<and> b = d"
proof
  have lt: "unat x < 256" for x :: u8 using unsigned_less [of x, where ?'a = nat] by simp
  have hi: "unat (be16 x y) div 256 = unat x" and lo: "unat (be16 x y) mod 256 = unat y" for x y
    using lt [of y] by (simp_all add: be16_val)
  assume "be16 a b = be16 c d"
  then have "unat a = unat c" "unat b = unat d" by (metis hi) (metis lo \<open>be16 a b = be16 c d\<close>)
  then show "a = c \<and> b = d" by (simp add: word_unat_eq_iff)
qed simp

lemma le_bytes_le_val: "length bs = n \<Longrightarrow> le_bytes n (le_val bs) = bs"
proof (induction bs arbitrary: n)
  case (Cons b bs)
  have b: "unat b < 256" using unsigned_less [of b, where ?'a = nat] by simp
  from Cons obtain k where n: "n = Suc k" "length bs = k" by auto
  have "(word_of_nat (unat b + 256 * le_val bs) :: u8) = b"
    by (simp add: word_unat_eq_iff unat_of_nat b del: of_nat_add of_nat_mult)
  moreover have "(unat b + 256 * le_val bs) div 256 = le_val bs" using b by simp
  ultimately show ?case using Cons.IH [OF n(2)] n(1) by (simp add: le_bytes_Suc)
qed (simp add: le_bytes_def)

lemma le_bytes_u32: "le_bytes 4 (unat (u32_at m off)) = arr_at m off 4"
proof -
  have "unat (u32_at m off) = le_val (arr_at m off 4)"
    using le_val_bound [of "arr_at m off 4"] unfolding u32_at_def by (subst unat_of_nat) simp
  then show ?thesis by (simp add: le_bytes_le_val)
qed

lemma read_bytes_length: "read_bytes m a n = Some bs \<Longrightarrow> length bs = n"
  by (simp add: read_bytes_Some_iff)

lemma sockaddr_layouts [simp]:
  "struct_size sockaddr_in_min = 8" "offsetof sockaddr_in_min ''sin_port'' = 2"
  "offsetof sockaddr_in_min ''sin_addr'' = 4"
  "struct_size sockaddr_in6_min = 28" "offsetof sockaddr_in6_min ''sin6_port'' = 2"
  "offsetof sockaddr_in6_min ''sin6_addr'' = 8"
  "struct_size sockaddr_un_min = 110" "offsetof sockaddr_un_min ''sun_path'' = 2"
  by code_simp+

lemma read_family_bytes:
  "read_family E a = map_option (\<lambda>bs. be16 (bs ! 1) (bs ! 0)) (read_bytes (ke_umem E) a 2)"
  by (auto simp: read_family_def probe_read_def u16_at_be16 region_of_def dest!: read_bytes_length
      split: option.splits)

lemma family_bytes:
  assumes "length fam = 2"
  shows "be16 (fam ! 1) (fam ! 0) = 2 \<longleftrightarrow> fam = [2, 0]"
    and "be16 (fam ! 1) (fam ! 0) = 10 \<longleftrightarrow> fam = [10, 0]"
    and "be16 (fam ! 1) (fam ! 0) = 1 \<longleftrightarrow> fam = [1, 0]"
proof -
  obtain x y where f: "fam = [x, y]" using assms by (auto simp: numeral_2_eq_2 length_Suc_conv)
  have "be16 0 2 = 2" "be16 0 10 = 10" "be16 0 1 = 1" by (simp_all add: be16_def)
  then show "be16 (fam ! 1) (fam ! 0) = 2 \<longleftrightarrow> fam = [2, 0]"
    and "be16 (fam ! 1) (fam ! 0) = 10 \<longleftrightarrow> fam = [10, 0]"
    and "be16 (fam ! 1) (fam ! 0) = 1 \<longleftrightarrow> fam = [1, 0]"
    using f be16_inj [of y x 0 2] be16_inj [of y x 0 10] be16_inj [of y x 0 1] by auto
qed

text \<open>Filling in the sockaddr yields the destination it stands for.\<close>

lemma fill_sockaddr_peer:
  assumes "read_family E a = Some f" "cn_family e = f" "cn_daddr e = 0" "cn_daddr6 e = zeros 16"
    "cn_dport e = 0" "cn_unix_path e = zeros 108"
  shows "peer_at (ke_umem E) a = Some (peer_of_event (fill_sockaddr E f a e))"
proof -
  let ?m = "ke_umem E"
  from assms(1) obtain fam where fam: "read_bytes ?m a 2 = Some fam" "f = be16 (fam ! 1) (fam ! 0)"
    by (auto simp: read_family_bytes)
  then have l: "length fam = 2" by (simp add: read_bytes_length)
  have z: "le_bytes 4 0 = zeros 4" by (simp add: le_bytes_def zeros_def map_replicate_const)
  have in4: "arr_at (region_of bs) 4 4 = drop 4 bs \<and> region_of bs 2 = bs ! 2 \<and> region_of bs (Suc 2) = bs ! 3"
    if "read_bytes ?m a 8 = Some bs" for bs
    using read_bytes_length [OF that] by (simp add: arr_at_region_of) (simp add: region_of_def)
  have in6: "arr_at (region_of bs) 8 16 = take 16 (drop 8 bs) \<and> region_of bs 2 = bs ! 2 \<and> region_of bs (Suc 2) = bs ! 3"
    if "read_bytes ?m a 28 = Some bs" for bs
    using read_bytes_length [OF that] by (simp add: arr_at_region_of) (simp add: region_of_def)
  have un: "arr_at (region_of bs) 2 108 = drop 2 bs" if "read_bytes ?m a 110 = Some bs" for bs
    using read_bytes_length [OF that] by (simp add: arr_at_region_of)
  have uz: "arr_at (region_of (zeros 110)) 2 108 = zeros 108" by (simp add: arr_at_region_of)
  consider "f = 2" "fam = [2, 0]" | "f = 10" "fam = [10, 0]" | "f = 1" "fam = [1, 0]"
    | "f \<notin> {2, 10, 1}" "fam \<notin> {[2, 0], [10, 0], [1, 0]}"
    using family_bytes [OF l] fam(2) by auto
  then show ?thesis
  proof cases
    case 1
    then show ?thesis using fam in4 assms z
      by (auto simp: peer_at_def fill_sockaddr_def fill_inet_def probe_read_def peer_of_event_def
          le_bytes_u32 u16_at_be16 swap_be16 split: option.splits)
  next
    case 2
    then show ?thesis using fam in6 assms
      by (auto simp: peer_at_def fill_sockaddr_def fill_inet_def probe_read_def peer_of_event_def
          u16_at_be16 swap_be16 split: option.splits)
  next
    case 3
    then show ?thesis using fam un uz assms
      by (auto simp: peer_at_def fill_sockaddr_def probe_read_def peer_of_event_def split: option.splits)
  next
    case 4
    then show ?thesis using fam assms
      by (auto simp: peer_at_def fill_sockaddr_def fill_inet_def peer_of_event_def)
  qed
qed

lemma peer_at_None: "peer_at (ke_umem E) a = None \<longleftrightarrow> read_family E a = None"
  by (simp add: peer_at_def read_family_bytes split: option.splits)

lemma fill_hdr [simp]:
  "cn_hdr (fill_inet E f a e) = cn_hdr e" "cn_hdr (fill_sockaddr E f a e) = cn_hdr e"
  by (simp_all add: fill_inet_def fill_sockaddr_def Let_def split: prod.splits)

text \<open>What the connect and send sensors have in common.\<close>

lemma emit_peer:
  assumes "read_family E a = Some f" "ke_rb E (rb_seq s) \<noteq> None"
  shows "\<exists>ev. rb (emit E (\<lambda>m s. ConnectEv (fill_sockaddr E f a (connect_event_init E t f m s))) s) = rb s @ [ev] \<and>
              peer_report t (the (peer_at (ke_umem E) a)) ev"
proof -
  have "peer_at (ke_umem E) a =
      Some (peer_of_event (fill_sockaddr E f a (connect_event_init E t f m s)))" for m s
    by (rule fill_sockaddr_peer) (simp_all add: assms connect_event_init_def)
  then have "peer_of_event (fill_sockaddr E f a (connect_event_init E t f m s)) =
      the (peer_at (ke_umem E) a)" for m s by (metis option.sel)
  moreover have "cn_hdr (connect_event_init E t f m s) = fill_common E t s" for m s
    by (simp add: connect_event_init_def)
  ultimately show ?thesis
    using assms(2) by (auto simp: emit_rb peer_report_def)
qed

lemma syscall_net_layouts [simp]:
  "offsetof syscall_connect_args ''uservaddr'' = 24"
  "offsetof syscall_sendto_args ''addr'' = 48" "offsetof syscall_sendto_args ''addr_len'' = 56"
  "offsetof syscall_sendmsg_args ''msg'' = 24"
  "offsetof syscall_sendmmsg_args ''mmsg'' = 24" "offsetof syscall_sendmmsg_args ''vlen'' = 32"
  "offsetof syscall_dup2_args ''oldfd'' = 16" "offsetof syscall_dup2_args ''newfd'' = 24"
  "offsetof syscall_dup3_args ''oldfd'' = 16" "offsetof syscall_dup3_args ''newfd'' = 24"
  "offsetof mmsghdr_min ''msg_hdr'' = 0" "struct_size user_msghdr_min = 16"
  "offsetof user_msghdr_min ''msg_name'' = 0" "offsetof user_msghdr_min ''msg_namelen'' = 8"
  by code_simp+

text \<open>
  The connect sensor reports exactly the destination the process passed. With room in the ring
  buffer it submits one CONNECT sample naming the address and the host-order port of an IPv4 or IPv6
  sockaddr, the path of a local one, or the bare family of any other; when the sockaddr cannot be
  read it does nothing.
\<close>

theorem tp_connect_peer:
  assumes "ke_rb E (rb_seq s) \<noteq> None"
  shows "case peer_at (ke_umem E) (sys_enter_arg ctx 1) of
           None \<Rightarrow> tp_connect E ctx s = (0, s)
         | Some peer \<Rightarrow> \<exists>ev. rb (snd (tp_connect E ctx s)) = rb s @ [ev] \<and> peer_report EVT_CONNECT peer ev"
proof (cases "read_family E (sys_enter_arg ctx 1)")
  case None
  then show ?thesis using peer_at_None [of E "sys_enter_arg ctx 1"]
    by (simp add: tp_connect_def sys_enter_arg_at)
next
  case (Some f)
  then obtain p where p: "peer_at (ke_umem E) (sys_enter_arg ctx 1) = Some p"
    using peer_at_None [of E "sys_enter_arg ctx 1"] by auto
  with emit_peer [OF Some assms, of EVT_CONNECT] Some show ?thesis
    by (simp add: tp_connect_def sys_enter_arg_at)
qed

text \<open>Bytes mapped at an address, and a sockaddr for 10.0.0.1, port 443, at address 1.\<close>

definition mem_of :: "u64 \<Rightarrow> bytes \<Rightarrow> mem" where
  "mem_of base bs a = (if unat (a - base) < length bs then Some (bs ! unat (a - base)) else None)"

lemma read_bytes_mem_of:
  assumes "off + n \<le> length bs" "length bs < 2 ^ 64"
  shows "read_bytes (mem_of base bs) (base + of_nat off) n = Some (take n (drop off bs))"
proof -
  have "unat (of_nat off + of_nat i :: u64) = off + i" if "i < n" for i
    using assms that by (simp add: unat_of_nat flip: of_nat_add)
  then show ?thesis
    unfolding read_bytes_Some_iff using assms by (auto simp: mem_of_def add.assoc)
qed

definition sockaddr_sample :: bytes where
  "sockaddr_sample = [2, 0, 1, 0xBB, 10, 0, 0, 1]"

definition kenv_sockaddr :: kenv where
  "kenv_sockaddr = kenv_quiet\<lparr>ke_umem := mem_of 1 sockaddr_sample\<rparr>"

lemma sockaddr_sample_peer: "peer_at (ke_umem kenv_sockaddr) 1 = Some (Inet [10, 0, 0, 1] 443)"
  using read_bytes_mem_of [of 0 2 sockaddr_sample 1] read_bytes_mem_of [of 0 8 sockaddr_sample 1]
  by (simp add: peer_at_def kenv_sockaddr_def) (simp add: sockaddr_sample_def be16_def)

theorem tp_connect_peer_witness:
  "\<exists>ev. rb (snd (tp_connect kenv_sockaddr (\<lambda>i. if i = 24 then 1 else 0) (bstate_init policy_off))) = [ev] \<and>
        peer_report EVT_CONNECT (Inet [10, 0, 0, 1] 443) ev"
proof -
  let ?c = "\<lambda>i :: nat. if i = 24 then 1 else 0 :: u8"
  have a: "sys_enter_arg ?c 1 = 1"
    by (simp add: sys_enter_arg_at u64_at_def arr_at_def upt_conv_Cons)
  show ?thesis
    using tp_connect_peer [of kenv_sockaddr "bstate_init policy_off" ?c, unfolded a sockaddr_sample_peer]
    by (simp add: kenv_sockaddr_def kenv_quiet_def)
qed

text \<open>The destination in a message header.\<close>

definition send_dest :: "kenv \<Rightarrow> ptr \<Rightarrow> ptr option" where
  "send_dest E msg =
     (case read_bytes (ke_umem E) msg 16 of
        None \<Rightarrow> None
      | Some bs \<Rightarrow> if u64_at (region_of bs) 0 = 0 \<or> u32_at (region_of bs) 8 = 0 then None
                   else Some (u64_at (region_of bs) 0))"

lemma read_msg_name_dest:
  "(case read_msg_name E p of None \<Rightarrow> None | Some (n, l) \<Rightarrow> if n = 0 \<or> l = 0 then None else Some n) =
   send_dest E p"
  by (auto simp: read_msg_name_def send_dest_def probe_read_def Let_def split: option.splits)

text \<open>
  A send with an explicit destination is reported like a connect. For \<open>sendto\<close> the destination is
  the fifth argument, ignored when it is null or its length zero; for \<open>sendmsg\<close> it is the name in
  the message header, ignored when the header cannot be read or names nobody. Every other call
  leaves the state alone.
\<close>

theorem tp_send_peer:
  assumes "ke_rb E (rb_seq s) \<noteq> None"
    and "(run, dest) \<in>
           {(tp_sendto, if sys_enter_arg ctx 4 = 0 \<or> sys_enter_arg ctx 5 = 0 then None
                        else Some (sys_enter_arg ctx 4)),
            (tp_sendmsg, if sys_enter_arg ctx 1 = 0 then None else send_dest E (sys_enter_arg ctx 1))}"
  shows "case Option.bind dest (peer_at (ke_umem E)) of
           None \<Rightarrow> run E ctx s = (0, s)
         | Some peer \<Rightarrow> \<exists>ev. rb (snd (run E ctx s)) = rb s @ [ev] \<and> peer_report EVT_SENDTO peer ev"
proof -
  have run: "run E ctx s =
      (case dest of None \<Rightarrow> (0, s) | Some a \<Rightarrow>
         (case read_family E a of None \<Rightarrow> (0, s) | Some f \<Rightarrow>
            (0, emit E (\<lambda>m s. ConnectEv (fill_sockaddr E f a (connect_event_init E EVT_SENDTO f m s))) s)))"
    using assms(2) read_msg_name_dest [of E "sys_enter_arg ctx 1"]
    by (auto simp: tp_sendto_def tp_sendmsg_def sys_enter_arg_at split: option.splits if_splits)
  show ?thesis
  proof (cases dest)
    case None
    then show ?thesis using run by simp
  next
    case (Some a)
    show ?thesis
    proof (cases "read_family E a")
      case None
      then show ?thesis using Some run peer_at_None [of E a] by simp
    next
      case f: (Some f)
      then obtain p where "peer_at (ke_umem E) a = Some p" using peer_at_None [of E a] by auto
      with emit_peer [OF f assms(1), of EVT_SENDTO] Some f run show ?thesis by simp
    qed
  qed
qed

theorem tp_send_peer_witness:
  "\<exists>ev. rb (snd (tp_sendto kenv_sockaddr (\<lambda>i. if i \<in> {48, 56} then 1 else 0) (bstate_init policy_off))) =
          [ev] \<and> peer_report EVT_SENDTO (Inet [10, 0, 0, 1] 443) ev"
proof -
  let ?c = "\<lambda>i :: nat. if i \<in> {48, 56} then 1 else 0 :: u8"
  have a: "sys_enter_arg ?c 4 = 1" "sys_enter_arg ?c 5 = 1"
    by (simp_all add: sys_enter_arg_at u64_at_def arr_at_def upt_conv_Cons)
  show ?thesis
    using tp_send_peer [of kenv_sockaddr "bstate_init policy_off" tp_sendto "Some 1" ?c] a sockaddr_sample_peer
    by (simp add: kenv_sockaddr_def kenv_quiet_def)
qed

text \<open>
  The \<open>sendmmsg\<close> sensor inspects the first message only and has no branch for local sockets: a
  sample for \<open>AF_UNIX\<close> always reports an empty path, whatever path the process sends to.
\<close>

theorem tp_sendmmsg_unix_empty:
  assumes "rb (snd (tp_sendmmsg E ctx s)) = rb s @ [ConnectEv e]" "cn_family e = 1"
  shows "cn_unix_path e = zeros 108 \<and> cn_daddr e = 0 \<and> cn_dport e = 0 \<and>
         send_dest E (sys_enter_arg ctx 1) \<noteq> None"
proof -
  obtain n l f m s' where r: "read_msg_name E (sys_enter_arg ctx 1) = Some (n, l)" "n \<noteq> 0" "l \<noteq> 0"
    and e: "e = fill_inet E f n (connect_event_init E EVT_SENDTO f m s')"
    using assms(1) that
    by (fastforce simp: tp_sendmmsg_def sys_enter_arg_at emit_rb Let_def split: if_splits option.splits)
  have "f = 1" using assms(2) e
    by (simp add: fill_inet_def connect_event_init_def Let_def split: if_splits prod.splits)
  moreover have "send_dest E (sys_enter_arg ctx 1) = Some n"
    using r read_msg_name_dest [of E "sys_enter_arg ctx 1"] by simp
  ultimately show ?thesis using e by (simp add: fill_inet_def connect_event_init_def)
qed

text \<open>A message header at address 1 whose name is the local sockaddr at address 17.\<close>

definition mmsg_sample :: bytes where
  "mmsg_sample = [17, 0, 0, 0, 0, 0, 0, 0, 110, 0, 0, 0, 0, 0, 0, 0, 1, 0, 0x2F, 0x61, 0]"

definition kenv_mmsg :: kenv where
  "kenv_mmsg = kenv_quiet\<lparr>ke_umem := mem_of 1 mmsg_sample\<rparr>"

theorem tp_sendmmsg_unix_empty_witness:
  "\<exists>e. rb (snd (tp_sendmmsg kenv_mmsg (\<lambda>i. if i \<in> {24, 32} then 1 else 0) (bstate_init policy_off))) =
         [ConnectEv e] \<and> cn_unix_path e = zeros 108"
proof -
  let ?c = "\<lambda>i :: nat. if i \<in> {24, 32} then 1 else 0 :: u8"
  have c: "u64_at ?c 24 = 1" "u32_at ?c 32 = 1"
    by (simp_all add: u64_at_def u32_at_def arr_at_def upt_conv_Cons)
  have "read_msg_name kenv_mmsg 1 = Some (17, 110)"
    using read_bytes_mem_of [of 0 16 mmsg_sample 1]
    by (simp add: read_msg_name_def kenv_mmsg_def probe_read_def)
      (simp add: mmsg_sample_def u64_at_def u32_at_def arr_at_region_of)
  moreover have "read_family kenv_mmsg 17 = Some 1"
    using read_bytes_mem_of [of 16 2 mmsg_sample 1]
    by (simp add: read_family_bytes kenv_mmsg_def) (simp add: mmsg_sample_def be16_def)
  moreover have "ke_rb kenv_mmsg 0 = Some (\<lambda>_. 0)" by (simp add: kenv_mmsg_def kenv_quiet_def)
  ultimately have "\<exists>e. rb (snd (tp_sendmmsg kenv_mmsg ?c (bstate_init policy_off))) = [ConnectEv e] \<and>
      cn_family e = 1"
    using c by (simp add: tp_sendmmsg_def emit_rb) (simp add: fill_inet_def connect_event_init_def)
  then show ?thesis
    using tp_sendmmsg_unix_empty [of kenv_mmsg ?c "bstate_init policy_off"] by auto
qed

section \<open>Redirected sockets\<close>

text \<open>A descriptor of the current task that refers to a socket.\<close>

definition fd_socket :: "kenv \<Rightarrow> u32 \<Rightarrow> bool" where
  "fd_socket E fd \<longleftrightarrow>
     (let files = core_read (ke_tasks E) (ke_current E) ts_files;
          fdt = core_read (ke_files_structs E) files fs_fdt;
          arr = core_read (ke_fdtables E) fdt fdt_fd in
      arr \<noteq> 0 \<and>
      (case read_bytes (ke_kmem E) (arr + 8 * ucast fd) 8 of
         None \<Rightarrow> False
       | Some bs \<Rightarrow>
           core_read (ke_inodes E) (core_read (ke_kfiles E) (u64_at (region_of bs) 0) f_inode) i_mode
             AND S_IFMT = S_IFSOCK))"

lemma check_socket_dup_spec:
  assumes "ke_current E \<noteq> 0"
  shows "check_socket_dup E oldfd newfd s =
     (if newfd \<le> 2 \<and> fd_socket E oldfd
      then storage_upd E (ke_current E) (\<lambda>lin. lin\<lparr>socket_redirected := 1\<rparr>) s else s)"
proof -
  have z: "(0 :: u16) AND S_IFMT \<noteq> S_IFSOCK" by (simp add: S_IFSOCK_def)
  show ?thesis
    using assms z
    by (auto simp: check_socket_dup_def fd_socket_def Let_def probe_read_def not_less split: option.splits)
qed

text \<open>
  Duplicating a descriptor marks the task exactly when the target is a standard stream and the
  source refers to a socket; the mark is never cleared by another dup, no other task is touched and
  no sample is submitted.
\<close>

theorem tp_dup_marks_redirection:
  assumes "ke_current E \<noteq> 0" "ke_storage_ok E (ke_current E)" "run \<in> {tp_dup2, tp_dup3}"
  shows "(redirected (ke_current E) (snd (run E ctx s)) \<longleftrightarrow>
            redirected (ke_current E) s \<or>
            (ucast (sys_enter_arg ctx 1) :: u32) \<le> 2 \<and> fd_socket E (ucast (sys_enter_arg ctx 0))) \<and>
         (\<forall>t. t \<noteq> ke_current E \<longrightarrow> storage_get t (snd (run E ctx s)) = storage_get t s) \<and>
         rb (snd (run E ctx s)) = rb s"
proof -
  have run: "snd (run E ctx s) =
      check_socket_dup E (ucast (sys_enter_arg ctx 0)) (ucast (sys_enter_arg ctx 1)) s"
    using assms(3) by (auto simp: tp_dup2_def tp_dup3_def sys_enter_arg_at)
  show ?thesis
    using assms(2) unfolding run check_socket_dup_spec [OF assms(1)]
    by (auto simp: redirected_def storage_get_def storage_upd_def split: option.splits)
qed

text \<open>A task whose descriptor 3 is a socket.\<close>

definition kenv_socket :: kenv where
  "kenv_socket = kenv_quiet
     \<lparr>ke_tasks := [0x1000 \<mapsto> \<lparr>ts_pid = 42, ts_tgid = 42, ts_real_parent = 0, ts_mm = 0,
                              ts_files = 0x100, ts_nsproxy = 0, ts_comm = pad0 16 (str ''sh'')\<rparr>],
      ke_files_structs := [0x100 \<mapsto> \<lparr>fs_fdt = 0x200\<rparr>], ke_fdtables := [0x200 \<mapsto> \<lparr>fdt_fd = 0x300\<rparr>],
      ke_kmem := mem_of 0x318 [0, 4, 0, 0, 0, 0, 0, 0],
      ke_kfiles := [0x400 \<mapsto> \<lparr>f_inode = 0x500, f_flags = 2, f_path_dentry = 0\<rparr>],
      ke_inodes := [0x500 \<mapsto> \<lparr>i_mode = 0xC1ED, i_ino = 9, i_nlink = 1, i_sb = 0\<rparr>]\<rparr>"

lemma kenv_socket_fd: "fd_socket kenv_socket 3"
  using read_bytes_mem_of [of 0 8 "[0, 4, 0, 0, 0, 0, 0, 0]" "0x318"]
  by (simp add: fd_socket_def kenv_socket_def kenv_quiet_def core_read_def u64_at_def arr_at_region_of
      S_IFMT_def S_IFSOCK_def)

theorem tp_dup_marks_redirection_witness:
  "redirected 0x1000 (snd (tp_dup2 kenv_socket (\<lambda>i. if i = 16 then 3 else 0) (bstate_init policy_off)))"
proof -
  let ?c = "\<lambda>i :: nat. if i = 16 then 3 else 0 :: u8"
  have a: "sys_enter_arg ?c 0 = 3" "sys_enter_arg ?c 1 = 0"
    by (simp_all add: sys_enter_arg_at u64_at_def arr_at_def upt_conv_Cons)
  have "ke_current kenv_socket = 0x1000" "ke_storage_ok kenv_socket (ke_current kenv_socket)"
    by (simp_all add: kenv_socket_def kenv_quiet_def)
  then show ?thesis
    using tp_dup_marks_redirection [of kenv_socket tp_dup2 ?c "bstate_init policy_off"] a kenv_socket_fd
    by simp
qed

end
