(* ===== verification/KG_Prevent.thy ===== *)
theory KG_Prevent
  imports KG_Net
begin

text \<open>
  What the prevention hooks of \<open>bpf/sensors/lsm.h\<close> guarantee: the exact condition under which each
  hook denies, that a denial is on record, that every switch fails open, and how the lineage record
  of a task changes on exec, on fork and on a change of user id.
\<close>

section \<open>Exec\<close>

lemma bprm_path_key:
  assumes "kenv_ok E"
  shows "get_safe_path E (core_read (ke_binprms E) bprm bprm_file) (zeros 256) 0 = (ret, path, tr) \<Longrightarrow>
         (if ret < 0 then bprm_path E bprm = None
          else bprm_path E bprm = Some (cstr path) \<and> path = pad0 256 (cstr path))"
proof -
  let ?f = "core_read (ke_binprms E) bprm bprm_file"
  assume g: "get_safe_path E ?f (zeros 256) 0 = (ret, path, tr)"
  then have r: "ret = fst (ke_d_path E ?f (zeros 256))"
    by (auto simp: get_safe_path_def Let_def case_prod_unfold split: if_splits)
  show ?thesis
  proof (cases "ret < 0")
    case True
    then show ?thesis using r by (simp add: bprm_path_def case_prod_unfold)
  next
    case False
    have "cstr path = cstr (snd (ke_d_path E ?f (zeros 256)))"
      "path = pad0 256 (cstr (snd (ke_d_path E ?f (zeros 256))))"
      using get_safe_path_ok(1,2) [OF _ _ g] False assms by (auto simp: kenv_ok_def)
    with False show ?thesis using r by (simp add: bprm_path_def case_prod_unfold)
  qed
qed

text \<open>The condition on which an exec is denied, over the resolved path.\<close>

definition exec_denied :: "kenv \<Rightarrow> ptr \<Rightarrow> bstate \<Rightarrow> bool" where
  "exec_denied E bprm s \<longleftrightarrow>
     enforcement_enabled (pol s) \<noteq> 0 \<and>
     (\<exists>p. bprm_path E bprm = Some p \<and>
        (redirected (ke_current E) s \<or>
         \<not> bprm_fileless E bprm \<and>
         (blocked_paths (pol s) (pad0 256 p) = Some 1 \<or> is_prefix_blocked (pol s) (pad0 256 p) = 1)))"

lemma lsm_bprm_check_fst:
  assumes "kenv_ok E" "get_scratch E s \<noteq> None"
  shows "fst (lsm_bprm_check E bprm s) = (if exec_denied E bprm s then -1 else 0)"
proof -
  obtain ret path tr where
    g: "get_safe_path E (core_read (ke_binprms E) bprm bprm_file) (zeros 256) 0 = (ret, path, tr)"
    by (metis prod_cases3)
  note key = bprm_path_key [OF assms(1) g]
  from assms(2) obtain sc where sc: "get_scratch E s = Some sc" by blast
  consider (off) "enforcement_enabled (pol s) = 0" | (unresolved) "enforcement_enabled (pol s) \<noteq> 0" "ret < 0"
    | (on) "enforcement_enabled (pol s) \<noteq> 0" "\<not> ret < 0" by blast
  then show ?thesis
  proof cases
    case off
    then show ?thesis by (simp add: lsm_bprm_check_def exec_denied_def)
  next
    case unresolved
    then show ?thesis using sc g key by (simp add: lsm_bprm_check_def exec_denied_def Let_def)
  next
    case on
    with key have "bprm_path E bprm = Some (cstr path)" "pad0 256 (cstr path) = path" by simp_all
    with on show ?thesis
      unfolding lsm_bprm_check_decision [OF on(1) sc g on(2) refl refl refl]
      by (simp add: exec_denied_def)
  qed
qed

text \<open>
  C1: the exec hook denies exactly when enforcement is on, the path of the binary can be resolved,
  and either the task (or an ancestor it inherited from) put a socket on a standard stream, or the
  binary is not a fileless payload and its path is blocked, by an exact entry or by the longest
  matching prefix rule. In every other case the exec is allowed.
\<close>

theorem lsm_bprm_check_verdict:
  assumes "kenv_ok E" "get_scratch E s \<noteq> None"
  shows "fst (lsm_bprm_check E bprm s) = (if exec_denied E bprm s then -1 else 0)"
  using assms by (rule lsm_bprm_check_fst)

text \<open>A kernel that is about to execute \<open>/usr/bin/nc\<close>, a regular set-user-id file.\<close>

definition kenv_exec :: kenv where
  "kenv_exec = kenv_quiet
     \<lparr>ke_binprms := [0x2000 \<mapsto> \<lparr>bprm_file = 0x3000\<rparr>],
      ke_kfiles := [0x3000 \<mapsto> \<lparr>f_inode = 0x4000, f_flags = 0, f_path_dentry = 0\<rparr>],
      ke_inodes := [0x4000 \<mapsto> \<lparr>i_mode = 0x89ED, i_ino = 12, i_nlink = 1, i_sb = 0\<rparr>]\<rparr>"

abbreviation nc_policy :: policy where
  "nc_policy \<equiv> policy_off\<lparr>enforcement_enabled := 1, blocked_paths := [pad0 256 (str ''/usr/bin/nc'') \<mapsto> 1]\<rparr>"

lemma kenv_exec_ok [simp]: "kenv_ok kenv_exec"
  using kenv_quiet_ok by (simp add: kenv_ok_def kenv_exec_def)

lemma kenv_exec_path: "bprm_path kenv_exec 0x2000 = Some (str ''/usr/bin/nc'')"
proof -
  have "cstr (pad0 256 (str ''/usr/bin/nc'')) = str ''/usr/bin/nc''" by (simp add: cstr_pad0 str_def)
  then show ?thesis
    by (simp add: bprm_path_def kenv_exec_def kenv_quiet_def d_path_const_def) (simp add: str_def)
qed

lemma kenv_exec_regular: "\<not> bprm_fileless kenv_exec 0x2000"
  by (simp add: bprm_fileless_def kenv_exec_def core_read_def)

lemma kenv_exec_denied: "exec_denied kenv_exec 0x2000 (bstate_init nc_policy)"
  using kenv_exec_path kenv_exec_regular by (simp add: exec_denied_def)

theorem lsm_bprm_check_verdict_witness:
  "fst (lsm_bprm_check kenv_exec 0x2000 (bstate_init nc_policy)) = -1"
  using lsm_bprm_check_verdict [of kenv_exec "bstate_init nc_policy" "0x2000"] kenv_exec_denied by simp

text \<open>
  Every denied exec is on record. When the hook denies and the ring buffer has room, the last
  sample it submitted names the resolved path under REVERSE_SHELL (for a redirected task) or
  EXEC_BLOCKED.
\<close>

theorem lsm_bprm_check_denied_reported:
  assumes "kenv_ok E" "fst (lsm_bprm_check E bprm s) = -1" "\<And>n. ke_rb E n \<noteq> None"
  shows "\<exists>es e p. rb (snd (lsm_bprm_check E bprm s)) = rb s @ es @ [ExecEv e] \<and>
           bprm_path E bprm = Some p \<and> ex_filename e = pad0 256 p \<and> ex_isFileless e = 0 \<and>
           eh_event_type (ex_hdr e) =
             (if redirected (ke_current E) s then EVT_REVERSE_SHELL else EVT_EXEC_BLOCKED)"
proof -
  obtain ret path tr where
    g: "get_safe_path E (core_read (ke_binprms E) bprm bprm_file) (zeros 256) 0 = (ret, path, tr)"
    by (metis prod_cases3)
  from assms(2) g obtain sc where on: "enforcement_enabled (pol s) \<noteq> 0" "\<not> ret < 0"
    and sc: "get_scratch E s = Some sc"
    by (auto simp: lsm_bprm_check_def Let_def split: if_splits option.splits)
  have key: "bprm_path E bprm = Some (cstr path)" "pad0 256 (cstr path) = path"
    using bprm_path_key [OF assms(1) g] on(2) by simp_all
  define s1 where "s1 = put_scratch E (sc\<lparr>primary := path\<rparr>) s"
  define s2 where "s2 = (if (case blocked_paths (pol s) path of None \<Rightarrow> False | Some v \<Rightarrow> v > 0)
    then emit_exec_event E EVT_EXEC_BLOCKED path tr 0 s1 else s1)"
  define s3 where "s3 = (if is_prefix_blocked (pol s) path > 0
    then emit_exec_event E EVT_EXEC_BLOCKED path tr 0 s2 else s2)"
  note dec = lsm_bprm_check_decision [OF on(1) sc g on(2) s1_def s2_def s3_def]
  have ev: "\<exists>e. rb (emit_exec_event E t path tr 0 u) = rb u @ [ExecEv e] \<and> ex_filename e = path \<and>
      ex_isFileless e = 0 \<and> eh_event_type (ex_hdr e) = t" for t u
    by (rule emit_exec_event_rb [OF assms(3), where t = t and p = path and tr = tr and f = 0]) blast
  have r1: "rb s1 = rb s" by (simp add: s1_def)
  have "\<exists>es. rb s2 = rb s @ es"
    using r1 ev [of EVT_EXEC_BLOCKED s1] unfolding s2_def by (simp only: split: if_split) blast
  then obtain es where r2: "rb s2 = rb s @ es" ..
  consider (redir) "redirected (ke_current E) s"
    | (exact) "\<not> redirected (ke_current E) s" "\<not> bprm_fileless E bprm" "blocked_paths (pol s) path = Some 1"
    | (prefix) "\<not> redirected (ke_current E) s" "\<not> bprm_fileless E bprm"
        "blocked_paths (pol s) path \<noteq> Some 1" "is_prefix_blocked (pol s) path = 1"
    using dec assms(2) by (auto split: if_splits)
  then show ?thesis
  proof cases
    case redir
    then show ?thesis using ev [of EVT_REVERSE_SHELL s1] r1 dec key by (intro exI [of _ "[]"]) auto
  next
    case exact
    then show ?thesis using ev [of EVT_EXEC_BLOCKED s1] r1 dec key
      by (intro exI [of _ "[]"]) (auto simp: s2_def)
  next
    case prefix
    then show ?thesis using ev [of EVT_EXEC_BLOCKED s2] r2 dec key
      by (intro exI [of _ es]) (auto simp: s3_def)
  qed
qed

theorem lsm_bprm_check_denied_reported_witness:
  "\<exists>es e. rb (snd (lsm_bprm_check kenv_exec 0x2000 (bstate_init nc_policy))) = es @ [ExecEv e] \<and>
          ex_filename e = pad0 256 (str ''/usr/bin/nc'') \<and> eh_event_type (ex_hdr e) = EVT_EXEC_BLOCKED"
proof -
  obtain ret path tr where
    g: "get_safe_path kenv_exec (core_read (ke_binprms kenv_exec) 0x2000 bprm_file) (zeros 256) 0 = (ret, path, tr)"
    by (metis prod_cases3)
  have r: "\<not> ret < 0" and p: "path = pad0 256 (str ''/usr/bin/nc'')"
    using bprm_path_key [OF kenv_exec_ok g] kenv_exec_path by (auto split: if_splits)
  have d: "fst (lsm_bprm_check kenv_exec 0x2000 (bstate_init nc_policy)) = -1"
    using kenv_exec_regular p
    by (subst lsm_bprm_check_decision [OF _ _ g r refl refl refl]) (simp_all add: redirected_def)
  have rb: "ke_rb kenv_exec n \<noteq> None" for n by (simp add: kenv_exec_def kenv_quiet_def)
  from lsm_bprm_check_denied_reported [OF kenv_exec_ok d rb] kenv_exec_path
  show ?thesis by (auto simp: redirected_def)
qed

section \<open>The switches\<close>

text \<open>
  Enforcement fails open. With its switch off, each prevention hook allows the operation and
  leaves every map and the ring buffer as they were: exec, open and change of user id under
  \<open>enforcement_enabled\<close>, ptrace under \<open>ptrace_enforcement_enabled\<close>, module loading under
  \<open>kmod_enforcement_enabled\<close>.
\<close>

theorem switches_off_allow:
  shows "(enforcement_enabled (pol s) = 0 \<longrightarrow>
            lsm_bprm_check E bprm s = (0, s) \<and> lsm_file_open E f s = (0, s) \<and>
            kguard_task_fix_setuid E c s = (0, s)) \<and>
         (ptrace_enforcement_enabled (pol s) = 0 \<longrightarrow> lsm_ptrace_access_check E pc s = (0, s)) \<and>
         (kmod_enforcement_enabled (pol s) = 0 \<longrightarrow>
            kguard_kernel_read_file E rc s = (0, s) \<and> kguard_kernel_load_data E lc s = (0, s))"
  by (simp add: lsm_bprm_check_def lsm_file_open_def kguard_task_fix_setuid_def
      lsm_ptrace_access_check_def kguard_kernel_read_file_def kguard_kernel_load_data_def
      handle_kmod_check_def case_prod_unfold)

theorem switches_off_allow_witness:
  "lsm_bprm_check kenv_exec 0x2000 (bstate_init (nc_policy\<lparr>enforcement_enabled := 0\<rparr>)) =
     (0, bstate_init (nc_policy\<lparr>enforcement_enabled := 0\<rparr>))"
  using switches_off_allow [of "bstate_init (nc_policy\<lparr>enforcement_enabled := 0\<rparr>)" kenv_exec "0x2000"] by simp

section \<open>Ptrace\<close>

text \<open>
  With the ptrace switch on, an access check is denied exactly when it asks for more than reading
  and the executable of the caller, identified by device and inode, is not on the allow list; the
  denial is reported with the pid of the target and the mode, and an unidentifiable caller is
  denied.
\<close>

theorem lsm_ptrace_access_check_verdict:
  assumes "ptrace_enforcement_enabled (pol s) \<noteq> 0" "ke_rb E (rb_seq s) \<noteq> None"
  shows "if mode AND PTRACE_MODE_READ = 0 \<and>
            (\<forall>i. get_current_exe_id E = Some i \<longrightarrow> allowed_ptrace_attaches (pol s) i \<noteq> Some 1)
         then \<exists>e. lsm_ptrace_access_check E (child, mode) s =
                    (-1, (snd (rb_reserve E s))\<lparr>rb := rb s @ [PtraceEv e]\<rparr>) \<and>
                  eh_event_type (pt_hdr e) = EVENT_PTRACE_BLOCKED \<and> pt_mode e = mode \<and>
                  pt_target_pid e = core_read (ke_tasks E) child ts_pid
         else lsm_ptrace_access_check E (child, mode) s = (0, s)"
  using assms
  by (auto simp: lsm_ptrace_access_check_def emit_ptrace_event_def emit_def rb_submit_def Let_def
      case_prod_unfold split: option.splits)

theorem lsm_ptrace_access_check_verdict_witness:
  "\<exists>s'. lsm_ptrace_access_check kenv_quiet (0x1000, 2)
          (bstate_init (policy_off\<lparr>ptrace_enforcement_enabled := 1\<rparr>)) = (-1, s')"
proof -
  have "get_current_exe_id kenv_quiet = None"
    by (simp add: get_current_exe_id_def get_task_exe_id_def kenv_quiet_def core_read_def)
  then show ?thesis
    using lsm_ptrace_access_check_verdict
      [of "bstate_init (policy_off\<lparr>ptrace_enforcement_enabled := 1\<rparr>)" kenv_quiet 2 "0x1000"]
    by (auto simp: PTRACE_MODE_READ_def kenv_quiet_def)
qed

section \<open>Kernel modules\<close>

text \<open>
  Loading a kernel module (identifier 2 of both hooks, \<open>READING_MODULE\<close> and
  \<open>LOADING_MODULE\<close>) is denied exactly for a process whose cgroup is registered as a container's
  while the module switch is on, and the denial is reported; every other read or load is allowed
  and leaves the state alone.
\<close>

theorem kmod_verdict:
  assumes "ke_rb E (rb_seq s) \<noteq> None"
    and "run \<in> {(\<lambda>ident s. kguard_kernel_read_file E (f, ident, cont) s),
                (\<lambda>ident s. kguard_kernel_load_data E (ident, cont) s)}"
  shows "if ident = 2 \<and> ke_cgroup_id E \<in> dom (container_cgroups (pol s)) \<and>
            kmod_enforcement_enabled (pol s) \<noteq> 0
         then \<exists>e s'. run ident s = (-1, s') \<and> rb s' = rb s @ [KmodEv e] \<and>
                eh_event_type (km_hdr e) = EVENT_KMOD_BLOCKED \<and> km_load_type e = 2
         else run ident s = (0, s)"
  using assms
  by (auto simp: kguard_kernel_read_file_def kguard_kernel_load_data_def handle_kmod_check_def
      emit_kmod_event_def emit_rb)

theorem kmod_verdict_witness:
  "\<exists>s'. kguard_kernel_load_data kenv_quiet (2, True)
          (bstate_init (policy_off\<lparr>kmod_enforcement_enabled := 1, container_cgroups := [7 \<mapsto> 1]\<rparr>)) = (-1, s')"
  using kmod_verdict [where E = kenv_quiet and ident = 2 and f = 0 and cont = True
      and s = "bstate_init (policy_off\<lparr>kmod_enforcement_enabled := 1, container_cgroups := [7 \<mapsto> 1]\<rparr>)"
      and run = "\<lambda>ident s. kguard_kernel_load_data kenv_quiet (ident, True) s"]
  by (auto simp: kenv_quiet_def)

section \<open>Set-user-id and the change of user id\<close>

definition bprm_setuid :: "kenv \<Rightarrow> ptr \<Rightarrow> bool" where
  "bprm_setuid E bprm \<longleftrightarrow>
     core_read (ke_inodes E) (core_read (ke_kfiles E) (core_read (ke_binprms E) bprm bprm_file) f_inode)
       i_mode AND S_ISUID \<noteq> 0"

lemma note_setuid_get:
  assumes "core_read (ke_kfiles E) (core_read (ke_binprms E) bprm bprm_file) f_inode \<noteq> 0"
    and "storage_get (ke_current E) s = Some l"
  shows "storage_get (ke_current E) (note_setuid E bprm s) =
           Some (l\<lparr>setuid_allowed := if bprm_setuid E bprm then 1 else 0\<rparr>)"
proof -
  have "core_read (ke_binprms E) bprm bprm_file \<noteq> 0" using assms(1) by auto
  with assms show ?thesis by (simp add: note_setuid_def bprm_setuid_def Let_def storage_get_def)
qed

text \<open>What an allowed exec of an ordinary file leaves in the lineage of the task.\<close>

lemma lsm_bprm_check_lineage:
  assumes "kenv_ok E" "get_scratch E s \<noteq> None" "enforcement_enabled (pol s) \<noteq> 0"
    and "bprm_path E bprm \<noteq> None" "\<not> exec_denied E bprm s" "\<not> bprm_fileless E bprm"
    and "core_read (ke_kfiles E) (core_read (ke_binprms E) bprm bprm_file) f_inode \<noteq> 0"
    and "storage_get (ke_current E) s = Some l"
  shows "storage_get (ke_current E) (snd (lsm_bprm_check E bprm s)) =
           Some (l\<lparr>setuid_allowed := if bprm_setuid E bprm then 1 else 0\<rparr>)"
proof -
  obtain ret path tr where
    g: "get_safe_path E (core_read (ke_binprms E) bprm bprm_file) (zeros 256) 0 = (ret, path, tr)"
    by (metis prod_cases3)
  from assms(2) obtain sc where sc: "get_scratch E s = Some sc" by blast
  have nr: "\<not> ret < 0" and key: "bprm_path E bprm = Some (cstr path)" "pad0 256 (cstr path) = path"
    using bprm_path_key [OF assms(1) g] assms(4) by (auto split: if_splits)
  define s1 where "s1 = put_scratch E (sc\<lparr>primary := path\<rparr>) s"
  define s2 where "s2 = (if (case blocked_paths (pol s) path of None \<Rightarrow> False | Some v \<Rightarrow> v > 0)
    then emit_exec_event E EVT_EXEC_BLOCKED path tr 0 s1 else s1)"
  define s3 where "s3 = (if is_prefix_blocked (pol s) path > 0
    then emit_exec_event E EVT_EXEC_BLOCKED path tr 0 s2 else s2)"
  have "lsm_bprm_check E bprm s = (0, note_setuid E bprm s3)"
    unfolding lsm_bprm_check_decision [OF assms(3) sc g nr s1_def s2_def s3_def]
    using assms(3,5,6) key by (auto simp: exec_denied_def)
  moreover have "storage_get (ke_current E) s3 = Some l"
    using assms(8) by (simp add: storage_get_def s1_def s2_def s3_def)
  ultimately show ?thesis using note_setuid_get [OF assms(7)] by simp
qed

section \<open>Fork\<close>

text \<open>
  A new task inherits the lineage of its creator: the redirected-socket mark, the set-user-id note,
  the expected user id, and the suspicious ancestor with its path. A task whose creator has no
  record starts clean, with the creator's user id as the expected one. Either way the creator's
  process id is recorded, and no other task's record changes.
\<close>

theorem kguard_task_alloc_inherits:
  assumes "ke_storage_ok E t" "storage_get t s = None"
  shows "\<exists>c. storage_get t (snd (kguard_task_alloc E (t, fl) s)) = Some c \<and>
           parent_pid c = core_read (ke_tasks E) (ke_current E) ts_tgid \<and>
           (case storage_get (ke_current E) s of
              Some p \<Rightarrow> socket_redirected c = socket_redirected p \<and> setuid_allowed c = setuid_allowed p \<and>
                        expected_uid c = expected_uid p \<and> suspicious_ancestor c = suspicious_ancestor p \<and>
                        ancestor_filename c = ancestor_filename p
            | None \<Rightarrow> socket_redirected c = 0 \<and> setuid_allowed c = 0 \<and> suspicious_ancestor c = 0 \<and>
                      expected_uid c = ucast (ke_uid_gid E) \<and> cstr (ancestor_filename c) = []) \<and>
           (\<forall>t'. t' \<noteq> t \<longrightarrow> storage_get t' (snd (kguard_task_alloc E (t, fl) s)) = storage_get t' s)"
proof -
  have z: "cstr (zeros 256) = []" by (simp add: cstr_def zeros_def)
  show ?thesis
    using assms
    by (auto simp: kguard_task_alloc_def storage_upd_def storage_get_def process_lineage_zero_def z
        split: option.splits)
qed

theorem kguard_task_alloc_inherits_witness:
  "\<exists>c. storage_get 0x2000 (snd (kguard_task_alloc kenv_quiet (0x2000, 0)
         ((with_lineage policy_off)\<lparr>lineage_map := [0x1000 \<mapsto> process_lineage_zero\<lparr>socket_redirected := 1\<rparr>]\<rparr>))) =
       Some c \<and> socket_redirected c = 1"
  using kguard_task_alloc_inherits [of kenv_quiet "0x2000"
      "(with_lineage policy_off)\<lparr>lineage_map := [0x1000 \<mapsto> process_lineage_zero\<lparr>socket_redirected := 1\<rparr>]\<rparr>" 0]
  by (auto simp: storage_get_def kenv_quiet_def)

section \<open>Memory protection and capabilities\<close>

text \<open>
  The two memory hooks watch and never deny: a request for memory both writable and executable is
  reported once, with the requested and the effective protection, every other request leaves the
  state alone, and the answer is always to allow.
\<close>

theorem rwx_reported_never_denied:
  assumes "ke_rb E (rb_seq s) \<noteq> None"
    and "r \<in> {lsm_mmap_file E (f, reqprot, prot, flags) s, lsm_file_mprotect E (vma, reqprot, prot) s}"
  shows "fst r = 0 \<and>
         (if reqprot AND PROT_WRITE \<noteq> 0 \<and> reqprot AND PROT_EXEC \<noteq> 0
          then \<exists>e. rb (snd r) = rb s @ [MprotectEv e] \<and> eh_event_type (mp_hdr e) = EVT_RWX_VIOLATION \<and>
                   mp_req_prot e = reqprot \<and> mp_prot e = prot
          else snd r = s)"
  using assms by (auto simp: lsm_mmap_file_def lsm_file_mprotect_def check_rwx_violation_def emit_rb)

theorem rwx_reported_never_denied_witness:
  "\<exists>e. rb (snd (lsm_file_mprotect kenv_quiet (0, 7, 7) (bstate_init policy_off))) = [MprotectEv e] \<and>
       mp_req_prot e = 7"
  using rwx_reported_never_denied [of kenv_quiet "bstate_init policy_off"
      "lsm_file_mprotect kenv_quiet (0, 7, 7) (bstate_init policy_off)" 0 7 7 0 0]
  by (auto simp: kenv_quiet_def PROT_WRITE_def PROT_EXEC_def)

text \<open>
  A capability check is reported exactly when it is for \<open>CAP_SYS_ADMIN\<close> or \<open>CAP_SYS_MODULE\<close>, the
  task's cgroup is registered as a container's with value 1 and the task has left the host's mount
  namespace; the hook always allows.
\<close>

theorem kguard_capable_reports:
  assumes "ke_rb E (rb_seq s) \<noteq> None"
    and "mnt = core_read (ke_nsproxies E) (core_read (ke_tasks E) (ke_current E) ts_nsproxy) nsp_mnt_ns"
  shows "if cap \<in> {CAP_SYS_ADMIN, CAP_SYS_MODULE} \<and> container_cgroups (pol s) (ke_cgroup_id E) = Some 1 \<and>
            mnt \<noteq> 0 \<and> core_read (ke_mnt_nss E) mnt mns_inum \<noteq> host_mnt_ns_inum (pol s)
         then \<exists>e s'. kguard_capable E (cr, ns, cap, opts) s = (0, s') \<and> rb s' = rb s @ [CapEv e] \<and>
                eh_event_type (cp_hdr e) = EVT_CAPABILITY_CHANGE \<and> cp_cap e = cap \<and> cp_is_container e = 1
         else kguard_capable E (cr, ns, cap, opts) s = (0, s)"
proof -
  have "mnt \<noteq> 0 \<Longrightarrow> ke_current E \<noteq> 0 \<and> core_read (ke_tasks E) (ke_current E) ts_nsproxy \<noteq> 0"
    using assms(2) by (metis core_read_null)
  then show ?thesis using assms by (auto simp: kguard_capable_def Let_def emit_rb)
qed

theorem kguard_capable_reports_witness:
  "\<exists>e. rb (snd (kguard_capable (kenv_quiet
       \<lparr>ke_tasks := [0x1000 \<mapsto> \<lparr>ts_pid = 42, ts_tgid = 42, ts_real_parent = 0, ts_mm = 0, ts_files = 0,
                               ts_nsproxy = 0x50, ts_comm = zeros 16\<rparr>],
        ke_nsproxies := [0x50 \<mapsto> \<lparr>nsp_mnt_ns = 0x60\<rparr>], ke_mnt_nss := [0x60 \<mapsto> \<lparr>mns_inum = 5\<rparr>]\<rparr>)
       (0, 0, 21, 0) (bstate_init (policy_off\<lparr>container_cgroups := [7 \<mapsto> 1]\<rparr>)))) = [CapEv e]"
proof -
  let ?E = "kenv_quiet
       \<lparr>ke_tasks := [0x1000 \<mapsto> \<lparr>ts_pid = 42, ts_tgid = 42, ts_real_parent = 0, ts_mm = 0, ts_files = 0,
                               ts_nsproxy = 0x50, ts_comm = zeros 16\<rparr>],
        ke_nsproxies := [0x50 \<mapsto> \<lparr>nsp_mnt_ns = 0x60\<rparr>], ke_mnt_nss := [0x60 \<mapsto> \<lparr>mns_inum = 5\<rparr>]\<rparr>"
  have "0x60 = core_read (ke_nsproxies ?E) (core_read (ke_tasks ?E) (ke_current ?E) ts_nsproxy) nsp_mnt_ns"
    by (simp add: kenv_quiet_def core_read_def)
  from kguard_capable_reports [OF _ this, where s = "bstate_init (policy_off\<lparr>container_cgroups := [7 \<mapsto> 1]\<rparr>)"
      and cap = 21 and cr = 0 and ns = 0 and opts = 0]
  show ?thesis by (auto simp: kenv_quiet_def CAP_SYS_ADMIN_def core_read_def policy_off_def)
qed

end
