(* ===== verification/KG_Dns.thy ===== *)
theory KG_Dns
  imports KG_Prevent "HOL-Library.Monad_Syntax"
begin

text \<open>
  \<open>bpf/sensors/net.h\<close>, the DNS part: the two traffic-control programs that pair a DNS query leaving
  the host with its answer. The context is the packet between \<open>data\<close> and \<open>data_end\<close>, and the
  address \<open>data\<close>; a pointer into the packet is an offset. A direct access to the packet outside its
  bounds, which the kernel's verifier would refuse, is the value \<open>None\<close> of the option monad, so
  that the absence of such accesses is a theorem about the programs' own checks. The copy of the name
  by \<open>bpf_probe_read_kernel\<close> is a helper call on kernel memory and no direct access; \<open>skb_mapped\<close> says
  that kernel memory holds the packet at \<open>data\<close>.
\<close>

section \<open>Packets\<close>

record skb =
  skb_data :: u64
  skb_pkt :: bytes

definition pkt_u8 :: "bytes \<Rightarrow> nat \<Rightarrow> u8 option" where
  "pkt_u8 pkt off = (if off < length pkt then Some (pkt ! off) else None)"

definition pkt_bytes :: "bytes \<Rightarrow> nat \<Rightarrow> nat \<Rightarrow> bytes option" where
  "pkt_bytes pkt off n = (if off + n \<le> length pkt then Some (take n (drop off pkt)) else None)"

definition pkt_u16 :: "bytes \<Rightarrow> nat \<Rightarrow> u16 option" where
  "pkt_u16 pkt off = map_option (\<lambda>bs. u16_at (region_of bs) 0) (pkt_bytes pkt off 2)"

definition pkt_u32 :: "bytes \<Rightarrow> nat \<Rightarrow> u32 option" where
  "pkt_u32 pkt off = map_option (\<lambda>bs. u32_at (region_of bs) 0) (pkt_bytes pkt off 4)"

text \<open>
  The headers in front of a DNS message have the layouts of \<open>vmlinux.h\<close>; the addresses of an IP header
  are in an anonymous struct inside an anonymous union.
\<close>

definition ip_addr_off :: "string \<Rightarrow> nat" where
  "ip_addr_off f = k_offsetof iphdr_kfields ''_anon1'' + k_offsetof iphdr_addrs_kfields f"

definition bswap16 :: "u16 \<Rightarrow> u16" where
  "bswap16 p = push_bit 8 p OR drop_bit 8 p"

text \<open>
  The checks both programs start with. The result is the offset of the IP header, of the UDP header
  and of the DNS message; the inner \<open>None\<close> is a packet that is passed on. \<open>port\<close> names the member of
  the UDP header that has to be 53.
\<close>

definition dns_offsets :: "string \<Rightarrow> bytes \<Rightarrow> (nat \<times> nat \<times> nat) option option" where
  "dns_offsets port pkt =
     (let data_end = length pkt; ip = fst (k_struct_ty ethhdr_kfields) in
      if ip > data_end then Some None else do {
        h_proto \<leftarrow> pkt_u16 pkt (k_offsetof ethhdr_kfields ''h_proto'');
        if h_proto \<noteq> bswap16 0x0800 then Some None else
        if ip + fst (k_struct_ty iphdr_kfields) > data_end then Some None else do {
          protocol \<leftarrow> pkt_u8 pkt (ip + k_offsetof iphdr_kfields ''protocol'');
          if protocol \<noteq> 17 then Some None else do {
            ihl \<leftarrow> pkt_u8 pkt ip;
            let ip_hdr_len = 4 * unat (ihl AND 0x0f);
            if ip_hdr_len < fst (k_struct_ty iphdr_kfields) \<or> ip + ip_hdr_len > data_end then Some None else
            let udp = ip + ip_hdr_len in
            if udp + fst (k_struct_ty udphdr_kfields) > data_end then Some None else do {
              p \<leftarrow> pkt_u16 pkt (udp + k_offsetof udphdr_kfields port);
              if p \<noteq> bswap16 53 then Some None else
              let dns = udp + fst (k_struct_ty udphdr_kfields) in
              if dns + 12 > data_end then Some None else Some (Some (ip, udp, dns))
            }
          }
        }
      })"

text \<open>The packet lies in kernel memory at \<open>data\<close>.\<close>

definition skb_mapped :: "kenv \<Rightarrow> skb \<Rightarrow> bool" where
  "skb_mapped E k \<longleftrightarrow> read_bytes (ke_kmem E) (skb_data k) (length (skb_pkt k)) = Some (skb_pkt k)"

section \<open>The query\<close>

definition tc_egress_dns :: "kenv \<Rightarrow> skb \<Rightarrow> bstate \<Rightarrow> (int \<times> bstate) option" where
  "tc_egress_dns E skb s =
     (let pkt = skb_pkt skb in do {
        hdrs \<leftarrow> dns_offsets ''dest'' pkt;
        case hdrs of
          None \<Rightarrow> Some (0, s)
        | Some (ip, udp, dns) \<Rightarrow> do {
            id16 \<leftarrow> pkt_u16 pkt dns;
            daddr \<leftarrow> pkt_u32 pkt (ip + ip_addr_off ''daddr'');
            source \<leftarrow> pkt_u16 pkt (udp + k_offsetof udphdr_kfields ''source'');
            let key = \<lparr>resolver_ip = daddr, client_port = source, txid = id16\<rparr>;
            let (r, qname) = probe_read (ke_kmem E) (skb_data skb + of_nat (dns + 12)) 128;
            let val = \<lparr>dv_qname = qname, dv_cgroup_id = ke_cgroup_id E\<rparr>;
            Some (0, dns_update E key val s)
          }
      })"

section \<open>The answer\<close>

text \<open>
  The loop over the question section, at most \<open>n\<close> more labels from \<open>q\<close>. The inner \<open>None\<close> is a message
  that ends inside the question.
\<close>

fun skip_question :: "nat \<Rightarrow> bytes \<Rightarrow> nat \<Rightarrow> nat option option" where
  "skip_question 0 pkt q = Some (Some q)"
| "skip_question (Suc n) pkt q =
     (if q + 1 > length pkt then Some None else do {
        len \<leftarrow> pkt_u8 pkt q;
        let q = q + 1;
        if len = 0 then Some (Some q) else
        if len AND 0xc0 = 0xc0 then Some (Some (q + 1)) else
        let safe_len = unat (len AND 0x3f) in
        if q + safe_len > length pkt then Some None else skip_question n pkt (q + safe_len)
      })"

text \<open>The walk over an uncompressed name, which stops where the packet ends.\<close>

fun skip_name :: "nat \<Rightarrow> bytes \<Rightarrow> nat \<Rightarrow> nat option" where
  "skip_name 0 pkt a = Some a"
| "skip_name (Suc n) pkt a =
     (if a + 1 > length pkt then Some a else do {
        l \<leftarrow> pkt_u8 pkt a;
        let a = a + 1;
        if l = 0 then Some a else
        if l AND 0xc0 = 0xc0 then Some (a + 1) else
        let safe_l = unat (l AND 0x3f) in
        if a + safe_l > length pkt then Some a else skip_name n pkt (a + safe_l)
      })"

text \<open>The loop over the answer records, at most \<open>n\<close> more from \<open>a\<close>.\<close>

fun scan_answers :: "nat \<Rightarrow> bytes \<Rightarrow> nat \<Rightarrow> dns_answer_event \<Rightarrow> dns_answer_event option" where
  "scan_answers 0 pkt a e = Some e"
| "scan_answers (Suc n) pkt a e =
     (let data_end = length pkt in
      if a + 2 > data_end then Some e else do {
        name0 \<leftarrow> pkt_u8 pkt a;
        a \<leftarrow> (if name0 AND 0xc0 = 0xc0 then Some (a + 2) else skip_name 8 pkt a);
        if a + 10 > data_end then Some e else do {
          t0 \<leftarrow> pkt_u8 pkt a;
          t1 \<leftarrow> pkt_u8 pkt (a + 1);
          l0 \<leftarrow> pkt_u8 pkt (a + 8);
          l1 \<leftarrow> pkt_u8 pkt (a + 9);
          let rtype = be16 t0 t1;
          let rdlen = be16 l0 l1;
          let rdata = a + 10;
          let next = (let safe_rdlen = unat (rdlen AND 0xff) in
                      if rdata + safe_rdlen > data_end then Some e
                      else scan_answers n pkt (rdata + safe_rdlen) e);
          if rtype = 1 \<and> rdlen = 4 then
            (if rdata + 4 \<le> data_end then do {
               v \<leftarrow> pkt_u32 pkt rdata;
               Some (e\<lparr>da_daddr := v, da_family := 2\<rparr>)
             } else next)
          else if rtype = 28 \<and> rdlen = 16 then
            (if rdata + 16 \<le> data_end then do {
               v \<leftarrow> pkt_bytes pkt rdata 16;
               Some (e\<lparr>da_daddr6 := v, da_family := 10\<rparr>)
             } else next)
          else next
        }
      })"

definition dns_answer_init :: "kenv \<Rightarrow> dns_tx_val \<Rightarrow> region \<Rightarrow> bstate \<Rightarrow> dns_answer_event" where
  "dns_answer_init E val m s =
     (dns_answer_event_at m)
       \<lparr>da_hdr := event_hdr_zero\<lparr>eh_timestamp_ns := ke_ktime E (rb_seq s),
                                 eh_event_type := EVT_DNS_ANSWER, eh_cgroup_id := dv_cgroup_id val\<rparr>,
        da_daddr := 0, da_daddr6 := zeros 16, da_family := 0, da_qname := dv_qname val\<rparr>"

definition tc_ingress_dns :: "kenv \<Rightarrow> skb \<Rightarrow> bstate \<Rightarrow> (int \<times> bstate) option" where
  "tc_ingress_dns E skb s =
     (let pkt = skb_pkt skb in do {
        hdrs \<leftarrow> dns_offsets ''source'' pkt;
        case hdrs of
          None \<Rightarrow> Some (0, s)
        | Some (ip, udp, dns) \<Rightarrow> do {
            id16 \<leftarrow> pkt_u16 pkt dns;
            c0 \<leftarrow> pkt_u8 pkt (dns + 6);
            c1 \<leftarrow> pkt_u8 pkt (dns + 7);
            let ancount = be16 c0 c1;
            saddr \<leftarrow> pkt_u32 pkt (ip + ip_addr_off ''saddr'');
            dest \<leftarrow> pkt_u16 pkt (udp + k_offsetof udphdr_kfields ''dest'');
            let key = \<lparr>resolver_ip = saddr, client_port = dest, txid = id16\<rparr>;
            case dns_pending_tx s key of
              None \<Rightarrow> Some (0, s)
            | Some val \<Rightarrow>
                if ancount = 0 then Some (0, dns_delete key s) else do {
                  qend \<leftarrow> skip_question 16 pkt (dns + 12);
                  case qend of
                    None \<Rightarrow> Some (0, dns_delete key s)
                  | Some q \<Rightarrow>
                      if q + 4 > length pkt then Some (0, dns_delete key s) else
                      let (sample, s) = rb_reserve E s in
                      case sample of
                        None \<Rightarrow> Some (0, dns_delete key s)
                      | Some m \<Rightarrow> do {
                          e \<leftarrow> scan_answers 2 pkt (q + 4) (dns_answer_init E val m s);
                          let s = dns_delete key s;
                          if da_family e = 0 then Some (0, s)
                          else Some (0, rb_submit (DnsAnswerEv e) s)
                        }
                }
          }
      })"

section \<open>The programs never read outside the packet\<close>

lemma dns_layouts [simp]:
  "fst (k_struct_ty ethhdr_kfields) = 14" "k_offsetof ethhdr_kfields ''h_proto'' = 12"
  "fst (k_struct_ty iphdr_kfields) = 20" "k_offsetof iphdr_kfields ''protocol'' = 9"
  "ip_addr_off ''saddr'' = 12" "ip_addr_off ''daddr'' = 16"
  "fst (k_struct_ty udphdr_kfields) = 8" "k_offsetof udphdr_kfields ''source'' = 0"
  "k_offsetof udphdr_kfields ''dest'' = 2"
  by (simp_all add: vm_eval ip_addr_off_def k_offsetof_def ethhdr_kfields_def iphdr_kfields_def
      iphdr_addrs_kfields_def udphdr_kfields_def)

lemma pkt_reads:
  "off < length pkt \<Longrightarrow> pkt_u8 pkt off = Some (pkt ! off)"
  "off + n \<le> length pkt \<Longrightarrow> pkt_bytes pkt off n = Some (take n (drop off pkt))"
  "off + 2 \<le> length pkt \<Longrightarrow> pkt_u16 pkt off = Some (u16_at (region_of (take 2 (drop off pkt))) 0)"
  "off + 4 \<le> length pkt \<Longrightarrow> pkt_u32 pkt off = Some (u32_at (region_of (take 4 (drop off pkt))) 0)"
  by (simp_all add: pkt_u8_def pkt_bytes_def pkt_u16_def pkt_u32_def)

lemma dns_offsets_cases:
  assumes "port \<in> {''source'', ''dest''}"
  obtains "dns_offsets port pkt = Some None"
  | udp where "dns_offsets port pkt = Some (Some (14, udp, udp + 8))" "34 \<le> udp" "udp + 20 \<le> length pkt"
proof -
  let ?udp = "14 + 4 * unat (pkt ! 14 AND 0x0f)"
  have "dns_offsets port pkt = Some None \<or>
      dns_offsets port pkt = Some (Some (14, ?udp, ?udp + 8)) \<and> 34 \<le> ?udp \<and> ?udp + 20 \<le> length pkt"
    using assms by (auto simp: dns_offsets_def Let_def pkt_reads split: if_splits)
  then show thesis using that by blast
qed

lemma skip_question_safe: "skip_question n pkt q \<noteq> None"
  by (induction n pkt q rule: skip_question.induct) (auto simp: Let_def pkt_reads)

lemma skip_name_safe: "skip_name n pkt a \<noteq> None"
  by (induction n pkt a rule: skip_name.induct) (auto simp: Let_def pkt_reads)

text \<open>What scanning the answers does to the sample.\<close>

definition same_query :: "dns_answer_event \<Rightarrow> dns_answer_event \<Rightarrow> bool" where
  "same_query e e' \<longleftrightarrow>
     da_hdr e' = da_hdr e \<and> da_qname e' = da_qname e \<and> (length (da_daddr6 e) = 16 \<longrightarrow> length (da_daddr6 e') = 16)"

lemma scan_answers_safe:
  "\<exists>e'. scan_answers n pkt a e = Some e' \<and> same_query e e'"
proof (induction n pkt a e rule: scan_answers.induct)
  case (2 n pkt a e)
  show ?case
  proof (cases "a + 2 > length pkt")
    case False
    obtain b where b: "(if pkt ! a AND 0xc0 = 0xc0 then Some (a + 2) else skip_name 8 pkt a) = Some b"
      using skip_name_safe [of 8 pkt a] by fastforce
    show ?thesis
      using False b 2
      by (auto simp: Let_def pkt_reads same_query_def)
  qed (simp add: same_query_def)
qed (simp add: same_query_def)

text \<open>The four reads of the DNS header and of the addresses that both programs make.\<close>

lemma dns_header_reads:
  assumes "34 \<le> udp" "udp + 20 \<le> length pkt"
  shows "pkt_u16 pkt (udp + 8) \<noteq> None" "pkt_u8 pkt (udp + 14) \<noteq> None" "pkt_u8 pkt (udp + 15) \<noteq> None"
    "pkt_u32 pkt 26 \<noteq> None" "pkt_u32 pkt 30 \<noteq> None" "pkt_u16 pkt udp \<noteq> None" "pkt_u16 pkt (udp + 2) \<noteq> None"
  using assms by (simp_all add: pkt_reads)

lemma tc_egress_dns_cases:
  obtains "tc_egress_dns E k s = Some (0, s)"
  | udp key val where "tc_egress_dns E k s = Some (0, dns_update E key val s)" "dns_val_wf val"
      "dns_offsets ''dest'' (skb_pkt k) = Some (Some (14, udp, udp + 8))"
proof (rule dns_offsets_cases [of "''dest''" "skb_pkt k"])
  show "''dest'' \<in> {''source'', ''dest''}" by simp
next
  assume "dns_offsets ''dest'' (skb_pkt k) = Some None"
  then show thesis using that(1) by (simp add: tc_egress_dns_def)
next
  fix udp
  assume u: "dns_offsets ''dest'' (skb_pkt k) = Some (Some (14, udp, udp + 8))" "34 \<le> udp"
    "udp + 20 \<le> length (skb_pkt k)"
  obtain r qn where q: "probe_read (ke_kmem E) (skb_data k + of_nat (udp + 8 + 12)) 128 = (r, qn)"
    by fastforce
  then have "length qn = 128" using probe_read_length by (metis snd_conv)
  then have wf: "dns_val_wf \<lparr>dv_qname = qn, dv_cgroup_id = ke_cgroup_id E\<rparr>" by (simp add: dns_val_wf_def)
  obtain i d p where "pkt_u16 (skb_pkt k) (udp + 8) = Some i" "pkt_u32 (skb_pkt k) 30 = Some d"
    "pkt_u16 (skb_pkt k) udp = Some p" using dns_header_reads [OF u(2,3)] by blast
  then have "tc_egress_dns E k s = Some (0, dns_update E \<lparr>resolver_ip = d, client_port = p, txid = i\<rparr>
      \<lparr>dv_qname = qn, dv_cgroup_id = ke_cgroup_id E\<rparr> s)"
    using u(1) q by (simp add: tc_egress_dns_def)
  then show thesis using wf u(1) by (rule that(2))
qed

lemma tc_ingress_dns_cases:
  obtains "tc_ingress_dns E k s = Some (0, s)"
  | key where "tc_ingress_dns E k s = Some (0, dns_delete key s)"
  | key where "tc_ingress_dns E k s = Some (0, dns_delete key (snd (rb_reserve E s)))"
  | key val m e where "dns_pending_tx s key = Some val" "ke_rb E (rb_seq s) = Some m"
      "same_query (dns_answer_init E val m (snd (rb_reserve E s))) e"
      "tc_ingress_dns E k s = Some (0, rb_submit (DnsAnswerEv e) (dns_delete key (snd (rb_reserve E s))))"
proof (rule dns_offsets_cases [of "''source''" "skb_pkt k"])
  show "''source'' \<in> {''source'', ''dest''}" by simp
next
  assume "dns_offsets ''source'' (skb_pkt k) = Some None"
  then show thesis using that(1) by (simp add: tc_ingress_dns_def)
next
  fix udp
  assume u: "dns_offsets ''source'' (skb_pkt k) = Some (Some (14, udp, udp + 8))" "34 \<le> udp"
    "udp + 20 \<le> length (skb_pkt k)"
  obtain q where q: "skip_question 16 (skb_pkt k) (udp + 20) = Some q"
    using skip_question_safe by fastforce
  obtain i c0 c1 a p where rd: "pkt_u16 (skb_pkt k) (udp + 8) = Some i" "pkt_u8 (skb_pkt k) (udp + 14) = Some c0"
    "pkt_u8 (skb_pkt k) (udp + 15) = Some c1" "pkt_u32 (skb_pkt k) 26 = Some a"
    "pkt_u16 (skb_pkt k) (udp + 2) = Some p" using dns_header_reads [OF u(2,3)] by blast
  let ?key = "\<lparr>resolver_ip = a, client_port = p, txid = i\<rparr>"
  let ?s' = "snd (rb_reserve E s)"
  note run = tc_ingress_dns_def [of E k s]
  show thesis
  proof (cases "dns_pending_tx s ?key")
    case None
    then show thesis using rd u(1) by (intro that(1)) (simp add: run Let_def add.commute)
  next
    case val: (Some val)
    show thesis
    proof (cases "be16 c0 c1 = 0 \<or> q = None \<or> (\<exists>x. q = Some x \<and> x + 4 > length (skb_pkt k))")
      case True
      then show thesis using rd u(1) val q by (intro that(2) [of ?key]) (auto simp: run Let_def add.commute)
    next
      case False
      then obtain x where x: "q = Some x" "\<not> x + 4 > length (skb_pkt k)" "be16 c0 c1 \<noteq> 0" by auto
      show thesis
      proof (cases "ke_rb E (rb_seq s)")
        case None
        then show thesis using rd u(1) val q x
          by (intro that(3) [of ?key]) (simp add: run Let_def add.commute case_prod_unfold)
      next
        case (Some m)
        obtain e where e: "scan_answers 2 (skb_pkt k) (x + 4) (dns_answer_init E val m ?s') = Some e"
          "same_query (dns_answer_init E val m ?s') e" using scan_answers_safe by blast
        show thesis
        proof (cases "da_family e = 0")
          case True
          then show thesis using rd u(1) val q x Some e
            by (intro that(3) [of ?key]) (simp add: run Let_def add.commute case_prod_unfold)
        next
          case False
          then show thesis using rd u(1) val q x Some e
            by (intro that(4) [of ?key val m e]) (simp_all add: run Let_def add.commute case_prod_unfold)
        qed
      qed
    qed
  qed
qed

text \<open>The programs as the kernel runs them, the absence of a faulting access being a theorem below.\<close>

definition tc_egress :: "kenv \<Rightarrow> skb \<Rightarrow> bstate \<Rightarrow> int \<times> bstate" where
  "tc_egress E k s = the (tc_egress_dns E k s)"

definition tc_ingress :: "kenv \<Rightarrow> skb \<Rightarrow> bstate \<Rightarrow> int \<times> bstate" where
  "tc_ingress E k s = the (tc_ingress_dns E k s)"

lemma dns_answer_wf:
  assumes "dns_val_wf val" "same_query (dns_answer_init E val m u) e"
  shows "event_wf (DnsAnswerEv e)"
proof -
  have "hdr_wf (event_hdr_zero\<lparr>eh_timestamp_ns := a, eh_event_type := b, eh_cgroup_id := c\<rparr>)" for a b c
    using hdr_wf_zero by (simp add: hdr_wf_def)
  then show ?thesis
    using assms by (simp add: event_wf_def same_query_def dns_answer_init_def dns_val_wf_def)
qed

lemma tc_ingress_step: "kg_step s (snd (tc_ingress E k s))"
proof (cases rule: tc_ingress_dns_cases [of E k s])
  case 1
  then show ?thesis by (simp add: tc_ingress_def)
next
  case (2 key)
  then show ?thesis using dns_delete_step by (simp add: tc_ingress_def)
next
  case (3 key)
  then show ?thesis using kg_step_trans [OF rb_reserve_step dns_delete_step] by (simp add: tc_ingress_def)
next
  case (4 key val m e)
  have "event_wf (DnsAnswerEv e)" if "bstate_wf s"
    using that 4(1) by (intro dns_answer_wf [OF _ 4(3)]) (auto simp: bstate_wf_def)
  then show ?thesis
    using rb_submit_after [OF kg_step_trans [OF rb_reserve_step dns_delete_step]] 4(4)
    by (simp add: tc_ingress_def)
qed

interpretation egress_dns: sensor tc_egress
proof
  fix E s c
  show "kg_step s (snd (tc_egress E c s))"
    by (cases rule: tc_egress_dns_cases [of E c s]) (simp_all add: tc_egress_def dns_update_step)
  show "fst (tc_egress E c s) = 0"
    by (cases rule: tc_egress_dns_cases [of E c s]) (simp_all add: tc_egress_def)
qed

interpretation ingress_dns: sensor tc_ingress
proof
  fix E s c
  show "kg_step s (snd (tc_ingress E c s))" by (rule tc_ingress_step)
  show "fst (tc_ingress E c s) = 0"
    by (cases rule: tc_ingress_dns_cases [of E c s]) (simp_all add: tc_ingress_def)
qed

text \<open>
  C8: on no packet, however short or malformed, does either traffic program directly access a byte
  outside the packet: the bounds checks cover every direct packet access (the reads through pointers
  between \<open>data\<close> and \<open>data_end\<close>), in the headers, in the label loops and in the answer records. Both
  programs always pass the packet on. Not covered is the copy of the name in \<open>tc_egress_dns\<close>: it is a
  call of \<open>bpf_probe_read_kernel\<close> for 128 bytes of kernel memory, which the program does not bound by
  \<open>data_end\<close> and which may run past the packet.
\<close>

theorem tc_dns_reads_in_bounds:
  "(\<exists>s'. tc_egress_dns E k s = Some (0, s')) \<and> (\<exists>s'. tc_ingress_dns E k s = Some (0, s'))"
proof
  show "\<exists>s'. tc_egress_dns E k s = Some (0, s')" by (cases rule: tc_egress_dns_cases [of E k s]) auto
  show "\<exists>s'. tc_ingress_dns E k s = Some (0, s')" by (cases rule: tc_ingress_dns_cases [of E k s]) auto
qed

section \<open>Packets in wire format\<close>

text \<open>
  A UDP packet: Ethernet addresses; the first byte of the IP header, the eight bytes up to the
  protocol, the header checksum, the addresses and the options; the ports, length and checksum.
\<close>

record udp_frame =
  uf_eth :: bytes
  uf_ihl :: u8
  uf_mid :: bytes
  uf_sum :: bytes
  uf_saddr :: bytes
  uf_daddr :: bytes
  uf_opts :: bytes
  uf_sport :: bytes
  uf_dport :: bytes
  uf_udp :: bytes
  uf_payload :: bytes

definition frame_bytes :: "udp_frame \<Rightarrow> bytes" where
  "frame_bytes f =
     uf_eth f @ [8, 0] @ [uf_ihl f] @ uf_mid f @ [17] @ uf_sum f @ uf_saddr f @ uf_daddr f @ uf_opts f @
     uf_sport f @ uf_dport f @ uf_udp f @ uf_payload f"

definition frame_ok :: "udp_frame \<Rightarrow> bool" where
  "frame_ok f \<longleftrightarrow>
     length (uf_eth f) = 12 \<and> length (uf_mid f) = 8 \<and> length (uf_sum f) = 2 \<and> length (uf_saddr f) = 4 \<and>
     length (uf_daddr f) = 4 \<and> length (uf_sport f) = 2 \<and> length (uf_dport f) = 2 \<and> length (uf_udp f) = 4 \<and>
     4 * unat (uf_ihl f AND 0x0f) = 20 + length (uf_opts f)"

lemma drop_at: "length p = n \<Longrightarrow> drop n (p @ q) = q"
  by simp

text \<open>The parts of a packet sit where the programs look for them.\<close>

lemma frame_parts:
  assumes "frame_ok f"
  defines "u \<equiv> 34 + length (uf_opts f)" and "b \<equiv> frame_bytes f"
  shows "length b = u + 8 + length (uf_payload f)"
    and "take 2 (drop 12 b) = [8, 0]" and "b ! 14 = uf_ihl f" and "b ! 23 = 17"
    and "take 4 (drop 26 b) = uf_saddr f" and "take 4 (drop 30 b) = uf_daddr f"
    and "take 2 (drop u b) = uf_sport f" and "take 2 (drop (u + 2) b) = uf_dport f"
    and "drop (u + 8) b = uf_payload f"
proof -
  note l = assms(1) [unfolded frame_ok_def]
  show "length b = u + 8 + length (uf_payload f)" using l by (simp add: b_def u_def frame_bytes_def)
  show "take 2 (drop 12 b) = [8, 0]" "b ! 14 = uf_ihl f" "b ! 23 = 17"
    "take 4 (drop 26 b) = uf_saddr f" "take 4 (drop 30 b) = uf_daddr f"
    using l by (simp_all add: b_def frame_bytes_def nth_append numeral_2_eq_2)
  let ?p = "uf_eth f @ [8, 0] @ [uf_ihl f] @ uf_mid f @ [17] @ uf_sum f @ uf_saddr f @ uf_daddr f @ uf_opts f"
  have b: "b = ?p @ uf_sport f @ uf_dport f @ uf_udp f @ uf_payload f" by (simp add: b_def frame_bytes_def)
  have u: "u = length ?p" using l by (simp add: u_def)
  have "drop u b = uf_sport f @ uf_dport f @ uf_udp f @ uf_payload f" unfolding b u by (rule drop_at) simp
  moreover have "drop (u + k) b = drop k (drop u b)" for k by (simp add: add.commute)
  ultimately show "take 2 (drop u b) = uf_sport f" "take 2 (drop (u + 2) b) = uf_dport f"
    "drop (u + 8) b = uf_payload f"
    using l by (simp_all del: add_2_eq_Suc')
qed

lemma frame_offsets:
  assumes "frame_ok f" "12 \<le> length (uf_payload f)"
    and "port = ''dest'' \<and> uf_dport f = [0, 53] \<or> port = ''source'' \<and> uf_sport f = [0, 53]"
  shows "dns_offsets port (frame_bytes f) =
           Some (Some (14, 34 + length (uf_opts f), 42 + length (uf_opts f)))"
proof -
  note p = frame_parts [OF assms(1)]
  have w: "u16_at (region_of [8, 0]) 0 = bswap16 0x0800" "u16_at (region_of [0, 53]) 0 = bswap16 53"
    by (simp_all add: u16_at_def arr_at_region_of bswap16_def)
  have i: "14 + 4 * unat (uf_ihl f AND 0x0f) = 34 + length (uf_opts f)"
    using assms(1) by (simp add: frame_ok_def)
  have i2: "\<not> 4 * unat (uf_ihl f AND 0x0f) < 20" using assms(1) by (simp add: frame_ok_def)
  show ?thesis
    using assms(2,3) p w i i2
    by (auto simp: dns_offsets_def Let_def pkt_reads)
qed

section \<open>Messages in wire format\<close>

definition name_bytes :: "bytes list \<Rightarrow> bytes" where
  "name_bytes ls = concat (map (\<lambda>l. of_nat (length l) # l) ls) @ [0]"

definition labels_ok :: "bytes list \<Rightarrow> bool" where
  "labels_ok ls \<longleftrightarrow> (\<forall>l \<in> set ls. 0 < length l \<and> length l \<le> 63)"

lemma u8_small:
  assumes "k < 64"
  shows "(of_nat k :: u8) AND 0xc0 = 0" "(of_nat k :: u8) AND 0x3f = of_nat k" "unat (of_nat k :: u8) = k"
proof -
  show u: "unat (of_nat k :: u8) = k" using assms by (simp add: unat_of_nat)
  have m: "(0x3f :: u8) = mask 6" "(0xc0 :: u8) = push_bit 6 3" by (simp_all add: mask_eq_exp_minus_1)
  have "unat (take_bit 6 (of_nat k :: u8)) = k"
    unfolding unsigned_take_bit_eq u using assms by (simp add: take_bit_nat_eq_self)
  then have "take_bit 6 (of_nat k :: u8) = of_nat k" using u by (simp only: word_unat_eq_iff)
  then have t: "(of_nat k :: u8) = take_bit 6 (of_nat k)" by simp
  then show "(of_nat k :: u8) AND 0x3f = of_nat k" unfolding m by (simp add: take_bit_eq_mask)
  have "\<not> bit (0xc0 :: u8) n" if "n < 6" for n
    unfolding m using that by (simp only: bit_push_bit_iff) simp
  then show "(of_nat k :: u8) AND 0xc0 = 0"
    by (subst t, intro bit_word_eqI) (auto simp: bit_and_iff bit_take_bit_iff)
qed

lemma drop_next: "drop q pkt = x # r \<Longrightarrow> q < length pkt \<and> pkt ! q = x \<and> drop (Suc q) pkt = r"
  by (metis Cons_nth_drop_Suc drop_eq_Nil2 list.distinct(1) list.inject not_le)

lemma drop_further: "drop q pkt = x @ r \<Longrightarrow> drop (q + length x) pkt = r"
  by (metis add.commute drop_drop drop_at)

lemma drop_fits: "drop q pkt = x @ r \<Longrightarrow> x \<noteq> [] \<Longrightarrow> q + length x \<le> length pkt"
  by (metis Nat.le_diff_conv2 add.commute append_is_Nil_conv drop_eq_Nil le_add1 length_append length_drop nle_le)

text \<open>The label loop steps over a well-formed name of up to 15 labels.\<close>

lemma skip_question_name:
  assumes "labels_ok ls" "length ls < n" "drop q pkt = name_bytes ls @ post"
  shows "skip_question n pkt q = Some (Some (q + length (name_bytes ls)))"
  using assms
proof (induction ls arbitrary: n q)
  case Nil
  then obtain n' where "n = Suc n'" by (cases n) auto
  moreover have "q < length pkt" "pkt ! q = 0" using drop_next [of q pkt 0 post] Nil by (auto simp: name_bytes_def)
  ultimately show ?case by (simp add: pkt_reads name_bytes_def)
next
  case (Cons l ls)
  then obtain n' where n: "n = Suc n'" "length ls < n'" by (cases n) auto
  have l: "0 < length l" "length l < 64" "labels_ok ls" using Cons.prems(1) by (auto simp: labels_ok_def)
  have d: "drop q pkt = of_nat (length l) # l @ name_bytes ls @ post"
    using Cons.prems(3) by (simp add: name_bytes_def)
  note q = drop_next [OF d]
  have r: "drop (Suc q + length l) pkt = name_bytes ls @ post" using q drop_further by blast
  have f: "Suc q + length l \<le> length pkt" using q l(1) by (intro drop_fits [of _ _ l]) auto
  have nz: "(of_nat (length l) :: u8) \<noteq> 0" using u8_small(3) [OF l(2)] l(1) by (metis less_irrefl unsigned_0)
  have "skip_question n pkt q = skip_question n' pkt (Suc q + length l)"
    using q f nz u8_small [OF l(2)] by (simp add: n(1) pkt_reads Let_def)
  also have "\<dots> = Some (Some (Suc q + length l + length (name_bytes ls)))"
    by (rule Cons.IH [OF l(3) n(2) r])
  finally show ?case by (simp add: name_bytes_def)
qed

text \<open>An answer record of type A with a compressed name.\<close>

lemma scan_answers_A:
  assumes "drop a pkt = [0xc0, x, 0, 1] @ ttl @ [0, 4] @ addr @ rest" "length ttl = 6" "length addr = 4"
  shows "scan_answers (Suc n) pkt a e = Some (e\<lparr>da_daddr := u32_at (region_of addr) 0, da_family := 2\<rparr>)"
proof -
  let ?r = "[0xc0, x, 0, 1] @ ttl @ [0, 4] @ addr @ rest"
  have len: "length pkt = a + length ?r" using assms(1) by (metis append_Cons drop_eq_Nil le_add_diff_inverse length_drop list.distinct(1) nle_le)
  have at: "pkt ! (a + i) = ?r ! i" if "i < length ?r" for i
    using that assms(1) len by (metis le_add1 nth_drop)
  have "pkt ! a = 0xc0" "pkt ! (a + 2) = 0" "pkt ! Suc (Suc (Suc a)) = 1" "pkt ! (a + 10) = 0" "pkt ! (a + 11) = 4"
    using at [of 0] at [of 2] at [of 3] at [of 10] at [of 11] assms(2)
    by (simp_all add: nth_append numeral_3_eq_3)
  moreover have "take 4 (drop (a + 12) pkt) = addr"
    using drop_further [of a pkt "[0xc0, x, 0, 1] @ ttl @ [0, 4]" "addr @ rest"] assms by simp
  moreover have "be16 0 1 = 1" "be16 0 4 = 4" by (simp_all add: be16_def)
  ultimately show ?thesis
    using len assms(2,3) by (simp add: pkt_reads Let_def add.commute)
qed

section \<open>From the query to the answer\<close>

text \<open>The key under which a query is recorded: resolver address, client port, transaction id.\<close>

definition query_key :: "bytes \<Rightarrow> bytes \<Rightarrow> bytes \<Rightarrow> dns_tx_key" where
  "query_key addr port tx =
     \<lparr>resolver_ip = u32_at (region_of addr) 0, client_port = u16_at (region_of port) 0,
      txid = u16_at (region_of tx) 0\<rparr>"

text \<open>A response with one question and a first answer of type A that points back to it.\<close>

definition reply_payload ::
    "bytes \<Rightarrow> bytes \<Rightarrow> bytes \<Rightarrow> bytes \<Rightarrow> bytes list \<Rightarrow> bytes \<Rightarrow> u8 \<Rightarrow> bytes \<Rightarrow> bytes \<Rightarrow> bytes \<Rightarrow> bytes" where
  "reply_payload tx mid an ns ls qt x ttl addr rest =
     tx @ mid @ an @ ns @ name_bytes ls @ qt @ [0xc0, x, 0, 1] @ ttl @ [0, 4] @ addr @ rest"

definition reply_ok :: "bytes \<Rightarrow> bytes \<Rightarrow> bytes \<Rightarrow> bytes \<Rightarrow> bytes list \<Rightarrow> bytes \<Rightarrow> bytes \<Rightarrow> bytes \<Rightarrow> bool" where
  "reply_ok tx mid an ns ls qt ttl addr \<longleftrightarrow>
     length tx = 2 \<and> length mid = 4 \<and> length an = 2 \<and> an \<noteq> [0, 0] \<and> length ns = 4 \<and> labels_ok ls \<and>
     length ls \<le> 15 \<and> length qt = 4 \<and> length ttl = 6 \<and> length addr = 4"

lemma take_payload: "drop n pkt = tx @ r \<Longrightarrow> length tx = k \<Longrightarrow> take k (drop n pkt) = tx"
  by simp

lemma tc_egress_records:
  assumes "frame_ok q" "uf_dport q = [0, 53]" "uf_payload q = tx @ qs" "length tx = 2" "10 \<le> length qs"
    and "read_bytes (ke_kmem E) (data + of_nat (54 + length (uf_opts q))) 128 = Some qn"
  shows "tc_egress_dns E \<lparr>skb_data = data, skb_pkt = frame_bytes q\<rparr> s =
           Some (0, dns_update E (query_key (uf_daddr q) (uf_sport q) tx)
                      \<lparr>dv_qname = qn, dv_cgroup_id = ke_cgroup_id E\<rparr> s)"
proof -
  let ?u = "34 + length (uf_opts q)"
  note p = frame_parts [OF assms(1)]
  have off: "dns_offsets ''dest'' (frame_bytes q) = Some (Some (14, ?u, ?u + 8))"
    using frame_offsets [OF assms(1)] assms(2-5) by simp
  have "pkt_u16 (frame_bytes q) (?u + 8) = Some (u16_at (region_of tx) 0)"
    "pkt_u32 (frame_bytes q) 30 = Some (u32_at (region_of (uf_daddr q)) 0)"
    "pkt_u16 (frame_bytes q) ?u = Some (u16_at (region_of (uf_sport q)) 0)"
    using p assms(3-5) take_payload [of "?u + 8" "frame_bytes q" tx] by (simp_all add: pkt_reads)
  moreover have "probe_read (ke_kmem E) (data + of_nat (?u + 8 + 12)) 128 = (0, qn)"
    using assms(6) by (simp add: probe_read_def add.commute add.left_commute)
  ultimately show ?thesis
    using off by (simp add: tc_egress_dns_def query_key_def del: of_nat_add)
qed

lemma tc_ingress_answers:
  assumes "frame_ok a" "uf_sport a = [0, 53]" "reply_ok tx mid an ns ls qt ttl addr"
    and "uf_payload a = reply_payload tx mid an ns ls qt x ttl addr rest"
    and "key = query_key (uf_saddr a) (uf_dport a) tx" "dns_pending_tx s key = Some val"
    and "ke_rb E (rb_seq s) = Some m" "s' = snd (rb_reserve E s)"
  shows "tc_ingress_dns E \<lparr>skb_data = data, skb_pkt = frame_bytes a\<rparr> s =
           Some (0, rb_submit (DnsAnswerEv ((dns_answer_init E val m s')
                      \<lparr>da_daddr := u32_at (region_of addr) 0, da_family := 2\<rparr>)) (dns_delete key s'))"
proof -
  let ?u = "34 + length (uf_opts a)" and ?b = "frame_bytes a"
  let ?r = "qt @ [0xc0, x, 0, 1] @ ttl @ [0, 4] @ addr @ rest"
  note p = frame_parts [OF assms(1)]
  note ok = assms(3) [unfolded reply_ok_def]
  have pay: "drop (?u + 8) ?b = tx @ mid @ an @ ns @ name_bytes ls @ ?r"
    using p(9) assms(4) by (simp add: reply_payload_def)
  have long: "12 \<le> length (uf_payload a)" using ok assms(4) by (simp add: reply_payload_def)
  have off: "dns_offsets ''source'' ?b = Some (Some (14, ?u, ?u + 8))"
    using frame_offsets [OF assms(1) long] assms(2) by simp
  have an: "?b ! (?u + 14) = an ! 0" "?b ! (?u + 15) = an ! 1"
  proof -
    have at: "?b ! (?u + 8 + i) = (tx @ mid @ an @ ns @ name_bytes ls @ ?r) ! i" if "i < 12" for i
      using that p(1) long pay by (metis le_add1 nth_drop)
    show "?b ! (?u + 14) = an ! 0" "?b ! (?u + 15) = an ! 1"
      using at [of 6] at [of 7] ok by (simp_all add: nth_append)
  qed
  have rd: "pkt_u16 ?b (?u + 8) = Some (u16_at (region_of tx) 0)"
    "pkt_u8 ?b (?u + 8 + 6) = Some (an ! 0)" "pkt_u8 ?b (?u + 8 + 7) = Some (an ! 1)"
    "pkt_u32 ?b (14 + 12) = Some (u32_at (region_of (uf_saddr a)) 0)"
    "pkt_u16 ?b (?u + 2) = Some (u16_at (region_of (uf_dport a)) 0)"
    using p an long take_payload [OF pay] ok by (simp_all add: pkt_reads)
  have nz: "be16 (an ! 0) (an ! 1) \<noteq> 0"
  proof -
    obtain c d where "an = [c, d]" using ok by (auto simp: numeral_2_eq_2 length_Suc_conv)
    then show ?thesis using ok be16_inj [of c d 0 0] by (auto simp: be16_def)
  qed
  have q12: "drop (?u + 8 + 12) ?b = name_bytes ls @ ?r"
    using drop_further [of "?u + 8" ?b "tx @ mid @ an @ ns" "name_bytes ls @ ?r"] pay ok by simp
  let ?q = "?u + 8 + 12 + length (name_bytes ls)"
  have sk: "skip_question 16 ?b (?u + 8 + 12) = Some (Some ?q)"
    using ok by (intro skip_question_name [OF _ _ q12]) auto
  have q: "drop ?q ?b = ?r" using drop_further [OF q12] .
  have q4: "drop (?q + 4) ?b = [0xc0, x, 0, 1] @ ttl @ [0, 4] @ addr @ rest"
    using drop_further [OF q] ok by simp
  have "qt \<noteq> []" using ok by (metis list.size(3) zero_neq_numeral)
  then have fit: "?q + 4 \<le> length ?b" using drop_fits [OF q] ok by simp
  have sc: "scan_answers 2 ?b (?q + 4) e =
      Some (e\<lparr>da_daddr := u32_at (region_of addr) 0, da_family := 2\<rparr>)" for e
    unfolding numeral_2_eq_2 using ok by (intro scan_answers_A [OF q4]) auto
  show ?thesis
    unfolding tc_ingress_dns_def Let_def
    using off rd nz sk fit sc assms(5-8)
    by (simp add: query_key_def case_prod_unfold del: One_nat_def add_2_eq_Suc')
qed

text \<open>The bytes the egress program copies begin with the name in the question of the packet.\<close>

lemma qname_of_packet:
  assumes "skb_mapped E \<lparr>skb_data = d, skb_pkt = frame_bytes q\<rparr>" "frame_ok q"
    and "uf_payload q = hb @ nm @ rest" "length hb = 12" "length nm \<le> 128"
    and "read_bytes (ke_kmem E) (d + of_nat (54 + length (uf_opts q))) 128 = Some qn"
  shows "prefix nm qn"
proof -
  let ?b = "frame_bytes q" and ?o = "54 + length (uf_opts q)"
  note p = frame_parts [OF assms(2)]
  have len: "length ?b = ?o + length nm + length rest" using p(1) assms(3,4) by simp
  have d: "drop ?o ?b = nm @ rest"
    using drop_further [of "42 + length (uf_opts q)" ?b hb "nm @ rest"] p(9) assms(3,4) by (simp add: ac_simps)
  have "qn ! i = nm ! i" if i: "i < length nm" for i
  proof -
    have "ke_kmem E (d + of_nat (?o + i)) = Some (?b ! (?o + i))"
      using assms(1) i len by (simp add: skb_mapped_def read_bytes_Some_iff del: of_nat_add)
    moreover have "?b ! (?o + i) = nm ! i"
      using arg_cong [OF d, of "\<lambda>xs. xs ! i"] i len by (simp add: nth_append)
    ultimately show ?thesis
      using assms(5,6) i by (simp add: read_bytes_Some_iff add.assoc)
  qed
  moreover have "length qn = 128" using assms(6) by (simp add: read_bytes_Some_iff)
  ultimately have "take (length nm) qn = nm" using assms(5) by (intro nth_equalityI) auto
  then show ?thesis by (metis take_is_prefix)
qed

lemma dns_answer_of_query:
  assumes "frame_ok q" "uf_dport q = [0, 53]" "uf_payload q = tx @ qs" "10 \<le> length qs" "ke_lru_ok E1"
    and "read_bytes (ke_kmem E1) (data1 + of_nat (54 + length (uf_opts q))) 128 = Some qn"
    and "tc_egress_dns E1 \<lparr>skb_data = data1, skb_pkt = frame_bytes q\<rparr> s = Some (r, s1)"
    and "key = query_key (uf_daddr q) (uf_sport q) tx" "dns_pending_tx s2 key = dns_pending_tx s1 key"
    and "frame_ok a" "uf_sport a = [0, 53]" "uf_saddr a = uf_daddr q" "uf_dport a = uf_sport q"
    and "uf_payload a = reply_payload tx mid an ns ls qt x ttl addr rest"
    and "reply_ok tx mid an ns ls qt ttl addr" "ke_rb E2 (rb_seq s2) \<noteq> None"
  shows "\<exists>e s3. tc_ingress_dns E2 \<lparr>skb_data = data2, skb_pkt = frame_bytes a\<rparr> s2 = Some (0, s3) \<and>
           rb s3 = rb s2 @ [DnsAnswerEv e] \<and> da_family e = 2 \<and> le_bytes 4 (unat (da_daddr e)) = addr \<and>
           da_qname e = qn \<and> eh_cgroup_id (da_hdr e) = ke_cgroup_id E1 \<and> dns_pending_tx s3 key = None"
proof -
  let ?val = "\<lparr>dv_qname = qn, dv_cgroup_id = ke_cgroup_id E1\<rparr>"
  have tx: "length tx = 2" using assms(15) by (simp add: reply_ok_def)
  have "s1 = dns_update E1 key ?val s"
    using tc_egress_records [OF assms(1-3) tx assms(4,6), of s] assms(7,8) by simp
  then have val: "dns_pending_tx s2 key = Some ?val" using assms(5,9) by (simp add: dns_update_def)
  obtain m where m: "ke_rb E2 (rb_seq s2) = Some m" using assms(16) by blast
  have key: "key = query_key (uf_saddr a) (uf_dport a) tx" using assms(8,12,13) by simp
  have "arr_at (region_of addr) 0 4 = addr" using assms(15) by (simp add: reply_ok_def arr_at_region_of)
  then show ?thesis
    unfolding tc_ingress_answers [OF assms(10,11,15,14) key val m refl]
    by (simp add: le_bytes_u32) (simp add: dns_answer_init_def)
qed

text \<open>
  The answer is tied back to the query. Take a query packet leaving the host (any Ethernet header,
  IP options and ports), and later a response from the resolver's port 53 to the query's source
  port with the same transaction id, a question of up to 15 labels and a first answer of type A. If
  the recorded transaction has not been evicted in between, the response is reported with the
  address of its answer, the name bytes of the query and the cgroup of the process that sent it,
  and the transaction is removed.
\<close>

theorem dns_query_answer_roundtrip:
  assumes "frame_ok q" "uf_dport q = [0, 53]" "uf_payload q = tx @ qs" "10 \<le> length qs" "ke_lru_ok E1"
    and "read_bytes (ke_kmem E1) (data1 + of_nat (54 + length (uf_opts q))) 128 = Some qn"
    and "tc_egress_dns E1 \<lparr>skb_data = data1, skb_pkt = frame_bytes q\<rparr> s = Some (r, s1)"
    and "key = query_key (uf_daddr q) (uf_sport q) tx" "dns_pending_tx s2 key = dns_pending_tx s1 key"
    and "frame_ok a" "uf_sport a = [0, 53]" "uf_saddr a = uf_daddr q" "uf_dport a = uf_sport q"
    and "uf_payload a = reply_payload tx mid an ns ls qt x ttl addr rest"
    and "reply_ok tx mid an ns ls qt ttl addr" "ke_rb E2 (rb_seq s2) \<noteq> None"
  shows "\<exists>e s3. tc_ingress_dns E2 \<lparr>skb_data = data2, skb_pkt = frame_bytes a\<rparr> s2 = Some (0, s3) \<and>
           rb s3 = rb s2 @ [DnsAnswerEv e] \<and> da_family e = 2 \<and> le_bytes 4 (unat (da_daddr e)) = addr \<and>
           da_qname e = qn \<and> eh_cgroup_id (da_hdr e) = ke_cgroup_id E1 \<and> dns_pending_tx s3 key = None"
  using assms by (rule dns_answer_of_query)

text \<open>A query for \<open>x.io\<close> to 9.9.9.9 and its answer.\<close>

definition query_frame :: udp_frame where
  "query_frame =
     \<lparr>uf_eth = zeros 12, uf_ihl = 0x45, uf_mid = zeros 8, uf_sum = [0, 0], uf_saddr = [10, 0, 0, 2],
      uf_daddr = [9, 9, 9, 9], uf_opts = [], uf_sport = [0xC0, 1], uf_dport = [0, 53], uf_udp = zeros 4,
      uf_payload = [7, 7] @ (zeros 10 @ name_bytes [str ''x'', str ''io''] @ [0, 1, 0, 1])\<rparr>"

definition answer_frame :: udp_frame where
  "answer_frame =
     \<lparr>uf_eth = zeros 12, uf_ihl = 0x45, uf_mid = zeros 8, uf_sum = [0, 0], uf_saddr = [9, 9, 9, 9],
      uf_daddr = [10, 0, 0, 2], uf_opts = [], uf_sport = [0, 53], uf_dport = [0xC0, 1], uf_udp = zeros 4,
      uf_payload = reply_payload [7, 7] (zeros 4) [0, 1] (zeros 4) [str ''x'', str ''io''] [0, 1, 0, 1] 12
                     (zeros 6) [93, 184, 216, 34] []\<rparr>"

definition kenv_query :: kenv where
  "kenv_query = kenv_quiet\<lparr>ke_kmem := mem_of 0 (frame_bytes query_frame @ zeros 128)\<rparr>"

abbreviation query_skb :: skb where "query_skb \<equiv> \<lparr>skb_data = 0, skb_pkt = frame_bytes query_frame\<rparr>"
abbreviation answer_skb :: skb where "answer_skb \<equiv> \<lparr>skb_data = 0, skb_pkt = frame_bytes answer_frame\<rparr>"

lemma sample_frames_ok:
  "frame_ok query_frame" "frame_ok answer_frame"
  "reply_ok [7, 7] (zeros 4) [0, 1] (zeros 4) [str ''x'', str ''io''] [0, 1, 0, 1] (zeros 6) [93, 184, 216, 34]"
  by (simp_all add: frame_ok_def query_frame_def answer_frame_def reply_ok_def labels_ok_def str_def)

lemma query_frame_qname:
  "read_bytes (ke_kmem kenv_query) (0 + of_nat (54 + length (uf_opts query_frame))) 128 =
     Some (name_bytes [str ''x'', str ''io''] @ [0, 1, 0, 1] @ zeros 118)"
proof -
  have l: "length (frame_bytes query_frame) = 64"
    using frame_parts(1) [OF sample_frames_ok(1)] by (simp add: query_frame_def name_bytes_def str_def)
  have "drop 54 (frame_bytes query_frame) = name_bytes [str ''x'', str ''io''] @ [0, 1, 0, 1]"
    using frame_parts(9) [OF sample_frames_ok(1)]
      drop_further [of 42 "frame_bytes query_frame" "[7, 7] @ zeros 10"] by (simp add: query_frame_def)
  then show ?thesis
    using read_bytes_mem_of [of 54 128 "frame_bytes query_frame @ zeros 128" 0] l
    by (simp add: kenv_query_def query_frame_def name_bytes_def str_def)
qed

lemma query_skb_mapped: "skb_mapped kenv_query query_skb"
proof -
  have "length (frame_bytes query_frame) = 64"
    using frame_parts(1) [OF sample_frames_ok(1)] by (simp add: query_frame_def name_bytes_def str_def)
  then show ?thesis
    using read_bytes_mem_of [of 0 64 "frame_bytes query_frame @ zeros 128" 0]
    by (simp add: skb_mapped_def kenv_query_def)
qed

theorem dns_query_answer_roundtrip_witness:
  "\<exists>s1 e s3. tc_egress_dns kenv_query query_skb (bstate_init policy_off) = Some (0, s1) \<and>
     tc_ingress_dns kenv_quiet answer_skb s1 = Some (0, s3) \<and> rb s3 = rb s1 @ [DnsAnswerEv e] \<and>
     le_bytes 4 (unat (da_daddr e)) = [93, 184, 216, 34] \<and> eh_cgroup_id (da_hdr e) = 7"
proof -
  note q = query_frame_qname
  have tx: "uf_payload query_frame = [7, 7] @ (zeros 10 @ name_bytes [str ''x'', str ''io''] @ [0, 1, 0, 1])"
    "uf_payload answer_frame = reply_payload [7, 7] (zeros 4) [0, 1] (zeros 4) [str ''x'', str ''io'']
       [0, 1, 0, 1] 12 (zeros 6) [93, 184, 216, 34] []"
    "10 \<le> length (zeros 10 @ name_bytes [str ''x'', str ''io''] @ [0, 1, 0, 1])"
    by (simp_all add: query_frame_def answer_frame_def)
  have pt: "uf_dport query_frame = [0, 53]" "uf_sport answer_frame = [0, 53]"
    "uf_saddr answer_frame = uf_daddr query_frame" "uf_dport answer_frame = uf_sport query_frame"
    "ke_lru_ok kenv_query" "ke_cgroup_id kenv_query = 7" "\<And>n. ke_rb kenv_quiet n \<noteq> None"
    by (simp_all add: query_frame_def answer_frame_def kenv_query_def kenv_quiet_def)
  obtain s1 where e: "tc_egress_dns kenv_query query_skb (bstate_init policy_off) = Some (0, s1)"
    using tc_egress_dns_cases [of kenv_query query_skb "bstate_init policy_off"] by metis
  show ?thesis
    using dns_query_answer_roundtrip [OF sample_frames_ok(1) pt(1) tx(1,3) pt(5) q e refl refl
        sample_frames_ok(2) pt(2-4) tx(2) sample_frames_ok(3) pt(7), of 0, unfolded pt(6)] e by blast
qed

text \<open>
  An incoming packet can only consume a pending transaction: it adds none, changes none, removes at
  most one, and submits a sample only together with that removal; the sample carries the query name
  and the cgroup recorded when the query was sent.
\<close>

theorem tc_ingress_consumes:
  assumes "tc_ingress_dns E k s = Some (r, s')"
  shows "s' = s \<or>
         (\<exists>key. dns_pending_tx s' = (dns_pending_tx s)(key := None) \<and> lineage_map s' = lineage_map s \<and>
            (rb s' = rb s \<or>
             (\<exists>val e. dns_pending_tx s key = Some val \<and> rb s' = rb s @ [DnsAnswerEv e] \<and>
                da_qname e = dv_qname val \<and> eh_cgroup_id (da_hdr e) = dv_cgroup_id val \<and>
                eh_event_type (da_hdr e) = EVT_DNS_ANSWER)))"
proof (cases rule: tc_ingress_dns_cases [of E k s])
  case 1
  then show ?thesis using assms by simp
next
  case (2 key)
  then show ?thesis using assms by auto
next
  case (3 key)
  then show ?thesis using assms by auto
next
  case (4 key val m e)
  then have s': "s' = rb_submit (DnsAnswerEv e) (dns_delete key (snd (rb_reserve E s)))" using assms by simp
  show ?thesis using 4(1,3) unfolding s'
    by (intro disjI2 exI [of _ key] conjI exI [of _ val] exI [of _ e])
      (simp_all add: same_query_def dns_answer_init_def)
qed

definition pending_sample :: bstate where
  "pending_sample = (bstate_init policy_off)
     \<lparr>dns_pending_tx := [query_key [9, 9, 9, 9] [0xC0, 1] [7, 7] \<mapsto> \<lparr>dv_qname = zeros 128, dv_cgroup_id = 5\<rparr>]\<rparr>"

theorem tc_ingress_consumes_witness:
  "\<exists>s'. tc_ingress_dns kenv_quiet answer_skb pending_sample = Some (0, s') \<and> length (rb s') = 1 \<and>
        (\<exists>key. dns_pending_tx s' = (dns_pending_tx pending_sample)(key := None))"
proof -
  have x: "uf_sport answer_frame = [0, 53]"
    "query_key [9, 9, 9, 9] [0xC0, 1] [7, 7] = query_key (uf_saddr answer_frame) (uf_dport answer_frame) [7, 7]"
    "uf_payload answer_frame = reply_payload [7, 7] (zeros 4) [0, 1] (zeros 4) [str ''x'', str ''io'']
       [0, 1, 0, 1] 12 (zeros 6) [93, 184, 216, 34] []"
    "dns_pending_tx pending_sample (query_key [9, 9, 9, 9] [0xC0, 1] [7, 7]) =
       Some \<lparr>dv_qname = zeros 128, dv_cgroup_id = 5\<rparr>"
    "ke_rb kenv_quiet (rb_seq pending_sample) = Some (\<lambda>_. 0)" "rb pending_sample = []"
    by (simp_all add: answer_frame_def pending_sample_def kenv_quiet_def)
  note i = tc_ingress_answers [OF sample_frames_ok(2) x(1) sample_frames_ok(3) x(3,2,4,5) refl, of 0]
  from tc_ingress_consumes [OF i] i x(6) show ?thesis by auto
qed

end
