(* ===== verification/KG_CoreRead.thy ===== *)
theory KG_CoreRead
  imports KG_Dns
begin

text \<open>
  The kernel structs in raw memory. \<open>BPF_CORE_READ\<close> copies a member from the address of the struct plus
  the offset of the member, and a faulting copy leaves zero. The typed heaps of \<open>KG_Kernel\<close> are
  derived here from kernel memory with the layouts of \<open>vmlinux.h\<close>, so that every theorem of the
  development applies to raw memory as well; the walks over the heaps become reads at fixed offsets.
  The offsets are those of the kernel whose type information \<open>vmlinux.h\<close> was generated from; on
  another kernel the loader relocates each access to that kernel's offset of the same member.
\<close>

section \<open>The layouts\<close>

lemmas task_parts = task_struct_kfields_a_def task_struct_kfields_b_def task_struct_kfields_c_def
  task_struct_kfields_d_def task_struct_kfields_e_def task_struct_kfields_f_def task_struct_kfields_g_def

interpretation task_layout: kstruct task_struct_kfields
  by unfold_locales (simp add: task_struct_kfields_def, simp add: task_parts vm_eval)

interpretation mm_layout: kstruct mm_struct_fields_kfields
  by unfold_locales (simp add: mm_struct_fields_kfields_def vm_eval)

interpretation file_layout: kstruct file_kfields
  by unfold_locales (simp add: file_kfields_def vm_eval)

interpretation inode_layout: kstruct inode_kfields
  by unfold_locales (simp add: inode_kfields_def vm_eval)

interpretation sb_layout: kstruct super_block_kfields
  by unfold_locales (simp add: super_block_kfields_def vm_eval)

lemma task_pos_a [vm_end]:
  "k_bitpos 0 task_struct_kfields_a ''mm'' = None"
  "k_bitpos 0 task_struct_kfields_a ''pid'' = None"
  "k_bitpos 0 task_struct_kfields_a ''tgid'' = None"
  "k_bitpos 0 task_struct_kfields_a ''real_parent'' = None"
  "k_bitpos 0 task_struct_kfields_a ''comm'' = None"
  "k_bitpos 0 task_struct_kfields_a ''files'' = None"
  "k_bitpos 0 task_struct_kfields_a ''nsproxy'' = None"
  by (simp_all add: task_struct_kfields_a_def vm_eval)

lemma task_pos_b [vm_end]:
  "k_bitpos 16768 task_struct_kfields_b ''mm'' = Some 18880"
  "k_bitpos 16768 task_struct_kfields_b ''pid'' = None"
  "k_bitpos 16768 task_struct_kfields_b ''tgid'' = None"
  "k_bitpos 16768 task_struct_kfields_b ''real_parent'' = None"
  "k_bitpos 16768 task_struct_kfields_b ''comm'' = None"
  "k_bitpos 16768 task_struct_kfields_b ''files'' = None"
  "k_bitpos 16768 task_struct_kfields_b ''nsproxy'' = None"
  by (simp_all add: task_struct_kfields_b_def vm_eval)

lemma task_pos_c [vm_end]:
  "k_bitpos 19331 task_struct_kfields_c ''pid'' = Some 19904"
  "k_bitpos 19331 task_struct_kfields_c ''tgid'' = Some 19936"
  "k_bitpos 19331 task_struct_kfields_c ''real_parent'' = Some 20032"
  "k_bitpos 19331 task_struct_kfields_c ''comm'' = None"
  "k_bitpos 19331 task_struct_kfields_c ''files'' = None"
  "k_bitpos 19331 task_struct_kfields_c ''nsproxy'' = None"
  by (simp_all add: task_struct_kfields_c_def vm_eval)

lemma task_pos_d [vm_end]:
  "k_bitpos 22848 task_struct_kfields_d ''comm'' = Some 24256"
  "k_bitpos 22848 task_struct_kfields_d ''files'' = Some 24832"
  "k_bitpos 22848 task_struct_kfields_d ''nsproxy'' = Some 24960"
  by (simp_all add: task_struct_kfields_d_def vm_eval)

lemma task_offsets [simp]:
  "k_offsetof task_struct_kfields ''mm'' = 2360" "k_offsetof task_struct_kfields ''pid'' = 2488"
  "k_offsetof task_struct_kfields ''tgid'' = 2492" "k_offsetof task_struct_kfields ''real_parent'' = 2504"
  "k_offsetof task_struct_kfields ''comm'' = 3032" "k_offsetof task_struct_kfields ''files'' = 3104"
  "k_offsetof task_struct_kfields ''nsproxy'' = 3120"
  by (simp_all add: k_offsetof_def task_struct_kfields_def k_bitpos_append vm_end)

lemma file_offsets [simp]:
  "k_offsetof file_kfields ''f_flags'' = 72" "k_offsetof file_kfields ''f_path'' = 152"
  "k_offsetof file_kfields ''f_inode'' = 168" "k_offsetof path_kfields ''dentry'' = 8"
  by (simp_all add: k_offsetof_def file_kfields_def path_kfields_def vm_eval)

lemma mm_offsets [simp]:
  "k_offsetof mm_struct_kfields ''_anon1'' = 0"
  "k_offsetof mm_struct_fields_kfields ''arg_start'' = 376"
  "k_offsetof mm_struct_fields_kfields ''arg_end'' = 384"
  "k_offsetof mm_struct_fields_kfields ''exe_file'' = 1168"
  by (simp_all add: k_offsetof_def mm_struct_kfields_def mm_struct_fields_kfields_def vm_eval)

lemma inode_offsets [simp]:
  "k_offsetof inode_kfields ''i_mode'' = 0" "k_offsetof inode_kfields ''i_sb'' = 56"
  "k_offsetof inode_kfields ''i_ino'' = 80" "k_offsetof inode_kfields ''_anon1'' = 88"
  "k_union_offsetof inode_nlink_kfields ''i_nlink'' = 0"
  by (simp_all add: k_offsetof_def inode_kfields_def k_union_offsetof_def vm_eval)

lemma fs_offsets [simp]:
  "k_offsetof super_block_kfields ''s_dev'' = 16" "k_offsetof super_block_kfields ''s_magic'' = 96"
  "k_offsetof dentry_kfields ''d_sb'' = 112" "k_offsetof linux_binprm_kfields ''file'' = 64"
  by (simp_all add: k_offsetof_def super_block_kfields_def dentry_kfields_def linux_binprm_kfields_def vm_eval)

lemma cred_ns_offsets [simp]:
  "k_offsetof cred_kfields ''uid'' = 8" "k_offsetof kuid_t_kfields ''val'' = 0"
  "k_offsetof nsproxy_kfields ''mnt_ns'' = 24" "k_offsetof mnt_namespace_kfields ''ns'' = 0"
  "k_offsetof ns_common_kfields ''inum'' = 16"
  "k_offsetof files_struct_kfields ''fdt'' = 32" "k_offsetof fdtable_kfields ''fd'' = 8"
  by (simp_all add: k_offsetof_def cred_kfields_def kuid_t_kfields_def nsproxy_kfields_def
      mnt_namespace_kfields_def ns_common_kfields_def files_struct_kfields_def fdtable_kfields_def vm_eval)

section \<open>Views of raw memory\<close>

definition kread_u16 :: "mem \<Rightarrow> ptr \<Rightarrow> nat \<Rightarrow> u16" where
  "kread_u16 m p off = u16_at (region_of (snd (probe_read m (p + of_nat off) 2))) 0"

definition kread_u32 :: "mem \<Rightarrow> ptr \<Rightarrow> nat \<Rightarrow> u32" where
  "kread_u32 m p off = u32_at (region_of (snd (probe_read m (p + of_nat off) 4))) 0"

definition kread_u64 :: "mem \<Rightarrow> ptr \<Rightarrow> nat \<Rightarrow> u64" where
  "kread_u64 m p off = u64_at (region_of (snd (probe_read m (p + of_nat off) 8))) 0"

definition task_at :: "mem \<Rightarrow> ptr \<Rightarrow> task_struct" where
  "task_at m p =
     (let off = k_offsetof task_struct_kfields in
      \<lparr>ts_pid = kread_u32 m p (off ''pid''), ts_tgid = kread_u32 m p (off ''tgid''),
       ts_real_parent = kread_u64 m p (off ''real_parent''), ts_mm = kread_u64 m p (off ''mm''),
       ts_files = kread_u64 m p (off ''files''), ts_nsproxy = kread_u64 m p (off ''nsproxy''),
       ts_comm = snd (probe_read m (p + of_nat (off ''comm'')) 16)\<rparr>)"

definition mm_at :: "mem \<Rightarrow> ptr \<Rightarrow> mm_struct" where
  "mm_at m p =
     (let off = (\<lambda>f. k_offsetof mm_struct_kfields ''_anon1'' + k_offsetof mm_struct_fields_kfields f) in
      \<lparr>mm_exe_file = kread_u64 m p (off ''exe_file''), mm_arg_start = kread_u64 m p (off ''arg_start''),
       mm_arg_end = kread_u64 m p (off ''arg_end'')\<rparr>)"

definition file_at :: "mem \<Rightarrow> ptr \<Rightarrow> kfile" where
  "file_at m p =
     (let off = k_offsetof file_kfields in
      \<lparr>f_inode = kread_u64 m p (off ''f_inode''), f_flags = kread_u32 m p (off ''f_flags''),
       f_path_dentry = kread_u64 m p (off ''f_path'' + k_offsetof path_kfields ''dentry'')\<rparr>)"

definition inode_at :: "mem \<Rightarrow> ptr \<Rightarrow> inode" where
  "inode_at m p =
     (let off = k_offsetof inode_kfields in
      \<lparr>i_mode = kread_u16 m p (off ''i_mode''), i_ino = kread_u64 m p (off ''i_ino''),
       i_nlink = kread_u32 m p (off ''_anon1'' + k_union_offsetof inode_nlink_kfields ''i_nlink''),
       i_sb = kread_u64 m p (off ''i_sb'')\<rparr>)"

definition super_block_at :: "mem \<Rightarrow> ptr \<Rightarrow> super_block" where
  "super_block_at m p =
     \<lparr>s_dev = kread_u32 m p (k_offsetof super_block_kfields ''s_dev''),
      s_magic = kread_u64 m p (k_offsetof super_block_kfields ''s_magic'')\<rparr>"

definition dentry_at :: "mem \<Rightarrow> ptr \<Rightarrow> dentry" where
  "dentry_at m p = \<lparr>d_sb = kread_u64 m p (k_offsetof dentry_kfields ''d_sb'')\<rparr>"

definition binprm_at :: "mem \<Rightarrow> ptr \<Rightarrow> linux_binprm" where
  "binprm_at m p = \<lparr>bprm_file = kread_u64 m p (k_offsetof linux_binprm_kfields ''file'')\<rparr>"

definition cred_at :: "mem \<Rightarrow> ptr \<Rightarrow> cred" where
  "cred_at m p =
     \<lparr>cred_uid = kread_u32 m p (k_offsetof cred_kfields ''uid'' + k_offsetof kuid_t_kfields ''val'')\<rparr>"

definition nsproxy_at :: "mem \<Rightarrow> ptr \<Rightarrow> nsproxy" where
  "nsproxy_at m p = \<lparr>nsp_mnt_ns = kread_u64 m p (k_offsetof nsproxy_kfields ''mnt_ns'')\<rparr>"

definition mnt_namespace_at :: "mem \<Rightarrow> ptr \<Rightarrow> mnt_namespace" where
  "mnt_namespace_at m p =
     \<lparr>mns_inum = kread_u32 m p (k_offsetof mnt_namespace_kfields ''ns'' + k_offsetof ns_common_kfields ''inum'')\<rparr>"

definition files_struct_at :: "mem \<Rightarrow> ptr \<Rightarrow> files_struct" where
  "files_struct_at m p = \<lparr>fs_fdt = kread_u64 m p (k_offsetof files_struct_kfields ''fdt'')\<rparr>"

definition fdtable_at :: "mem \<Rightarrow> ptr \<Rightarrow> fdtable" where
  "fdtable_at m p = \<lparr>fdt_fd = kread_u64 m p (k_offsetof fdtable_kfields ''fd'')\<rparr>"

text \<open>Kernel inputs whose heaps are read out of kernel memory.\<close>

definition raw_kenv :: "kenv \<Rightarrow> kenv" where
  "raw_kenv E =
     (let m = ke_kmem E in
      E\<lparr>ke_tasks := (\<lambda>p. Some (task_at m p)), ke_mms := (\<lambda>p. Some (mm_at m p)),
        ke_kfiles := (\<lambda>p. Some (file_at m p)), ke_inodes := (\<lambda>p. Some (inode_at m p)),
        ke_sbs := (\<lambda>p. Some (super_block_at m p)), ke_dentries := (\<lambda>p. Some (dentry_at m p)),
        ke_binprms := (\<lambda>p. Some (binprm_at m p)), ke_creds := (\<lambda>p. Some (cred_at m p)),
        ke_nsproxies := (\<lambda>p. Some (nsproxy_at m p)), ke_mnt_nss := (\<lambda>p. Some (mnt_namespace_at m p)),
        ke_files_structs := (\<lambda>p. Some (files_struct_at m p)), ke_fdtables := (\<lambda>p. Some (fdtable_at m p))\<rparr>)"

lemmas views = task_at_def mm_at_def file_at_def inode_at_def super_block_at_def dentry_at_def
  binprm_at_def cred_at_def nsproxy_at_def mnt_namespace_at_def files_struct_at_def fdtable_at_def

lemma raw_kenv_sel [simp]:
  "ke_kmem (raw_kenv E) = ke_kmem E" "ke_umem (raw_kenv E) = ke_umem E" "ke_current (raw_kenv E) = ke_current E"
  "ke_d_path (raw_kenv E) = ke_d_path E" "ke_rb (raw_kenv E) = ke_rb E" "ke_cgroup_id (raw_kenv E) = ke_cgroup_id E"
  by (simp_all add: raw_kenv_def Let_def)

lemma raw_kenv_ok [simp]: "kenv_ok (raw_kenv E) \<longleftrightarrow> kenv_ok E"
  by (simp add: kenv_ok_def)

section \<open>What the walks read\<close>

lemma core_read_raw: "core_read (\<lambda>p. Some (view p)) p sel = (if p = 0 then 0 else sel (view p))"
  by (simp add: core_read_def)

lemmas raw_walk = raw_kenv_def core_read_raw views Let_def

text \<open>
  Over raw kernel memory laid out as in \<open>vmlinux.h\<close>, the identity of a task's executable is found by
  five pointer-sized reads at fixed offsets: \<open>mm\<close> (2360), \<open>exe_file\<close> (1168), \<open>f_inode\<close> (168), \<open>i_ino\<close>
  (80), \<open>i_sb\<close> (56), and the device number at 16 in the super block. A null or unreadable link ends
  the walk without an identity.
\<close>

theorem exe_id_raw_reads:
  "get_task_exe_id (raw_kenv E) t =
     (let m = ke_kmem E;
          mm = kread_u64 m t 2360; exe = kread_u64 m mm 1168; ino = kread_u64 m exe 168;
          sb = kread_u64 m ino 56 in
      if t = 0 \<or> mm = 0 \<or> exe = 0 \<or> ino = 0 then None
      else Some \<lparr>fi_dev = (if sb = 0 then 0 else ucast (kread_u32 m sb 16)), fi_ino = kread_u64 m ino 80\<rparr>)"
  by (simp add: get_task_exe_id_def raw_walk)

text \<open>
  Whether a binary counts as fileless is decided by two words of raw memory: the link count at
  offset 88 of the inode of the file being executed, and the magic number at 96 in the super block
  reached through the dentry of the file's path (160) and its \<open>d_sb\<close> (112).
\<close>

theorem bprm_fileless_raw_reads:
  "bprm_fileless (raw_kenv E) bprm \<longleftrightarrow>
     (let m = ke_kmem E;
          f = kread_u64 m bprm 64; ino = kread_u64 m f 168; den = kread_u64 m f 160; sb = kread_u64 m den 112 in
      bprm \<noteq> 0 \<and> f \<noteq> 0 \<and> ino \<noteq> 0 \<and> den \<noteq> 0 \<and> sb \<noteq> 0 \<and>
      kread_u32 m ino 88 = 0 \<and> kread_u64 m sb 96 = TMPFS_MAGIC)"
  by (simp add: bprm_fileless_def raw_walk TMPFS_MAGIC_def)

text \<open>The struct members the sensors copy, with the number of bytes.\<close>

definition kernel_reads :: "(kfields \<times> string \<times> nat) list" where
  "kernel_reads =
     [(task_struct_kfields, ''mm'', 8), (task_struct_kfields, ''pid'', 4), (task_struct_kfields, ''tgid'', 4),
      (task_struct_kfields, ''real_parent'', 8), (task_struct_kfields, ''comm'', 16),
      (task_struct_kfields, ''files'', 8), (task_struct_kfields, ''nsproxy'', 8),
      (mm_struct_fields_kfields, ''arg_start'', 8), (mm_struct_fields_kfields, ''arg_end'', 8),
      (mm_struct_fields_kfields, ''exe_file'', 8), (file_kfields, ''f_flags'', 4),
      (file_kfields, ''f_path'', 16), (file_kfields, ''f_inode'', 8), (inode_kfields, ''i_mode'', 2),
      (inode_kfields, ''i_sb'', 8), (inode_kfields, ''i_ino'', 8), (inode_kfields, ''_anon1'', 4),
      (super_block_kfields, ''s_dev'', 4), (super_block_kfields, ''s_magic'', 8)]"

lemma k_member_append:
  "k_member (xs @ ys) f = (case k_member xs f of None \<Rightarrow> k_member ys f | Some m \<Rightarrow> Some m)"
  by (induction xs) (auto split: option.splits)

lemma mm_members:
  "k_member mm_struct_fields_kfields ''arg_start'' = Some (Fld ''arg_start'' c_u64)"
  "k_member mm_struct_fields_kfields ''arg_end'' = Some (Fld ''arg_end'' c_u64)"
  "k_member mm_struct_fields_kfields ''exe_file'' = Some (Fld ''exe_file'' c_ptr)"
  by (simp_all add: mm_struct_fields_kfields_def vm_eval)

lemma file_members:
  "k_member file_kfields ''f_flags'' = Some (Fld ''f_flags'' c_u32)"
  "k_member file_kfields ''f_path'' = Some (Fld ''f_path'' (16, 8))"
  "k_member file_kfields ''f_inode'' = Some (Fld ''f_inode'' c_ptr)"
  by (simp_all add: file_kfields_def vm_eval)

lemma inode_members:
  "k_member inode_kfields ''i_mode'' = Some (Fld ''i_mode'' c_u16)"
  "k_member inode_kfields ''i_sb'' = Some (Fld ''i_sb'' c_ptr)"
  "k_member inode_kfields ''i_ino'' = Some (Fld ''i_ino'' c_u64)"
  "k_member inode_kfields ''_anon1'' = Some (Fld ''_anon1'' (4, 4))"
  by (simp_all add: inode_kfields_def vm_eval)

lemma sb_members:
  "k_member super_block_kfields ''s_dev'' = Some (Fld ''s_dev'' c_u32)"
  "k_member super_block_kfields ''s_magic'' = Some (Fld ''s_magic'' c_u64)"
  by (simp_all add: super_block_kfields_def vm_eval)

lemmas kernel_members = mm_members file_members inode_members sb_members

lemma task_members:
  "k_member task_struct_kfields ''mm'' = Some (Fld ''mm'' c_ptr)"
  "k_member task_struct_kfields ''pid'' = Some (Fld ''pid'' c_u32)"
  "k_member task_struct_kfields ''tgid'' = Some (Fld ''tgid'' c_u32)"
  "k_member task_struct_kfields ''real_parent'' = Some (Fld ''real_parent'' c_ptr)"
  "k_member task_struct_kfields ''comm'' = Some (Fld ''comm'' (c_arr 16 c_u8))"
  "k_member task_struct_kfields ''files'' = Some (Fld ''files'' c_ptr)"
  "k_member task_struct_kfields ''nsproxy'' = Some (Fld ''nsproxy'' c_ptr)"
  unfolding task_struct_kfields_def k_member_append
  by (simp_all add: task_struct_kfields_a_def task_struct_kfields_b_def task_struct_kfields_c_def
      task_struct_kfields_d_def vm_eval)

text \<open>
  Every member the sensors copy out of a task, memory map, file, inode or super block lies inside
  its struct, and two different members of one struct do not overlap.
\<close>

theorem kernel_reads_in_struct:
  assumes "(ms, f, n) \<in> set kernel_reads"
  shows "k_offsetof ms f + n \<le> fst (k_struct_ty ms) \<and>
         (\<forall>g n'. (ms, g, n') \<in> set kernel_reads \<longrightarrow> g \<noteq> f \<longrightarrow>
            k_offsetof ms f + n \<le> k_offsetof ms g \<or> k_offsetof ms g + n' \<le> k_offsetof ms f)"
proof -
  have fld: "kstruct xs \<and> (\<exists>t. k_member xs h = Some (Fld h t) \<and> fst t = k)"
    if "(xs, h, k) \<in> set kernel_reads" for xs h k
    using that task_layout.kstruct_axioms mm_layout.kstruct_axioms file_layout.kstruct_axioms
      inode_layout.kstruct_axioms sb_layout.kstruct_axioms
    by (auto simp: kernel_reads_def task_members kernel_members c_arr_def c_u8_def c_u16_def c_u32_def
        c_u64_def c_ptr_def)
  from fld [OF assms] obtain t where t: "kstruct ms" "k_member ms f = Some (Fld f t)" "fst t = n" by auto
  have "k_offsetof ms f + n \<le> k_offsetof ms g \<or> k_offsetof ms g + n' \<le> k_offsetof ms f"
    if "(ms, g, n') \<in> set kernel_reads" "g \<noteq> f" for g n'
    using fld [OF that(1)] that(2) t kstruct.members_disjoint [OF t(1,2)] by metis
  then show ?thesis using kstruct.member_in_bounds(1) [OF t(1,2)] t(3) by auto
qed

theorem kernel_reads_in_struct_witness: "k_offsetof task_struct_kfields ''comm'' + 16 \<le> 13696"
  using kernel_reads_in_struct [of task_struct_kfields "''comm''" 16]
  by (simp add: kernel_reads_def task_struct_ty)

end
