(* ===== verification/KG_Sys.thy ===== *)
theory KG_Sys
  imports KG_CoreRead
begin

text \<open>
  \<open>bpf/sensors/sys.h\<close>, \<open>pmu.h\<close> and \<open>iouring.h\<close>: the sensors on ptrace, setuid, module loading, namespace
  changes and cross-process memory access, on mispredicted branches and on io_uring requests. Each
  reserves a sample, fills the common header and a few members, and submits it; a member that is not
  assigned keeps the bytes the ring buffer held.
\<close>

section \<open>Operations\<close>

definition syscall_ptrace_args :: cfields where
  "syscall_ptrace_args =
     [(''common_tp_fields'', c_u64), (''syscall_nr'', c_u32), (''request'', c_u64), (''pid'', c_u64),
      (''addr'', c_ptr), (''data'', c_ptr)]"

definition tp_ptrace :: "kenv \<Rightarrow> region \<Rightarrow> bstate \<Rightarrow> int \<times> bstate" where
  "tp_ptrace E ctx s =
     (0, emit E (\<lambda>m s. ExecEv ((exec_event_at m)\<lparr>ex_hdr := (fill_common E EVT_PTRACE s)
            \<lparr>eh_ret := ucast (u64_at ctx (offsetof syscall_ptrace_args ''request''))\<rparr>\<rparr>)) s)"

definition syscall_setuid_args :: cfields where
  "syscall_setuid_args =
     [(''common_tp_fields'', c_u64), (''syscall_nr'', c_u32), (''__pad'', c_u32), (''uid'', c_u64)]"

definition tp_setuid :: "kenv \<Rightarrow> region \<Rightarrow> bstate \<Rightarrow> int \<times> bstate" where
  "tp_setuid E ctx s =
     (0, emit E (\<lambda>m s. ExecEv ((exec_event_at m)\<lparr>ex_hdr := (fill_common E EVT_SETUID s)
            \<lparr>eh_ret := ucast (u64_at ctx (offsetof syscall_setuid_args ''uid''))\<rparr>\<rparr>)) s)"

definition syscall_init_module_args :: cfields where
  "syscall_init_module_args =
     [(''common_tp_fields'', c_u64), (''syscall_nr'', c_u32), (''umod'', c_ptr), (''len'', c_u64),
      (''uargs'', c_ptr)]"

definition tp_init_module :: "kenv \<Rightarrow> region \<Rightarrow> bstate \<Rightarrow> int \<times> bstate" where
  "tp_init_module E ctx s =
     (0, emit E (\<lambda>m s. ExecEv ((exec_event_at m)\<lparr>ex_hdr := fill_common E EVT_MODULE_LOAD s\<rparr>)) s)"

definition syscall_unshare_args :: cfields where
  "syscall_unshare_args =
     [(''common_tp_fields'', c_u64), (''syscall_nr'', c_u32), (''unshare_flags'', c_u64)]"

definition tp_unshare :: "kenv \<Rightarrow> region \<Rightarrow> bstate \<Rightarrow> int \<times> bstate" where
  "tp_unshare E ctx s =
     (0, emit E (\<lambda>m s. NsChangeEv ((ns_change_event_at m)
            \<lparr>ns_hdr := fill_common E EVT_NS_CHANGE s,
             ns_flags := u64_at ctx (offsetof syscall_unshare_args ''unshare_flags''),
             ns_nstype := 0, ns_op := 1\<rparr>)) s)"

definition syscall_setns_args :: cfields where
  "syscall_setns_args =
     [(''common_tp_fields'', c_u64), (''syscall_nr'', c_u32), (''fd'', c_u32), (''nstype'', c_u32)]"

text \<open>\<open>(__u64)ctx->fd\<close> of an \<open>int\<close> member extends its sign.\<close>

definition tp_setns :: "kenv \<Rightarrow> region \<Rightarrow> bstate \<Rightarrow> int \<times> bstate" where
  "tp_setns E ctx s =
     (0, emit E (\<lambda>m s. NsChangeEv ((ns_change_event_at m)
            \<lparr>ns_hdr := fill_common E EVT_NS_CHANGE s,
             ns_flags := scast (u32_at ctx (offsetof syscall_setns_args ''fd'')),
             ns_nstype := u32_at ctx (offsetof syscall_setns_args ''nstype''), ns_op := 2\<rparr>)) s)"

definition syscall_vm_rw_args :: cfields where
  "syscall_vm_rw_args =
     [(''common_tp_fields'', c_u64), (''syscall_nr'', c_u32), (''__pad'', c_u32), (''pid'', c_u32),
      (''lvec'', c_ptr), (''liovcnt'', c_u64), (''rvec'', c_ptr), (''riovcnt'', c_u64),
      (''flags'', c_u64)]"

text \<open>
  \<open>target_task\<close> is copied from the program's own variable \<open>task\<close>, so it is the current task; the copy from
  the stack cannot fault.
\<close>

definition emit_vm_rw_event :: "kenv \<Rightarrow> region \<Rightarrow> u32 \<Rightarrow> bstate \<Rightarrow> bstate" where
  "emit_vm_rw_event E ctx evt_type s =
     (let caller_pid = ucast (drop_bit 32 (ke_pid_tgid E)) :: u32;
          target_pid = u32_at ctx (offsetof syscall_vm_rw_args ''pid'') in
      if caller_pid = target_pid \<or> target_pid = 0 then s else
      emit E (\<lambda>m s.
        let e = (vm_read_write_event_at m)
              \<lparr>vm_hdr := fill_common E evt_type s, vm_target_pid := target_pid,
               vm_nr_segs := u64_at ctx (offsetof syscall_vm_rw_args ''riovcnt''),
               vm_len := u64_at ctx (offsetof syscall_vm_rw_args ''liovcnt'')\<rparr>;
            target_task = ke_current E in
        VmReadWriteEv
          (if target_task \<noteq> 0
           then e\<lparr>vm_target_comm :=
                    snd (probe_read_str 16 (task_comm_src E target_task) (vm_target_comm e))\<rparr>
           else e)) s)"

definition tp_process_vm_readv :: "kenv \<Rightarrow> region \<Rightarrow> bstate \<Rightarrow> int \<times> bstate" where
  "tp_process_vm_readv E ctx s = (0, emit_vm_rw_event E ctx EVT_PROCESS_VM_READ s)"

definition tp_process_vm_writev :: "kenv \<Rightarrow> region \<Rightarrow> bstate \<Rightarrow> int \<times> bstate" where
  "tp_process_vm_writev E ctx s = (0, emit_vm_rw_event E ctx EVT_PROCESS_VM_WRITE s)"

definition on_branch_mispredict :: "kenv \<Rightarrow> region \<Rightarrow> bstate \<Rightarrow> int \<times> bstate" where
  "on_branch_mispredict E ctx s =
     (0, emit E (\<lambda>m s. PmuEv ((pmu_event_at m)
            \<lparr>pm_hdr := fill_common E EVT_BRANCH_MISPREDICT s,
             pm_mispred_count := u64_at ctx (k_offsetof bpf_perf_event_data_kfields ''sample_period'')\<rparr>)) s)"

definition tp_io_uring_submit_req :: "kenv \<Rightarrow> region \<Rightarrow> bstate \<Rightarrow> int \<times> bstate" where
  "tp_io_uring_submit_req E ctx s =
     (let opcode = ctx (k_offsetof trace_event_raw_io_uring_submit_req_kfields ''opcode'') in
      if opcode = 18 \<or> opcode = 16 \<or> opcode = 28
      then (0, emit E (\<lambda>m s. IouringEv ((iouring_event_at m)
                 \<lparr>io_hdr := fill_common E EVT_IO_URING s, io_opcode := opcode\<rparr>)) s)
      else (0, s))"

section \<open>The contract\<close>

lemma hdr_wf_ret [simp]: "hdr_wf (h\<lparr>eh_ret := r\<rparr>) \<longleftrightarrow> hdr_wf h"
  by (simp add: hdr_wf_def)

lemma view_sizes [simp, kg_len]:
  "length (ex_filename (exec_event_at m)) = 256" "length (ex_args (exec_event_at m)) = 256"
  "length (vm_target_comm (vm_read_write_event_at m)) = 16" "length (io_filename (iouring_event_at m)) = 256"
  by (simp_all add: exec_event_at_def vm_read_write_event_at_def iouring_event_at_def Let_def)

lemma emit_vm_rw_event_step:
  assumes "t \<in> {EVT_PROCESS_VM_READ, EVT_PROCESS_VM_WRITE}"
  shows "kg_step s (emit_vm_rw_event E ctx t s)"
proof -
  have "length (snd (probe_read_str 16 src (vm_target_comm (vm_read_write_event_at m)))) = 16" for src m
    by (rule probe_read_str_length) simp_all
  then show ?thesis
    unfolding emit_vm_rw_event_def Let_def
    using assms by (auto intro!: emit_step simp: event_wf_def)
qed

interpretation ptrace: sensor tp_ptrace
  by unfold_locales (simp_all add: tp_ptrace_def emit_step event_wf_def)

interpretation setuid: sensor tp_setuid
  by unfold_locales (simp_all add: tp_setuid_def emit_step event_wf_def)

interpretation init_module: sensor tp_init_module
  by unfold_locales (simp_all add: tp_init_module_def emit_step event_wf_def)

interpretation unshare: sensor tp_unshare
  by unfold_locales (simp_all add: tp_unshare_def emit_step event_wf_def)

interpretation setns: sensor tp_setns
  by unfold_locales (simp_all add: tp_setns_def emit_step event_wf_def)

interpretation process_vm_readv: sensor tp_process_vm_readv
  by unfold_locales (simp_all add: tp_process_vm_readv_def emit_vm_rw_event_step)

interpretation process_vm_writev: sensor tp_process_vm_writev
  by unfold_locales (simp_all add: tp_process_vm_writev_def emit_vm_rw_event_step)

interpretation branch_mispredict: sensor on_branch_mispredict
  by unfold_locales (simp_all add: on_branch_mispredict_def emit_step event_wf_def)

interpretation io_uring_submit_req: sensor tp_io_uring_submit_req
  by unfold_locales (simp_all add: tp_io_uring_submit_req_def Let_def emit_step event_wf_def)

section \<open>What the sensors report\<close>

lemma syscall_sys_layouts [simp]:
  "offsetof syscall_ptrace_args ''request'' = 16" "offsetof syscall_setuid_args ''uid'' = 16"
  "offsetof syscall_unshare_args ''unshare_flags'' = 16" "offsetof syscall_setns_args ''fd'' = 12"
  "offsetof syscall_setns_args ''nstype'' = 16" "offsetof syscall_vm_rw_args ''pid'' = 16"
  "offsetof syscall_vm_rw_args ''liovcnt'' = 32" "offsetof syscall_vm_rw_args ''riovcnt'' = 48"
  by code_simp+

text \<open>
  The simple sensors report the value they watch: the sample of a ptrace call carries its request,
  that of setuid the requested user id, that of unshare the namespaces left, each being the first
  argument of the system call; one sample per call, from the calling process.
\<close>

theorem watched_value_reported:
  assumes "ke_rb E (rb_seq s) \<noteq> None"
  shows "(\<exists>e. rb (snd (tp_ptrace E ctx s)) = rb s @ [ExecEv e] \<and> eh_event_type (ex_hdr e) = EVT_PTRACE \<and>
              eh_ret (ex_hdr e) = ucast (sys_enter_arg ctx 0) \<and> eh_pid (ex_hdr e) = current_tgid E) \<and>
         (\<exists>e. rb (snd (tp_setuid E ctx s)) = rb s @ [ExecEv e] \<and> eh_event_type (ex_hdr e) = EVT_SETUID \<and>
              eh_ret (ex_hdr e) = ucast (sys_enter_arg ctx 0) \<and> eh_pid (ex_hdr e) = current_tgid E) \<and>
         (\<exists>e. rb (snd (tp_unshare E ctx s)) = rb s @ [NsChangeEv e] \<and> eh_event_type (ns_hdr e) = EVT_NS_CHANGE \<and>
              ns_flags e = sys_enter_arg ctx 0 \<and> ns_op e = 1 \<and> eh_pid (ns_hdr e) = current_tgid E)"
  using assms
  by (auto simp: tp_ptrace_def tp_setuid_def tp_unshare_def emit_rb sys_enter_arg_at)

theorem watched_value_reported_witness:
  "\<exists>e. rb (snd (tp_setuid kenv_quiet (\<lambda>i. if i = 16 then 5 else 0) (bstate_init policy_off))) = [ExecEv e] \<and>
       eh_ret (ex_hdr e) = 5"
proof -
  have "sys_enter_arg (\<lambda>i. if i = 16 then 5 else 0) 0 = 5"
    by (simp add: sys_enter_arg_at u64_at_def arr_at_def upt_conv_Cons)
  then show ?thesis
    using watched_value_reported [of kenv_quiet "bstate_init policy_off" "\<lambda>i. if i = 16 then 5 else 0"]
    by (auto simp: kenv_quiet_def)
qed

text \<open>
  \<open>struct syscall_setns_args\<close> puts \<open>fd\<close> right behind the system call number instead of at the first
  argument slot. The sensor therefore reports the upper half of the system call number as flags,
  independently of the call's arguments, and the descriptor as the namespace type; the requested
  namespace type is not reported.
\<close>

theorem tp_setns_misreads:
  assumes "ke_rb E (rb_seq s) \<noteq> None"
  shows "\<exists>e. rb (snd (tp_setns E ctx s)) = rb s @ [NsChangeEv e] \<and>
           ns_nstype e = ucast (sys_enter_arg ctx 0) \<and> ns_flags e = scast (u32_at ctx 12) \<and>
           ns_op e = 2"
  using assms by (auto simp: tp_setns_def emit_rb sys_enter_arg_at u32_at_low)

theorem tp_setns_misreads_witness:
  "\<exists>e. rb (snd (tp_setns kenv_quiet (\<lambda>i. if i = 16 then 3 else 0) (bstate_init policy_off))) = [NsChangeEv e] \<and>
       ns_nstype e = 3 \<and> ns_flags e = 0"
proof -
  let ?c = "\<lambda>i :: nat. if i = 16 then 3 else 0 :: u8"
  have "sys_enter_arg ?c 0 = 3" "u32_at ?c 12 = 0"
    by (simp_all add: sys_enter_arg_at u64_at_def u32_at_def arr_at_def upt_conv_Cons)
  then show ?thesis
    using tp_setns_misreads [of kenv_quiet "bstate_init policy_off" ?c] by (auto simp: kenv_quiet_def)
qed

text \<open>
  Reading or writing another process's memory is reported with its pid and the number of segments;
  access to one's own memory, or pid 0, is not. The reported target name, however, is the name of
  the caller: both name members of the sample hold the same string.
\<close>

theorem vm_rw_reports_caller_name:
  assumes "ke_rb E (rb_seq s) = Some m" "ke_current E \<noteq> 0" "ke_tasks E (ke_current E) = Some t"
    and "length (ts_comm t) = 16" "length (cstr (ts_comm t)) < 16"
    and "(run, code) \<in> {(tp_process_vm_readv, EVT_PROCESS_VM_READ), (tp_process_vm_writev, EVT_PROCESS_VM_WRITE)}"
    and "target = ucast (sys_enter_arg ctx 0)"
  shows "if target = 0 \<or> target = current_tgid E then run E ctx s = (0, s)
         else \<exists>e. rb (snd (run E ctx s)) = rb s @ [VmReadWriteEv e] \<and> eh_event_type (vm_hdr e) = code \<and>
                vm_target_pid e = target \<and> vm_nr_segs e = sys_enter_arg ctx 4 \<and>
                cstr (vm_target_comm e) = cstr (ts_comm t) \<and> cstr (eh_comm (vm_hdr e)) = cstr (ts_comm t)"
proof -
  have n: "0 \<notin> set (cstr (ts_comm t))" by (rule cstr_no_nul)
  have c1: "cstr (current_comm E 16) = cstr (ts_comm t)"
    using assms(3,5) n by (simp add: current_comm_def cstr_pad0)
  have "scan_str 16 (src_buf (ts_comm t)) 0 = Some (cstr (ts_comm t) @ [0])"
    using scan_str_buf [of 0 16 "ts_comm t"] assms(4,5) by simp
  then have c2: "cstr (snd (probe_read_str 16 (task_comm_src E (ke_current E)) d)) = cstr (ts_comm t)" for d
    using assms(2,3) n by (simp add: task_comm_src_def probe_read_str_def cstr_append_nul)
  show ?thesis
    using assms(1,2,6,7) c1 c2
    by (auto simp: tp_process_vm_readv_def tp_process_vm_writev_def emit_vm_rw_event_def Let_def emit_rb
        current_tgid_def sys_enter_arg_at u32_at_low)
qed

theorem vm_rw_reports_caller_name_witness:
  "\<exists>e. rb (snd (tp_process_vm_readv kenv_args (\<lambda>i. if i = 16 then 9 else 0) (bstate_init policy_off))) =
         [VmReadWriteEv e] \<and> vm_target_pid e = 9 \<and> cstr (vm_target_comm e) = str ''nc''"
proof -
  let ?c = "\<lambda>i :: nat. if i = 16 then 9 else 0 :: u8"
  let ?t = "\<lparr>ts_pid = 42, ts_tgid = 42, ts_real_parent = 0, ts_mm = 0x2000, ts_files = 0, ts_nsproxy = 0,
             ts_comm = pad0 16 (str ''nc'')\<rparr>"
  have a: "(9 :: u32) = ucast (sys_enter_arg ?c 0)"
    by (simp add: sys_enter_arg_at u64_at_def arr_at_def upt_conv_Cons)
  have c: "cstr (pad0 16 (str ''nc'')) = str ''nc''" by (simp add: cstr_pad0 str_def)
  have p: "ke_rb kenv_args (rb_seq (bstate_init policy_off)) = Some (\<lambda>_. 0)" "ke_current kenv_args \<noteq> 0"
    "ke_tasks kenv_args (ke_current kenv_args) = Some ?t" "length (ts_comm ?t) = 16"
    "length (cstr (ts_comm ?t)) < 16" "current_tgid kenv_args \<noteq> 9"
    using c by (simp_all add: kenv_args_def kenv_quiet_def current_tgid_def str_def)
  have r: "(tp_process_vm_readv, EVT_PROCESS_VM_READ) \<in>
      {(tp_process_vm_readv, EVT_PROCESS_VM_READ), (tp_process_vm_writev, EVT_PROCESS_VM_WRITE)}" by simp
  show ?thesis using vm_rw_reports_caller_name [OF p(1-5) r a] p(6) c by auto
qed

text \<open>
  An io_uring request is reported exactly for the opcodes 16, 18 and 28, and the \<open>filename\<close> of its
  sample is never written: it carries the bytes of an earlier user of the ring buffer.
\<close>

theorem io_uring_filename_stale:
  assumes "ke_rb E (rb_seq s) = Some m" "opcode = ctx 32"
  shows "if opcode \<in> {16, 18, 28}
         then \<exists>e. rb (snd (tp_io_uring_submit_req E ctx s)) = rb s @ [IouringEv e] \<and> io_opcode e = opcode \<and>
                io_filename e = arr_at m 353 256
         else tp_io_uring_submit_req E ctx s = (0, s)"
proof -
  have o: "k_offsetof trace_event_raw_io_uring_submit_req_kfields ''opcode'' = 32"
    by (simp add: k_offsetof_def trace_event_raw_io_uring_submit_req_kfields_def vm_eval)
  have f: "offsetof iouring_event_fields ''filename'' = 353"
    by (simp add: iouring_event_fields_def hdr_ty_eval layout_defs)
  show ?thesis
    using assms f by (auto simp: tp_io_uring_submit_req_def o emit_rb iouring_event_at_def Let_def)
qed

theorem io_uring_filename_stale_witness:
  "\<exists>e. rb (snd (tp_io_uring_submit_req (kenv_quiet\<lparr>ke_rb := \<lambda>_. Some (\<lambda>_. 7)\<rparr>) (\<lambda>_. 18)
         (bstate_init policy_off))) = [IouringEv e] \<and> io_filename e = replicate 256 7"
proof -
  have "arr_at (\<lambda>_. 7 :: u8) 353 256 = replicate 256 7" by (simp add: arr_at_def map_replicate_const)
  then show ?thesis
    using io_uring_filename_stale [of "kenv_quiet\<lparr>ke_rb := \<lambda>_. Some (\<lambda>_. 7)\<rparr>" "bstate_init policy_off"
        "\<lambda>_. 7" 18 "\<lambda>_. 18"] by auto
qed

section \<open>The declared tracepoint records\<close>

text \<open>
  The members the sensors read through their own declarations: struct, member, width in bytes, index of
  the system call argument meant.
\<close>

definition tracepoint_reads :: "(cfields \<times> string \<times> nat \<times> nat) list" where
  "tracepoint_reads =
     [(syscall_openat_args, ''filename'', 8, 1), (syscall_openat_args, ''flags'', 4, 2),
      (syscall_openat2_args, ''filename'', 8, 1), (syscall_openat2_args, ''how'', 8, 2),
      (syscall_memfd_create_args, ''uname'', 8, 0), (syscall_connect_args, ''uservaddr'', 8, 1),
      (syscall_sendto_args, ''addr'', 8, 4), (syscall_sendto_args, ''addr_len'', 8, 5),
      (syscall_sendmsg_args, ''msg'', 8, 1), (syscall_sendmmsg_args, ''mmsg'', 8, 1),
      (syscall_sendmmsg_args, ''vlen'', 4, 2), (syscall_dup2_args, ''oldfd'', 8, 0),
      (syscall_dup2_args, ''newfd'', 8, 1), (syscall_dup3_args, ''oldfd'', 8, 0),
      (syscall_dup3_args, ''newfd'', 8, 1), (syscall_ptrace_args, ''request'', 8, 0),
      (syscall_setuid_args, ''uid'', 8, 0), (syscall_unshare_args, ''unshare_flags'', 8, 0),
      (syscall_vm_rw_args, ''pid'', 4, 0), (syscall_vm_rw_args, ''liovcnt'', 8, 2),
      (syscall_vm_rw_args, ''riovcnt'', 8, 4)]"

text \<open>
  Every struct the sensors declare for a system call, \<open>setns\<close> excepted, agrees with the record the
  kernel writes: each member they read is the system call argument meant, whole or its low 32 bits.
\<close>

theorem tracepoint_reads_arguments:
  assumes "(fs, f, w, i) \<in> set tracepoint_reads"
  shows "offsetof fs f = k_offsetof trace_event_raw_sys_enter_kfields ''args'' + 8 * i \<and> i < 6 \<and>
         (if w = 8 then u64_at ctx (offsetof fs f) = sys_enter_arg ctx i
          else w = 4 \<and> u32_at ctx (offsetof fs f) = ucast (sys_enter_arg ctx i))"
proof -
  have a: "k_offsetof trace_event_raw_sys_enter_kfields ''args'' = 16"
    by (simp add: k_offsetof_def trace_event_raw_sys_enter_kfields_def vm_eval)
  have "list_all (\<lambda>(fs, f, w, i). offsetof fs f = 16 + 8 * i \<and> i < 6 \<and> (w = 8 \<or> w = 4)) tracepoint_reads"
    by code_simp
  then have "offsetof fs f = 16 + 8 * i \<and> i < 6 \<and> (w = 8 \<or> w = 4)" using assms by (auto simp: list_all_iff)
  then show ?thesis using a by (auto simp: sys_enter_arg_at u32_at_low)
qed

theorem tracepoint_reads_arguments_witness:
  "u64_at ctx_exec (offsetof syscall_sendto_args ''addr'') = sys_enter_arg ctx_exec 4"
  using tracepoint_reads_arguments [of syscall_sendto_args "''addr''" 8 4 ctx_exec]
  by (simp add: tracepoint_reads_def)

end
