(* ===== verification/KG_SelfProtect.thy ===== *)
theory KG_SelfProtect
  imports KG_Sys
begin

text \<open>
  \<open>bpf/sensors/selfprotect.h\<close>: the LSM hooks that protect the agent itself, its process against signals
  and its BPF objects against commands of other processes, and report programs loaded by others. The
  arguments of a bpf command are a \<open>union bpf_attr\<close> in kernel memory.
\<close>

section \<open>Operations\<close>

definition enum_val :: "cenum \<Rightarrow> string \<Rightarrow> u32" where
  "enum_val e x = (case map_of e x of None \<Rightarrow> 0 | Some n \<Rightarrow> of_nat n)"

abbreviation BPF_PROG_LOAD :: u32 where "BPF_PROG_LOAD \<equiv> enum_val bpf_cmd ''BPF_PROG_LOAD''"
abbreviation BPF_LINK_DETACH :: u32 where "BPF_LINK_DETACH \<equiv> enum_val bpf_cmd ''BPF_LINK_DETACH''"
abbreviation BPF_MAP_GET_FD_BY_ID :: u32 where
  "BPF_MAP_GET_FD_BY_ID \<equiv> enum_val bpf_cmd ''BPF_MAP_GET_FD_BY_ID''"
abbreviation BPF_LINK_GET_FD_BY_ID :: u32 where
  "BPF_LINK_GET_FD_BY_ID \<equiv> enum_val bpf_cmd ''BPF_LINK_GET_FD_BY_ID''"
abbreviation BPF_PROG_GET_FD_BY_ID :: u32 where
  "BPF_PROG_GET_FD_BY_ID \<equiv> enum_val bpf_cmd ''BPF_PROG_GET_FD_BY_ID''"

text \<open>The context is the target task, the signal information, the signal and the credentials.\<close>

definition lsm_task_kill :: "kenv \<Rightarrow> ptr \<times> ptr \<times> u32 \<times> ptr \<Rightarrow> bstate \<Rightarrow> int \<times> bstate" where
  "lsm_task_kill E c s =
     (if self_pid (pol s) = 0 then (0, s) else
      let target = core_read (ke_tasks E) (fst c) ts_tgid in
      if target \<noteq> self_pid (pol s) then (0, s) else
      let caller = ucast (drop_bit 32 (ke_pid_tgid E)) :: u32 in
      if caller = target \<or> caller = 1 then (0, s) else (-1, s))"

text \<open>
  The members of \<open>union bpf_attr\<close>: every struct of the union starts at 0, and the identifiers share a
  union inside one of them.
\<close>

definition attr_prog_load_off :: "string \<Rightarrow> nat" where
  "attr_prog_load_off f = k_union_offsetof bpf_attr_kfields ''_anon3'' + k_offsetof bpf_attr_prog_load_kfields f"

definition attr_id_off :: "string \<Rightarrow> nat" where
  "attr_id_off f =
     k_union_offsetof bpf_attr_kfields ''_anon6'' + k_offsetof bpf_attr_get_id_kfields ''_anon1'' +
     k_union_offsetof bpf_attr_id_kfields f"

definition lsm_bpf_cmd :: "kenv \<Rightarrow> u32 \<times> ptr \<times> u32 \<Rightarrow> bstate \<Rightarrow> int \<times> bstate" where
  "lsm_bpf_cmd E c s =
     (let (cmd, attr, sz) = c;
          caller_pid = ucast (drop_bit 32 (ke_pid_tgid E)) :: u32;
          s = (if cmd = BPF_PROG_LOAD \<and> self_pid (pol s) \<noteq> 0 \<and>
                  caller_pid \<noteq> self_pid (pol s) \<and> caller_pid \<noteq> 1
               then emit E (\<lambda>m s.
                      let e = bpf_prog_load_event_at m in
                      BpfProgLoadEv (e
                        \<lparr>bl_hdr := fill_common E EVT_BPF_PROG_LOAD s,
                         bl_prog_type := kread_u32 (ke_kmem E) attr (attr_prog_load_off ''prog_type''),
                         bl_attach_type :=
                           kread_u32 (ke_kmem E) attr (attr_prog_load_off ''expected_attach_type''),
                         bl_prog_name :=
                           snd (probe_read_str 16
                             (src_mem (ke_kmem E) (attr + of_nat (attr_prog_load_off ''prog_name'')))
                             (bl_prog_name e))\<rparr>)) s
               else s) in
      if cmd \<notin> {BPF_LINK_DETACH, BPF_MAP_GET_FD_BY_ID, BPF_LINK_GET_FD_BY_ID, BPF_PROG_GET_FD_BY_ID}
      then (0, s) else
      if self_pid (pol s) = 0 then (0, s) else
      if caller_pid = self_pid (pol s) \<or> caller_pid = 1 then (0, s) else
      let target_id =
            (if cmd = BPF_MAP_GET_FD_BY_ID then kread_u32 (ke_kmem E) attr (attr_id_off ''map_id'')
             else if cmd = BPF_PROG_GET_FD_BY_ID then kread_u32 (ke_kmem E) attr (attr_id_off ''prog_id'')
             else if cmd = BPF_LINK_GET_FD_BY_ID \<or> cmd = BPF_LINK_DETACH
                  then kread_u32 (ke_kmem E) attr (attr_id_off ''link_id'')
             else 0) in
      if protected_ids (pol s) target_id = Some 1 then (-1, s) else (0, s))"

section \<open>The contract\<close>

lemma bpf_cmd_values [simp]:
  "BPF_PROG_LOAD = 5" "BPF_LINK_DETACH = 34" "BPF_MAP_GET_FD_BY_ID = 14" "BPF_LINK_GET_FD_BY_ID = 30"
  "BPF_PROG_GET_FD_BY_ID = 13"
  by (simp_all add: enum_val_def bpf_cmd_def)

lemma attr_offsets [simp]:
  "attr_prog_load_off ''prog_type'' = 0" "attr_prog_load_off ''expected_attach_type'' = 68"
  "attr_prog_load_off ''prog_name'' = 48" "attr_id_off f = 0"
  by (simp_all add: attr_prog_load_off_def attr_id_off_def k_offsetof_def k_union_offsetof_def bpf_attr_prog_load_kfields_def
      bpf_attr_get_id_kfields_def vm_eval)

lemma prog_load_event_wf:
  "bstate_wf s \<Longrightarrow> event_wf (BpfProgLoadEv ((bpf_prog_load_event_at m)
     \<lparr>bl_hdr := fill_common E EVT_BPF_PROG_LOAD s, bl_prog_type := a, bl_attach_type := b,
      bl_prog_name := snd (probe_read_str 16 src (bl_prog_name (bpf_prog_load_event_at m)))\<rparr>))"
proof -
  have "length (bl_prog_name (bpf_prog_load_event_at m)) = 16"
    by (simp add: bpf_prog_load_event_at_def Let_def)
  then have "length (snd (probe_read_str 16 src (bl_prog_name (bpf_prog_load_event_at m)))) = 16"
    by (rule probe_read_str_length) simp
  then show "bstate_wf s \<Longrightarrow> ?thesis" by (simp add: event_wf_def)
qed

interpretation task_kill: lsm_hook lsm_task_kill
  by unfold_locales (simp_all add: lsm_task_kill_def Let_def)

interpretation bpf_cmd: lsm_hook lsm_bpf_cmd
  by unfold_locales
    (auto simp: lsm_bpf_cmd_def Let_def case_prod_unfold prog_load_event_wf intro!: emit_step)

section \<open>Self-protection\<close>

text \<open>
  Once the agent has registered its pid, a signal to any of its threads is denied exactly when the
  sender is neither the agent itself nor init; signals to other processes are never affected. The
  hook changes no state.
\<close>

theorem lsm_task_kill_verdict:
  "lsm_task_kill E (p, info, sig, cr) s =
     (if self_pid (pol s) \<noteq> 0 \<and> core_read (ke_tasks E) p ts_tgid = self_pid (pol s) \<and>
         current_tgid E \<notin> {self_pid (pol s), 1}
      then -1 else 0, s)"
  by (auto simp: lsm_task_kill_def Let_def current_tgid_def)

text \<open>
  A bpf command of another process is denied exactly when it asks for a descriptor of a map, program
  or link by identifier, or detaches a link, and the first word of its arguments is a protected
  identifier; the agent itself and init are exempt, and nothing is denied before the agent has
  registered.
\<close>

theorem lsm_bpf_cmd_verdict:
  "fst (lsm_bpf_cmd E (cmd, attr, sz) s) =
     (if cmd \<in> {BPF_MAP_GET_FD_BY_ID, BPF_PROG_GET_FD_BY_ID, BPF_LINK_GET_FD_BY_ID, BPF_LINK_DETACH} \<and>
         self_pid (pol s) \<noteq> 0 \<and> current_tgid E \<notin> {self_pid (pol s), 1} \<and>
         protected_ids (pol s) (kread_u32 (ke_kmem E) attr 0) = Some 1
      then -1 else 0)"
  by (auto simp: lsm_bpf_cmd_def Let_def current_tgid_def)

text \<open>
  The word compared for a detach is not the identifier of a link. In the arguments of
  \<open>BPF_LINK_DETACH\<close> that word is \<open>link_fd\<close>, a descriptor of the calling process, and the identifiers of
  maps, programs and links occupy the same word; so a detach is denied exactly when the caller's
  descriptor number happens to be a protected identifier.
\<close>

theorem link_detach_compares_descriptor:
  assumes "self_pid (pol s) \<noteq> 0" "current_tgid E \<notin> {self_pid (pol s), 1}"
    and "link_fd = kread_u32 (ke_kmem E) attr (k_offsetof bpf_attr_link_detach_kfields ''link_fd'')"
  shows "fst (lsm_bpf_cmd E (BPF_LINK_DETACH, attr, sz) s) =
           (if protected_ids (pol s) link_fd = Some 1 then -1 else 0)"
proof -
  have "k_offsetof bpf_attr_link_detach_kfields ''link_fd'' = 0"
    by (simp add: k_offsetof_def bpf_attr_link_detach_kfields_def vm_eval)
  then show ?thesis using assms by (auto simp: lsm_bpf_cmd_def Let_def current_tgid_def)
qed

theorem link_detach_compares_descriptor_witness:
  "fst (lsm_bpf_cmd (kenv_quiet\<lparr>ke_kmem := mem_of 0x100 [3, 0, 0, 0]\<rparr>) (BPF_LINK_DETACH, 0x100, 4)
     (bstate_init (policy_off\<lparr>self_pid := 9, protected_ids := [3 \<mapsto> 1]\<rparr>))) = -1"
proof -
  let ?E = "kenv_quiet\<lparr>ke_kmem := mem_of 0x100 [3, 0, 0, 0]\<rparr>"
  have o: "k_offsetof bpf_attr_link_detach_kfields ''link_fd'' = 0"
    by (simp add: k_offsetof_def bpf_attr_link_detach_kfields_def vm_eval)
  have f: "3 = kread_u32 (ke_kmem ?E) 0x100 (k_offsetof bpf_attr_link_detach_kfields ''link_fd'')"
    using read_bytes_mem_of [of 0 4 "[3, 0, 0, 0]" "0x100"]
    by (simp add: o kread_u32_def probe_read_def u32_at_def arr_at_region_of)
  have "current_tgid ?E = 42" by (simp add: current_tgid_def kenv_quiet_def)
  then show ?thesis
    using link_detach_compares_descriptor [OF _ _ f, of
        "bstate_init (policy_off\<lparr>self_pid := 9, protected_ids := [3 \<mapsto> 1]\<rparr>)" 4] by simp
qed

text \<open>
  Every program loaded by another process while the agent runs is reported, with its type, attach
  type and name as passed in the command's arguments, and the load is allowed.
\<close>

theorem prog_load_reported:
  assumes "self_pid (pol s) \<noteq> 0" "current_tgid E \<notin> {self_pid (pol s), 1}" "ke_rb E (rb_seq s) \<noteq> None"
    and "\<forall>i<length x. ke_kmem E (attr + 48 + of_nat i) = Some (x ! i)"
    and "ke_kmem E (attr + 48 + of_nat (length x)) = Some 0" "0 \<notin> set x" "length x < 16"
  shows "\<exists>e s'. lsm_bpf_cmd E (BPF_PROG_LOAD, attr, sz) s = (0, s') \<and> rb s' = rb s @ [BpfProgLoadEv e] \<and>
           eh_event_type (bl_hdr e) = EVT_BPF_PROG_LOAD \<and> cstr (bl_prog_name e) = x \<and>
           bl_prog_type e = kread_u32 (ke_kmem E) attr 0 \<and> bl_attach_type e = kread_u32 (ke_kmem E) attr 68"
proof -
  have "scan_str 16 (src_mem (ke_kmem E) (attr + 48)) 0 = Some (x @ [0])"
    using scan_str_at [of x "src_mem (ke_kmem E) (attr + 48)" 0 16] assms(4-7) by (simp add: src_mem_def)
  then have "cstr (snd (probe_read_str 16 (src_mem (ke_kmem E) (attr + 48)) d)) = x" for d
    using assms(6) by (simp add: probe_read_str_def cstr_append_nul)
  then show ?thesis
    using assms(1-3) by (auto simp: lsm_bpf_cmd_def Let_def current_tgid_def emit_rb)
qed

theorem prog_load_reported_witness:
  "\<exists>e s'. lsm_bpf_cmd (kenv_quiet\<lparr>ke_kmem := mem_of 0x100 (zeros 48 @ str ''x'' @ zeros 90)\<rparr>) (BPF_PROG_LOAD, 0x100, 144)
     (bstate_init (policy_off\<lparr>self_pid := 9\<rparr>)) = (0, s') \<and> rb s' = [BpfProgLoadEv e] \<and>
     cstr (bl_prog_name e) = str ''x''"
proof -
  let ?E = "kenv_quiet\<lparr>ke_kmem := mem_of 0x100 (zeros 48 @ str ''x'' @ zeros 90)\<rparr>"
  have "current_tgid ?E = 42" by (simp add: current_tgid_def kenv_quiet_def)
  moreover have "\<forall>i<length (str ''x''). ke_kmem ?E (0x100 + 48 + of_nat i) = Some (str ''x'' ! i)"
    "ke_kmem ?E (0x100 + 48 + of_nat (length (str ''x''))) = Some 0" "ke_rb ?E 0 \<noteq> None"
    by (simp_all add: mem_of_def str_def nth_append kenv_quiet_def)
  moreover have "0 \<notin> set (str ''x'')" "length (str ''x'') < 16" by (simp_all add: str_def)
  ultimately show ?thesis
    using prog_load_reported [of "bstate_init (policy_off\<lparr>self_pid := 9\<rparr>)" ?E "str ''x''" "0x100" 144]
    by auto
qed

end
