(* ===== verification/KG_System.thy ===== *)
theory KG_System
  imports KG_SelfProtect
begin

text \<open>
  \<open>bpf/kguard.c\<close>: the object as a whole. All programs share the maps, each invocation runs to completion
  with its own kernel inputs, and between two invocations user space may replace the policy and a
  task may exit, which frees its storage. The state machine of these steps and its invariants close
  the development.
\<close>

section \<open>Programs\<close>

datatype hook =
    TpExecve region
  | TpSchedfork region
  | TpSchedexec region
  | BprmCheck ptr
  | PtraceAccessCheck "ptr \<times> u32"
  | KernelReadFile "ptr \<times> u32 \<times> bool"
  | KernelLoadData "u32 \<times> bool"
  | TaskFixSetuid "ptr \<times> ptr \<times> u32"
  | TaskAlloc "ptr \<times> u64"
  | MmapFile "ptr \<times> u64 \<times> u64 \<times> u64"
  | FileMprotect "ptr \<times> u64 \<times> u64"
  | Capable "ptr \<times> ptr \<times> u32 \<times> u32"
  | TpConnect region
  | TpSendto region
  | TcEgressDns skb
  | TcIngressDns skb
  | TpDup2 region
  | TpDup3 region
  | TpSendmsg region
  | TpSendmmsg region
  | TpOpenat region
  | TpOpenat2 region
  | TpMemfdCreate region
  | FileOpen ptr
  | TpPtrace region
  | TpSetuid region
  | TpInitModule region
  | TpUnshare region
  | TpSetns region
  | TpProcessVmReadv region
  | TpProcessVmWritev region
  | TpIoUringSubmitReq region
  | TaskKill "ptr \<times> ptr \<times> u32 \<times> ptr"
  | BpfCmd "u32 \<times> ptr \<times> u32"
  | OnBranchMispredict region

fun run_hook :: "hook \<Rightarrow> kenv \<Rightarrow> bstate \<Rightarrow> int \<times> bstate" where
  "run_hook (TpExecve c) E s = tp_execve E c s"
| "run_hook (TpSchedfork c) E s = tp_schedfork E c s"
| "run_hook (TpSchedexec c) E s = tp_schedexec E c s"
| "run_hook (BprmCheck c) E s = lsm_bprm_check E c s"
| "run_hook (PtraceAccessCheck c) E s = lsm_ptrace_access_check E c s"
| "run_hook (KernelReadFile c) E s = kguard_kernel_read_file E c s"
| "run_hook (KernelLoadData c) E s = kguard_kernel_load_data E c s"
| "run_hook (TaskFixSetuid c) E s = kguard_task_fix_setuid E c s"
| "run_hook (TaskAlloc c) E s = kguard_task_alloc E c s"
| "run_hook (MmapFile c) E s = lsm_mmap_file E c s"
| "run_hook (FileMprotect c) E s = lsm_file_mprotect E c s"
| "run_hook (Capable c) E s = kguard_capable E c s"
| "run_hook (TpConnect c) E s = tp_connect E c s"
| "run_hook (TpSendto c) E s = tp_sendto E c s"
| "run_hook (TcEgressDns c) E s = tc_egress E c s"
| "run_hook (TcIngressDns c) E s = tc_ingress E c s"
| "run_hook (TpDup2 c) E s = tp_dup2 E c s"
| "run_hook (TpDup3 c) E s = tp_dup3 E c s"
| "run_hook (TpSendmsg c) E s = tp_sendmsg E c s"
| "run_hook (TpSendmmsg c) E s = tp_sendmmsg E c s"
| "run_hook (TpOpenat c) E s = tp_openat E c s"
| "run_hook (TpOpenat2 c) E s = tp_openat2 E c s"
| "run_hook (TpMemfdCreate c) E s = tp_memfd_create E c s"
| "run_hook (FileOpen c) E s = lsm_file_open E c s"
| "run_hook (TpPtrace c) E s = tp_ptrace E c s"
| "run_hook (TpSetuid c) E s = tp_setuid E c s"
| "run_hook (TpInitModule c) E s = tp_init_module E c s"
| "run_hook (TpUnshare c) E s = tp_unshare E c s"
| "run_hook (TpSetns c) E s = tp_setns E c s"
| "run_hook (TpProcessVmReadv c) E s = tp_process_vm_readv E c s"
| "run_hook (TpProcessVmWritev c) E s = tp_process_vm_writev E c s"
| "run_hook (TpIoUringSubmitReq c) E s = tp_io_uring_submit_req E c s"
| "run_hook (TaskKill c) E s = lsm_task_kill E c s"
| "run_hook (BpfCmd c) E s = lsm_bpf_cmd E c s"
| "run_hook (OnBranchMispredict c) E s = on_branch_mispredict E c s"

text \<open>The hooks that may deny.\<close>

fun preventive :: "hook \<Rightarrow> bool" where
  "preventive (BprmCheck c) = True"
| "preventive (PtraceAccessCheck c) = True"
| "preventive (KernelReadFile c) = True"
| "preventive (KernelLoadData c) = True"
| "preventive (TaskFixSetuid c) = True"
| "preventive (FileOpen c) = True"
| "preventive (TaskKill c) = True"
| "preventive (BpfCmd c) = True"
| "preventive _ = False"

lemmas program_steps =
  execve.step schedfork.step schedexec.step bprm_check.step ptrace_access_check.step
  kernel_read_file.step kernel_load_data.step task_fix_setuid.step task_alloc.step mmap_file.step
  file_mprotect.step capable.step connect.step sendto.step egress_dns.step ingress_dns.step dup2.step
  dup3.step sendmsg.step sendmmsg.step openat.step openat2.step memfd_create.step file_open.step
  ptrace.step setuid.step init_module.step unshare.step setns.step process_vm_readv.step
  process_vm_writev.step io_uring_submit_req.step task_kill.step bpf_cmd.step branch_mispredict.step

lemmas sensor_returns =
  execve.returns_0 schedfork.returns_0 schedexec.returns_0 task_alloc.returns_0 mmap_file.returns_0
  file_mprotect.returns_0 capable.returns_0 connect.returns_0 sendto.returns_0 egress_dns.returns_0
  ingress_dns.returns_0 dup2.returns_0 dup3.returns_0 sendmsg.returns_0 sendmmsg.returns_0
  openat.returns_0 openat2.returns_0 memfd_create.returns_0 ptrace.returns_0 setuid.returns_0
  init_module.returns_0 unshare.returns_0 setns.returns_0 process_vm_readv.returns_0
  process_vm_writev.returns_0 io_uring_submit_req.returns_0 branch_mispredict.returns_0

lemmas hook_verdicts =
  bprm_check.verdict ptrace_access_check.verdict kernel_read_file.verdict kernel_load_data.verdict
  task_fix_setuid.verdict file_open.verdict task_kill.verdict bpf_cmd.verdict

lemma run_hook_step: "kenv_ok E \<Longrightarrow> kg_step s (snd (run_hook h E s))"
  by (cases h) (simp_all add: program_steps)

interpretation object: lsm_hook "\<lambda>E h s. run_hook h E s"
proof
  fix E s h
  show "kenv_ok E \<Longrightarrow> kg_step s (snd (run_hook h E s))" by (rule run_hook_step)
  show "fst (run_hook h E s) = 0 \<or> fst (run_hook h E s) = -1"
    by (cases h) (simp_all only: run_hook.simps sensor_returns hook_verdicts simp_thms)
qed

section \<open>The state machine\<close>

inductive kstep :: "bstate \<Rightarrow> bstate \<Rightarrow> bool" where
  program: "kenv_ok E \<Longrightarrow> kstep s (snd (run_hook h E s))"
| configure: "kstep s (s\<lparr>pol := p\<rparr>)"
| task_exit: "kstep s (s\<lparr>lineage_map := (lineage_map s)(t := None)\<rparr>)"

inductive reachable :: "bstate \<Rightarrow> bool" where
  init: "reachable (bstate_init p)"
| step: "reachable s \<Longrightarrow> kstep s s' \<Longrightarrow> reachable s'"

inductive_cases kstepE: "kstep s s'"

lemma reachable_wf: "reachable s \<Longrightarrow> bstate_wf s"
proof (induction rule: reachable.induct)
  case (step s s')
  from step.hyps(2) show ?case
  proof cases
    case (program E h)
    then show ?thesis using kg_step_wf [OF run_hook_step] step.IH by simp
  next
    case (configure p)
    then show ?thesis using step.IH by (simp add: bstate_wf_def)
  next
    case (task_exit t)
    then show ?thesis using step.IH by (auto simp: bstate_wf_def split: if_splits)
  qed
qed simp

text \<open>
  C4: in every reachable state every map entry and every sample ever submitted is well formed: buffers
  have their declared sizes, and each sample carries an event code under which user space decodes
  exactly its struct.
\<close>

theorem reachable_samples_wellformed: "reachable s \<Longrightarrow> bstate_wf s"
  by (rule reachable_wf)

theorem reachable_samples_wellformed_witness:
  "bstate_wf (snd (tp_setuid kenv_quiet (\<lambda>_. 0) (bstate_init policy_off)))"
  using reachable_samples_wellformed
    [OF reachable.step [OF reachable.init kstep.program [of kenv_quiet _ "TpSetuid (\<lambda>_. 0)"]]] by simp

text \<open>
  C15: only the eight prevention hooks ever deny. Every other program, tracepoint sensors, the fork, memory
  and capability hooks, the perf and traffic programs, returns 0; a prevention hook returns 0 or
  \<open>-EPERM\<close>. No program changes the policy, and no submitted sample is withdrawn or altered.
\<close>

theorem only_prevention_denies:
  assumes "kenv_ok E" "bstate_wf s"
  shows "(fst (run_hook h E s) = 0 \<or> fst (run_hook h E s) = -1 \<and> preventive h) \<and>
         pol (snd (run_hook h E s)) = pol s \<and> (\<exists>evs. rb (snd (run_hook h E s)) = rb s @ evs)"
proof -
  have "kg_step s (snd (run_hook h E s))" using assms(1) by (rule run_hook_step)
  moreover have "fst (run_hook h E s) = 0 \<or> fst (run_hook h E s) = -1 \<and> preventive h"
    using object.verdict [of h E s] by (cases h) (simp_all add: sensor_returns)
  ultimately show ?thesis using assms(2) by (simp add: kg_step_def)
qed

theorem only_prevention_denies_witness:
  "fst (run_hook (MmapFile (0, 7, 7, 0)) kenv_quiet (bstate_init policy_off)) = 0"
  using only_prevention_denies [of kenv_quiet "bstate_init policy_off" "MmapFile (0, 7, 7, 0)"] by simp

end
