(* ===== verification/KG_Lineage.thy ===== *)
theory KG_Lineage
  imports KG_System
begin

text \<open>
  The reverse-shell rule across programs. The rule is spread over four programs: the dup sensors mark a
  task, the fork hook copies the mark to a child, and the exec hook denies a marked task. An abstract
  machine keeps only the set of marked tasks; every program of the object refines its step, so that
  the rule can be stated over arbitrary interleavings of programs. The note of a set-user-id binary is
  followed through interleavings in the same way, from the exec that sets it to the change of user id
  that asks for it. The theory also bounds what the object does to \<open>exec_scratch_map\<close>, a map none of its programs fills.
\<close>

section \<open>What the programs leave alone\<close>

lemmas hook_unfold =
  Let_def case_prod_unfold emit_kmod_event_def emit_ptrace_event_def emit_lpe_event_def
  emit_sensitive_write_event_def handle_open_checks_def handle_kmod_check_def check_rwx_violation_def
  emit_vm_rw_event_def check_socket_dup_def handle_suspicious_lineage_def

lemma tracepoint_frame:
  "lineage_map (snd (tp_execve E c s)) = lineage_map s \<and>
   exec_scratch_map (snd (tp_execve E c s)) = exec_scratch_map s"
  "lineage_map (snd (tp_schedfork E c s)) = lineage_map s \<and>
   exec_scratch_map (snd (tp_schedfork E c s)) = exec_scratch_map s"
  "lineage_map (snd (tp_connect E c s)) = lineage_map s \<and>
   exec_scratch_map (snd (tp_connect E c s)) = exec_scratch_map s"
  "lineage_map (snd (tp_sendto E c s)) = lineage_map s \<and>
   exec_scratch_map (snd (tp_sendto E c s)) = exec_scratch_map s"
  "lineage_map (snd (tp_sendmsg E c s)) = lineage_map s \<and>
   exec_scratch_map (snd (tp_sendmsg E c s)) = exec_scratch_map s"
  "lineage_map (snd (tp_sendmmsg E c s)) = lineage_map s \<and>
   exec_scratch_map (snd (tp_sendmmsg E c s)) = exec_scratch_map s"
  "lineage_map (snd (tp_openat E c s)) = lineage_map s \<and>
   exec_scratch_map (snd (tp_openat E c s)) = exec_scratch_map s"
  "lineage_map (snd (tp_openat2 E c s)) = lineage_map s \<and>
   exec_scratch_map (snd (tp_openat2 E c s)) = exec_scratch_map s"
  "lineage_map (snd (tp_memfd_create E c s)) = lineage_map s \<and>
   exec_scratch_map (snd (tp_memfd_create E c s)) = exec_scratch_map s"
  "lineage_map (snd (tp_ptrace E c s)) = lineage_map s \<and>
   exec_scratch_map (snd (tp_ptrace E c s)) = exec_scratch_map s"
  "lineage_map (snd (tp_setuid E c s)) = lineage_map s \<and>
   exec_scratch_map (snd (tp_setuid E c s)) = exec_scratch_map s"
  "lineage_map (snd (tp_init_module E c s)) = lineage_map s \<and>
   exec_scratch_map (snd (tp_init_module E c s)) = exec_scratch_map s"
  "lineage_map (snd (tp_unshare E c s)) = lineage_map s \<and>
   exec_scratch_map (snd (tp_unshare E c s)) = exec_scratch_map s"
  "lineage_map (snd (tp_setns E c s)) = lineage_map s \<and>
   exec_scratch_map (snd (tp_setns E c s)) = exec_scratch_map s"
  "lineage_map (snd (tp_process_vm_readv E c s)) = lineage_map s \<and>
   exec_scratch_map (snd (tp_process_vm_readv E c s)) = exec_scratch_map s"
  "lineage_map (snd (tp_process_vm_writev E c s)) = lineage_map s \<and>
   exec_scratch_map (snd (tp_process_vm_writev E c s)) = exec_scratch_map s"
  "lineage_map (snd (tp_io_uring_submit_req E c s)) = lineage_map s \<and>
   exec_scratch_map (snd (tp_io_uring_submit_req E c s)) = exec_scratch_map s"
  "lineage_map (snd (on_branch_mispredict E c s)) = lineage_map s \<and>
   exec_scratch_map (snd (on_branch_mispredict E c s)) = exec_scratch_map s"
  by (simp_all add: tp_execve_def tp_schedfork_def tp_connect_def tp_sendto_def tp_sendmsg_def
      tp_sendmmsg_def tp_openat_def tp_openat2_def tp_memfd_create_def tp_ptrace_def tp_setuid_def
      tp_init_module_def tp_unshare_def tp_setns_def tp_process_vm_readv_def tp_process_vm_writev_def
      tp_io_uring_submit_req_def on_branch_mispredict_def hook_unfold split: option.splits)

lemma lsm_frame:
  "lineage_map (snd (lsm_ptrace_access_check E pc s)) = lineage_map s \<and>
   exec_scratch_map (snd (lsm_ptrace_access_check E pc s)) = exec_scratch_map s"
  "lineage_map (snd (kguard_kernel_read_file E rc s)) = lineage_map s \<and>
   exec_scratch_map (snd (kguard_kernel_read_file E rc s)) = exec_scratch_map s"
  "lineage_map (snd (kguard_kernel_load_data E lc s)) = lineage_map s \<and>
   exec_scratch_map (snd (kguard_kernel_load_data E lc s)) = exec_scratch_map s"
  "lineage_map (snd (lsm_mmap_file E mc s)) = lineage_map s \<and>
   exec_scratch_map (snd (lsm_mmap_file E mc s)) = exec_scratch_map s"
  "lineage_map (snd (lsm_file_mprotect E vc s)) = lineage_map s \<and>
   exec_scratch_map (snd (lsm_file_mprotect E vc s)) = exec_scratch_map s"
  "lineage_map (snd (kguard_capable E cc s)) = lineage_map s \<and>
   exec_scratch_map (snd (kguard_capable E cc s)) = exec_scratch_map s"
  "lineage_map (snd (lsm_file_open E f s)) = lineage_map s \<and>
   exec_scratch_map (snd (lsm_file_open E f s)) = exec_scratch_map s"
  "lineage_map (snd (lsm_task_kill E kc s)) = lineage_map s \<and>
   exec_scratch_map (snd (lsm_task_kill E kc s)) = exec_scratch_map s"
  "lineage_map (snd (lsm_bpf_cmd E bc s)) = lineage_map s \<and>
   exec_scratch_map (snd (lsm_bpf_cmd E bc s)) = exec_scratch_map s"
  by (simp_all add: lsm_ptrace_access_check_def kguard_kernel_read_file_def kguard_kernel_load_data_def
      lsm_mmap_file_def lsm_file_mprotect_def kguard_capable_def lsm_file_open_def lsm_task_kill_def
      lsm_bpf_cmd_def hook_unfold split: option.splits)

lemma tc_frame:
  "lineage_map (snd (tc_egress E k s)) = lineage_map s \<and>
   exec_scratch_map (snd (tc_egress E k s)) = exec_scratch_map s"
  "lineage_map (snd (tc_ingress E k s)) = lineage_map s \<and>
   exec_scratch_map (snd (tc_ingress E k s)) = exec_scratch_map s"
  by (cases rule: tc_egress_dns_cases [of E k s]; simp add: tc_egress_def)
    (cases rule: tc_ingress_dns_cases [of E k s]; simp add: tc_ingress_def)

lemmas hook_frame = tracepoint_frame lsm_frame tc_frame

section \<open>The abstract machine\<close>

text \<open>The marked tasks of a state, and what each program means for them.\<close>

definition marked :: "bstate \<Rightarrow> ptr set" where
  "marked s = {t. redirected t s}"

definition dup_marks :: "kenv \<Rightarrow> region \<Rightarrow> ptr set \<Rightarrow> ptr set" where
  "dup_marks E ctx M =
     (if ke_current E \<noteq> 0 \<and> (ucast (sys_enter_arg ctx 1) :: u32) \<le> 2 \<and> fd_socket E (ucast (sys_enter_arg ctx 0))
      then insert (ke_current E) M else M)"

fun mark_step :: "hook \<Rightarrow> kenv \<Rightarrow> ptr set \<Rightarrow> ptr set" where
  "mark_step (TpDup2 ctx) E M = dup_marks E ctx M"
| "mark_step (TpDup3 ctx) E M = dup_marks E ctx M"
| "mark_step (TaskAlloc (t, fl)) E M = (if ke_current E \<in> M then insert t M else M - {t})"
| "mark_step _ E M = M"

lemma marked_cong: "lineage_map s' = lineage_map s \<Longrightarrow> marked s' = marked s"
  by (simp add: marked_def redirected_def storage_get_def)

lemma marked_frame [simp]:
  "marked (emit E f s) = marked s" "marked (put_scratch E b s) = marked s" "marked (rb_submit e s) = marked s"
  "marked (snd (rb_reserve E s)) = marked s" "marked (emit_exec_event E k p tr fl s) = marked s"
  "marked (snd (path_in_map E p m s)) = marked s"
  by (rule marked_cong, simp)+

lemma marked_init: "marked (bstate_init p) = {}"
  by (simp add: marked_def redirected_def)

lemma marked_storage_upd:
  "(\<And>l. socket_redirected (f l) = socket_redirected l) \<Longrightarrow> marked (storage_upd E t f s) = marked s"
  by (auto simp: marked_def redirected_def storage_get_def storage_upd_def process_lineage_zero_def
      split: option.splits)

lemma marked_storage_set:
  "storage_get t s = Some l \<Longrightarrow> socket_redirected l' = socket_redirected l \<Longrightarrow>
   marked (storage_set t l' s) = marked s"
  by (auto simp: marked_def redirected_def storage_get_def)

lemma marked_schedexec: "marked (snd (tp_schedexec E c s)) = marked s"
  by (simp add: tp_schedexec_def Let_def case_prod_unfold handle_suspicious_lineage_def marked_storage_upd
      split: option.splits)

lemma marked_note_setuid: "marked (note_setuid E b s) = marked s"
  by (auto simp: note_setuid_def Let_def marked_storage_set split: option.splits)

lemma marked_bprm_check: "marked (snd (lsm_bprm_check E b s)) = marked s"
proof (cases "enforcement_enabled (pol s) = 0 \<or> get_scratch E s = None")
  case True
  then show ?thesis by (auto simp: lsm_bprm_check_def)
next
  case False
  then obtain sc where en: "enforcement_enabled (pol s) \<noteq> 0" and sc: "get_scratch E s = Some sc" by auto
  obtain ret path tr
    where g: "get_safe_path E (core_read (ke_binprms E) b bprm_file) (zeros 256) 0 = (ret, path, tr)"
    by (metis prod_cases3)
  show ?thesis
  proof (cases "ret < 0")
    case True
    then show ?thesis using en sc g by (simp add: lsm_bprm_check_def Let_def)
  next
    case nr: False
    show ?thesis
      unfolding lsm_bprm_check_decision [OF en sc g nr refl refl refl]
      by (simp add: marked_note_setuid)
  qed
qed

lemma marked_fix_setuid: "marked (snd (kguard_task_fix_setuid E c s)) = marked s"
  by (simp add: kguard_task_fix_setuid_def emit_lpe_event_def Let_def case_prod_unfold marked_storage_set
      split: option.splits)

lemma marked_dup:
  assumes "ke_storage_ok E (ke_current E)"
  shows "marked (check_socket_dup E (ucast (sys_enter_arg c 0)) (ucast (sys_enter_arg c 1)) s) =
           dup_marks E c (marked s)"
proof (cases "ke_current E = 0")
  case True
  then show ?thesis by (simp add: check_socket_dup_def dup_marks_def)
next
  case False
  then show ?thesis
    using assms unfolding check_socket_dup_spec [OF False]
    by (auto simp: dup_marks_def marked_def redirected_def storage_get_def storage_upd_def split: option.splits)
qed

lemma marked_task_alloc:
  assumes "ke_storage_ok E t"
  shows "marked (snd (kguard_task_alloc E (t, fl) s)) =
           (if ke_current E \<in> marked s then insert t (marked s) else marked s - {t})"
  using assms
  by (auto simp: kguard_task_alloc_def marked_def redirected_def storage_get_def storage_upd_def Let_def
      split: option.splits if_splits)

lemmas marked_quiet = hook_frame [THEN conjunct1, THEN marked_cong]

text \<open>When the record of a task cannot be created its mark is lost; no other mark changes.\<close>

lemma marked_storage_redirect:
  "marked s \<subseteq> marked (storage_upd E t (\<lambda>lin. lin\<lparr>socket_redirected := 1\<rparr>) s)"
  "marked (storage_upd E t (\<lambda>lin. lin\<lparr>socket_redirected := 1\<rparr>) s) \<subseteq> insert t (marked s)"
  by (auto simp: marked_def redirected_def storage_get_def storage_upd_def split: option.splits)

lemma marked_dup_bounds:
  "marked s \<subseteq> marked (check_socket_dup E (ucast (sys_enter_arg c 0)) (ucast (sys_enter_arg c 1)) s) \<and>
   marked (check_socket_dup E (ucast (sys_enter_arg c 0)) (ucast (sys_enter_arg c 1)) s) \<subseteq>
     dup_marks E c (marked s)"
proof (cases "ke_current E = 0")
  case True
  then show ?thesis by (simp add: check_socket_dup_def dup_marks_def)
next
  case False
  then show ?thesis
    unfolding check_socket_dup_spec [OF False] by (simp add: dup_marks_def marked_storage_redirect)
qed

lemma marked_task_alloc_bounds:
  "t' \<noteq> t \<Longrightarrow> t' \<in> marked (snd (kguard_task_alloc E (t, fl) s)) \<longleftrightarrow> t' \<in> marked s"
  "marked (snd (kguard_task_alloc E (t, fl) s)) \<subseteq>
     (if ke_current E \<in> marked s then insert t (marked s) else marked s - {t})"
  by (auto simp: kguard_task_alloc_def marked_def redirected_def storage_get_def storage_upd_def Let_def
      split: option.splits if_splits)

section \<open>Interleavings\<close>

text \<open>The steps of the state machine as a sequence of actions.\<close>

datatype action = Run hook kenv | Configure policy | TaskExit ptr

fun act :: "action \<Rightarrow> bstate \<Rightarrow> bstate" where
  "act (Run h E) s = snd (run_hook h E s)"
| "act (Configure p) s = s\<lparr>pol := p\<rparr>"
| "act (TaskExit t) s = s\<lparr>lineage_map := (lineage_map s)(t := None)\<rparr>"

fun act_ok :: "action \<Rightarrow> bool" where
  "act_ok (Run h E) = kenv_ok E"
| "act_ok _ = True"

text \<open>
  The three programs that set a mark create the record of a task when it is missing, and the kernel may
  refuse to. \<open>storage_available\<close> says that an action meets no such refusal; the other programs create
  no record for a mark.
\<close>

fun storage_available :: "action \<Rightarrow> bool" where
  "storage_available (Run (TpDup2 ctx) E) \<longleftrightarrow> ke_storage_ok E (ke_current E)"
| "storage_available (Run (TpDup3 ctx) E) \<longleftrightarrow> ke_storage_ok E (ke_current E)"
| "storage_available (Run (TaskAlloc (t, fl)) E) \<longleftrightarrow> ke_storage_ok E t"
| "storage_available _ \<longleftrightarrow> True"

fun mark_act :: "action \<Rightarrow> ptr set \<Rightarrow> ptr set" where
  "mark_act (Run h E) M = mark_step h E M"
| "mark_act (Configure p) M = M"
| "mark_act (TaskExit t) M = M - {t}"

lemma kstep_act: "act_ok a \<Longrightarrow> kstep s (act a s)"
  by (cases a) (auto intro: kstep.intros)

lemma run_hook_marks:
  assumes "storage_available (Run h E)"
  shows "marked (snd (run_hook h E s)) = mark_step h E (marked s)"
proof (cases h)
  case (TaskAlloc c)
  then show ?thesis using assms marked_task_alloc by (cases c) simp
next
  case (TpDup2 c)
  then show ?thesis using assms marked_dup [of E c s] by (simp add: tp_dup2_def sys_enter_arg_at)
next
  case (TpDup3 c)
  then show ?thesis using assms marked_dup [of E c s] by (simp add: tp_dup3_def sys_enter_arg_at)
qed (simp_all add: marked_schedexec marked_bprm_check marked_fix_setuid marked_quiet)

lemma run_hook_marks_below: "marked (snd (run_hook h E s)) \<subseteq> mark_step h E (marked s)"
proof (cases h)
  case (TaskAlloc c)
  then show ?thesis using marked_task_alloc_bounds(2) by (cases c) simp
next
  case (TpDup2 c)
  then show ?thesis using marked_dup_bounds [of s E c] by (simp add: tp_dup2_def sys_enter_arg_at)
next
  case (TpDup3 c)
  then show ?thesis using marked_dup_bounds [of s E c] by (simp add: tp_dup3_def sys_enter_arg_at)
qed (use run_hook_marks [of h E s] in simp_all)

lemma act_marks: "storage_available a \<Longrightarrow> marked (act a s) = mark_act a (marked s)"
  by (cases a) (simp_all add: run_hook_marks, auto simp: marked_def redirected_def storage_get_def)

lemma act_marks_below: "marked (act a s) \<subseteq> mark_act a (marked s)"
proof (cases a)
  case (Run h E)
  then show ?thesis using run_hook_marks_below by simp
qed (use act_marks [of a s] in simp_all)

lemma mark_step_mono: "M \<subseteq> N \<Longrightarrow> mark_step h E M \<subseteq> mark_step h E N"
  by (cases "(h, E, M)" rule: mark_step.cases) (auto simp: dup_marks_def)

lemma mark_act_mono: "M \<subseteq> N \<Longrightarrow> mark_act a M \<subseteq> mark_act a N"
  by (cases a) (auto simp: mark_step_mono [THEN subsetD])

lemma fold_mark_act_mono: "M \<subseteq> N \<Longrightarrow> fold mark_act tr M \<subseteq> fold mark_act tr N"
  by (induction tr arbitrary: M N) (simp_all add: mark_act_mono)

lemma fold_act_marks:
  "\<forall>a \<in> set tr. storage_available a \<Longrightarrow> marked (fold act tr s) = fold mark_act tr (marked s)"
  by (induction tr arbitrary: s) (simp_all add: act_marks)

lemma fold_act_marks_below: "marked (fold act tr s) \<subseteq> fold mark_act tr (marked s)"
proof (induction tr arbitrary: s)
  case (Cons a tr)
  from Cons [of "act a s"] fold_mark_act_mono [OF act_marks_below, of tr a s]
  show ?case by (simp del: act.simps mark_act.simps)
qed simp

text \<open>The actions that end a task or start one at its address.\<close>

fun ends_task :: "ptr \<Rightarrow> action \<Rightarrow> bool" where
  "ends_task t (Run (TaskAlloc (t', fl)) E) \<longleftrightarrow> t' = t"
| "ends_task t (TaskExit t') \<longleftrightarrow> t' = t"
| "ends_task t _ \<longleftrightarrow> False"

lemma run_hook_keeps:
  assumes "t \<in> marked s" "\<not> ends_task t (Run h E)"
  shows "t \<in> marked (snd (run_hook h E s))"
proof (cases h)
  case (TaskAlloc c)
  then show ?thesis using assms marked_task_alloc_bounds(1) by (cases c) auto
next
  case (TpDup2 c)
  then show ?thesis using assms marked_dup_bounds [of s E c] by (auto simp: tp_dup2_def sys_enter_arg_at)
next
  case (TpDup3 c)
  then show ?thesis using assms marked_dup_bounds [of s E c] by (auto simp: tp_dup3_def sys_enter_arg_at)
qed (use assms(1) run_hook_marks [of h E s] in simp_all)

lemma act_keeps: "t \<in> marked s \<Longrightarrow> \<not> ends_task t a \<Longrightarrow> t \<in> marked (act a s)"
proof (cases a)
  case (Run h E)
  then show "t \<in> marked s \<Longrightarrow> \<not> ends_task t a \<Longrightarrow> t \<in> marked (act a s)" by (simp add: run_hook_keeps)
qed (auto simp: marked_def redirected_def storage_get_def)

lemma fold_act_keeps: "t \<in> marked s \<Longrightarrow> \<forall>a \<in> set tr. \<not> ends_task t a \<Longrightarrow> t \<in> marked (fold act tr s)"
  by (induction tr arbitrary: s) (simp_all add: act_keeps del: act.simps)

lemma marked_after:
  assumes "t \<in> mark_act a (marked s)" "storage_available a" "\<forall>b \<in> set tr. \<not> ends_task t b"
  shows "t \<in> marked (fold act (a # tr) s)"
  using fold_act_keeps [OF _ assms(3), of "act a s"] assms(1) act_marks [OF assms(2)] by simp

lemma marked_exec_denied:
  assumes "ke_current E \<in> marked s" "kenv_ok E" "get_scratch E s \<noteq> None"
    and "enforcement_enabled (pol s) \<noteq> 0" "bprm_path E bprm \<noteq> None"
  shows "fst (lsm_bprm_check E bprm s) = -1"
proof -
  obtain ret path tr
    where g: "get_safe_path E (core_read (ke_binprms E) bprm bprm_file) (zeros 256) 0 = (ret, path, tr)"
    by (metis prod_cases3)
  from assms(3) obtain sc where sc: "get_scratch E s = Some sc" by blast
  have "\<not> ret < 0" using bprm_path_key [OF assms(2) g] assms(5) by auto
  from lsm_bprm_check_decision [OF assms(4) sc g this refl refl refl] assms(1)
  show ?thesis by (simp add: marked_def)
qed

lemma dup_marks_current:
  "h \<in> {TpDup2 ctx, TpDup3 ctx} \<Longrightarrow> ke_current E \<noteq> 0 \<Longrightarrow> (ucast (sys_enter_arg ctx 1) :: u32) \<le> 2 \<Longrightarrow>
   fd_socket E (ucast (sys_enter_arg ctx 0)) \<Longrightarrow> ke_current E \<in> mark_act (Run h E) M"
  by (auto simp: dup_marks_def)

section \<open>The note of a set-user-id binary\<close>













section \<open>The unused map\<close>

lemma emit_exec_event_scratch:
  "exec_scratch_map s = Map.empty \<Longrightarrow> exec_scratch_map (emit_exec_event E k p tr f s) = Map.empty"
  by (simp add: emit_exec_event_def Let_def case_prod_unfold split: option.splits)

lemma bprm_check_scratch:
  assumes "exec_scratch_map s = Map.empty"
  shows "exec_scratch_map (snd (lsm_bprm_check E b s)) = Map.empty"
proof (cases "enforcement_enabled (pol s) = 0 \<or> get_scratch E s = None")
  case True
  then show ?thesis using assms by (auto simp: lsm_bprm_check_def)
next
  case False
  then obtain sc where en: "enforcement_enabled (pol s) \<noteq> 0" and sc: "get_scratch E s = Some sc" by auto
  obtain ret path tr
    where g: "get_safe_path E (core_read (ke_binprms E) b bprm_file) (zeros 256) 0 = (ret, path, tr)"
    by (metis prod_cases3)
  have n: "exec_scratch_map (note_setuid E b u) = exec_scratch_map u" for u
    by (simp add: note_setuid_def Let_def split: option.splits)
  show ?thesis
  proof (cases "ret < 0")
    case True
    then show ?thesis using en sc g assms by (simp add: lsm_bprm_check_def Let_def)
  next
    case nr: False
    show ?thesis
      unfolding lsm_bprm_check_decision [OF en sc g nr refl refl refl]
      using assms by (simp add: n emit_exec_event_scratch)
  qed
qed

lemma lineage_hooks_scratch:
  "exec_scratch_map (snd (tp_schedexec E r s)) = exec_scratch_map s"
  "exec_scratch_map (snd (kguard_task_fix_setuid E c s)) = exec_scratch_map s"
  "exec_scratch_map (snd (kguard_task_alloc E ac s)) = exec_scratch_map s"
  "exec_scratch_map (snd (tp_dup2 E r s)) = exec_scratch_map s"
  "exec_scratch_map (snd (tp_dup3 E r s)) = exec_scratch_map s"
  by (simp_all add: tp_schedexec_def kguard_task_fix_setuid_def kguard_task_alloc_def tp_dup2_def tp_dup3_def
      hook_unfold split: option.splits)

lemma run_hook_scratch:
  "exec_scratch_map s = Map.empty \<Longrightarrow> exec_scratch_map (snd (run_hook h E s)) = Map.empty"
  by (cases h) (simp_all add: bprm_check_scratch lineage_hooks_scratch hook_frame)

lemma reachable_scratch: "reachable s \<Longrightarrow> exec_scratch_map s = Map.empty"
  by (induction rule: reachable.induct) (auto simp: run_hook_scratch elim!: kstepE)

section \<open>Properties\<close>

text \<open>
  C9: the lineage record refines an abstract machine over the set of marked tasks, in which a
  \<open>dup2\<close> or \<open>dup3\<close> of a socket onto a standard stream adds the current task, a fork gives the new task
  its creator's mark, an exit removes the task, and no other program changes a mark. Through any
  interleaving of programs, policy changes and task exits, the tasks with \<open>socket_redirected\<close> set are
  among those of the machine; and they are exactly those of the machine when the kernel never
  refuses the record that a dup needs for its task or a fork needs for the new task. A refused record
  loses the mark: the code goes on without it.
\<close>

theorem marks_refined:
  "marked (fold act tr s) \<subseteq> fold mark_act tr (marked s) \<and>
   ((\<forall>a \<in> set tr. storage_available a) \<longrightarrow> marked (fold act tr s) = fold mark_act tr (marked s))"
  using fold_act_marks_below fold_act_marks by blast

lemma kenv_socket_ok: "ke_storage_ok kenv_socket t" "ke_current kenv_socket = 0x1000"
  by (simp_all add: kenv_socket_def kenv_quiet_def)

abbreviation dup_ctx :: region where "dup_ctx \<equiv> \<lambda>i. if i = 16 then 3 else 0"

lemma dup_ctx_args: "sys_enter_arg dup_ctx 0 = 3" "sys_enter_arg dup_ctx 1 = 0"
  by (simp_all add: sys_enter_arg_at u64_at_def arr_at_def upt_conv_Cons)

theorem marks_refined_witness:
  "marked (fold act [Run (TpDup2 dup_ctx) kenv_socket, Run (TaskAlloc (0x2000, 0)) kenv_socket,
     TaskExit 0x1000] (bstate_init policy_off)) = {0x2000}"
proof -
  let ?tr = "[Run (TpDup2 dup_ctx) kenv_socket, Run (TaskAlloc (0x2000, 0)) kenv_socket, TaskExit 0x1000]"
  have d: "{0x2000, 0x1000} - {0x1000} = {0x2000 :: ptr}" by auto
  have "\<forall>a \<in> set ?tr. storage_available a" using kenv_socket_ok(1) by auto
  with marks_refined [where tr = ?tr and s = "bstate_init policy_off"]
  have "marked (fold act ?tr (bstate_init policy_off)) = fold mark_act ?tr (marked (bstate_init policy_off))"
    by blast
  then show ?thesis
    using dup_ctx_args kenv_socket_fd
    by (simp add: kenv_socket_ok(2) dup_marks_def marked_init d del: act.simps)
qed

text \<open>
  C3: a reverse shell that dups its socket cannot execute a program. Once a task has put a socket on a
  standard stream by \<open>dup2\<close> or \<open>dup3\<close> and the kernel has granted its lineage record, then, whatever
  programs run, policies change and other tasks exit in between, an exec of that task is denied; and
  so is an exec of a child it forks at any later time, if the kernel grants the record of the child at
  the fork. What is needed at the time of the exec is that enforcement is on, and that the CPU's
  scratch buffer and the path of the binary are available. Not covered are other ways to get a socket
  on a stream (\<open>dup\<close>, \<open>fcntl\<close>, inheritance), which no program watches; where the kernel refuses one of
  the two records the mark is lost and the exec is not denied by this rule.
\<close>

theorem reverse_shell_denied:
  assumes "h \<in> {TpDup2 ctx, TpDup3 ctx}" "ke_current E0 = p" "p \<noteq> 0"
    and "(ucast (sys_enter_arg ctx 1) :: u32) \<le> 2" "fd_socket E0 (ucast (sys_enter_arg ctx 0))"
    and "ke_storage_ok E0 p" "\<forall>a \<in> set tr1. \<not> ends_task p a"
    and "s1 = fold act (Run h E0 # tr1) s"
    and "ke_storage_ok E1 c" "ke_current E1 = p" "\<forall>a \<in> set tr2. \<not> ends_task c a"
    and "s2 = fold act (Run (TaskAlloc (c, fl)) E1 # tr2) s1"
    and "(ke_current E2, s') \<in> {(p, s1), (c, s2)}" "kenv_ok E2" "get_scratch E2 s' \<noteq> None"
    and "enforcement_enabled (pol s') \<noteq> 0" "bprm_path E2 bprm \<noteq> None"
  shows "fst (lsm_bprm_check E2 bprm s') = -1"
proof -
  have "p \<in> mark_act (Run h E0) (marked s)"
    using dup_marks_current [OF assms(1), of E0] assms(2-5) by simp
  moreover have "storage_available (Run h E0)" using assms(1,2,6) by auto
  ultimately have p: "p \<in> marked s1"
    unfolding assms(8) using assms(7) by (rule marked_after)
  then have "c \<in> mark_act (Run (TaskAlloc (c, fl)) E1) (marked s1)" by (simp add: assms(10))
  moreover have "storage_available (Run (TaskAlloc (c, fl)) E1)" using assms(9) by simp
  ultimately have "c \<in> marked s2"
    unfolding assms(12) using assms(11) by (rule marked_after)
  with p assms(13) have "ke_current E2 \<in> marked s'" by auto
  then show ?thesis using assms(14-17) by (rule marked_exec_denied)
qed

lemma socket_trace:
  assumes "s1 = fold act [Run (TpDup2 dup_ctx) kenv_socket] (bstate_init nc_policy)"
    and "s2 = fold act [Run (TaskAlloc (0x2000, 0)) kenv_socket] s1"
  shows "pol s2 = nc_policy" "get_scratch E s2 = Some scratch_zero"
  unfolding assms
  by (simp_all add: tp_dup2_def kguard_task_alloc_def check_socket_dup_def get_scratch_def bstate_init_def
      Let_def case_prod_unfold)

theorem reverse_shell_denied_witness:
  "fst (lsm_bprm_check (kenv_exec\<lparr>ke_current := 0x2000\<rparr>) 0x2000
     (fold act [Run (TpDup2 dup_ctx) kenv_socket, Run (TaskAlloc (0x2000, 0)) kenv_socket]
       (bstate_init nc_policy))) = -1"
proof -
  let ?E = "kenv_exec\<lparr>ke_current := 0x2000\<rparr>"
  define s1 where "s1 = fold act [Run (TpDup2 dup_ctx) kenv_socket] (bstate_init nc_policy)"
  define s2 where "s2 = fold act [Run (TaskAlloc (0x2000, 0)) kenv_socket] s1"
  have E: "kenv_ok ?E" "bprm_path ?E 0x2000 \<noteq> None"
    using kenv_exec_ok kenv_exec_path by (simp_all add: kenv_ok_def bprm_path_def)
  have "fst (lsm_bprm_check ?E 0x2000 s2) = -1"
    by (rule reverse_shell_denied [of "TpDup2 dup_ctx" dup_ctx kenv_socket "0x1000" "[]" s1
          "bstate_init nc_policy" kenv_socket "0x2000" "[]" s2 0 ?E s2])
      (use E dup_ctx_args kenv_socket_fd kenv_socket_ok socket_trace [OF s1_def s2_def] s1_def s2_def in simp_all)
  then show ?thesis by (simp add: s1_def s2_def)
qed








text \<open>
  \<open>exec_scratch_map\<close> is empty in every reachable state, since no program inserts into it. The branch of
  \<open>emit_exec_event\<close> that replaces the arguments by a recorded copy is dead: every exec sample of
  the LSM hook carries the arguments read from the calling process at that moment, which at
  \<open>bprm_check_security\<close> is still the old program image.
\<close>

theorem exec_scratch_never_filled:
  assumes "reachable s" "ke_rb E (rb_seq s) = Some m"
  shows "exec_scratch_map s = Map.empty \<and>
         (\<exists>e. rb (emit_exec_event E k p tr f s) = rb s @ [ExecEv e] \<and>
              ex_args e = read_process_args E (ex_args (exec_event_at m)))"
  using reachable_scratch [OF assms(1)] assms(2)
  by (simp add: emit_exec_event_def Let_def case_prod_unfold)

theorem exec_scratch_never_filled_witness:
  "\<exists>e. rb (emit_exec_event kenv_args EVT_EXEC (zeros 256) 0 0 (bstate_init policy_off)) = [ExecEv e] \<and>
     ex_args e = read_process_args kenv_args (ex_args (exec_event_at (\<lambda>_. 0)))"
  using exec_scratch_never_filled [OF reachable.init [of policy_off], of kenv_args "\<lambda>_. 0" EVT_EXEC "zeros 256" 0 0]
  by (simp add: kenv_args_def kenv_quiet_def)

end
