(* ===== verification/KG_Loader.thy ===== *)
theory KG_Loader
  imports KG_Lineage "HOL-Library.AList"
begin

text \<open>
  How user space turns its configuration into the policy maps: the block lists of
  \<open>internal/config/rules.go\<close>, the map synchronisation of \<open>internal/ebpf/loader.go\<close> and the order in
  which \<open>Engine.applyConfig\<close> (\<open>internal/processor/engine.go\<close>) calls it. A Go map is an association
  list with distinct keys; the order in which a \<open>range\<close> statement visits it is an input. The calls
  into the eBPF library (iterate, delete, update) have the outcome their inputs say.
\<close>

section \<open>Block lists of the rules\<close>

datatype rule_action = ActionAlert | ActionKill | ActionBlock
datatype rule_mode = RuleModeEnforce | RuleModeAudit
datatype severity = SeverityLow | SeverityMedium | SeverityHigh | SeverityCritical

record rule =
  r_name :: bytes
  r_Severity :: severity
  r_action :: rule_action
  r_mode :: rule_mode
  r_ExactBlockPath :: bytes
  r_ExactBlockPrefix :: bytes

definition BlockModeEnforce :: u8 where "BlockModeEnforce = 1"
definition BlockModeAudit :: u8 where "BlockModeAudit = 2"

definition add_pattern :: "bytes \<Rightarrow> rule_mode \<Rightarrow> (bytes \<times> u8) list \<Rightarrow> (bytes \<times> u8) list" where
  "add_pattern p md out =
     (let mode = (if md = RuleModeAudit then BlockModeAudit else BlockModeEnforce) in
      if map_of out p = None \<or> map_of out p = Some BlockModeAudit then AList.update p mode out else out)"

definition block_list :: "(rule \<Rightarrow> bytes) \<Rightarrow> rule list \<Rightarrow> (bytes \<times> u8) list" where
  "block_list sel rules =
     fold (\<lambda>r out. if r_action r = ActionBlock \<and> sel r \<noteq> [] then add_pattern (sel r) (r_mode r) out else out)
       rules []"

definition BlockedPatterns :: "rule list \<Rightarrow> (bytes \<times> u8) list" where
  "BlockedPatterns = block_list r_ExactBlockPath"

definition BlockedPrefix :: "rule list \<Rightarrow> (bytes \<times> u8) list" where
  "BlockedPrefix = block_list r_ExactBlockPrefix"

section \<open>Synchronising a map\<close>

datatype 'k mapop = MDelete 'k | MUpdate 'k u8
datatype sync_error = IterErr | UpdateErr

text \<open>
  The inputs of one synchronisation: whether iterating the kernel map succeeds, the orders in which the
  two \<open>range\<close> loops visit their keys, and which calls succeed.
\<close>

record 'k sync_env =
  se_iter_ok :: bool
  se_existing :: "'k list \<Rightarrow> 'k list"
  se_want :: "'k list \<Rightarrow> 'k list"
  se_ok :: "'k mapop \<Rightarrow> bool"

text \<open>A failing delete is ignored, a failing update ends the synchronisation.\<close>

fun sync_run :: "('k mapop \<Rightarrow> bool) \<Rightarrow> 'k mapop list \<Rightarrow> ('k \<times> u8) list \<Rightarrow> sync_error option \<times> ('k \<times> u8) list" where
  "sync_run ok [] em = (None, em)"
| "sync_run ok (MDelete k # ops) em =
     sync_run ok ops (if ok (MDelete k) then AList.delete k em else em)"
| "sync_run ok (MUpdate k v # ops) em =
     (if ok (MUpdate k v) then sync_run ok ops (AList.update k v em) else (Some UpdateErr, em))"

definition value_ops :: "'k sync_env \<Rightarrow> ('k \<times> u8) list \<Rightarrow> ('k \<times> u8) list \<Rightarrow> 'k mapop list" where
  "value_ops se want em =
     map MDelete (filter (\<lambda>k. map_of want k = None) (se_existing se (map fst em))) @
     map (\<lambda>k. MUpdate k (the (map_of want k)))
       (filter (\<lambda>k. map_of em k \<noteq> map_of want k) (se_want se (map fst want)))"

definition syncValueMap ::
    "'k sync_env \<Rightarrow> ('k \<times> u8) list \<Rightarrow> ('k \<times> u8) list \<Rightarrow> sync_error option \<times> ('k \<times> u8) list" where
  "syncValueMap se want em =
     (if \<not> se_iter_ok se then (Some IterErr, em) else sync_run (se_ok se) (value_ops se want em) em)"

definition keyed_ops :: "'k sync_env \<Rightarrow> 'k list \<Rightarrow> ('k \<times> u8) list \<Rightarrow> 'k mapop list" where
  "keyed_ops se want em =
     map MDelete (filter (\<lambda>k. k \<notin> set want) (se_existing se (map fst em))) @
     map (\<lambda>k. MUpdate k 1) (filter (\<lambda>k. k \<notin> set (map fst em)) (se_want se want))"

definition syncKeyedMap ::
    "'k sync_env \<Rightarrow> 'k list \<Rightarrow> ('k \<times> u8) list \<Rightarrow> sync_error option \<times> ('k \<times> u8) list" where
  "syncKeyedMap se want em =
     (if \<not> se_iter_ok se then (Some IterErr, em) else sync_run (se_ok se) (keyed_ops se want em) em)"

definition pathToKey :: "bytes \<Rightarrow> bytes" where
  "pathToKey p = pad0 256 p"

definition want_values :: "(bytes \<Rightarrow> 'k) \<Rightarrow> (bytes \<times> u8) list \<Rightarrow> ('k \<times> u8) list" where
  "want_values key paths =
     fold (\<lambda>(p, mode) w. if p = [] then w else AList.update (key p) mode w) paths []"

definition SyncBlockedPaths ::
    "bytes sync_env \<Rightarrow> (bytes \<times> u8) list \<Rightarrow> (bytes \<times> u8) list \<Rightarrow> sync_error option \<times> (bytes \<times> u8) list" where
  "SyncBlockedPaths se paths em = syncValueMap se (want_values pathToKey paths) em"

definition SyncPrefixBlocks ::
    "lpm_prefix_key sync_env \<Rightarrow> (bytes \<times> u8) list \<Rightarrow> (lpm_prefix_key \<times> u8) list \<Rightarrow>
     sync_error option \<times> (lpm_prefix_key \<times> u8) list" where
  "SyncPrefixBlocks se pfxs em = syncValueMap se (want_values prefix_entry pfxs) em"

definition syncTypedMap ::
    "'k sync_env \<Rightarrow> bytes list \<Rightarrow> (bytes \<Rightarrow> 'k) \<Rightarrow> ('k \<times> u8) list \<Rightarrow> sync_error option \<times> ('k \<times> u8) list" where
  "syncTypedMap se items fromString em =
     syncKeyedMap se (fold (\<lambda>x w. if x = [] then w else List.insert (fromString x) w) items []) em"

definition syncPaths ::
    "bytes sync_env \<Rightarrow> bytes list \<Rightarrow> (bytes \<times> u8) list \<Rightarrow> sync_error option \<times> (bytes \<times> u8) list" where
  "syncPaths se items em = syncTypedMap se items pathToKey em"

section \<open>Applying a configuration\<close>

record config =
  c_Rules :: "rule list"
  c_Allowlist :: "bytes list"
  c_ProtectedPIDs :: "int list"
  c_DedupWindowSeconds :: int
  c_SuspiciousPaths :: "bytes list"
  c_SensitiveWritePaths :: "bytes list"
  c_BlockedWritePaths :: "bytes list"
  c_EnforcementEnabled :: bool
  c_PtraceEnforcementEnabled :: bool
  c_KmodEnforcementEnabled :: bool

text \<open>The kernel maps as user space iterates them.\<close>

record kmaps =
  km_prefix :: "(lpm_prefix_key \<times> u8) list"
  km_blocked :: "(bytes \<times> u8) list"
  km_suspicious :: "(bytes \<times> u8) list"
  km_sensitive :: "(bytes \<times> u8) list"
  km_write :: "(bytes \<times> u8) list"
  km_ptrace :: "(file_id \<times> u8) list"
  km_ptrace_on :: u8
  km_kmod_on :: u8
  km_on :: u8

record apply_env =
  ae_patterns :: "(bytes \<times> u8) list \<Rightarrow> (bytes \<times> u8) list"
  ae_prefix :: "lpm_prefix_key sync_env"
  ae_blocked :: "bytes sync_env"
  ae_suspicious :: "bytes sync_env"
  ae_sensitive :: "bytes sync_env"
  ae_write :: "bytes sync_env"
  ae_ptrace :: "file_id sync_env"
  ae_ptrace_ids :: "file_id list"
  ae_lsm :: bool
  ae_set_ok :: "string \<Rightarrow> bool"

text \<open>
  \<open>ae_patterns\<close> is the order in which the maps of patterns are ranged over, \<open>ae_ptrace_ids\<close> what the trust set
  returns for the configured ptrace callers, \<open>ae_lsm\<close> whether the exec hook is attached
  (\<open>LSMEnabled\<close>) and \<open>ae_set_ok\<close> which writes of a switch succeed.
\<close>

definition set_switch :: "bool \<Rightarrow> bool \<Rightarrow> u8 \<Rightarrow> u8" where
  "set_switch ok enabled old = (if ok then if enabled then 1 else 0 else old)"

definition applyConfig :: "apply_env \<Rightarrow> config \<Rightarrow> kmaps \<Rightarrow> kmaps" where
  "applyConfig ae c k =
     \<lparr>km_prefix = snd (SyncPrefixBlocks (ae_prefix ae) (ae_patterns ae (BlockedPrefix (c_Rules c))) (km_prefix k)),
      km_blocked = snd (SyncBlockedPaths (ae_blocked ae) (ae_patterns ae (BlockedPatterns (c_Rules c))) (km_blocked k)),
      km_suspicious = snd (syncPaths (ae_suspicious ae) (c_SuspiciousPaths c) (km_suspicious k)),
      km_sensitive = snd (syncPaths (ae_sensitive ae) (c_SensitiveWritePaths c) (km_sensitive k)),
      km_write = snd (syncPaths (ae_write ae) (c_BlockedWritePaths c) (km_write k)),
      km_ptrace = snd (syncKeyedMap (ae_ptrace ae) (remdups (ae_ptrace_ids ae)) (km_ptrace k)),
      km_ptrace_on = set_switch (ae_set_ok ae ''ptrace'') (c_PtraceEnforcementEnabled c) (km_ptrace_on k),
      km_kmod_on = set_switch (ae_set_ok ae ''kmod'') (c_KmodEnforcementEnabled c) (km_kmod_on k),
      km_on = set_switch (ae_set_ok ae ''lsm'') (c_EnforcementEnabled c \<and> ae_lsm ae) (km_on k)\<rparr>"

text \<open>The policy the programs see.\<close>

definition with_maps :: "kmaps \<Rightarrow> policy \<Rightarrow> policy" where
  "with_maps k p = p
     \<lparr>blocked_paths := map_of (km_blocked k), suspicious_paths := map_of (km_suspicious k),
      sensitive_write_paths := map_of (km_sensitive k), blocked_write_paths := map_of (km_write k),
      allowed_ptrace_attaches := map_of (km_ptrace k), blocked_prefix := km_prefix k,
      enforcement_enabled := km_on k, kmod_enforcement_enabled := km_kmod_on k,
      ptrace_enforcement_enabled := km_ptrace_on k\<rparr>"

section \<open>The block lists\<close>

definition blocks :: "(rule \<Rightarrow> bytes) \<Rightarrow> bytes \<Rightarrow> rule \<Rightarrow> bool" where
  "blocks sel p r \<longleftrightarrow> r_action r = ActionBlock \<and> sel r = p"

lemma block_list_snoc:
  "block_list sel (rs @ [r]) =
     (if r_action r = ActionBlock \<and> sel r \<noteq> [] then add_pattern (sel r) (r_mode r) (block_list sel rs)
      else block_list sel rs)"
  by (simp add: block_list_def)

lemma map_of_add_pattern:
  "map_of (add_pattern p md out) q =
     (if q = p \<and> (map_of out p = None \<or> map_of out p = Some BlockModeAudit)
      then Some (if md = RuleModeAudit then BlockModeAudit else BlockModeEnforce) else map_of out q)"
  by (simp add: add_pattern_def Let_def update_conv')

text \<open>An enforcing rule wins over an auditing rule for the same pattern, in whatever order they come.\<close>

lemma map_of_block_list:
  assumes "p \<noteq> []"
  shows "map_of (block_list sel rules) p =
    (if \<exists>r \<in> set rules. blocks sel p r \<and> r_mode r = RuleModeEnforce then Some BlockModeEnforce
     else if \<exists>r \<in> set rules. blocks sel p r then Some BlockModeAudit else None)"
proof (induction rules rule: rev_induct)
  case Nil
  show ?case by (simp add: block_list_def)
next
  case (snoc r rs)
  show ?case
  proof (cases "blocks sel p r")
    case True
    then have step: "block_list sel (rs @ [r]) = add_pattern p (r_mode r) (block_list sel rs)"
      using assms by (simp add: block_list_snoc blocks_def)
    show ?thesis
      using True unfolding step map_of_add_pattern snoc.IH
      by (cases "r_mode r") (simp_all add: BlockModeEnforce_def BlockModeAudit_def)
  next
    case False
    then have "map_of (block_list sel (rs @ [r])) p = map_of (block_list sel rs) p"
      using assms by (auto simp: block_list_snoc map_of_add_pattern blocks_def)
    with False show ?thesis unfolding snoc.IH by auto
  qed
qed

lemma block_list_empty: "map_of (block_list sel rules) [] = None"
  by (induction rules rule: rev_induct) (auto simp: block_list_snoc map_of_add_pattern, simp add: block_list_def)

lemma distinct_block_list: "distinct (map fst (block_list sel rules))"
  by (induction rules rule: rev_induct)
    (auto simp: block_list_snoc add_pattern_def Let_def distinct_update, simp add: block_list_def)

section \<open>What a synchronisation does\<close>

text \<open>A \<open>range\<close> statement visits every key of a map exactly once.\<close>

definition ranges_all :: "'k sync_env \<Rightarrow> bool" where
  "ranges_all se \<longleftrightarrow>
     (\<forall>xs. distinct xs \<longrightarrow> set (se_existing se xs) = set xs \<and> distinct (se_existing se xs) \<and>
        set (se_want se xs) = set xs \<and> distinct (se_want se xs))"

lemma ranges_all_set:
  "ranges_all se \<Longrightarrow> distinct xs \<Longrightarrow> set (se_existing se xs) = set xs \<and> set (se_want se xs) = set xs"
  by (simp add: ranges_all_def)

text \<open>The maps a program can observe while the operations run, from the first to the last.\<close>

fun sync_states :: "('k mapop \<Rightarrow> bool) \<Rightarrow> 'k mapop list \<Rightarrow> ('k \<times> u8) list \<Rightarrow> ('k \<times> u8) list list" where
  "sync_states ok [] em = [em]"
| "sync_states ok (MDelete k # ops) em =
     em # sync_states ok ops (if ok (MDelete k) then AList.delete k em else em)"
| "sync_states ok (MUpdate k v # ops) em =
     em # (if ok (MUpdate k v) then sync_states ok ops (AList.update k v em) else [])"

lemma sync_states_nonempty [simp]: "sync_states ok ops em \<noteq> []"
  by (cases "(ok, ops, em)" rule: sync_states.cases) auto

lemma sync_run_last: "snd (sync_run ok ops em) = last (sync_states ok ops em)"
  by (induction ok ops em rule: sync_run.induct) auto

text \<open>The operations lead towards the wanted map.\<close>

fun towards :: "('k \<Rightarrow> u8 option) \<Rightarrow> 'k mapop \<Rightarrow> bool" where
  "towards want (MDelete k) \<longleftrightarrow> want k = None"
| "towards want (MUpdate k v) \<longleftrightarrow> want k = Some v"

fun op_key :: "'k mapop \<Rightarrow> 'k" where
  "op_key (MDelete k) = k"
| "op_key (MUpdate k v) = k"

lemma sync_states_between:
  assumes "list_all (towards want) ops" "\<And>k. map_of em k \<in> {old k, want k}"
    and "m \<in> set (sync_states ok ops em)"
  shows "map_of m k \<in> {old k, want k}"
  using assms
proof (induction ok ops em arbitrary: m k rule: sync_states.induct)
  case (2 ok j ops em)
  let ?em = "if ok (MDelete j) then AList.delete j em else em"
  have "map_of ?em i \<in> {old i, want i}" for i using "2.prems"(1,2) by (auto simp: delete_conv')
  then show ?case using "2.IH" [of m k] "2.prems" by auto
next
  case (3 ok j v ops em)
  have "map_of (AList.update j v em) i \<in> {old i, want i}" for i
    using "3.prems"(1,2) by (auto simp: update_conv')
  then show ?case using "3.IH" [of m k] "3.prems" by (auto split: if_splits)
qed auto

lemma sync_run_result:
  assumes "list_all (towards want) ops" "fst (sync_run ok ops em) = None"
    and "\<And>k. MDelete k \<in> set ops \<Longrightarrow> ok (MDelete k)"
  shows "map_of (snd (sync_run ok ops em)) k = (if k \<in> op_key ` set ops then want k else map_of em k)"
  using assms
  by (induction ok ops em rule: sync_run.induct) (auto simp: delete_conv' update_conv' split: if_splits)

lemma set_value_ops:
  assumes "ranges_all se" "distinct (map fst em)" "distinct (map fst want)"
  shows "set (value_ops se want em) =
    MDelete ` {k \<in> dom (map_of em). map_of want k = None} \<union>
    (\<lambda>k. MUpdate k (the (map_of want k))) ` {k \<in> dom (map_of want). map_of em k \<noteq> map_of want k}"
  using ranges_all_set [OF assms(1,2)] ranges_all_set [OF assms(1,3)]
  by (simp add: value_ops_def dom_map_of_conv_image_fst)

lemma value_ops_towards:
  assumes "ranges_all se" "distinct (map fst em)" "distinct (map fst want)"
  shows "list_all (towards (map_of want)) (value_ops se want em)"
  unfolding list_all_iff set_value_ops [OF assms] by auto

lemma value_ops_keys:
  assumes "ranges_all se" "distinct (map fst em)" "distinct (map fst want)"
  shows "op_key ` set (value_ops se want em) = {k. map_of em k \<noteq> map_of want k}"
  unfolding set_value_ops [OF assms] by (force simp: image_Un image_image dom_def)

lemma syncValueMap_exact:
  assumes "ranges_all se" "distinct (map fst em)" "distinct (map fst want)"
    and "fst (syncValueMap se want em) = None" "\<And>k. se_ok se (MDelete k)"
  shows "map_of (snd (syncValueMap se want em)) = map_of want"
proof
  fix k
  have r: "se_iter_ok se" "fst (sync_run (se_ok se) (value_ops se want em) em) = None"
    using assms(4) by (auto simp: syncValueMap_def split: if_splits)
  show "map_of (snd (syncValueMap se want em)) k = map_of want k"
    using sync_run_result [OF value_ops_towards [OF assms(1-3)] r(2) assms(5)] r(1)
    by (simp add: syncValueMap_def value_ops_keys [OF assms(1-3)])
qed

lemma set_keyed_ops:
  assumes "ranges_all se" "distinct (map fst em)" "distinct want"
  shows "set (keyed_ops se want em) =
    MDelete ` {k \<in> dom (map_of em). k \<notin> set want} \<union> (\<lambda>k. MUpdate k 1) ` {k \<in> set want. map_of em k = None}"
proof -
  have "k \<notin> fst ` set em \<longleftrightarrow> map_of em k = None" for k by (metis map_of_eq_None_iff)
  then show ?thesis
    using ranges_all_set [OF assms(1,2)] ranges_all_set [OF assms(1,3)]
    by (simp add: keyed_ops_def dom_map_of_conv_image_fst)
qed

lemma syncKeyedMap_exact:
  assumes "ranges_all se" "distinct (map fst em)" "distinct want" "\<And>k v. map_of em k = Some v \<Longrightarrow> v = 1"
    and "fst (syncKeyedMap se want em) = None" "\<And>k. se_ok se (MDelete k)"
  shows "map_of (snd (syncKeyedMap se want em)) k = (if k \<in> set want then Some 1 else None)"
proof -
  let ?w = "\<lambda>k. if k \<in> set want then Some 1 else None"
  note ops = set_keyed_ops [OF assms(1-3)]
  have t: "list_all (towards ?w) (keyed_ops se want em)" unfolding list_all_iff ops by auto
  have r: "se_iter_ok se" "fst (sync_run (se_ok se) (keyed_ops se want em) em) = None"
    using assms(5) by (auto simp: syncKeyedMap_def split: if_splits)
  have "map_of em k = ?w k" if "k \<notin> op_key ` set (keyed_ops se want em)"
    using that assms(4) [of k] unfolding ops by (cases "map_of em k") (force simp: image_Un image_image dom_def)+
  then show ?thesis
    using sync_run_result [OF t r(2) assms(6)] r(1) by (simp add: syncKeyedMap_def)
qed

lemma sync_run_distinct: "distinct (map fst em) \<Longrightarrow> distinct (map fst (snd (sync_run ok ops em)))"
  by (induction ok ops em rule: sync_run.induct) (auto simp: distinct_update distinct_delete)

lemma syncValueMap_distinct: "distinct (map fst em) \<Longrightarrow> distinct (map fst (snd (syncValueMap se want em)))"
  by (simp add: syncValueMap_def sync_run_distinct)

lemma update_new: "k \<notin> fst ` set xs \<Longrightarrow> AList.update k v xs = xs @ [(k, v)]"
  by (induction xs) auto

text \<open>Distinct non-empty patterns with distinct keys are all stored.\<close>

lemma want_values_map:
  assumes "distinct (map fst paths)" "inj_on key (fst ` set paths)" "[] \<notin> fst ` set paths"
  shows "want_values key paths = map (\<lambda>(p, v). (key p, v)) paths"
proof -
  have "fold (\<lambda>(p, mode) w. if p = [] then w else AList.update (key p) mode w) paths w =
      w @ map (\<lambda>(p, v). (key p, v)) paths" if "fst ` set w \<inter> key ` fst ` set paths = {}" for w
    using assms that
  proof (induction paths arbitrary: w)
    case (Cons x xs)
    obtain q md where x: "x = (q, md)" by (cases x)
    have n: "key q \<notin> fst ` set w" "q \<noteq> []" "key q \<notin> key ` fst ` set xs"
      using Cons.prems x by (auto dest: inj_onD)
    have "fold (\<lambda>(p, mode) w. if p = [] then w else AList.update (key p) mode w) xs (w @ [(key q, md)]) =
        (w @ [(key q, md)]) @ map (\<lambda>(p, v). (key p, v)) xs"
      using Cons.prems x n(3) by (intro Cons.IH) (auto intro: inj_on_subset)
    then show ?case using n x by (simp add: update_new)
  qed simp
  from this [of "[]"] show ?thesis by (simp add: want_values_def)
qed

lemma map_of_inj_keys:
  "inj_on key (insert p (fst ` set xs)) \<Longrightarrow> map_of (map (\<lambda>(q, v). (key q, v)) xs) (key p) = map_of xs p"
proof (induction xs)
  case (Cons x xs)
  have "key (fst x) = key p \<longleftrightarrow> fst x = p" using inj_on_eq_iff [OF Cons.prems, of "fst x" p] by simp
  moreover have "inj_on key (insert p (fst ` set xs))" using Cons.prems by (rule inj_on_subset) auto
  ultimately show ?case using Cons.IH by (cases x) auto
qed simp

section \<open>From rules to verdicts\<close>

text \<open>What validation and YAML leave of a pattern: at most 255 bytes, no NUL.\<close>

definition pattern_ok :: "bytes \<Rightarrow> bool" where
  "pattern_ok p \<longleftrightarrow> length p \<le> 255 \<and> 0 \<notin> set p"

text \<open>A synchronisation in which every call succeeds, and an order of a range over a Go map.\<close>

definition sync_succeeds :: "'k sync_env \<Rightarrow> bool" where
  "sync_succeeds se \<longleftrightarrow> ranges_all se \<and> se_iter_ok se \<and> (\<forall>m. se_ok se m)"

definition map_order :: "((bytes \<times> u8) list \<Rightarrow> (bytes \<times> u8) list) \<Rightarrow> bool" where
  "map_order f \<longleftrightarrow>
     (\<forall>xs. distinct (map fst xs) \<longrightarrow> set (f xs) = set xs \<and> distinct (map fst (f xs)))"

lemma sync_run_ok: "\<forall>m. ok m \<Longrightarrow> fst (sync_run ok ops em) = None"
  by (induction ok ops em rule: sync_run.induct) auto

lemma pathToKey_inj: "inj_on pathToKey {p. pattern_ok p}"
  by (rule inj_onI) (auto simp: pathToKey_def pattern_ok_def intro: pad0_inj)

lemma prefix_entry_inj: "inj_on prefix_entry {p. pattern_ok p}"
  by (rule inj_onI) (auto simp: prefix_entry_def pattern_ok_def intro: pad0_inj)

lemma block_list_keys:
  assumes "\<forall>r \<in> set rules. pattern_ok (sel r)"
  shows "fst ` set (block_list sel rules) \<subseteq> {p. pattern_ok p \<and> p \<noteq> []}"
proof
  fix p assume "p \<in> fst ` set (block_list sel rules)"
  then have m: "map_of (block_list sel rules) p \<noteq> None" by (simp add: map_of_eq_None_iff)
  then have "p \<noteq> []" using block_list_empty by metis
  with m show "p \<in> {p. pattern_ok p \<and> p \<noteq> []}"
    using assms by (auto simp: map_of_block_list blocks_def split: if_splits)
qed

text \<open>A successful synchronisation stores exactly the block list.\<close>

lemma block_list_synced:
  assumes "sync_succeeds se" "map_order ord" "distinct (map fst em)"
    and "\<forall>r \<in> set rules. pattern_ok (sel r)" "inj_on key {p. pattern_ok p}"
    and "em' = snd (syncValueMap se (want_values key (ord (block_list sel rules))) em)"
  shows "set em' = (\<lambda>(p, v). (key p, v)) ` set (block_list sel rules)"
    and "pattern_ok p \<Longrightarrow> map_of em' (key p) = map_of (block_list sel rules) p"
proof -
  let ?l = "block_list sel rules"
  have o: "set (ord ?l) = set ?l" "distinct (map fst (ord ?l))"
    using assms(2) distinct_block_list [of sel rules] by (auto simp: map_order_def)
  have k: "fst ` set (ord ?l) \<subseteq> {p. pattern_ok p \<and> p \<noteq> []}"
    using block_list_keys [OF assms(4)] o(1) by simp
  then have inj: "inj_on key (fst ` set (ord ?l))" by (intro inj_on_subset [OF assms(5)]) auto
  let ?w = "map (\<lambda>(p, v). (key p, v)) (ord ?l)"
  have w: "want_values key (ord ?l) = ?w" using want_values_map [OF o(2) inj] k by auto
  have "map fst ?w = map key (map fst (ord ?l))" by (simp add: comp_def case_prod_unfold)
  then have dw: "distinct (map fst ?w)" using o(2) inj by (simp only: distinct_map set_map)
  have "fst (syncValueMap se ?w em) = None"
    using assms(1) by (simp add: syncValueMap_def sync_succeeds_def sync_run_ok)
  then have e: "map_of em' = map_of ?w"
    using syncValueMap_exact [OF _ assms(3) dw] assms(1) by (simp add: sync_succeeds_def assms(6) w)
  have "distinct (map fst em')" using assms(3) by (simp add: assms(6) syncValueMap_distinct)
  with e dw have "set em' = set ?w" by (simp add: map_of_inject_set)
  then show "set em' = (\<lambda>(p, v). (key p, v)) ` set ?l" using o(1) by simp
  assume "pattern_ok p"
  then have "inj_on key (insert p (fst ` set (ord ?l)))"
    using k by (intro inj_on_subset [OF assms(5)]) auto
  then have "map_of em' (key p) = map_of (ord ?l) p" by (simp add: e map_of_inj_keys)
  also have "\<dots> = map_of ?l p" using o distinct_block_list by (metis map_of_inject_set)
  finally show "map_of em' (key p) = map_of ?l p" .
qed

lemma bprm_path_ok:
  assumes "kenv_ok E" "bprm_path E bprm = Some p"
  shows "pattern_ok p"
proof -
  let ?d = "ke_d_path E (core_read (ke_binprms E) bprm bprm_file) (zeros 256)"
  have r: "0 \<le> fst ?d" "p = cstr (snd ?d)"
    using assms(2) by (auto simp: bprm_path_def case_prod_unfold Let_def split: if_splits)
  have "nat (fst ?d) \<le> 256 \<and> length (cstr (snd ?d)) = nat (fst ?d) - 1"
    using assms(1) r(1) unfolding kenv_ok_def d_path_contract_def by (metis length_zeros)
  then show ?thesis using r(2) cstr_no_nul by (auto simp: pattern_ok_def)
qed

lemma path_of_pad0: "pattern_ok p \<Longrightarrow> path_of (pad0 256 p) = p"
  by (simp add: pattern_ok_def path_of_def cstr_pad0)

text \<open>The longest prefix rule that applies to a path enforces.\<close>

definition prefix_enforced :: "rule list \<Rightarrow> bytes \<Rightarrow> bool" where
  "prefix_enforced rules p \<longleftrightarrow>
     (\<exists>r \<in> set rules. r_action r = ActionBlock \<and> r_mode r = RuleModeEnforce \<and> r_ExactBlockPrefix r \<noteq> [] \<and>
        prefix (r_ExactBlockPrefix r) p \<and>
        (\<forall>r' \<in> set rules. r_action r' = ActionBlock \<and> prefix (r_ExactBlockPrefix r') p \<longrightarrow>
           length (r_ExactBlockPrefix r') \<le> length (r_ExactBlockPrefix r)))"

lemma block_list_entry:
  assumes "(x, v) \<in> set (block_list sel rules)"
  shows "x \<noteq> []" "\<exists>r \<in> set rules. blocks sel x r"
    "v = BlockModeEnforce \<longleftrightarrow> (\<exists>r \<in> set rules. blocks sel x r \<and> r_mode r = RuleModeEnforce)"
proof -
  have m: "map_of (block_list sel rules) x = Some v" using assms distinct_block_list by (rule map_of_is_SomeI [rotated])
  then show x: "x \<noteq> []" using block_list_empty by fastforce
  show "\<exists>r \<in> set rules. blocks sel x r"
    using m unfolding map_of_block_list [OF x] by (auto split: if_splits)
  show "v = BlockModeEnforce \<longleftrightarrow> (\<exists>r \<in> set rules. blocks sel x r \<and> r_mode r = RuleModeEnforce)"
    using m unfolding map_of_block_list [OF x]
    by (auto simp: BlockModeEnforce_def BlockModeAudit_def split: if_splits)
qed

lemma block_list_listed:
  assumes "r \<in> set rules" "blocks sel x r" "x \<noteq> []"
  shows "\<exists>v. (x, v) \<in> set (block_list sel rules)"
proof -
  have "map_of (block_list sel rules) x \<noteq> None"
    using assms(1,2) unfolding map_of_block_list [OF assms(3)] by auto
  then show ?thesis using map_of_SomeD by fastforce
qed

lemma prefix_verdict:
  assumes "lpm_contract (lpm_lookup q)" "\<forall>r \<in> set rules. pattern_ok (r_ExactBlockPrefix r)"
    and "set (blocked_prefix q) = (\<lambda>(p, v). (prefix_entry p, v)) ` set (BlockedPrefix rules)" "pattern_ok p"
  shows "is_prefix_blocked q (pad0 256 p) = 1 \<longleftrightarrow> prefix_enforced rules p"
proof -
  let ?l = "BlockedPrefix rules" and ?sel = r_ExactBlockPrefix
  have l: "?l = block_list ?sel rules" by (simp add: BlockedPrefix_def)
  have "\<forall>(x, v) \<in> set ?l. length x \<le> 255 \<and> 0 \<notin> set x"
    using block_list_keys [OF assms(2)] by (force simp: l pattern_ok_def)
  from is_prefix_blocked_spec [OF assms(1,3) this length_pad0 [of 256 p], unfolded path_of_pad0 [OF assms(4)]]
  have spec: "if \<exists>(x, v) \<in> set ?l. prefix x p
      then \<exists>(x, v) \<in> set ?l. prefix x p \<and> is_prefix_blocked q (pad0 256 p) = uint v \<and>
             (\<forall>(y, w) \<in> set ?l. prefix y p \<longrightarrow> length y \<le> length x)
      else is_prefix_blocked q (pad0 256 p) = 0" .
  have longest: "length (?sel r') \<le> length x"
    if "r' \<in> set rules" "r_action r' = ActionBlock" "prefix (?sel r') p"
      "\<forall>(y, w) \<in> set ?l. prefix y p \<longrightarrow> length y \<le> length x" for r' x
    using that block_list_listed [of r' rules ?sel "?sel r'"] by (cases "?sel r' = []") (force simp: blocks_def l)+
  show ?thesis
  proof
    assume one: "is_prefix_blocked q (pad0 256 p) = 1"
    with spec obtain x v where x: "(x, v) \<in> set ?l" "prefix x p" "uint v = 1"
      "\<forall>(y, w) \<in> set ?l. prefix y p \<longrightarrow> length y \<le> length x" by (auto split: if_splits)
    then have "v = BlockModeEnforce" by (simp add: BlockModeEnforce_def word_uint_eq_iff)
    then obtain r where "r \<in> set rules" "blocks ?sel x r" "r_mode r = RuleModeEnforce" "x \<noteq> []"
      using block_list_entry [OF x(1) [unfolded l]] by auto
    then show "prefix_enforced rules p"
      using x(2,4) longest unfolding prefix_enforced_def blocks_def by blast
  next
    assume "prefix_enforced rules p"
    then obtain r where r: "r \<in> set rules" "r_action r = ActionBlock" "r_mode r = RuleModeEnforce"
      "?sel r \<noteq> []" "prefix (?sel r) p"
      and best: "\<And>r'. r' \<in> set rules \<Longrightarrow> r_action r' = ActionBlock \<Longrightarrow> prefix (?sel r') p \<Longrightarrow>
        length (?sel r') \<le> length (?sel r)"
      unfolding prefix_enforced_def by blast
    obtain w where "(?sel r, w) \<in> set ?l" using block_list_listed [of r rules ?sel] r by (auto simp: blocks_def l)
    with r(5) spec obtain x v where x: "(x, v) \<in> set ?l" "prefix x p"
      "is_prefix_blocked q (pad0 256 p) = uint v" "length (?sel r) \<le> length x" by (auto split: if_splits)
    obtain r' where "r' \<in> set rules" "blocks ?sel x r'" using block_list_entry(2) [OF x(1) [unfolded l]] by auto
    then have "length x \<le> length (?sel r)" using best x(2) by (auto simp: blocks_def)
    then have "x = ?sel r" using x(2,4) r(5) by (metis prefix_same_cases prefix_order.antisym le_antisym prefix_length_prefix order_refl)
    then have "v = BlockModeEnforce" using block_list_entry(3) [OF x(1) [unfolded l]] r by (auto simp: blocks_def)
    then show "is_prefix_blocked q (pad0 256 p) = 1" using x(3) by (simp add: BlockModeEnforce_def)
  qed
qed

text \<open>A configuration the loader has applied without error.\<close>

definition applied :: "apply_env \<Rightarrow> config \<Rightarrow> kmaps \<Rightarrow> policy \<Rightarrow> bool" where
  "applied ae c k q \<longleftrightarrow>
     sync_succeeds (ae_prefix ae) \<and> sync_succeeds (ae_blocked ae) \<and> map_order (ae_patterns ae) \<and>
     ae_lsm ae \<and> ae_set_ok ae ''lsm'' \<and> distinct (map fst (km_prefix k)) \<and> distinct (map fst (km_blocked k)) \<and>
     (\<forall>r \<in> set (c_Rules c). pattern_ok (r_ExactBlockPath r) \<and> pattern_ok (r_ExactBlockPrefix r)) \<and>
     lpm_contract (lpm_lookup q) \<and> q = with_maps (applyConfig ae c k) q"

lemma exec_verdict_of_rules:
  assumes "applied ae c k (pol s)" "c_EnforcementEnabled c"
    and "kenv_ok E" "get_scratch E s \<noteq> None" "bprm_path E bprm = Some p"
    and "\<not> redirected (ke_current E) s" "\<not> bprm_fileless E bprm"
  shows "fst (lsm_bprm_check E bprm s) = -1 \<longleftrightarrow>
     (\<exists>r \<in> set (c_Rules c). r_action r = ActionBlock \<and> r_mode r = RuleModeEnforce \<and>
        r_ExactBlockPath r = p \<and> p \<noteq> []) \<or> prefix_enforced (c_Rules c) p"
proof -
  let ?k = "applyConfig ae c k" and ?rules = "c_Rules c"
  note a = assms(1) [unfolded applied_def]
  have q: "blocked_paths (pol s) = map_of (km_blocked ?k)" "blocked_prefix (pol s) = km_prefix ?k"
    "enforcement_enabled (pol s) = km_on ?k"
    using a by (auto simp: with_maps_def dest: arg_cong [of _ _ blocked_paths] arg_cong [of _ _ blocked_prefix]
        arg_cong [of _ _ enforcement_enabled])
  have on: "enforcement_enabled (pol s) \<noteq> 0"
    using q(3) a assms(2) by (simp add: applyConfig_def set_switch_def)
  have p: "pattern_ok p" using assms(3,5) by (rule bprm_path_ok)
  have b: "km_blocked ?k = snd (syncValueMap (ae_blocked ae)
      (want_values pathToKey (ae_patterns ae (block_list r_ExactBlockPath ?rules))) (km_blocked k))"
    by (simp add: applyConfig_def SyncBlockedPaths_def BlockedPatterns_def)
  have exact: "blocked_paths (pol s) (pad0 256 p) = map_of (block_list r_ExactBlockPath ?rules) p"
    using block_list_synced(2) [where ord = "ae_patterns ae", OF _ _ _ _ pathToKey_inj b p] a by (simp add: q(1) pathToKey_def)
  have f: "km_prefix ?k = snd (syncValueMap (ae_prefix ae)
      (want_values prefix_entry (ae_patterns ae (block_list r_ExactBlockPrefix ?rules))) (km_prefix k))"
    by (simp add: applyConfig_def SyncPrefixBlocks_def BlockedPrefix_def)
  have pre: "is_prefix_blocked (pol s) (pad0 256 p) = 1 \<longleftrightarrow> prefix_enforced ?rules p"
    using block_list_synced(1) [where ord = "ae_patterns ae", OF _ _ _ _ prefix_entry_inj f] a
    by (intro prefix_verdict [OF _ _ _ p]) (simp_all add: q(2) BlockedPrefix_def)
  have "map_of (block_list r_ExactBlockPath ?rules) p = Some 1 \<longleftrightarrow>
      (\<exists>r \<in> set ?rules. r_action r = ActionBlock \<and> r_mode r = RuleModeEnforce \<and>
         r_ExactBlockPath r = p \<and> p \<noteq> [])"
    by (cases "p = []") (auto simp: block_list_empty map_of_block_list blocks_def BlockModeEnforce_def BlockModeAudit_def)
  then show ?thesis
    unfolding lsm_bprm_check_fst [OF assms(3,4)] exec_denied_def
    using on exact pre assms(5-7) by auto
qed

text \<open>
  The verdict of the exec hook is the one the rules ask for. Once the agent has applied a configuration
  with enforcement on, the exec of an ordinary binary by a task without a redirected socket is
  denied exactly when a BLOCK rule in enforce mode names its resolved path, or when the longest
  prefix among the prefix rules that apply to the path belongs to a BLOCK rule in enforce mode.
  The order of the rules, the contents of the maps before, and the orders in which Go visits its
  maps do not matter.
\<close>

theorem config_exec_verdict:
  assumes "applied ae c k (pol s)" "c_EnforcementEnabled c"
    and "kenv_ok E" "get_scratch E s \<noteq> None" "bprm_path E bprm = Some p"
    and "\<not> redirected (ke_current E) s" "\<not> bprm_fileless E bprm"
  shows "fst (lsm_bprm_check E bprm s) = -1 \<longleftrightarrow>
     (\<exists>r \<in> set (c_Rules c). r_action r = ActionBlock \<and> r_mode r = RuleModeEnforce \<and>
        r_ExactBlockPath r = p \<and> p \<noteq> []) \<or> prefix_enforced (c_Rules c) p"
  using assms by (rule exec_verdict_of_rules)

text \<open>A loader whose calls all succeed and whose ranges follow the insertion order.\<close>

definition sync_plain :: "'k sync_env" where
  "sync_plain = \<lparr>se_iter_ok = True, se_existing = (\<lambda>xs. xs), se_want = (\<lambda>xs. xs), se_ok = (\<lambda>_. True)\<rparr>"

definition ae_plain :: apply_env where
  "ae_plain =
     \<lparr>ae_patterns = (\<lambda>xs. xs), ae_prefix = sync_plain, ae_blocked = sync_plain, ae_suspicious = sync_plain,
      ae_sensitive = sync_plain, ae_write = sync_plain, ae_ptrace = sync_plain, ae_ptrace_ids = [],
      ae_lsm = True, ae_set_ok = (\<lambda>_. True)\<rparr>"

definition kmaps_empty :: kmaps where
  "kmaps_empty =
     \<lparr>km_prefix = [], km_blocked = [], km_suspicious = [], km_sensitive = [], km_write = [], km_ptrace = [],
      km_ptrace_on = 0, km_kmod_on = 0, km_on = 0\<rparr>"

definition config_rules :: "rule list \<Rightarrow> config" where
  "config_rules rs =
     \<lparr>c_Rules = rs, c_Allowlist = [], c_ProtectedPIDs = [], c_DedupWindowSeconds = 10,
      c_SuspiciousPaths = [], c_SensitiveWritePaths = [], c_BlockedWritePaths = [],
      c_EnforcementEnabled = True, c_PtraceEnforcementEnabled = False, c_KmodEnforcementEnabled = False\<rparr>"

definition block_rule :: "rule_mode \<Rightarrow> bytes \<Rightarrow> bytes \<Rightarrow> rule" where
  "block_rule md path pfx =
     \<lparr>r_name = [], r_Severity = SeverityHigh, r_action = ActionBlock, r_mode = md, r_ExactBlockPath = path, r_ExactBlockPrefix = pfx\<rparr>"

abbreviation configured :: "rule list \<Rightarrow> bstate" where
  "configured rs \<equiv> bstate_init (with_maps (applyConfig ae_plain (config_rules rs) kmaps_empty) policy_off)"

lemma applied_plain:
  assumes "\<forall>r \<in> set rs. pattern_ok (r_ExactBlockPath r) \<and> pattern_ok (r_ExactBlockPrefix r)"
  shows "applied ae_plain (config_rules rs) kmaps_empty (pol (configured rs))"
  using assms lpm_ref_contract
  by (simp add: applied_def ae_plain_def sync_succeeds_def sync_plain_def ranges_all_def map_order_def
      kmaps_empty_def config_rules_def with_maps_def policy_off_def)

theorem config_exec_verdict_witness:
  "fst (lsm_bprm_check kenv_exec 0x2000 (configured [block_rule RuleModeEnforce (str ''/usr/bin/nc'') []])) = -1"
proof -
  let ?rs = "[block_rule RuleModeEnforce (str ''/usr/bin/nc'') []]"
  have "applied ae_plain (config_rules ?rs) kmaps_empty (pol (configured ?rs))"
    by (rule applied_plain) (simp add: block_rule_def pattern_ok_def str_def)
  from config_exec_verdict [OF this _ kenv_exec_ok _ kenv_exec_path _ kenv_exec_regular]
  show ?thesis by (simp add: config_rules_def block_rule_def redirected_def str_def)
qed

text \<open>
  C19: there is no gap while a block list is replaced. At every moment of a synchronisation, failed calls
  included, each key of the kernel map has its old or its new value: an entry that is in both the
  old and the new list is never missing, and nothing is ever listed that neither list contains. When
  no call fails the map ends up exactly as wanted.
\<close>

theorem sync_no_gap:
  assumes "ranges_all se" "distinct (map fst em)" "distinct (map fst want)"
  shows "(\<forall>m \<in> set (sync_states (se_ok se) (value_ops se want em) em).
            \<forall>k. map_of m k \<in> {map_of em k, map_of want k}) \<and>
         snd (syncValueMap se want em) \<in> set (em # sync_states (se_ok se) (value_ops se want em) em) \<and>
         (fst (syncValueMap se want em) = None \<and> (\<forall>k. se_ok se (MDelete k)) \<longrightarrow>
            map_of (snd (syncValueMap se want em)) = map_of want)"
proof (intro conjI ballI allI impI)
  show "map_of m k \<in> {map_of em k, map_of want k}"
    if "m \<in> set (sync_states (se_ok se) (value_ops se want em) em)" for m k
    using value_ops_towards [OF assms] _ that by (rule sync_states_between) simp
  show "snd (syncValueMap se want em) \<in> set (em # sync_states (se_ok se) (value_ops se want em) em)"
    by (simp add: syncValueMap_def sync_run_last)
  show "map_of (snd (syncValueMap se want em)) = map_of want"
    if "fst (syncValueMap se want em) = None \<and> (\<forall>k. se_ok se (MDelete k))"
    using that by (intro syncValueMap_exact [OF assms]) auto
qed

theorem sync_no_gap_witness:
  "list_all (\<lambda>m. map_of m 6 = Some 9)
     (sync_states (se_ok sync_plain) (value_ops sync_plain [(6 :: nat, 9), (7, 9)] [(5, 9), (6, 9)]) [(5, 9), (6, 9)])"
proof -
  let ?em = "[(5, 9), (6, 9)] :: (nat \<times> 8 word) list" and ?want = "[(6, 9), (7, 9)] :: (nat \<times> 8 word) list"
  have "ranges_all (sync_plain :: nat sync_env)" by (simp add: ranges_all_def sync_plain_def)
  moreover have "distinct (map fst ?em)" "distinct (map fst ?want)" by simp_all
  ultimately have "\<forall>m \<in> set (sync_states (se_ok sync_plain) (value_ops sync_plain ?want ?em) ?em).
      \<forall>k. map_of m k \<in> {map_of ?em k, map_of ?want k}"
    by (rule sync_no_gap [THEN conjunct1])
  moreover have "map_of ?em 6 = Some 9" "map_of ?want 6 = Some 9" by simp_all
  ultimately show ?thesis unfolding list_all_iff by (metis empty_iff insert_iff)
qed

text \<open>
  An auditing rule switches off an enforcing one for a subtree. When a prefix rule in audit mode is
  longer than every other prefix rule that applies to a path, an exec of that path is allowed,
  whatever shorter prefixes are enforced, since only the longest match counts: enforcement has
  priority over audit only among rules for the identical prefix.
\<close>

theorem longer_audit_prefix_allows:
  assumes "applied ae c k (pol s)" "c_EnforcementEnabled c"
    and "kenv_ok E" "get_scratch E s \<noteq> None" "bprm_path E bprm = Some p"
    and "\<not> redirected (ke_current E) s" "\<not> bprm_fileless E bprm"
    and "\<forall>r \<in> set (c_Rules c). r_ExactBlockPath r = []"
    and "a \<in> set (c_Rules c)" "r_action a = ActionBlock" "prefix (r_ExactBlockPrefix a) p"
    and "\<forall>r \<in> set (c_Rules c). r_mode r = RuleModeEnforce \<longrightarrow> prefix (r_ExactBlockPrefix r) p \<longrightarrow>
           length (r_ExactBlockPrefix r) < length (r_ExactBlockPrefix a)"
  shows "fst (lsm_bprm_check E bprm s) = 0"
proof -
  have "\<not> prefix_enforced (c_Rules c) p"
    using assms(9-12) unfolding prefix_enforced_def by (meson not_less)
  then have "fst (lsm_bprm_check E bprm s) \<noteq> -1"
    using exec_verdict_of_rules [OF assms(1-7)] assms(8) by auto
  then show ?thesis using bprm_check.verdict by blast
qed

theorem longer_audit_prefix_allows_witness:
  "fst (lsm_bprm_check kenv_exec 0x2000
     (configured [block_rule RuleModeEnforce [] (str ''/usr''), block_rule RuleModeAudit [] (str ''/usr/bin'')])) = 0"
proof -
  let ?rs = "[block_rule RuleModeEnforce [] (str ''/usr''), block_rule RuleModeAudit [] (str ''/usr/bin'')]"
  have "applied ae_plain (config_rules ?rs) kmaps_empty (pol (configured ?rs))"
    by (rule applied_plain) (simp add: block_rule_def pattern_ok_def str_def)
  from longer_audit_prefix_allows [OF this _ kenv_exec_ok _ kenv_exec_path _ kenv_exec_regular, of "?rs ! 1"]
  show ?thesis by (simp add: config_rules_def block_rule_def redirected_def str_def)
qed

end
