(* ===== verification/KG_Wire.thy ===== *)
theory KG_Wire
  imports KG_Loader
begin

text \<open>
  From the ring buffer to Go. A sensor fills the members of an event struct in reserved ring-buffer
  memory; user space reads the sample with \<open>binary.Read\<close> into the Go struct of the generated
  bindings (\<open>internal/ebpf/bpf_x86_bpfel.go\<close>), which lists its members without alignment and with
  the padding written out as blank fields. This theory holds the Go structs, the reader, the image
  of a sample in memory and the proof that the reader returns the members the sensor stored. The
  offsets of the two languages are compared struct by struct; the round trip rests on one lemma
  about storing members at the offsets of any C layout.
\<close>

section \<open>The Go structs\<close>

text \<open>A Go struct as \<open>encoding/binary\<close> sees it: names and sizes in order, blank fields included.\<close>

type_synonym go_fields = "(string \<times> nat) list"

definition BPFEventHdr :: go_fields where
  "BPFEventHdr =
     [(''TimestampNs'', 8), (''Pid'', 4), (''Ppid'', 4), (''Uid'', 4), (''Gid'', 4),
      (''CgroupId'', 8), (''EventType'', 4), (''Comm'', 16), (''AncestorSuspicious'', 1),
      (''AncestorFilename'', 256), (''_'', 3), (''ExeDev'', 8), (''ExeIno'', 8),
      (''ParentExeDev'', 8), (''ParentExeIno'', 8), (''Ret'', 4), (''_'', 4)]"

definition go_size :: "go_fields \<Rightarrow> nat" where
  "go_size gs = sum_list (map snd gs)"

definition BPFBpfProgLoadEvent :: go_fields where
  "BPFBpfProgLoadEvent =
     [(''Hdr'', go_size BPFEventHdr), (''ProgType'', 4), (''AttachType'', 4), (''ProgName'', 16)]"

definition BPFCapEvent :: go_fields where
  "BPFCapEvent = [(''Hdr'', go_size BPFEventHdr), (''Cap'', 4), (''IsContainer'', 1), (''_'', 3)]"

definition BPFConnectEvent :: go_fields where
  "BPFConnectEvent =
     [(''Hdr'', go_size BPFEventHdr), (''Daddr'', 4), (''Daddr6'', 16), (''Dport'', 2),
      (''Family'', 2), (''UnixPath'', 108), (''_'', 4)]"

definition BPFDnsAnswerEvent :: go_fields where
  "BPFDnsAnswerEvent =
     [(''Hdr'', go_size BPFEventHdr), (''Daddr'', 4), (''Daddr6'', 16), (''Family'', 2),
      (''Qname'', 128), (''_'', 2)]"

definition BPFDnsTxKey :: go_fields where
  "BPFDnsTxKey = [(''ResolverIp'', 4), (''ClientPort'', 2), (''Txid'', 2)]"

definition BPFDnsTxVal :: go_fields where
  "BPFDnsTxVal = [(''Qname'', 128), (''CgroupId'', 8)]"

definition BPFExecEvent :: go_fields where
  "BPFExecEvent =
     [(''Hdr'', go_size BPFEventHdr), (''Filename'', 256), (''Args'', 256), (''IsFileless'', 1),
      (''PathTruncated'', 1), (''_'', 6)]"

definition BPFExecScratch :: go_fields where
  "BPFExecScratch = [(''Args'', 256)]"

definition BPFFileId :: go_fields where
  "BPFFileId = [(''Dev'', 8), (''Ino'', 8)]"

definition BPFIouringEvent :: go_fields where
  "BPFIouringEvent =
     [(''Hdr'', go_size BPFEventHdr), (''Opcode'', 1), (''Filename'', 256), (''_'', 7)]"

definition BPFKmodEvent :: go_fields where
  "BPFKmodEvent = [(''Hdr'', go_size BPFEventHdr), (''LoadType'', 4), (''_'', 4)]"

definition BPFLpeEvent :: go_fields where
  "BPFLpeEvent = [(''Hdr'', go_size BPFEventHdr), (''OldUid'', 4), (''NewUid'', 4)]"

definition BPFLpmPrefixKey :: go_fields where
  "BPFLpmPrefixKey = [(''Prefixlen'', 4), (''Basename'', 256)]"

definition BPFMprotectEvent :: go_fields where
  "BPFMprotectEvent = [(''Hdr'', go_size BPFEventHdr), (''ReqProt'', 8), (''Prot'', 8)]"

definition BPFNsChangeEvent :: go_fields where
  "BPFNsChangeEvent =
     [(''Hdr'', go_size BPFEventHdr), (''Flags'', 8), (''Nstype'', 4), (''Op'', 4)]"

definition BPFOpenEvent :: go_fields where
  "BPFOpenEvent =
     [(''Hdr'', go_size BPFEventHdr), (''Filename'', 256), (''IsFileless'', 1),
      (''PathTruncated'', 1), (''_'', 6)]"

definition BPFPmuEvent :: go_fields where
  "BPFPmuEvent = [(''Hdr'', go_size BPFEventHdr), (''MispredCount'', 8)]"

definition BPFProcessLineage :: go_fields where
  "BPFProcessLineage =
     [(''ParentPid'', 4), (''ExpectedUid'', 4), (''SetuidAllowed'', 1), (''SuspiciousAncestor'', 1),
      (''SocketRedirected'', 1), (''Pad'', 1), (''AncestorFilename'', 256)]"

definition BPFPtraceEvent :: go_fields where
  "BPFPtraceEvent =
     [(''Hdr'', go_size BPFEventHdr), (''TargetPid'', 4), (''Mode'', 4), (''CallerComm'', 64),
      (''TargetComm'', 64)]"

definition BPFScratchBuffer :: go_fields where
  "BPFScratchBuffer = [(''Primary'', 256), (''Walk'', 256), (''Lin'', go_size BPFProcessLineage)]"

definition BPFVmReadWriteEvent :: go_fields where
  "BPFVmReadWriteEvent =
     [(''Hdr'', go_size BPFEventHdr), (''TargetPid'', 4), (''_'', 4), (''NrSegs'', 8), (''Len'', 8),
      (''TargetComm'', 16)]"

lemmas go_struct_defs =
  BPFEventHdr_def BPFBpfProgLoadEvent_def BPFCapEvent_def BPFConnectEvent_def BPFDnsAnswerEvent_def
  BPFExecEvent_def BPFIouringEvent_def BPFKmodEvent_def BPFLpeEvent_def BPFMprotectEvent_def
  BPFNsChangeEvent_def BPFOpenEvent_def BPFPmuEvent_def BPFPtraceEvent_def BPFVmReadWriteEvent_def

section \<open>The structs that are map keys and values\<close>

definition process_lineage_fields :: cfields where
  "process_lineage_fields =
     [(''parent_pid'', c_u32), (''expected_uid'', c_u32), (''setuid_allowed'', c_u8),
      (''suspicious_ancestor'', c_u8), (''socket_redirected'', c_u8), (''_pad'', c_arr 1 c_u8),
      (''ancestor_filename'', c_arr 256 c_u8)]"

definition scratch_buffer_fields :: cfields where
  "scratch_buffer_fields =
     [(''primary'', c_arr 256 c_u8), (''walk'', c_arr 256 c_u8),
      (''lin'', c_struct_ty process_lineage_fields)]"

definition exec_scratch_fields :: cfields where
  "exec_scratch_fields = [(''args'', c_arr 256 c_u8)]"

definition file_id_fields :: cfields where
  "file_id_fields = [(''dev'', c_u64), (''ino'', c_u64)]"

definition lpm_prefix_key_fields :: cfields where
  "lpm_prefix_key_fields = [(''prefixlen'', c_u32), (''basename'', c_arr 256 c_u8)]"

definition dns_tx_key_fields :: cfields where
  "dns_tx_key_fields = [(''resolver_ip'', c_u32), (''client_port'', c_u16), (''txid'', c_u16)]"

definition dns_tx_val_fields :: cfields where
  "dns_tx_val_fields = [(''qname'', c_arr 128 c_u8), (''cgroup_id'', c_u64)]"

section \<open>The two layouts compared\<close>

text \<open>The exported Go name of a C member: the words between underscores, each capitalised.\<close>

definition to_upper :: "char \<Rightarrow> char" where
  "to_upper c = (let n = of_char c :: nat in if 97 \<le> n \<and> n \<le> 122 then char_of (n - 32) else c)"

fun camel :: "bool \<Rightarrow> string \<Rightarrow> string" where
  "camel up [] = []"
| "camel up (c # cs) =
     (if c = CHR ''_'' then camel True cs else (if up then to_upper c else c) # camel False cs)"

fun go_offsets :: "nat \<Rightarrow> go_fields \<Rightarrow> (string \<times> nat \<times> nat) list" where
  "go_offsets off [] = []"
| "go_offsets off ((f, n) # gs) =
     (if f = ''_'' then go_offsets (off + n) gs else (f, off, n) # go_offsets (off + n) gs)"

definition c_members :: "cfields \<Rightarrow> (string \<times> nat \<times> nat) list" where
  "c_members fs = map2 (\<lambda>(f, off) (_, s, _). (camel True f, off, s)) (offsets 0 fs) fs"

definition bindings_agree :: "cfields \<times> go_fields \<Rightarrow> bool" where
  "bindings_agree p \<longleftrightarrow>
     c_members (fst p) = go_offsets 0 (snd p) \<and> struct_size (fst p) = go_size (snd p)"

definition bindings :: "(cfields \<times> go_fields) list" where
  "bindings =
     [(event_hdr_fields, BPFEventHdr), (exec_event_fields, BPFExecEvent),
      (connect_event_fields, BPFConnectEvent), (open_event_fields, BPFOpenEvent),
      (ptrace_event_fields, BPFPtraceEvent), (kmod_event_fields, BPFKmodEvent),
      (iouring_event_fields, BPFIouringEvent), (lpe_event_fields, BPFLpeEvent),
      (pmu_event_fields, BPFPmuEvent), (ns_change_event_fields, BPFNsChangeEvent),
      (dns_answer_event_fields, BPFDnsAnswerEvent), (mprotect_event_fields, BPFMprotectEvent),
      (cap_event_fields, BPFCapEvent), (bpf_prog_load_event_fields, BPFBpfProgLoadEvent),
      (vm_read_write_event_fields, BPFVmReadWriteEvent),
      (process_lineage_fields, BPFProcessLineage), (scratch_buffer_fields, BPFScratchBuffer),
      (exec_scratch_fields, BPFExecScratch), (file_id_fields, BPFFileId),
      (lpm_prefix_key_fields, BPFLpmPrefixKey), (dns_tx_key_fields, BPFDnsTxKey),
      (dns_tx_val_fields, BPFDnsTxVal)]"

lemmas binding_defs =
  bindings_agree_def c_members_def go_size_def to_upper_def char_of_def bit_0 Let_def layout_defs
  go_struct_defs hdr_ty_eval

lemma event_bindings_agree:
  "bindings_agree (event_hdr_fields, BPFEventHdr)"
  "bindings_agree (exec_event_fields, BPFExecEvent)"
  "bindings_agree (connect_event_fields, BPFConnectEvent)"
  "bindings_agree (open_event_fields, BPFOpenEvent)"
  "bindings_agree (ptrace_event_fields, BPFPtraceEvent)"
  "bindings_agree (kmod_event_fields, BPFKmodEvent)"
  "bindings_agree (iouring_event_fields, BPFIouringEvent)"
  "bindings_agree (lpe_event_fields, BPFLpeEvent)"
  "bindings_agree (pmu_event_fields, BPFPmuEvent)"
  "bindings_agree (ns_change_event_fields, BPFNsChangeEvent)"
  "bindings_agree (dns_answer_event_fields, BPFDnsAnswerEvent)"
  "bindings_agree (mprotect_event_fields, BPFMprotectEvent)"
  "bindings_agree (cap_event_fields, BPFCapEvent)"
  "bindings_agree (bpf_prog_load_event_fields, BPFBpfProgLoadEvent)"
  "bindings_agree (vm_read_write_event_fields, BPFVmReadWriteEvent)"
  by (simp_all add: binding_defs event_hdr_fields_def exec_event_fields_def connect_event_fields_def
      open_event_fields_def ptrace_event_fields_def kmod_event_fields_def iouring_event_fields_def
      lpe_event_fields_def pmu_event_fields_def ns_change_event_fields_def
      dns_answer_event_fields_def mprotect_event_fields_def cap_event_fields_def
      bpf_prog_load_event_fields_def vm_read_write_event_fields_def)

lemma map_bindings_agree:
  "bindings_agree (process_lineage_fields, BPFProcessLineage)"
  "bindings_agree (scratch_buffer_fields, BPFScratchBuffer)"
  "bindings_agree (exec_scratch_fields, BPFExecScratch)"
  "bindings_agree (file_id_fields, BPFFileId)"
  "bindings_agree (lpm_prefix_key_fields, BPFLpmPrefixKey)"
  "bindings_agree (dns_tx_key_fields, BPFDnsTxKey)"
  "bindings_agree (dns_tx_val_fields, BPFDnsTxVal)"
  by (simp_all add: binding_defs process_lineage_fields_def BPFProcessLineage_def
      scratch_buffer_fields_def BPFScratchBuffer_def exec_scratch_fields_def BPFExecScratch_def
      file_id_fields_def BPFFileId_def lpm_prefix_key_fields_def BPFLpmPrefixKey_def
      dns_tx_key_fields_def BPFDnsTxKey_def dns_tx_val_fields_def BPFDnsTxVal_def)

text \<open>
  The generated bindings describe the structs of the BPF object. For every struct the two sides
  share, the Go struct read without alignment has the same members in the same order, each at the
  offset and with the size the C layout gives it, and the same total size: the blank fields stand
  exactly where the compiler pads.
\<close>

theorem bindings_match: "list_all bindings_agree bindings"
  by (simp add: bindings_def event_bindings_agree map_bindings_agree)

section \<open>Reading a sample\<close>

text \<open>
  \<open>binary.Read(bytes.NewReader(raw), binary.LittleEndian, &v)\<close>: an error when the record is
  shorter than the struct, otherwise the members cut off one after the other; bytes behind the
  struct are ignored.
\<close>

fun go_split :: "go_fields \<Rightarrow> bytes \<Rightarrow> (string \<times> bytes) list" where
  "go_split [] raw = []"
| "go_split ((f, n) # gs) raw = (f, take n raw) # go_split gs (drop n raw)"

definition binary_Read :: "go_fields \<Rightarrow> ((string \<Rightarrow> bytes) \<Rightarrow> 'a) \<Rightarrow> bytes \<Rightarrow> 'a option" where
  "binary_Read gs dec raw =
     (if length raw < go_size gs then None
      else Some (dec (\<lambda>f. case map_of (go_split gs raw) f of Some b \<Rightarrow> b | None \<Rightarrow> [])))"

definition le_word :: "bytes \<Rightarrow> 'a::len word" where
  "le_word bs = word_of_nat (le_val bs)"

definition BPFEventHdr_of :: "(string \<Rightarrow> bytes) \<Rightarrow> event_hdr" where
  "BPFEventHdr_of m =
     \<lparr>eh_timestamp_ns = le_word (m ''TimestampNs''), eh_pid = le_word (m ''Pid''),
      eh_ppid = le_word (m ''Ppid''), eh_uid = le_word (m ''Uid''), eh_gid = le_word (m ''Gid''),
      eh_cgroup_id = le_word (m ''CgroupId''), eh_event_type = le_word (m ''EventType''),
      eh_comm = m ''Comm'', eh_ancestor_suspicious = le_word (m ''AncestorSuspicious''),
      eh_ancestor_filename = m ''AncestorFilename'', eh_exe_dev = le_word (m ''ExeDev''),
      eh_exe_ino = le_word (m ''ExeIno''), eh_parent_exe_dev = le_word (m ''ParentExeDev''),
      eh_parent_exe_ino = le_word (m ''ParentExeIno''), eh_ret = le_word (m ''Ret'')\<rparr>"

definition go_hdr :: "(string \<Rightarrow> bytes) \<Rightarrow> event_hdr" where
  "go_hdr m =
     BPFEventHdr_of (\<lambda>f. case map_of (go_split BPFEventHdr (m ''Hdr'')) f of Some b \<Rightarrow> b | None \<Rightarrow> [])"

definition read_hdr :: "bytes \<Rightarrow> event_hdr option" where
  "read_hdr = binary_Read BPFEventHdr BPFEventHdr_of"

definition read_exec :: "bytes \<Rightarrow> exec_event option" where
  "read_exec = binary_Read BPFExecEvent (\<lambda>m.
     \<lparr>ex_hdr = go_hdr m, ex_filename = m ''Filename'', ex_args = m ''Args'',
      ex_isFileless = le_word (m ''IsFileless''), ex_path_truncated = le_word (m ''PathTruncated'')\<rparr>)"

definition read_connect :: "bytes \<Rightarrow> connect_event option" where
  "read_connect = binary_Read BPFConnectEvent (\<lambda>m.
     \<lparr>cn_hdr = go_hdr m, cn_daddr = le_word (m ''Daddr''), cn_daddr6 = m ''Daddr6'',
      cn_dport = le_word (m ''Dport''), cn_family = le_word (m ''Family''),
      cn_unix_path = m ''UnixPath''\<rparr>)"

definition read_open :: "bytes \<Rightarrow> open_event option" where
  "read_open = binary_Read BPFOpenEvent (\<lambda>m.
     \<lparr>op_hdr = go_hdr m, op_filename = m ''Filename'',
      op_isFileless = le_word (m ''IsFileless''), op_path_truncated = le_word (m ''PathTruncated'')\<rparr>)"

definition read_ptrace :: "bytes \<Rightarrow> ptrace_event option" where
  "read_ptrace = binary_Read BPFPtraceEvent (\<lambda>m.
     \<lparr>pt_hdr = go_hdr m, pt_target_pid = le_word (m ''TargetPid''), pt_mode = le_word (m ''Mode''),
      pt_caller_comm = m ''CallerComm'', pt_target_comm = m ''TargetComm''\<rparr>)"

definition read_kmod :: "bytes \<Rightarrow> kmod_event option" where
  "read_kmod = binary_Read BPFKmodEvent (\<lambda>m.
     \<lparr>km_hdr = go_hdr m, km_load_type = le_word (m ''LoadType'')\<rparr>)"

definition read_iouring :: "bytes \<Rightarrow> iouring_event option" where
  "read_iouring = binary_Read BPFIouringEvent (\<lambda>m.
     \<lparr>io_hdr = go_hdr m, io_opcode = le_word (m ''Opcode''), io_filename = m ''Filename''\<rparr>)"

definition read_lpe :: "bytes \<Rightarrow> lpe_event option" where
  "read_lpe = binary_Read BPFLpeEvent (\<lambda>m.
     \<lparr>lp_hdr = go_hdr m, lp_old_uid = le_word (m ''OldUid''), lp_new_uid = le_word (m ''NewUid'')\<rparr>)"

definition read_pmu :: "bytes \<Rightarrow> pmu_event option" where
  "read_pmu = binary_Read BPFPmuEvent (\<lambda>m.
     \<lparr>pm_hdr = go_hdr m, pm_mispred_count = le_word (m ''MispredCount'')\<rparr>)"

definition read_ns_change :: "bytes \<Rightarrow> ns_change_event option" where
  "read_ns_change = binary_Read BPFNsChangeEvent (\<lambda>m.
     \<lparr>ns_hdr = go_hdr m, ns_flags = le_word (m ''Flags''), ns_nstype = le_word (m ''Nstype''),
      ns_op = le_word (m ''Op'')\<rparr>)"

definition read_dns_answer :: "bytes \<Rightarrow> dns_answer_event option" where
  "read_dns_answer = binary_Read BPFDnsAnswerEvent (\<lambda>m.
     \<lparr>da_hdr = go_hdr m, da_daddr = le_word (m ''Daddr''), da_daddr6 = m ''Daddr6'',
      da_family = le_word (m ''Family''), da_qname = m ''Qname''\<rparr>)"

definition read_mprotect :: "bytes \<Rightarrow> mprotect_event option" where
  "read_mprotect = binary_Read BPFMprotectEvent (\<lambda>m.
     \<lparr>mp_hdr = go_hdr m, mp_req_prot = le_word (m ''ReqProt''), mp_prot = le_word (m ''Prot'')\<rparr>)"

definition read_cap :: "bytes \<Rightarrow> cap_event option" where
  "read_cap = binary_Read BPFCapEvent (\<lambda>m.
     \<lparr>cp_hdr = go_hdr m, cp_cap = le_word (m ''Cap''), cp_is_container = le_word (m ''IsContainer'')\<rparr>)"

definition read_bpf_prog_load :: "bytes \<Rightarrow> bpf_prog_load_event option" where
  "read_bpf_prog_load = binary_Read BPFBpfProgLoadEvent (\<lambda>m.
     \<lparr>bl_hdr = go_hdr m, bl_prog_type = le_word (m ''ProgType''),
      bl_attach_type = le_word (m ''AttachType''), bl_prog_name = m ''ProgName''\<rparr>)"

definition read_vm_read_write :: "bytes \<Rightarrow> vm_read_write_event option" where
  "read_vm_read_write = binary_Read BPFVmReadWriteEvent (\<lambda>m.
     \<lparr>vm_hdr = go_hdr m, vm_target_pid = le_word (m ''TargetPid''),
      vm_nr_segs = le_word (m ''NrSegs''), vm_len = le_word (m ''Len''),
      vm_target_comm = m ''TargetComm''\<rparr>)"

lemmas read_defs =
  read_hdr_def read_exec_def read_connect_def read_open_def read_ptrace_def read_kmod_def
  read_iouring_def read_lpe_def read_pmu_def read_ns_change_def read_dns_answer_def
  read_mprotect_def read_cap_def read_bpf_prog_load_def read_vm_read_write_def

section \<open>The image of a sample\<close>

text \<open>
  What assigning every member leaves in the reserved memory: each member's bytes at its offset, the
  padding as it was. The header is cleared as a whole before its members are set.
\<close>

fun store_members :: "(string \<times> nat) list \<Rightarrow> bytes list \<Rightarrow> bytes \<Rightarrow> bytes" where
  "store_members ((f, off) # offs) (v # vs) buf = store_members offs vs (blit buf off v)"
| "store_members _ _ buf = buf"

definition enc :: "nat \<Rightarrow> 'a::len word \<Rightarrow> bytes" where
  "enc n w = le_bytes n (unat w)"

definition hdr_members :: "event_hdr \<Rightarrow> bytes list" where
  "hdr_members h =
     [enc 8 (eh_timestamp_ns h), enc 4 (eh_pid h), enc 4 (eh_ppid h), enc 4 (eh_uid h),
      enc 4 (eh_gid h), enc 8 (eh_cgroup_id h), enc 4 (eh_event_type h), eh_comm h,
      enc 1 (eh_ancestor_suspicious h), eh_ancestor_filename h, enc 8 (eh_exe_dev h),
      enc 8 (eh_exe_ino h), enc 8 (eh_parent_exe_dev h), enc 8 (eh_parent_exe_ino h),
      enc 4 (eh_ret h)]"

definition hdr_image :: "event_hdr \<Rightarrow> bytes" where
  "hdr_image h =
     store_members (offsets 0 event_hdr_fields) (hdr_members h) (zeros (struct_size event_hdr_fields))"

fun event_members :: "event \<Rightarrow> bytes list" where
  "event_members (ExecEv e) =
     [hdr_image (ex_hdr e), ex_filename e, ex_args e, enc 1 (ex_isFileless e),
      enc 1 (ex_path_truncated e)]"
| "event_members (ConnectEv e) =
     [hdr_image (cn_hdr e), enc 4 (cn_daddr e), cn_daddr6 e, enc 2 (cn_dport e),
      enc 2 (cn_family e), cn_unix_path e]"
| "event_members (OpenEv e) =
     [hdr_image (op_hdr e), op_filename e, enc 1 (op_isFileless e), enc 1 (op_path_truncated e)]"
| "event_members (PtraceEv e) =
     [hdr_image (pt_hdr e), enc 4 (pt_target_pid e), enc 4 (pt_mode e), pt_caller_comm e,
      pt_target_comm e]"
| "event_members (KmodEv e) = [hdr_image (km_hdr e), enc 4 (km_load_type e)]"
| "event_members (IouringEv e) = [hdr_image (io_hdr e), enc 1 (io_opcode e), io_filename e]"
| "event_members (LpeEv e) = [hdr_image (lp_hdr e), enc 4 (lp_old_uid e), enc 4 (lp_new_uid e)]"
| "event_members (PmuEv e) = [hdr_image (pm_hdr e), enc 8 (pm_mispred_count e)]"
| "event_members (NsChangeEv e) =
     [hdr_image (ns_hdr e), enc 8 (ns_flags e), enc 4 (ns_nstype e), enc 4 (ns_op e)]"
| "event_members (DnsAnswerEv e) =
     [hdr_image (da_hdr e), enc 4 (da_daddr e), da_daddr6 e, enc 2 (da_family e), da_qname e]"
| "event_members (MprotectEv e) = [hdr_image (mp_hdr e), enc 8 (mp_req_prot e), enc 8 (mp_prot e)]"
| "event_members (CapEv e) = [hdr_image (cp_hdr e), enc 4 (cp_cap e), enc 1 (cp_is_container e)]"
| "event_members (BpfProgLoadEv e) =
     [hdr_image (bl_hdr e), enc 4 (bl_prog_type e), enc 4 (bl_attach_type e), bl_prog_name e]"
| "event_members (VmReadWriteEv e) =
     [hdr_image (vm_hdr e), enc 4 (vm_target_pid e), enc 8 (vm_nr_segs e), enc 8 (vm_len e),
      vm_target_comm e]"

fun event_fields :: "event \<Rightarrow> cfields" where
  "event_fields (ExecEv _) = exec_event_fields"
| "event_fields (ConnectEv _) = connect_event_fields"
| "event_fields (OpenEv _) = open_event_fields"
| "event_fields (PtraceEv _) = ptrace_event_fields"
| "event_fields (KmodEv _) = kmod_event_fields"
| "event_fields (IouringEv _) = iouring_event_fields"
| "event_fields (LpeEv _) = lpe_event_fields"
| "event_fields (PmuEv _) = pmu_event_fields"
| "event_fields (NsChangeEv _) = ns_change_event_fields"
| "event_fields (DnsAnswerEv _) = dns_answer_event_fields"
| "event_fields (MprotectEv _) = mprotect_event_fields"
| "event_fields (CapEv _) = cap_event_fields"
| "event_fields (BpfProgLoadEv _) = bpf_prog_load_event_fields"
| "event_fields (VmReadWriteEv _) = vm_read_write_event_fields"

text \<open>\<open>mem\<close> is the reserved memory before the members are stored.\<close>

definition sample_image :: "bytes \<Rightarrow> event \<Rightarrow> bytes" where
  "sample_image mem e = store_members (offsets 0 (event_fields e)) (event_members e) mem"

section \<open>Members read back\<close>

lemma length_store_members [simp, kg_len]: "length (store_members offs vs buf) = length buf"
  by (induction offs vs buf rule: store_members.induct) auto

lemma length_enc [simp, kg_len]: "length (enc n w) = n"
  by (simp add: enc_def)

lemma le_word_enc: "LENGTH('a::len) = 8 * n \<Longrightarrow> le_word (enc n (w :: 'a word)) = w"
proof -
  assume l: "LENGTH('a) = 8 * n"
  have "unat w < 2 ^ LENGTH('a)" by (rule unsigned_less)
  also have "(2 :: nat) ^ LENGTH('a) = 256 ^ n" by (simp add: l power_mult)
  finally show ?thesis by (simp add: le_word_def enc_def le_val_le_bytes)
qed

lemma le_word_enc_widths [simp]:
  "le_word (enc 1 (a :: u8)) = a" "le_word (enc (Suc 0) (a :: u8)) = a"
  "le_word (enc 2 (b :: u16)) = b" "le_word (enc 4 (c :: u32)) = c" "le_word (enc 8 (d :: u64)) = d"
  by (rule le_word_enc; simp)+

text \<open>Storing at the offsets of a layout from \<open>off\<close> on leaves what lies before \<open>off\<close> alone.\<close>

lemma take_store_members:
  assumes "list_all (\<lambda>(f, s, a). 0 < a) fs" "struct_end off fs \<le> length buf"
    and "list_all2 (\<lambda>(f, s, a) v. length v = s) fs vs" "k \<le> off"
  shows "take k (store_members (offsets off fs) vs buf) = take k buf"
  using assms
proof (induction off fs arbitrary: vs buf rule: offsets.induct)
  case (2 off f s a fs)
  then obtain v ws where vs: "vs = v # ws" "length v = s" "list_all2 (\<lambda>(f, s, a) v. length v = s) fs ws"
    by (auto simp: list_all2_Cons1)
  have a: "off \<le> align_up off a" using 2(2) by (simp add: align_up_ge)
  have e: "align_up off a + s \<le> length buf"
    using 2(2,3) struct_end_ge [of fs "align_up off a + s"] by simp
  have "take k (store_members (offsets (align_up off a + s) fs) ws (blit buf (align_up off a) v))
      = take k (blit buf (align_up off a) v)"
    using 2 a vs by (intro 2(1)) auto
  also have "\<dots> = take k buf" using a e 2(5) by (simp add: blit_def)
  finally show ?case by (simp add: vs(1))
qed simp

text \<open>Each member is read back at its offset.\<close>

lemma store_members_read:
  assumes "list_all (\<lambda>(f, s, a). 0 < a) fs" "struct_end off fs \<le> length buf"
    and "list_all2 (\<lambda>(f, s, a) v. length v = s) fs vs"
  shows "map2 (\<lambda>(f, i) v. take (length v) (drop i (store_members (offsets off fs) vs buf)))
           (offsets off fs) vs = vs"
  using assms
proof (induction off fs arbitrary: vs buf rule: offsets.induct)
  case (2 off f s a fs)
  then obtain v ws where vs: "vs = v # ws" "length v = s" "list_all2 (\<lambda>(f, s, a) v. length v = s) fs ws"
    by (auto simp: list_all2_Cons1)
  let ?o = "align_up off a"
  let ?img = "store_members (offsets (?o + s) fs) ws (blit buf ?o v)"
  have e: "?o + s \<le> length buf"
    using 2(2,3) struct_end_ge [of fs "?o + s"] by simp
  have "take (?o + s) ?img = take (?o + s) (blit buf ?o v)"
    using 2(2,3) vs by (intro take_store_members) auto
  then have "take s (drop ?o ?img) = take s (drop ?o (blit buf ?o v))"
    by (metis add_diff_cancel_left' drop_take)
  also have "\<dots> = v" using e vs(2) by (simp add: blit_def)
  finally have "take s (drop ?o ?img) = v" .
  moreover have "map2 (\<lambda>(f, i) v. take (length v) (drop i ?img)) (offsets (?o + s) fs) ws = ws"
    using 2(2,3) vs by (intro 2(1)) auto
  ultimately show ?case by (simp add: vs(1,2))
qed simp

lemma go_split_take:
  "sum_list (map snd gs) \<le> n \<Longrightarrow> go_split gs (take n raw) = go_split gs raw"
proof (induction gs raw arbitrary: n rule: go_split.induct)
  case (2 f k gs raw)
  then have "k \<le> n" "sum_list (map snd gs) \<le> n - k" by simp_all
  moreover have "drop k (take n raw) = take (n - k) (drop k raw)" by (rule drop_take)
  ultimately show ?case using 2(1) by (simp add: min.absorb1)
qed simp

section \<open>Every struct round trips\<close>

lemma struct_end_le_size: "struct_end 0 fs \<le> struct_size fs"
  unfolding struct_size_def by (rule align_up_ge) (rule struct_align_pos)

lemma sample_reads:
  assumes "struct_size (event_fields e) \<le> length mem" "list_all (\<lambda>(f, s, a). 0 < a) (event_fields e)"
    and "list_all2 (\<lambda>(f, s, a) v. length v = s) (event_fields e) (event_members e)"
  shows "map2 (\<lambda>(f, i) v. take (length v) (drop i (sample_image mem e)))
           (offsets 0 (event_fields e)) (event_members e) = event_members e"
  unfolding sample_image_def
  using order.trans [OF struct_end_le_size assms(1)] assms(2,3) by (intro store_members_read)

lemma length_sample_image [simp, kg_len]: "length (sample_image mem e) = length mem"
  by (simp add: sample_image_def)

lemma hdr_size_eval: "struct_size event_hdr_fields = 352"
  using hdr_ty_eval by (simp add: hdr_ty_def c_struct_ty_def)

lemma length_hdr_image [simp, kg_len]: "length (hdr_image h) = 352"
  by (simp add: hdr_image_def hdr_size_eval)

lemma hdr_image_reads:
  assumes "hdr_wf h"
  shows "map2 (\<lambda>(f, i) v. take (length v) (drop i (hdr_image h)))
           (offsets 0 event_hdr_fields) (hdr_members h) = hdr_members h"
  unfolding hdr_image_def
proof (rule store_members_read)
  show "struct_end 0 event_hdr_fields \<le> length (zeros (struct_size event_hdr_fields))"
    by (simp add: struct_end_le_size)
  show "list_all2 (\<lambda>(f, s, a) v. length v = s) event_hdr_fields (hdr_members h)"
    using assms by (simp add: event_hdr_fields_def hdr_members_def hdr_wf_def layout_defs)
qed (rule hdr_layout.aligned_members)

lemma go_hdr_image:
  assumes "hdr_wf h" "m ''Hdr'' = hdr_image h"
  shows "go_hdr m = h"
  using hdr_image_reads [OF assms(1)] assms
  by (simp add: go_hdr_def BPFEventHdr_of_def BPFEventHdr_def event_hdr_fields_def hdr_members_def
      hdr_wf_def layout_defs)

lemmas reader_simps =
  binary_Read_def go_size_def go_struct_defs layout_defs hdr_ty_eval drop_drop add.commute

lemmas event_fields_defs =
  exec_event_fields_def connect_event_fields_def open_event_fields_def ptrace_event_fields_def
  kmod_event_fields_def iouring_event_fields_def lpe_event_fields_def pmu_event_fields_def
  ns_change_event_fields_def dns_answer_event_fields_def mprotect_event_fields_def cap_event_fields_def
  bpf_prog_load_event_fields_def vm_read_write_event_fields_def

lemma event_members_sized:
  assumes "event_wf e"
  shows "list_all (\<lambda>(f, s, a). 0 < a) (event_fields e)"
    and "list_all2 (\<lambda>(f, s, a) v. length v = s) (event_fields e) (event_members e)"
  using assms by (cases e; simp add: event_wf_def event_fields_defs layout_defs hdr_ty_eval)+

lemma sample_member_reads:
  assumes "event_wf e" "struct_size (event_fields e) \<le> length mem"
  shows "map2 (\<lambda>(f, i) v. take (length v) (drop i (sample_image mem e)))
           (offsets 0 (event_fields e)) (event_members e) = event_members e"
  using assms by (intro sample_reads event_members_sized)

text \<open>The reader of the struct an event is a sample of.\<close>

fun read_as :: "event \<Rightarrow> bytes \<Rightarrow> event option" where
  "read_as (ExecEv _) raw = map_option ExecEv (read_exec raw)"
| "read_as (ConnectEv _) raw = map_option ConnectEv (read_connect raw)"
| "read_as (OpenEv _) raw = map_option OpenEv (read_open raw)"
| "read_as (PtraceEv _) raw = map_option PtraceEv (read_ptrace raw)"
| "read_as (KmodEv _) raw = map_option KmodEv (read_kmod raw)"
| "read_as (IouringEv _) raw = map_option IouringEv (read_iouring raw)"
| "read_as (LpeEv _) raw = map_option LpeEv (read_lpe raw)"
| "read_as (PmuEv _) raw = map_option PmuEv (read_pmu raw)"
| "read_as (NsChangeEv _) raw = map_option NsChangeEv (read_ns_change raw)"
| "read_as (DnsAnswerEv _) raw = map_option DnsAnswerEv (read_dns_answer raw)"
| "read_as (MprotectEv _) raw = map_option MprotectEv (read_mprotect raw)"
| "read_as (CapEv _) raw = map_option CapEv (read_cap raw)"
| "read_as (BpfProgLoadEv _) raw = map_option BpfProgLoadEv (read_bpf_prog_load raw)"
| "read_as (VmReadWriteEv _) raw = map_option VmReadWriteEv (read_vm_read_write raw)"

lemma read_as_image:
  assumes "event_wf e" "struct_size (event_fields e) \<le> length mem"
  shows "read_as e (sample_image mem e) = Some e"
  using sample_member_reads [OF assms] assms
  by (cases e; simp add: read_defs event_fields_defs reader_simps event_wf_def go_hdr_image)

lemma read_hdr_image:
  assumes "event_wf e" "struct_size (event_fields e) \<le> length mem"
  shows "read_hdr (sample_image mem e) = Some (hdr_of e)"
proof -
  have t: "take 352 (sample_image mem e) = hdr_image (hdr_of e)" "352 \<le> length mem"
    using sample_member_reads [OF assms] assms(2)
    by (cases e; simp add: event_fields_defs layout_defs hdr_ty_eval)+
  have "go_split BPFEventHdr (sample_image mem e) = go_split BPFEventHdr (hdr_image (hdr_of e))"
    using go_split_take [of BPFEventHdr 352 "sample_image mem e"] by (simp add: t BPFEventHdr_def)
  moreover have "go_hdr (\<lambda>_. hdr_image (hdr_of e)) = hdr_of e"
    using assms(1) by (intro go_hdr_image) (simp_all add: event_wf_def)
  ultimately show ?thesis
    using t(2) by (simp add: read_hdr_def binary_Read_def go_hdr_def go_size_def BPFEventHdr_def)
qed

text \<open>
  C6: what a sensor submits is what user space decodes. The sample of a well-formed event, stored
  member by member into reserved memory with arbitrary old contents, reads back through the Go
  header struct as the event's header and through the Go struct of its type as the event itself,
  and a record cut short of the struct is an error.
\<close>

theorem sample_roundtrip:
  assumes "event_wf e" "length mem = struct_size (event_fields e)"
  shows "read_hdr (sample_image mem e) = Some (hdr_of e) \<and>
         read_as e (sample_image mem e) = Some e \<and>
         (\<forall>n < length mem. read_as e (take n (sample_image mem e)) = None)"
proof (intro conjI allI impI)
  fix n assume "n < length mem"
  then show "read_as e (take n (sample_image mem e)) = None"
    unfolding assms(2)
    by (cases e; simp add: assms(2) read_defs event_fields_defs reader_simps)
qed (use assms in \<open>simp_all add: read_hdr_image read_as_image\<close>)

definition lpe_sample :: event where
  "lpe_sample = LpeEv \<lparr>lp_hdr = event_hdr_zero \<lparr>eh_event_type := EVENT_LPE_BLOCKED, eh_pid := 77\<rparr>,
                       lp_old_uid = 1000, lp_new_uid = 0\<rparr>"

theorem sample_roundtrip_witness:
  "event_wf lpe_sample \<and> read_as lpe_sample (sample_image (replicate 360 0xAA) lpe_sample) = Some lpe_sample"
proof -
  have wf: "event_wf lpe_sample"
    by (simp add: lpe_sample_def event_wf_def hdr_wf_def event_hdr_zero_def)
  have "length (replicate 360 (0xAA :: u8)) = struct_size (event_fields lpe_sample)"
    by (simp add: lpe_sample_def lpe_event_fields_def layout_defs hdr_ty_eval)
  from sample_roundtrip [OF wf this] wf show ?thesis by blast
qed

end
