(* ===== verification/KG_Text.thy ===== *)
theory KG_Text
  imports KG_Wire
begin

text \<open>
  The string functions of the event decoder (\<open>internal/processor/event.go\<close>) and what they use of
  Go's standard library: C strings, the argument block, DNS names in wire form, \<open>filepath.Clean\<close>,
  \<open>bytes.TrimSpace\<close>, \<open>strings.Join\<close>. Go strings are byte lists. The lemmas tie each function to
  what the kernel side stored: the argument block of \<open>read_process_args\<close>, the question name of the
  DNS programs.
\<close>

type_synonym gostring = bytes

section \<open>C strings and joined strings\<close>

fun int8ToString :: "bytes \<Rightarrow> gostring" where
  "int8ToString [] = []"
| "int8ToString (v # vs) = (if v = 0 then [] else v # int8ToString vs)"

lemma int8ToString_cstr: "int8ToString bs = cstr bs"
  by (induction bs) (simp_all add: cstr_def)

fun strings_Join :: "gostring \<Rightarrow> gostring list \<Rightarrow> gostring" where
  "strings_Join sep [] = []"
| "strings_Join sep [s] = s"
| "strings_Join sep (s # t # ss) = s @ sep @ strings_Join sep (t # ss)"

section \<open>White space\<close>

text \<open>
  \<open>unicode.IsSpace\<close> as byte sequences: the six ASCII characters, then the UTF-8 encodings of
  U+0085, U+00A0, U+1680, U+2000 to U+200A, U+2028, U+2029, U+202F, U+205F and U+3000.
\<close>

definition space_seqs :: "bytes list" where
  "space_seqs =
     [[0x09], [0x0A], [0x0B], [0x0C], [0x0D], [0x20], [0xC2, 0x85], [0xC2, 0xA0], [0xE1, 0x9A, 0x80],
      [0xE2, 0x80, 0x80], [0xE2, 0x80, 0x81], [0xE2, 0x80, 0x82], [0xE2, 0x80, 0x83],
      [0xE2, 0x80, 0x84], [0xE2, 0x80, 0x85], [0xE2, 0x80, 0x86], [0xE2, 0x80, 0x87],
      [0xE2, 0x80, 0x88], [0xE2, 0x80, 0x89], [0xE2, 0x80, 0x8A], [0xE2, 0x80, 0xA8],
      [0xE2, 0x80, 0xA9], [0xE2, 0x80, 0xAF], [0xE2, 0x81, 0x9F], [0xE3, 0x80, 0x80]]"

function trim_front :: "bytes list \<Rightarrow> gostring \<Rightarrow> gostring" where
  "trim_front qs bs =
     (case find (\<lambda>q. q \<noteq> [] \<and> prefix q bs) qs of
        None \<Rightarrow> bs
      | Some q \<Rightarrow> trim_front qs (drop (length q) bs))"
  by pat_completeness auto

termination trim_front
proof (relation "measure (length \<circ> snd)")
  fix qs bs and q :: bytes
  assume "find (\<lambda>q. q \<noteq> [] \<and> prefix q bs) qs = Some q"
  then have "q \<noteq> []" "prefix q bs" by (auto simp: find_Some_iff)
  then have "0 < length q" "length q \<le> length bs" by (auto dest: prefix_length_le)
  then have "length bs - length q < length bs" by linarith
  then show "((qs, drop (length q) bs), qs, bs) \<in> measure (length \<circ> snd)" by simp
qed simp

declare trim_front.simps [simp del]

definition bytes_TrimSpace :: "gostring \<Rightarrow> gostring" where
  "bytes_TrimSpace bs =
     rev (trim_front (map rev space_seqs) (rev (trim_front space_seqs bs)))"

section \<open>The argument block\<close>

text \<open>
  \<open>parseArgs\<close>: a NUL becomes a space, a NUL followed by another one ends the loop. The last byte of
  the block has no successor.
\<close>

fun parse_loop :: "bytes \<Rightarrow> gostring" where
  "parse_loop [] = []"
| "parse_loop [v] = (if v = 0 then [0x20] else [v])"
| "parse_loop (v # w # vs) =
     (if v = 0 then (if w = 0 then [] else 0x20 # parse_loop (w # vs)) else v # parse_loop (w # vs))"

definition parseArgs :: "bytes \<Rightarrow> gostring" where
  "parseArgs bs = bytes_TrimSpace (parse_loop bs)"

text \<open>The argument area of a process: its arguments, each terminated.\<close>

definition arg_area :: "gostring list \<Rightarrow> bytes" where
  "arg_area ws = concat (map (\<lambda>w. w @ [0]) ws)"

definition plain_arg :: "gostring \<Rightarrow> bool" where
  "plain_arg w \<longleftrightarrow> w \<noteq> [] \<and> 0 \<notin> set w"

lemma parse_loop_arg:
  "0 \<notin> set w \<Longrightarrow> r \<noteq> [] \<Longrightarrow> parse_loop (w @ r) = w @ parse_loop r"
proof (induction w)
  case (Cons v w)
  then show ?case by (cases "w @ r") auto
qed simp

lemma parse_loop_area:
  assumes "\<forall>w \<in> set ws. plain_arg w" "ws \<noteq> []"
  shows "parse_loop (arg_area ws @ 0 # r) = strings_Join [0x20] ws"
  using assms
proof (induction "[0x20] :: bytes" ws rule: strings_Join.induct)
  case (2 s)
  then show ?case by (simp add: arg_area_def plain_arg_def parse_loop_arg)
next
  case (3 s t ss)
  then obtain c t' where t: "t = c # t'" "c \<noteq> 0" by (cases t) (auto simp: plain_arg_def)
  have "parse_loop (arg_area (s # t # ss) @ 0 # r) = s @ parse_loop (0 # arg_area (t # ss) @ 0 # r)"
    using 3(2) by (simp add: arg_area_def plain_arg_def parse_loop_arg)
  also have "parse_loop (0 # arg_area (t # ss) @ 0 # r) = 0x20 # parse_loop (arg_area (t # ss) @ 0 # r)"
    using t by (simp add: arg_area_def)
  also have "parse_loop (arg_area (t # ss) @ 0 # r) = strings_Join [0x20] (t # ss)" using 3 by simp
  finally show ?case by simp
qed simp

section \<open>DNS names\<close>

text \<open>The loop of \<open>parseDNSQName\<close>: a length byte, then that many bytes; stops at a label that is not one.\<close>

function qname_labels :: "bytes \<Rightarrow> gostring list" where
  "qname_labels [] = []"
| "qname_labels (l # bs) =
     (if l = 0 \<or> 63 < l \<or> length bs < unat l then []
      else take (unat l) bs # qname_labels (drop (unat l) bs))"
  by pat_completeness auto

termination qname_labels
  by (relation "measure length") auto

definition parseDNSQName :: "bytes \<Rightarrow> gostring" where
  "parseDNSQName raw = strings_Join [0x2E] (qname_labels (int8ToString raw))"

definition label_ok :: "gostring \<Rightarrow> bool" where
  "label_ok w \<longleftrightarrow> w \<noteq> [] \<and> length w \<le> 63 \<and> 0 \<notin> set w"

definition wire_labels :: "gostring list \<Rightarrow> bytes" where
  "wire_labels ls = concat (map (\<lambda>w. word_of_nat (length w) # w) ls)"

lemma label_length_byte:
  assumes "label_ok w"
  shows "unat (word_of_nat (length w) :: u8) = length w" "(word_of_nat (length w) :: u8) \<noteq> 0"
    "\<not> 63 < (word_of_nat (length w) :: u8)"
proof -
  show u: "unat (word_of_nat (length w) :: u8) = length w"
    using assms by (simp add: label_ok_def unat_of_nat)
  then show "(word_of_nat (length w) :: u8) \<noteq> 0" using assms by (auto simp: label_ok_def)
  show "\<not> 63 < (word_of_nat (length w) :: u8)"
    using assms u by (simp add: label_ok_def word_less_nat_alt)
qed

lemma wire_labels_no_nul:
  assumes "\<forall>w \<in> set ls. label_ok w"
  shows "0 \<notin> set (wire_labels ls)"
proof -
  have "0 \<notin> set ((word_of_nat (length w) :: u8) # w)" if "w \<in> set ls" for w
    using that assms label_length_byte(2) [of w] by (auto simp: label_ok_def)
  then show ?thesis unfolding wire_labels_def by auto
qed

lemma qname_labels_wire: "\<forall>w \<in> set ls. label_ok w \<Longrightarrow> qname_labels (wire_labels ls) = ls"
  by (induction ls) (auto simp: wire_labels_def label_length_byte)

lemma parseDNSQName_wire:
  assumes "\<forall>w \<in> set ls. label_ok w"
  shows "parseDNSQName (wire_labels ls @ 0 # r) = strings_Join [0x2E] ls"
  using assms
  by (simp add: parseDNSQName_def int8ToString_cstr cstr_append_nul wire_labels_no_nul qname_labels_wire)

section \<open>Paths\<close>

text \<open>
  \<open>filepath.Clean\<close> on Unix: the components between slashes are put on a stack, empty ones and \<open>.\<close>
  are dropped, \<open>..\<close> removes the component before it, or is dropped at the root, or stays in front
  of a relative path. The empty path is \<open>.\<close>.
\<close>

fun components :: "gostring \<Rightarrow> gostring list" where
  "components [] = [[]]"
| "components (c # cs) =
     (if c = 0x2F then [] # components cs
      else (case components cs of [] \<Rightarrow> [[c]] | p # ps \<Rightarrow> (c # p) # ps))"

definition clean_step :: "bool \<Rightarrow> gostring \<Rightarrow> gostring list \<Rightarrow> gostring list" where
  "clean_step rooted c st =
     (if c = [] \<or> c = [0x2E] then st
      else if c = [0x2E, 0x2E] then
        (case st of
           [] \<Rightarrow> if rooted then [] else [c]
         | t # ts \<Rightarrow> if t = [0x2E, 0x2E] then c # st else ts)
      else c # st)"

definition IsAbs :: "gostring \<Rightarrow> bool" where
  "IsAbs p \<longleftrightarrow> p \<noteq> [] \<and> hd p = 0x2F"

definition Clean :: "gostring \<Rightarrow> gostring" where
  "Clean p =
     (let st = fold (clean_step (IsAbs p)) (components p) [];
          body = strings_Join [0x2F] (rev st)
      in if IsAbs p then 0x2F # body else if st = [] then [0x2E] else body)"

text \<open>
  \<open>resolveAbsolutePath\<close>; \<open>eval\<close> is \<open>filepath.EvalSymlinks\<close> of a path below \<open>/proc/<pid>/cwd\<close>, the
  file system of the host.
\<close>

definition resolveAbsolutePath :: "(u32 \<Rightarrow> gostring \<Rightarrow> gostring option) \<Rightarrow> u32 \<Rightarrow> gostring \<Rightarrow> gostring" where
  "resolveAbsolutePath eval pid rawPath =
     (if rawPath = [] then []
      else let clean = Clean rawPath in
        if IsAbs clean then clean
        else case eval pid clean of Some resolved \<Rightarrow> resolved | None \<Rightarrow> clean)"

text \<open>What the stack holds, and paths that are already clean.\<close>

definition proper :: "gostring \<Rightarrow> bool" where
  "proper c \<longleftrightarrow> c \<noteq> [] \<and> 0x2F \<notin> set c"

definition plain :: "gostring \<Rightarrow> bool" where
  "plain c \<longleftrightarrow> proper c \<and> c \<noteq> [0x2E] \<and> c \<noteq> [0x2E, 0x2E]"

lemma components_no_sep: "c \<in> set (components p) \<Longrightarrow> 0x2F \<notin> set c"
  by (induction p arbitrary: c) (auto split: if_splits list.splits)

lemma clean_step_proper:
  "0x2F \<notin> set c \<Longrightarrow> \<forall>x \<in> set st. proper x \<Longrightarrow> \<forall>x \<in> set (clean_step r c st). proper x"
  by (cases st) (auto simp: clean_step_def proper_def)

lemma clean_fold_proper:
  "\<forall>c \<in> set cs. 0x2F \<notin> set c \<Longrightarrow> \<forall>x \<in> set st. proper x \<Longrightarrow> \<forall>x \<in> set (fold (clean_step r) cs st). proper x"
proof (induction cs arbitrary: st)
  case (Cons c cs)
  then have "\<forall>x \<in> set (clean_step r c st). proper x" by (intro clean_step_proper) simp_all
  then show ?case using Cons by simp
qed simp

lemma hd_strings_Join: "cs \<noteq> [] \<Longrightarrow> hd cs \<noteq> [] \<Longrightarrow> strings_Join sep cs \<noteq> [] \<and> hd (strings_Join sep cs) = hd (hd cs)"
  by (induction sep cs rule: strings_Join.induct) auto

lemma IsAbs_Clean: "IsAbs (Clean p) = IsAbs p"
proof (cases "IsAbs p")
  case True
  then show ?thesis by (simp add: Clean_def Let_def) (simp add: IsAbs_def)
next
  case False
  let ?st = "fold (clean_step False) (components p) []"
  have p: "\<forall>x \<in> set ?st. proper x" by (rule clean_fold_proper) (simp_all add: components_no_sep)
  have "\<not> IsAbs (strings_Join [0x2F] (rev ?st))" if "?st \<noteq> []"
  proof -
    have "proper (hd (rev ?st))" using p that by (metis hd_in_set rev_is_Nil_conv set_rev)
    then have "hd (rev ?st) \<noteq> []" "hd (hd (rev ?st)) \<noteq> 0x2F" by (metis proper_def hd_in_set)+
    then show ?thesis
      using hd_strings_Join [of "rev ?st" "[0x2F]"] that by (simp add: IsAbs_def)
  qed
  with False show ?thesis by (simp add: Clean_def Let_def) (simp add: IsAbs_def)
qed

lemma components_app:
  "0x2F \<notin> set c \<Longrightarrow> components (c @ 0x2F # r) = c # components r"
  by (induction c) auto

lemma components_single: "0x2F \<notin> set c \<Longrightarrow> components c = [c]"
  by (induction c) auto

lemma components_Join: "\<forall>c \<in> set cs. plain c \<Longrightarrow> cs \<noteq> [] \<Longrightarrow> components (strings_Join [0x2F] cs) = cs"
  by (induction "[0x2F] :: bytes" cs rule: strings_Join.induct)
    (simp_all add: plain_def proper_def components_app components_single)

lemma clean_fold_plain: "\<forall>c \<in> set cs. plain c \<Longrightarrow> fold (clean_step r) cs st = rev cs @ st"
  by (induction cs arbitrary: st) (simp_all add: plain_def proper_def clean_step_def)

lemma Clean_clean:
  assumes "\<forall>c \<in> set cs. plain c"
  shows "Clean (0x2F # strings_Join [0x2F] cs) = 0x2F # strings_Join [0x2F] cs"
proof (cases "cs = []")
  case True
  then show ?thesis by (simp add: Clean_def IsAbs_def clean_step_def Let_def)
next
  case False
  let ?p = "0x2F # strings_Join [0x2F] cs"
  have "fold (clean_step True) (components ?p) [] = rev cs"
    using assms False by (simp add: components_Join clean_fold_plain) (simp add: clean_step_def clean_fold_plain)
  then show ?thesis by (simp add: Clean_def IsAbs_def Let_def)
qed

lemma resolve_clean:
  assumes "\<forall>c \<in> set cs. plain c"
  shows "resolveAbsolutePath eval pid (0x2F # strings_Join [0x2F] cs) = 0x2F # strings_Join [0x2F] cs"
  by (simp add: resolveAbsolutePath_def Clean_clean [OF assms] Let_def) (simp add: IsAbs_def)

lemma name_bytes_wire: "name_bytes ls = wire_labels ls @ [0]"
  by (simp add: name_bytes_def wire_labels_def)

text \<open>
  Arguments as user space shows them. When the argument area of a new process holds non-empty
  arguments, the block the sensor copies is turned into the arguments joined by single spaces, with
  white space at the two ends removed. But an empty argument ends the text: whatever arguments
  follow it, the result is the same as without them.
\<close>

theorem parseArgs_block:
  assumes "length buf = 256" "ws \<noteq> []" "\<forall>w \<in> set ws. plain_arg w"
    and "mm = core_read (ke_tasks E) (ke_current E) ts_mm" "mm \<noteq> 0"
    and "a = core_read (ke_mms E) mm mm_arg_start" "len = core_read (ke_mms E) mm mm_arg_end - a"
    and "read_bytes (ke_umem E) a (min (unat len) 254) = Some area"
    and "area = arg_area ws \<or> prefix (arg_area (ws @ [[]])) area"
  shows "parseArgs (read_process_args E buf) = bytes_TrimSpace (strings_Join [0x20] ws)"
proof -
  obtain more where area: "area = arg_area ws @ more" "more = [] \<or> hd more = 0"
    using assms(9) by (auto simp: arg_area_def prefix_def)
  have "arg_area ws \<noteq> []" using assms(2) by (cases ws) (auto simp: arg_area_def)
  then have "len \<noteq> 0" using assms(8) area(1) by (auto simp: min_def)
  then have "read_process_args E buf = area @ [0, 0] @ drop (length area + 2) buf"
    using read_process_args_bounded [OF assms(1,4,5,6,7) _ assms(8)] by blast
  then obtain r where "read_process_args E buf = arg_area ws @ 0 # r"
    using area by (cases more) auto
  then show ?thesis using parse_loop_area [OF assms(3,2)] by (simp add: parseArgs_def)
qed

text \<open>\<open>nc "" -e\<close>: the option behind the empty argument is not shown.\<close>

definition kenv_hidden :: kenv where
  "kenv_hidden = kenv_args
     \<lparr>ke_mms := [0x2000 \<mapsto> \<lparr>mm_exe_file = 0, mm_arg_start = 0x500, mm_arg_end = 0x507\<rparr>],
      ke_umem := [0x500 \<mapsto> 0x6E, 0x501 \<mapsto> 0x63, 0x502 \<mapsto> 0, 0x503 \<mapsto> 0, 0x504 \<mapsto> 0x2D, 0x505 \<mapsto> 0x65,
                  0x506 \<mapsto> 0]\<rparr>"

theorem parseArgs_block_witness:
  "parseArgs (read_process_args kenv_hidden (zeros 256)) = bytes_TrimSpace (str ''nc'')"
proof -
  have l: "min (unat (7 :: u64)) 254 = Suc (Suc (Suc (Suc (Suc (Suc (Suc 0))))))" by simp
  have r: "read_bytes (ke_umem kenv_hidden) 0x500 (min (unat (7 :: u64)) 254) =
      Some (arg_area [str ''nc'', [], str ''-e''])"
    by (simp only: l) (simp add: kenv_hidden_def arg_area_def str_def)
  have t: "0x2000 = core_read (ke_tasks kenv_hidden) (ke_current kenv_hidden) ts_mm"
    and a: "0x500 = core_read (ke_mms kenv_hidden) 0x2000 mm_arg_start"
    and e: "7 = core_read (ke_mms kenv_hidden) 0x2000 mm_arg_end - 0x500"
    by (simp_all add: kenv_hidden_def kenv_args_def core_read_def kenv_quiet_def)
  have nz: "(0x2000 :: u64) \<noteq> 0" "length (zeros 256) = 256" "[str ''nc''] \<noteq> []"
    "\<forall>w \<in> set [str ''nc'']. plain_arg w"
    "arg_area [str ''nc'', [], str ''-e''] = arg_area [str ''nc''] \<or>
     prefix (arg_area ([str ''nc''] @ [[]])) (arg_area [str ''nc'', [], str ''-e''])"
    by (simp_all add: plain_arg_def str_def arg_area_def)
  show ?thesis using parseArgs_block [OF nz(2-4) t nz(1) a e r nz(5)] by simp
qed

end
