(* ===== verification/KG_Router.thy ===== *)
theory KG_Router
  imports KG_Text
begin

text \<open>
  The event decoder of \<open>internal/processor/event.go\<close>: \<open>Router.ProcessRawRecord\<close>, the handler table
  and one decoder per event type. A decoder turns a raw sample into the calls it makes on the engine,
  or into an error. Texts built with \<open>fmt.Sprintf\<close> are represented by the format and its arguments;
  addresses by what \<open>net.IP.String\<close> prints, which is the dotted form also for an IPv4 address
  mapped into IPv6. The results of the theory compose the decoder with the kernel side: every sample
  the BPF object can submit is dispatched.
\<close>

section \<open>Event types\<close>

definition EventExec :: u32 where "EventExec = 1"
definition EventExecBlocked :: u32 where "EventExecBlocked = 2"
definition EventConnect :: u32 where "EventConnect = 3"
definition EventOpenSensitive :: u32 where "EventOpenSensitive = 4"
definition EventPtrace :: u32 where "EventPtrace = 5"
definition EventSetuid :: u32 where "EventSetuid = 6"
definition EventModuleLoad :: u32 where "EventModuleLoad = 7"
definition EventMemfd :: u32 where "EventMemfd = 8"
definition EventSensitiveWrite :: u32 where "EventSensitiveWrite = 9"
definition EventWriteBlocked :: u32 where "EventWriteBlocked = 10"
definition EventPtraceBlocked :: u32 where "EventPtraceBlocked = 11"
definition EventKmodBlocked :: u32 where "EventKmodBlocked = 12"
definition EventIoUring :: u32 where "EventIoUring = 13"
definition EventLpeBlocked :: u32 where "EventLpeBlocked = 14"
definition EventBranchMispredict :: u32 where "EventBranchMispredict = 15"
definition EventSendto :: u32 where "EventSendto = 16"
definition EventNsChange :: u32 where "EventNsChange = 17"
definition EventDnsAnswer :: u32 where "EventDnsAnswer = 18"
definition EventReverseShell :: u32 where "EventReverseShell = 19"
definition EventRwxViolation :: u32 where "EventRwxViolation = 20"
definition EventCapabilityChange :: u32 where "EventCapabilityChange = 21"
definition EventBpfProgLoad :: u32 where "EventBpfProgLoad = 22"
definition EventProcessVmRead :: u32 where "EventProcessVmRead = 23"
definition EventProcessVmWrite :: u32 where "EventProcessVmWrite = 24"

lemmas event_type_defs =
  EventExec_def EventExecBlocked_def EventConnect_def EventOpenSensitive_def
  EventPtrace_def EventSetuid_def EventModuleLoad_def EventMemfd_def
  EventSensitiveWrite_def EventWriteBlocked_def EventPtraceBlocked_def EventKmodBlocked_def
  EventIoUring_def EventLpeBlocked_def EventBranchMispredict_def EventSendto_def
  EventNsChange_def EventDnsAnswer_def EventReverseShell_def EventRwxViolation_def
  EventCapabilityChange_def EventBpfProgLoad_def EventProcessVmRead_def EventProcessVmWrite_def

definition event_type_names :: "(u32 \<times> string) list" where
  "event_type_names =
     [(EventExec, ''EXEC''),
      (EventExecBlocked, ''EXEC_BLOCKED''),
      (EventConnect, ''CONNECT''),
      (EventOpenSensitive, ''OPEN_SENSITIVE''),
      (EventPtrace, ''PTRACE''),
      (EventSetuid, ''SETUID''),
      (EventModuleLoad, ''MODULE_LOAD''),
      (EventMemfd, ''MEMFD_CREATE''),
      (EventSensitiveWrite, ''SENSITIVE_WRITE''),
      (EventWriteBlocked, ''WRITE_BLOCKED''),
      (EventPtraceBlocked, ''PTRACE_BLOCKED''),
      (EventKmodBlocked, ''KMOD_BLOCKED''),
      (EventIoUring, ''IO_URING''),
      (EventLpeBlocked, ''LPE_BLOCKED''),
      (EventBranchMispredict, ''BRANCH_MISPREDICT''),
      (EventSendto, ''SENDTO''),
      (EventNsChange, ''NS_CHANGE''),
      (EventDnsAnswer, ''DNS_ANSWER''),
      (EventReverseShell, ''REVERSE_SHELL''),
      (EventRwxViolation, ''RWX_MEM_VIOLATION''),
      (EventCapabilityChange, ''CAP_CHANGE''),
      (EventBpfProgLoad, ''BPF_PROG_LOAD''),
      (EventProcessVmRead, ''PROCESS_VM_READ''),
      (EventProcessVmWrite, ''PROCESS_VM_WRITE'')]"

fun digits :: "nat \<Rightarrow> string" where
  "digits n = (if n < 10 then [char_of (48 + n)] else digits (n div 10) @ [char_of (48 + n mod 10)])"

declare digits.simps [simp del]

definition EventType_String :: "u32 \<Rightarrow> string" where
  "EventType_String t =
     (case map_of event_type_names t of
        Some s \<Rightarrow> s
      | None \<Rightarrow> ''UNKNOWN('' @ digits (unat t) @ '')'')"

section \<open>Decoded events\<close>

record EventMeta =
  m_EventType :: u32
  m_TimestampNs :: u64
  m_PID :: u32
  m_PPID :: u32
  m_UID :: u32
  m_GID :: u32
  m_Comm :: gostring
  m_CgroupID :: u64
  m_AncestorSuspicious :: bool
  m_AncestorFilename :: gostring
  m_ExeDev :: u64
  m_ExeIno :: u64
  m_ParentExeDev :: u64
  m_ParentExeIno :: u64
  m_Ret :: int

record ProcessMeta = EventMeta +
  m_Filename :: gostring
  m_Args :: gostring
  m_PathTruncated :: bool
  m_IsFileless :: bool

definition process_meta :: "EventMeta \<Rightarrow> gostring \<Rightarrow> gostring \<Rightarrow> bool \<Rightarrow> bool \<Rightarrow> ProcessMeta" where
  "process_meta m file args trunc fileless =
     EventMeta.extend m (ProcessMeta.fields file args trunc fileless)"

abbreviation bare_meta :: "EventMeta \<Rightarrow> ProcessMeta" where
  "bare_meta m \<equiv> process_meta m [] [] False False"

record MLRecord =
  ml_Timestamp :: u64
  ml_ParentDev :: u64
  ml_ParentIno :: u64
  ml_ChildDev :: u64
  ml_ChildIno :: u64
  ml_CgroupID :: u64
  ml_EventType :: u32
  ml_UID :: u32

text \<open>What \<open>net.IP.String\<close> prints: four bytes in dotted form, or sixteen in colon form.\<close>

datatype ip_text = Dotted bytes | Colons bytes

definition mapped4 :: "bytes \<Rightarrow> bool" where
  "mapped4 ip \<longleftrightarrow> length ip = 16 \<and> take 12 ip = zeros 10 @ [0xFF, 0xFF]"

definition IP_String :: "bytes \<Rightarrow> ip_text" where
  "IP_String ip = (if length ip = 4 then Dotted ip else if mapped4 ip then Dotted (drop 12 ip) else Colons ip)"

definition isLoopback :: "bytes \<Rightarrow> bool" where
  "isLoopback ip \<longleftrightarrow>
     (case IP_String ip of Dotted b \<Rightarrow> b ! 0 = 127 | Colons b \<Rightarrow> b = zeros 15 @ [1])"

datatype dest =
    DestUnix gostring | DestIP4 ip_text | DestIP6 ip_text | DestNetlink u16 | DestUnknown u16

datatype detail =
    PtraceRequest int | TargetUid int | OpenFlags int | RwxProt u64 u64 | CapName string
  | ProgLoad gostring u32 u32 | VmAccess string u32 gostring u64
  | DroppedBy int u32 gostring | ResolvedDomain gostring bool | Suppressed rule_action
  | PtraceMode u32 u32 gostring | LoadedBy gostring | ViaAncestor gostring | UringOpcode u8
  | UidChange gostring u32 u32 | Mispredictions u64 | NsOperation string u64 u32
  | TextDetail string

text \<open>The calls a decoder makes on the engine, on its correlator and on the map of container cgroups.\<close>

datatype call =
    AnalyzeExec ProcessMeta bool
  | AnalyzeReverseShell ProcessMeta
  | AnalyzeNetworkEgress ProcessMeta string dest u16
  | AddContainerCgroup u64
  | AnalyzeNsChange ProcessMeta u32 u64 u32
  | AnalyzeGeneric ProcessMeta string severity "detail list"
  | RecordFileWrite gostring file_id u32 gostring
  | AnalyzeWriteBlocked ProcessMeta
  | AnalyzePtraceBlocked ProcessMeta gostring u32 u32
  | AnalyzeKmodBlocked ProcessMeta
  | AnalyzeIoUring ProcessMeta u8
  | AnalyzeLpeBlocked ProcessMeta u32 u32
  | AnalyzePmu ProcessMeta u64
  | RecordDNSAnswer u64 ip_text gostring

section \<open>The decoders\<close>

text \<open>
  The environment of the router: symbolic links below \<open>/proc\<close>, the trust set of executables whose
  connections are ignored, and whether the telemetry channel exists and has room.
\<close>

record renv =
  re_eval :: "u32 \<Rightarrow> gostring \<Rightarrow> gostring option"
  re_ignored :: "file_id \<Rightarrow> bool"
  re_telemetry :: bool

definition or_text :: "string \<Rightarrow> gostring \<Rightarrow> gostring" where
  "or_text dflt s = (if s = [] then str dflt else s)"

definition decodeExec :: "renv \<Rightarrow> EventMeta \<Rightarrow> bytes \<Rightarrow> call list option" where
  "decodeExec R meta raw =
     map_option (\<lambda>evt.
       let pMeta = process_meta meta
             (or_text ''UNKNOWN_OR_EMPTY''
               (resolveAbsolutePath (re_eval R) (m_PID meta) (int8ToString (ex_filename evt))))
             (parseArgs (ex_args evt)) (ex_path_truncated evt = 1) (ex_isFileless evt = 1)
       in if m_EventType meta = EventReverseShell then [AnalyzeReverseShell pMeta]
          else [AnalyzeExec pMeta (m_EventType meta = EventExecBlocked)]) (read_exec raw)"

definition decodeNetworkEgress :: "renv \<Rightarrow> EventMeta \<Rightarrow> bytes \<Rightarrow> call list option" where
  "decodeNetworkEgress R meta raw =
     (if re_ignored R \<lparr>fi_dev = m_ExeDev meta, fi_ino = m_ExeIno meta\<rparr> then Some []
      else map_option (\<lambda>evt.
        let egress = (\<lambda>d p. [AnalyzeNetworkEgress (bare_meta meta) (EventType_String (m_EventType meta)) d p]);
            ip4 = le_bytes 4 (unat (cn_daddr evt))
        in if cn_family evt = 1 then
             egress (DestUnix (or_text ''(anonymous/abstract socket)'' (int8ToString (cn_unix_path evt)))) 0
           else if cn_family evt = 2 then
             (if isLoopback ip4 then [] else egress (DestIP4 (IP_String ip4)) (cn_dport evt))
           else if cn_family evt = 10 then
             (if isLoopback (cn_daddr6 evt) then []
              else egress (DestIP6 (IP_String (cn_daddr6 evt))) (cn_dport evt))
           else if cn_family evt = 16 then egress (DestNetlink (cn_dport evt)) 0
           else egress (DestUnknown (cn_family evt)) (cn_dport evt)) (read_connect raw))"

definition decodeNsChange :: "renv \<Rightarrow> EventMeta \<Rightarrow> bytes \<Rightarrow> call list option" where
  "decodeNsChange R meta raw =
     map_option (\<lambda>evt.
       (if m_CgroupID meta \<noteq> 0 then [AddContainerCgroup (m_CgroupID meta)] else []) @
       [AnalyzeNsChange (bare_meta meta) (ns_op evt) (ns_flags evt) (ns_nstype evt)]) (read_ns_change raw)"

definition decodeOpen :: "renv \<Rightarrow> EventMeta \<Rightarrow> bytes \<Rightarrow> call list option" where
  "decodeOpen R meta raw =
     map_option (\<lambda>evt.
       let file = resolveAbsolutePath (re_eval R) (m_PID meta) (int8ToString (op_filename evt));
           pMeta = process_meta meta file [] (op_path_truncated evt = 1) False
       in if m_EventType meta = EventOpenSensitive then
            [AnalyzeGeneric pMeta ''OPEN_SENSITIVE'' SeverityHigh []]
          else if m_EventType meta = EventMemfd then
            [AnalyzeGeneric pMeta ''MEMFD_CREATE'' SeverityHigh []]
          else if m_EventType meta = EventSensitiveWrite then
            [RecordFileWrite file \<lparr>fi_dev = m_ExeDev meta, fi_ino = m_ExeIno meta\<rparr> (m_PID meta) (m_Comm meta),
             AnalyzeGeneric pMeta ''SENSITIVE_WRITE'' SeverityCritical [OpenFlags (m_Ret meta)]]
          else []) (read_open raw)"

definition decodeGeneric :: "renv \<Rightarrow> EventMeta \<Rightarrow> bytes \<Rightarrow> call list option" where
  "decodeGeneric R meta raw =
     Some (if m_EventType meta = EventPtrace then
             [AnalyzeGeneric (bare_meta meta) ''PTRACE'' SeverityMedium [PtraceRequest (m_Ret meta)]]
           else if m_EventType meta = EventSetuid then
             [AnalyzeGeneric (bare_meta meta) ''SETUID'' SeverityMedium [TargetUid (m_Ret meta)]]
           else if m_EventType meta = EventModuleLoad then
             [AnalyzeGeneric (bare_meta meta) ''MODULE_LOAD'' SeverityCritical []]
           else [AnalyzeGeneric (bare_meta meta) (EventType_String (m_EventType meta)) SeverityMedium []])"

definition decodeWriteBlocked :: "renv \<Rightarrow> EventMeta \<Rightarrow> bytes \<Rightarrow> call list option" where
  "decodeWriteBlocked R meta raw =
     map_option (\<lambda>evt. [AnalyzeWriteBlocked
       (process_meta meta (int8ToString (op_filename evt)) [] (op_path_truncated evt = 1) False)]) (read_open raw)"

definition decodePtraceBlocked :: "renv \<Rightarrow> EventMeta \<Rightarrow> bytes \<Rightarrow> call list option" where
  "decodePtraceBlocked R meta raw =
     map_option (\<lambda>evt. [AnalyzePtraceBlocked (bare_meta meta)
       (or_text ''UNKNOWN'' (int8ToString (pt_target_comm evt))) (pt_target_pid evt) (pt_mode evt)]) (read_ptrace raw)"

definition decodeKmodBlocked :: "renv \<Rightarrow> EventMeta \<Rightarrow> bytes \<Rightarrow> call list option" where
  "decodeKmodBlocked R meta raw =
     map_option (\<lambda>evt.
       let kmodComm = int8ToString (eh_comm (km_hdr evt));
           pMeta = bare_meta meta
       in [AnalyzeKmodBlocked (if kmodComm \<noteq> [] then pMeta\<lparr>m_Comm := kmodComm\<rparr> else pMeta)]) (read_kmod raw)"

definition decodeIoUring :: "renv \<Rightarrow> EventMeta \<Rightarrow> bytes \<Rightarrow> call list option" where
  "decodeIoUring R meta raw =
     map_option (\<lambda>evt. [AnalyzeIoUring
       (process_meta meta (int8ToString (io_filename evt)) [] False False) (io_opcode evt)]) (read_iouring raw)"

definition decodeLpeBlocked :: "renv \<Rightarrow> EventMeta \<Rightarrow> bytes \<Rightarrow> call list option" where
  "decodeLpeBlocked R meta raw =
     map_option (\<lambda>evt. [AnalyzeLpeBlocked (bare_meta meta) (lp_old_uid evt) (lp_new_uid evt)]) (read_lpe raw)"

definition decodePmu :: "renv \<Rightarrow> EventMeta \<Rightarrow> bytes \<Rightarrow> call list option" where
  "decodePmu R meta raw =
     map_option (\<lambda>evt. [AnalyzePmu (bare_meta meta) (pm_mispred_count evt)]) (read_pmu raw)"

definition decodeDnsAnswer :: "renv \<Rightarrow> EventMeta \<Rightarrow> bytes \<Rightarrow> call list option" where
  "decodeDnsAnswer R meta raw =
     map_option (\<lambda>evt.
       let qname = parseDNSQName (da_qname evt)
       in if qname = [] then []
          else if da_family evt = 2 then
            [RecordDNSAnswer (m_CgroupID meta) (IP_String (le_bytes 4 (unat (da_daddr evt)))) qname]
          else if da_family evt = 10 then
            [RecordDNSAnswer (m_CgroupID meta) (IP_String (da_daddr6 evt)) qname]
          else []) (read_dns_answer raw)"

definition decodeRWX :: "renv \<Rightarrow> EventMeta \<Rightarrow> bytes \<Rightarrow> call list option" where
  "decodeRWX R meta raw =
     map_option (\<lambda>evt. [AnalyzeGeneric (bare_meta meta) ''RWX_MEM_VIOLATION'' SeverityLow
       [RwxProt (mp_req_prot evt) (mp_prot evt)]]) (read_mprotect raw)"

definition decodeCapability :: "renv \<Rightarrow> EventMeta \<Rightarrow> bytes \<Rightarrow> call list option" where
  "decodeCapability R meta raw =
     map_option (\<lambda>evt. [AnalyzeGeneric (bare_meta meta) ''CAPABILITY_ESCALATION'' SeverityMedium
       [CapName (if cp_cap evt = 21 then ''CAP_SYS_ADMIN'' else if cp_cap evt = 16 then ''CAP_SYS_MODULE''
                 else ''CAP_UNKNOWN'')]]) (read_cap raw)"

definition decodeBpfProgLoad :: "renv \<Rightarrow> EventMeta \<Rightarrow> bytes \<Rightarrow> call list option" where
  "decodeBpfProgLoad R meta raw =
     map_option (\<lambda>evt. [AnalyzeGeneric (bare_meta meta) ''BPF_PROG_LOAD'' SeverityHigh
       [ProgLoad (or_text ''unnamed'' (int8ToString (bl_prog_name evt))) (bl_prog_type evt)
          (bl_attach_type evt)]]) (read_bpf_prog_load raw)"

definition decodeVmReadWrite :: "renv \<Rightarrow> EventMeta \<Rightarrow> bytes \<Rightarrow> call list option" where
  "decodeVmReadWrite R meta raw =
     map_option (\<lambda>evt.
       let evtType = EventType_String (m_EventType meta)
       in [AnalyzeGeneric (bare_meta meta) evtType SeverityMedium
            [VmAccess evtType (vm_target_pid evt)
               (or_text ''UNKNOWN'' (int8ToString (vm_target_comm evt))) (vm_nr_segs evt)]]) (read_vm_read_write raw)"

lemmas decoder_defs =
  decodeExec_def decodeNetworkEgress_def decodeNsChange_def decodeOpen_def decodeGeneric_def
  decodeWriteBlocked_def decodePtraceBlocked_def decodeKmodBlocked_def decodeIoUring_def
  decodeLpeBlocked_def decodePmu_def decodeDnsAnswer_def decodeRWX_def decodeCapability_def
  decodeBpfProgLoad_def decodeVmReadWrite_def

definition handlers :: "(u32 \<times> (renv \<Rightarrow> EventMeta \<Rightarrow> bytes \<Rightarrow> call list option)) list" where
  "handlers =
     [(EventExec, decodeExec), (EventExecBlocked, decodeExec),
      (EventConnect, decodeNetworkEgress), (EventSendto, decodeNetworkEgress),
      (EventNsChange, decodeNsChange), (EventOpenSensitive, decodeOpen),
      (EventMemfd, decodeOpen), (EventSensitiveWrite, decodeOpen),
      (EventPtrace, decodeGeneric), (EventSetuid, decodeGeneric),
      (EventModuleLoad, decodeGeneric), (EventWriteBlocked, decodeWriteBlocked),
      (EventPtraceBlocked, decodePtraceBlocked), (EventKmodBlocked, decodeKmodBlocked),
      (EventIoUring, decodeIoUring), (EventLpeBlocked, decodeLpeBlocked),
      (EventBranchMispredict, decodePmu), (EventDnsAnswer, decodeDnsAnswer),
      (EventReverseShell, decodeExec), (EventRwxViolation, decodeRWX),
      (EventCapabilityChange, decodeCapability), (EventBpfProgLoad, decodeBpfProgLoad),
      (EventProcessVmRead, decodeVmReadWrite), (EventProcessVmWrite, decodeVmReadWrite)]"

section \<open>Processing a record\<close>

text \<open>
  The metrics a record can hit: \<open>IncRingbufDrop\<close> for a record without a header, \<open>IncDecodeError\<close>
  for one with no handler or too short for it.
\<close>

datatype outcome = RingbufDrop | DecodeError u32 | Handled u32 "call list"

definition event_meta :: "event_hdr \<Rightarrow> EventMeta" where
  "event_meta hdr =
     (let anc = int8ToString (eh_ancestor_filename hdr) in
      \<lparr>m_EventType = eh_event_type hdr, m_TimestampNs = eh_timestamp_ns hdr, m_PID = eh_pid hdr,
       m_PPID = eh_ppid hdr, m_UID = eh_uid hdr, m_GID = eh_gid hdr,
       m_Comm = int8ToString (eh_comm hdr), m_CgroupID = eh_cgroup_id hdr,
       m_AncestorSuspicious = (eh_ancestor_suspicious hdr = 1),
       m_AncestorFilename = (if anc \<noteq> [] then Clean anc else anc),
       m_ExeDev = eh_exe_dev hdr, m_ExeIno = eh_exe_ino hdr, m_ParentExeDev = eh_parent_exe_dev hdr,
       m_ParentExeIno = eh_parent_exe_ino hdr, m_Ret = sint (eh_ret hdr)\<rparr>)"

definition telemetry :: "renv \<Rightarrow> event_hdr \<Rightarrow> MLRecord list" where
  "telemetry R hdr =
     (if re_telemetry R \<and> (eh_event_type hdr = EventExec \<or> eh_event_type hdr = EventExecBlocked) then
        [\<lparr>ml_Timestamp = eh_timestamp_ns hdr, ml_ParentDev = eh_parent_exe_dev hdr,
          ml_ParentIno = eh_parent_exe_ino hdr, ml_ChildDev = eh_exe_dev hdr,
          ml_ChildIno = eh_exe_ino hdr, ml_CgroupID = eh_cgroup_id hdr,
          ml_EventType = eh_event_type hdr, ml_UID = eh_uid hdr\<rparr>]
      else [])"

definition ProcessRawRecord :: "renv \<Rightarrow> bytes \<Rightarrow> MLRecord list \<times> outcome" where
  "ProcessRawRecord R raw =
     (case read_hdr raw of
        None \<Rightarrow> ([], RingbufDrop)
      | Some hdr \<Rightarrow>
          (telemetry R hdr,
           let et = eh_event_type hdr in
           case map_of handlers et of
             None \<Rightarrow> DecodeError et
           | Some handler \<Rightarrow>
               (case handler R (event_meta hdr) raw of
                  None \<Rightarrow> DecodeError et
                | Some calls \<Rightarrow> Handled et calls)))"

section \<open>Samples of the BPF object\<close>

lemma m_sel_process_meta [simp]:
  "m_EventType (process_meta m f a t l) = m_EventType m" "m_PID (process_meta m f a t l) = m_PID m"
  "m_Comm (process_meta m f a t l) = m_Comm m" "m_CgroupID (process_meta m f a t l) = m_CgroupID m"
  "m_ExeDev (process_meta m f a t l) = m_ExeDev m" "m_ExeIno (process_meta m f a t l) = m_ExeIno m"
  "m_AncestorSuspicious (process_meta m f a t l) = m_AncestorSuspicious m"
  "m_Filename (process_meta m f a t l) = f" "m_Args (process_meta m f a t l) = a"
  "m_PathTruncated (process_meta m f a t l) = t" "m_IsFileless (process_meta m f a t l) = l"
  by (simp_all add: process_meta_def EventMeta.defs ProcessMeta.defs)

lemma event_meta_sel [simp]:
  "m_EventType (event_meta h) = eh_event_type h" "m_PID (event_meta h) = eh_pid h"
  "m_CgroupID (event_meta h) = eh_cgroup_id h" "m_ExeDev (event_meta h) = eh_exe_dev h"
  "m_ExeIno (event_meta h) = eh_exe_ino h" "m_Comm (event_meta h) = cstr (eh_comm h)"
  "m_AncestorSuspicious (event_meta h) \<longleftrightarrow> eh_ancestor_suspicious h = 1"
  by (simp_all add: event_meta_def Let_def int8ToString_cstr)

text \<open>Which decoder the table gives each code of the BPF object.\<close>

lemma handler_of_code:
  "map_of handlers EVT_EXEC = Some decodeExec" "map_of handlers EVT_EXEC_BLOCKED = Some decodeExec"
  "map_of handlers EVT_REVERSE_SHELL = Some decodeExec" "map_of handlers EVT_PTRACE = Some decodeGeneric"
  "map_of handlers EVT_SETUID = Some decodeGeneric" "map_of handlers EVT_MODULE_LOAD = Some decodeGeneric"
  "map_of handlers EVT_CONNECT = Some decodeNetworkEgress" "map_of handlers EVT_SENDTO = Some decodeNetworkEgress"
  "map_of handlers EVT_OPEN_SENSITIVE = Some decodeOpen" "map_of handlers EVT_MEMFD = Some decodeOpen"
  "map_of handlers EVT_SENSITIVE_WRITE = Some decodeOpen" "map_of handlers EVT_BLOCKED_WRITE = Some decodeWriteBlocked"
  "map_of handlers EVENT_PTRACE_BLOCKED = Some decodePtraceBlocked"
  "map_of handlers EVENT_KMOD_BLOCKED = Some decodeKmodBlocked" "map_of handlers EVT_IO_URING = Some decodeIoUring"
  "map_of handlers EVENT_LPE_BLOCKED = Some decodeLpeBlocked" "map_of handlers EVT_BRANCH_MISPREDICT = Some decodePmu"
  "map_of handlers EVT_NS_CHANGE = Some decodeNsChange" "map_of handlers EVT_DNS_ANSWER = Some decodeDnsAnswer"
  "map_of handlers EVT_RWX_VIOLATION = Some decodeRWX" "map_of handlers EVT_CAPABILITY_CHANGE = Some decodeCapability"
  "map_of handlers EVT_BPF_PROG_LOAD = Some decodeBpfProgLoad"
  "map_of handlers EVT_PROCESS_VM_READ = Some decodeVmReadWrite"
  "map_of handlers EVT_PROCESS_VM_WRITE = Some decodeVmReadWrite"
  by (simp_all add: handlers_def evt_defs event_type_defs)

text \<open>The decoder of the code a well-formed event carries reads the struct the event is.\<close>

lemma handler_reads:
  assumes "event_wf e" "read_as e raw = Some e"
  shows "\<exists>h cs. map_of handlers (eh_event_type (hdr_of e)) = Some h \<and> h R m raw = Some cs"
proof -
  have "eh_event_type (hdr_of e) \<in> set (event_codes e)" using assms(1) by (simp add: event_wf_def)
  then show ?thesis
    using assms(2) by (cases e; clarsimp; (elim disjE)?; simp add: handler_of_code decoder_defs)
qed

lemma ProcessRawRecord_image:
  assumes "event_wf e" "struct_size (event_fields e) \<le> length mem"
    and "map_of handlers (eh_event_type (hdr_of e)) = Some h"
    and "h R (event_meta (hdr_of e)) (sample_image mem e) = Some cs"
  shows "ProcessRawRecord R (sample_image mem e) =
           (telemetry R (hdr_of e), Handled (eh_event_type (hdr_of e)) cs)"
  using read_hdr_image [OF assms(1,2)] assms(3,4) by (simp add: ProcessRawRecord_def Let_def)

text \<open>
  C5: no sample of the kernel side is lost in decoding. Take any state the BPF object can reach and any
  sample in its ring buffer, in memory of the size reserved for it and with whatever bytes in the
  padding: user space finds the decoder of its event type and decodes it without an error; the two
  counters of dropped and undecodable records stay as they were.
\<close>

theorem reachable_samples_dispatched:
  assumes "reachable s" "e \<in> set (rb s)" "length mem = struct_size (event_fields e)"
  shows "\<exists>cs. ProcessRawRecord R (sample_image mem e) =
                (telemetry R (hdr_of e), Handled (eh_event_type (hdr_of e)) cs)"
proof -
  have wf: "event_wf e" using reachable_wf [OF assms(1)] assms(2) by (simp add: bstate_wf_def list_all_iff)
  have len: "struct_size (event_fields e) \<le> length mem" using assms(3) by simp
  from handler_reads [OF wf read_as_image [OF wf len]]
  obtain h cs where "map_of handlers (eh_event_type (hdr_of e)) = Some h"
    "h R (event_meta (hdr_of e)) (sample_image mem e) = Some cs" by blast
  then show ?thesis using ProcessRawRecord_image [OF wf len] by blast
qed

definition renv_plain :: renv where
  "renv_plain = \<lparr>re_eval = (\<lambda>_ _. None), re_ignored = (\<lambda>_. False), re_telemetry = False\<rparr>"

theorem reachable_samples_dispatched_witness:
  "\<exists>e cs. rb (snd (tp_setuid kenv_quiet (\<lambda>_. 0) (bstate_init policy_off))) = [e] \<and>
     ProcessRawRecord renv_plain (sample_image (zeros (struct_size (event_fields e))) e) =
       (telemetry renv_plain (hdr_of e), Handled (eh_event_type (hdr_of e)) cs)"
proof -
  let ?s = "snd (tp_setuid kenv_quiet (\<lambda>_. 0) (bstate_init policy_off))"
  have "reachable (snd (run_hook (TpSetuid (\<lambda>_. 0)) kenv_quiet (bstate_init policy_off)))"
    by (rule reachable.step [OF reachable.init kstep.program [OF kenv_quiet_ok]])
  then have r: "reachable ?s" by simp
  obtain e where e: "rb ?s = [e]" by (simp add: tp_setuid_def emit_rb kenv_quiet_def)
  then have "e \<in> set (rb ?s)" by simp
  from reachable_samples_dispatched [OF r this, of "zeros (struct_size (event_fields e))" renv_plain] e
  show ?thesis by auto
qed

section \<open>From a DNS packet to the correlator\<close>

lemma decode_dns_answer_image:
  assumes "event_wf (DnsAnswerEv e)" "length mem = struct_size dns_answer_event_fields"
    and "da_family e = 2" "\<forall>w \<in> set ls. label_ok w" "ls \<noteq> []" "prefix (name_bytes ls) (da_qname e)"
  shows "snd (ProcessRawRecord R (sample_image mem (DnsAnswerEv e))) =
           Handled EVT_DNS_ANSWER
             [RecordDNSAnswer (eh_cgroup_id (da_hdr e)) (Dotted (le_bytes 4 (unat (da_daddr e))))
                (strings_Join [0x2E] ls)]"
proof -
  have et: "eh_event_type (hdr_of (DnsAnswerEv e)) = EVT_DNS_ANSWER" using assms(1) by (simp add: event_wf_def)
  have len: "struct_size (event_fields (DnsAnswerEv e)) \<le> length mem" using assms(2) by simp
  obtain r where "da_qname e = name_bytes ls @ r" using assms(6) by (auto simp: prefix_def)
  then have q: "parseDNSQName (da_qname e) = strings_Join [0x2E] ls"
    using parseDNSQName_wire [OF assms(4)] by (simp add: name_bytes_wire)
  have "strings_Join [0x2E] ls \<noteq> []"
    using hd_strings_Join [OF assms(5)] assms(4,5) by (auto simp: label_ok_def)
  then have "decodeDnsAnswer R (event_meta (hdr_of (DnsAnswerEv e))) (sample_image mem (DnsAnswerEv e)) =
      Some [RecordDNSAnswer (eh_cgroup_id (da_hdr e)) (Dotted (le_bytes 4 (unat (da_daddr e))))
              (strings_Join [0x2E] ls)]"
    using read_as_image [OF assms(1) len] assms(3) q by (simp add: decodeDnsAnswer_def IP_String_def Let_def)
  moreover have "map_of handlers (eh_event_type (hdr_of (DnsAnswerEv e))) = Some decodeDnsAnswer"
    by (simp only: et handler_of_code)
  ultimately show ?thesis
    using ProcessRawRecord_image [OF assms(1) len, of decodeDnsAnswer] et by simp
qed

text \<open>
  C14: a DNS lookup from the wire to user space. A query packet to port 53 asks for a name of at most
  128 bytes; kernel memory holds the packet where the program says it is, with 128 bytes readable from
  the name on, and the update of the transaction map succeeds. Later a packet from port 53 of that
  resolver to that client port, with that transaction id, answers with a question of at most 15 labels
  and a first answer that is an A record with a compressed name; the map entry is still there, and the
  ring buffer has room. Then decoding the sample of the ingress program records, for the cgroup that
  was current when the query was sent, the address of the answer in dotted form under the name in the
  bytes of the query packet, its labels joined by dots.
\<close>

theorem dns_lookup_recorded:
  assumes "frame_ok q" "uf_dport q = [0, 53]" "uf_payload q = tx @ hb @ name_bytes names @ qrest"
    and "length hb = 10" "names \<noteq> []" "\<forall>w \<in> set names. label_ok w" "length (name_bytes names) \<le> 128"
    and "skb_mapped E1 \<lparr>skb_data = data1, skb_pkt = frame_bytes q\<rparr>" "ke_lru_ok E1"
    and "read_bytes (ke_kmem E1) (data1 + of_nat (54 + length (uf_opts q))) 128 \<noteq> None"
    and "tc_egress_dns E1 \<lparr>skb_data = data1, skb_pkt = frame_bytes q\<rparr> s = Some (r, s1)"
    and "key = query_key (uf_daddr q) (uf_sport q) tx" "dns_pending_tx s2 key = dns_pending_tx s1 key"
    and "frame_ok a" "uf_sport a = [0, 53]" "uf_saddr a = uf_daddr q" "uf_dport a = uf_sport q"
    and "uf_payload a = reply_payload tx mid an ns ls qt x ttl addr rest"
    and "reply_ok tx mid an ns ls qt ttl addr" "ke_rb E2 (rb_seq s2) \<noteq> None"
    and "bstate_wf s2" "length mem = struct_size dns_answer_event_fields"
  shows "\<exists>e s3. tc_ingress_dns E2 \<lparr>skb_data = data2, skb_pkt = frame_bytes a\<rparr> s2 = Some (0, s3) \<and>
           rb s3 = rb s2 @ [DnsAnswerEv e] \<and>
           snd (ProcessRawRecord R (sample_image mem (DnsAnswerEv e))) =
             Handled EVT_DNS_ANSWER
               [RecordDNSAnswer (ke_cgroup_id E1) (Dotted addr) (strings_Join [0x2E] names)]"
proof -
  let ?k = "\<lparr>skb_data = data2, skb_pkt = frame_bytes a\<rparr>"
  let ?qs = "hb @ name_bytes names @ qrest"
  obtain qn where qn: "read_bytes (ke_kmem E1) (data1 + of_nat (54 + length (uf_opts q))) 128 = Some qn"
    using assms(10) by blast
  have len: "10 \<le> length ?qs" "length (tx @ hb) = 12" using assms(4,19) by (simp_all add: reply_ok_def)
  have pre: "prefix (name_bytes names) qn"
    using qname_of_packet [OF assms(8,1) _ len(2) assms(7) qn] assms(3) by simp
  from dns_answer_of_query [OF assms(1-3) len(1) assms(9) qn assms(11-20)] obtain e s3 where
    i: "tc_ingress_dns E2 ?k s2 = Some (0, s3)" "rb s3 = rb s2 @ [DnsAnswerEv e]" and
    e: "da_family e = 2" "le_bytes 4 (unat (da_daddr e)) = addr" "da_qname e = qn"
      "eh_cgroup_id (da_hdr e) = ke_cgroup_id E1"
    by blast
  have "bstate_wf s3"
    using kg_step_wf [OF tc_ingress_step assms(21), of E2 ?k] i(1) by (simp add: tc_ingress_def)
  then have wf: "event_wf (DnsAnswerEv e)" by (simp add: bstate_wf_def i(2))
  from decode_dns_answer_image [OF wf assms(22) e(1) assms(6,5), of R] i e pre
  show ?thesis by auto
qed

theorem dns_lookup_recorded_witness:
  "\<exists>s1 e s3. tc_egress_dns kenv_query query_skb (bstate_init policy_off) = Some (0, s1) \<and>
     tc_ingress_dns kenv_quiet answer_skb s1 = Some (0, s3) \<and> rb s3 = rb s1 @ [DnsAnswerEv e] \<and>
     snd (ProcessRawRecord renv_plain (sample_image (zeros (struct_size dns_answer_event_fields)) (DnsAnswerEv e))) =
       Handled EVT_DNS_ANSWER [RecordDNSAnswer 7 (Dotted [93, 184, 216, 34]) (str ''x.io'')]"
proof -
  have tx: "uf_payload query_frame = [7, 7] @ (zeros 10 @ name_bytes [str ''x'', str ''io''] @ [0, 1, 0, 1])"
    "uf_payload answer_frame = reply_payload [7, 7] (zeros 4) [0, 1] (zeros 4) [str ''x'', str ''io'']
       [0, 1, 0, 1] 12 (zeros 6) [93, 184, 216, 34] []"
    by (simp_all add: query_frame_def answer_frame_def)
  have pt: "uf_dport query_frame = [0, 53]" "uf_sport answer_frame = [0, 53]"
    "uf_saddr answer_frame = uf_daddr query_frame" "uf_dport answer_frame = uf_sport query_frame"
    "ke_lru_ok kenv_query" "ke_cgroup_id kenv_query = 7" "\<And>n. ke_rb kenv_quiet n \<noteq> None"
    by (simp_all add: query_frame_def answer_frame_def kenv_query_def kenv_quiet_def)
  have nm: "[str ''x'', str ''io''] \<noteq> []" "\<forall>w \<in> set [str ''x'', str ''io'']. label_ok w"
    "length (name_bytes [str ''x'', str ''io'']) \<le> 128"
    "strings_Join [0x2E] [str ''x'', str ''io''] = str ''x.io''"
    by (simp_all add: label_ok_def str_def name_bytes_def)
  have qr: "read_bytes (ke_kmem kenv_query) (0 + of_nat (54 + length (uf_opts query_frame))) 128 \<noteq> None"
    using query_frame_qname by simp
  obtain s1 where e: "tc_egress_dns kenv_query query_skb (bstate_init policy_off) = Some (0, s1)"
    using tc_egress_dns_cases [of kenv_query query_skb "bstate_init policy_off"] by metis
  have "kenv_ok kenv_query" using kenv_quiet_ok by (simp add: kenv_ok_def kenv_query_def)
  then have wf: "bstate_wf s1"
    using kg_step_wf [OF egress_dns.step [of kenv_query "bstate_init policy_off" query_skb] bstate_init_wf] e by (simp add: tc_egress_def)
  show ?thesis
    using dns_lookup_recorded [OF sample_frames_ok(1) pt(1) tx(1) length_zeros nm(1-3) query_skb_mapped pt(5)
        qr e refl refl
        sample_frames_ok(2) pt(2-4) tx(2) sample_frames_ok(3) pt(7) wf length_zeros,
        of 0 renv_plain, unfolded pt(6) nm(4)] e by blast
qed

end
