(* ===== verification/KG_Cache.thy ===== *)
theory KG_Cache
  imports KG_Router
begin

text \<open>
  The bounded memories of the event processor: the generic LRU cache of
  \<open>internal/processor/hash.go\<close>, with its map of list elements and its eviction list, and the
  \<open>Deduper\<close> of \<open>dedup.go\<close>. The cache is refined to a list of entries, most recent first, cut at its
  capacity; the locale \<open>bounded_cache\<close> is what its clients rely on. A clock reading is an argument.
\<close>

section \<open>The LRU cache\<close>

text \<open>
  \<open>container/list\<close> elements are numbered; \<open>lc_elem\<close> holds the item an element points to, the
  eviction list the live elements from front to back.
\<close>

record ('k, 'v) lruCache =
  lc_capacity :: nat
  lc_items :: "'k \<Rightarrow> nat option"
  lc_evictList :: "nat list"
  lc_elem :: "nat \<Rightarrow> 'k \<times> 'v"
  lc_next :: nat

definition newLRUCache :: "nat \<Rightarrow> ('k, 'v) lruCache" where
  "newLRUCache capacity =
     \<lparr>lc_capacity = capacity, lc_items = Map.empty, lc_evictList = [], lc_elem = (\<lambda>_. undefined),
      lc_next = 0\<rparr>"

definition MoveToFront :: "nat \<Rightarrow> nat list \<Rightarrow> nat list" where
  "MoveToFront e es = e # remove1 e es"

definition lru_Get :: "'k \<Rightarrow> ('k, 'v) lruCache \<Rightarrow> 'v option \<times> ('k, 'v) lruCache" where
  "lru_Get key c =
     (case lc_items c key of
        Some elem \<Rightarrow> (Some (snd (lc_elem c elem)), c\<lparr>lc_evictList := MoveToFront elem (lc_evictList c)\<rparr>)
      | None \<Rightarrow> (None, c))"

definition evict :: "('k, 'v) lruCache \<Rightarrow> ('k, 'v) lruCache" where
  "evict c =
     (if lc_capacity c < length (lc_evictList c) then
        (let oldest = last (lc_evictList c) in
         c\<lparr>lc_evictList := remove1 oldest (lc_evictList c),
           lc_items := (lc_items c)(fst (lc_elem c oldest) := None)\<rparr>)
      else c)"

definition PushFront :: "'k \<Rightarrow> 'v \<Rightarrow> ('k, 'v) lruCache \<Rightarrow> ('k, 'v) lruCache" where
  "PushFront key val c =
     c\<lparr>lc_evictList := lc_next c # lc_evictList c, lc_elem := (lc_elem c)(lc_next c := (key, val)),
       lc_items := (lc_items c)(key \<mapsto> lc_next c), lc_next := Suc (lc_next c)\<rparr>"

definition lru_Add :: "'k \<Rightarrow> 'v \<Rightarrow> ('k, 'v) lruCache \<Rightarrow> ('k, 'v) lruCache" where
  "lru_Add key val c =
     (case lc_items c key of
        Some elem \<Rightarrow>
          c\<lparr>lc_evictList := MoveToFront elem (lc_evictList c),
            lc_elem := (lc_elem c)(elem := (fst (lc_elem c elem), val))\<rparr>
      | None \<Rightarrow> evict (PushFront key val c))"

section \<open>Its invariant and its abstraction\<close>

definition lru_inv :: "('k, 'v) lruCache \<Rightarrow> bool" where
  "lru_inv c \<longleftrightarrow>
     distinct (lc_evictList c) \<and> (\<forall>e \<in> set (lc_evictList c). e < lc_next c) \<and>
     (\<forall>k e. lc_items c k = Some e \<longleftrightarrow> e \<in> set (lc_evictList c) \<and> fst (lc_elem c e) = k) \<and>
     length (lc_evictList c) \<le> lc_capacity c"

definition entries :: "('k, 'v) lruCache \<Rightarrow> ('k \<times> 'v) list" where
  "entries c = map (lc_elem c) (lc_evictList c)"

text \<open>The specification: move an entry to the front; put one in front and cut at the capacity.\<close>

definition touch :: "'k \<Rightarrow> ('k \<times> 'v) list \<Rightarrow> ('k \<times> 'v) list" where
  "touch k es = (case map_of es k of Some v \<Rightarrow> (k, v) # AList.delete k es | None \<Rightarrow> es)"

definition remember :: "nat \<Rightarrow> 'k \<Rightarrow> 'v \<Rightarrow> ('k \<times> 'v) list \<Rightarrow> ('k \<times> 'v) list" where
  "remember n k v es = take n ((k, v) # AList.delete k es)"

lemma lru_inv_new [simp]: "lru_inv (newLRUCache n)" "entries (newLRUCache n) = []"
  by (simp_all add: lru_inv_def newLRUCache_def entries_def)

lemma lru_inv_keys:
  assumes "lru_inv c"
  shows "distinct (map fst (entries c))"
proof -
  have "inj_on (\<lambda>e. fst (lc_elem c e)) (set (lc_evictList c))"
    using assms by (intro inj_onI) (metis lru_inv_def option.inject)
  then show ?thesis using assms by (simp add: lru_inv_def entries_def distinct_map comp_def)
qed

lemma lru_item_entry:
  assumes "lru_inv c" "lc_items c k = Some e"
  shows "map_of (entries c) k = Some (snd (lc_elem c e))"
proof -
  have "e \<in> set (lc_evictList c)" "fst (lc_elem c e) = k" using assms by (auto simp: lru_inv_def)
  then have "(k, snd (lc_elem c e)) \<in> set (entries c)" by (force simp: entries_def)
  then show ?thesis using lru_inv_keys [OF assms(1)] by simp
qed

lemma lru_item_none:
  assumes "lru_inv c" "lc_items c k = None"
  shows "map_of (entries c) k = None"
proof -
  have "k \<noteq> fst (lc_elem c e)" if "e \<in> set (lc_evictList c)" for e
    using assms that by (metis lru_inv_def option.distinct(1))
  then show ?thesis by (force simp: map_of_eq_None_iff entries_def)
qed

lemma lru_delete_entry:
  assumes "lru_inv c" "lc_items c k = Some e"
  shows "map (lc_elem c) (remove1 e (lc_evictList c)) = AList.delete k (entries c)"
proof -
  have e: "e \<in> set (lc_evictList c)" "fst (lc_elem c e) = k" using assms by (auto simp: lru_inv_def)
  have "x = e \<longleftrightarrow> fst (lc_elem c x) = k" if "x \<in> set (lc_evictList c)" for x
    using assms that e by (metis lru_inv_def option.inject)
  then have "filter (\<lambda>x. x \<noteq> e) (lc_evictList c) = filter (\<lambda>x. fst (lc_elem c x) \<noteq> k) (lc_evictList c)"
    by (intro filter_cong) auto
  moreover have "remove1 e (lc_evictList c) = filter (\<lambda>x. x \<noteq> e) (lc_evictList c)"
    using assms(1) by (simp add: lru_inv_def distinct_remove1_removeAll removeAll_filter_not_eq)
      (metis (full_types))
  ultimately show ?thesis
    by (simp add: entries_def AList.delete_eq filter_map comp_def case_prod_unfold eq_commute)
qed

lemma MoveToFront_facts:
  assumes "distinct es" "e \<in> set es"
  shows "set (MoveToFront e es) = set es" "distinct (MoveToFront e es)"
    "length (MoveToFront e es) = length es"
  using assms by (auto simp: MoveToFront_def length_remove1 dest: length_pos_if_in_set)

text \<open>Moving an element to the front, with another value or not, keeps the invariant.\<close>

lemma lru_inv_front:
  assumes "lru_inv c" "lc_items c k = Some e" "\<forall>x. fst (el x) = fst (lc_elem c x)"
  shows "lru_inv (c\<lparr>lc_evictList := MoveToFront e (lc_evictList c), lc_elem := el\<rparr>)"
proof -
  have "distinct (lc_evictList c)" "e \<in> set (lc_evictList c)" using assms by (simp_all add: lru_inv_def)
  note MoveToFront_facts [OF this]
  then show ?thesis using assms by (simp add: lru_inv_def)
qed

lemma lru_Get_refines:
  assumes "lru_inv c"
  shows "lru_inv (snd (lru_Get k c))" "fst (lru_Get k c) = map_of (entries c) k"
    and "entries (snd (lru_Get k c)) = touch k (entries c)"
proof -
  show "fst (lru_Get k c) = map_of (entries c) k"
    using lru_item_entry [OF assms] lru_item_none [OF assms] by (simp add: lru_Get_def split: option.split)
  show "lru_inv (snd (lru_Get k c))"
    using assms lru_inv_front [OF assms, of k _ "lc_elem c"] by (simp add: lru_Get_def split: option.split)
  show "entries (snd (lru_Get k c)) = touch k (entries c)"
  proof (cases "lc_items c k")
    case (Some e)
    have "lc_elem c e = (k, snd (lc_elem c e))" using assms Some by (auto simp: lru_inv_def)
    then show ?thesis
      using lru_item_entry [OF assms Some] lru_delete_entry [OF assms Some] Some
      by (simp add: lru_Get_def touch_def entries_def MoveToFront_def)
  qed (use lru_item_none [OF assms] in \<open>simp add: lru_Get_def touch_def\<close>)
qed

text \<open>A new element in front, and the last one removed when there is one too many.\<close>

lemma lru_inv_push:
  assumes "lru_inv c" "lc_items c k = None"
    and d_def: "d = PushFront k v c"
  shows "distinct (lc_evictList d)" "\<forall>e \<in> set (lc_evictList d). e < lc_next d"
    "\<forall>k e. lc_items d k = Some e \<longleftrightarrow> e \<in> set (lc_evictList d) \<and> fst (lc_elem d e) = k"
    "entries d = (k, v) # entries c" "AList.delete k (entries c) = entries c"
proof -
  have n: "lc_next c \<notin> set (lc_evictList c)" using assms(1) by (auto simp: lru_inv_def)
  show "distinct (lc_evictList d)" "\<forall>e \<in> set (lc_evictList d). e < lc_next d"
    using assms(1) n by (auto simp: d_def PushFront_def lru_inv_def less_Suc_eq)
  show "entries d = (k, v) # entries c" using n by (auto simp: d_def PushFront_def entries_def)
  have k: "k \<noteq> fst (lc_elem c e)" if "e \<in> set (lc_evictList c)" for e
    using assms(1,2) that by (metis lru_inv_def option.distinct(1))
  show "\<forall>k e. lc_items d k = Some e \<longleftrightarrow> e \<in> set (lc_evictList d) \<and> fst (lc_elem d e) = k"
    using assms(1) n k by (auto simp: d_def PushFront_def lru_inv_def)
  show "AList.delete k (entries c) = entries c"
    using lru_item_none [OF assms(1,2)] by (simp add: delete_idem map_of_eq_None_iff)
qed

lemma evict_refines:
  assumes "distinct (lc_evictList d)" "\<forall>e \<in> set (lc_evictList d). e < lc_next d"
    and "\<forall>k e. lc_items d k = Some e \<longleftrightarrow> e \<in> set (lc_evictList d) \<and> fst (lc_elem d e) = k"
    and "length (lc_evictList d) \<le> Suc (lc_capacity d)"
  shows "lru_inv (evict d) \<and> entries (evict d) = take (lc_capacity d) (entries d)"
proof (cases "lc_capacity d < length (lc_evictList d)")
  case True
  then obtain es e where es: "lc_evictList d = es @ [e]" by (cases "lc_evictList d" rule: rev_cases) auto
  then have "length es = lc_capacity d" "e \<notin> set es" using True assms(1,4) by simp_all
  moreover have "remove1 e (es @ [e]) = es" using calculation(2) by (simp add: remove1_append)
  moreover have "\<forall>k x. lc_items d k = Some x \<longleftrightarrow> (x = e \<or> x \<in> set es) \<and> fst (lc_elem d x) = k"
    using assms(3) es by auto
  moreover from this have "\<forall>x \<in> set es. fst (lc_elem d x) \<noteq> fst (lc_elem d e)"
    using \<open>e \<notin> set es\<close> by (metis option.inject)
  ultimately show ?thesis
    using True assms(1,2) es by (auto simp: evict_def Let_def lru_inv_def entries_def)
next
  case False
  then show ?thesis using assms by (simp add: evict_def lru_inv_def entries_def)
qed

lemma lru_capacity [simp]:
  "lc_capacity (newLRUCache n) = n"
  "lc_capacity (lru_Add k v c) = lc_capacity c" "lc_capacity (snd (lru_Get k c)) = lc_capacity c"
  by (simp_all add: newLRUCache_def lru_Add_def lru_Get_def evict_def PushFront_def Let_def split: option.split)

lemma lru_Add_refines:
  assumes "lru_inv c"
  shows "lru_inv (lru_Add k v c) \<and> entries (lru_Add k v c) = remember (lc_capacity c) k v (entries c)"
proof (cases "lc_items c k")
  case None
  note p = lru_inv_push [OF assms None, of "PushFront k v c" v, OF refl]
  have "length (lc_evictList c) \<le> lc_capacity c" using assms by (simp add: lru_inv_def)
  then show ?thesis
    using evict_refines [OF p(1-3)] p(4,5) None by (simp add: lru_Add_def remember_def PushFront_def)
next
  case (Some e)
  have e: "e \<in> set (lc_evictList c)" "fst (lc_elem c e) = k" and d: "distinct (lc_evictList c)"
    using assms Some by (auto simp: lru_inv_def)
  have "map ((lc_elem c)(e := (k, v))) (remove1 e (lc_evictList c)) = AList.delete k (entries c)"
    using d by (simp flip: lru_delete_entry [OF assms Some])
  then have x: "entries (lru_Add k v c) = (k, v) # AList.delete k (entries c)"
    using Some e by (simp add: lru_Add_def entries_def MoveToFront_def)
  have i: "lru_inv (lru_Add k v c)"
    using lru_inv_front [OF assms Some, of "(lc_elem c)(e := (k, v))"] Some e by (simp add: lru_Add_def)
  then have "length (entries (lru_Add k v c)) \<le> lc_capacity c"
    by (metis entries_def length_map lru_capacity(2) lru_inv_def)
  then show ?thesis using i x by (simp add: remember_def)
qed

section \<open>What the clients of the cache rely on\<close>

locale bounded_cache =
  fixes get :: "'k \<Rightarrow> 's \<Rightarrow> 'v option \<times> 's" and add :: "'k \<Rightarrow> 'v \<Rightarrow> 's \<Rightarrow> 's"
    and inv :: "'s \<Rightarrow> bool" and ents :: "'s \<Rightarrow> ('k \<times> 'v) list" and cap :: "'s \<Rightarrow> nat"
  assumes keys: "inv c \<Longrightarrow> distinct (map fst (ents c))"
    and bound: "inv c \<Longrightarrow> length (ents c) \<le> cap c"
    and get_inv: "inv c \<Longrightarrow> inv (snd (get k c))"
    and get_val: "inv c \<Longrightarrow> fst (get k c) = map_of (ents c) k"
    and get_ents: "inv c \<Longrightarrow> ents (snd (get k c)) = touch k (ents c)"
    and get_cap: "cap (snd (get k c)) = cap c"
    and add_inv: "inv c \<Longrightarrow> inv (add k v c)"
    and add_ents: "inv c \<Longrightarrow> ents (add k v c) = remember (cap c) k v (ents c)"
    and add_cap: "cap (add k v c) = cap c"
begin

lemma get_keeps: "inv c \<Longrightarrow> map_of (ents (snd (get k c))) = map_of (ents c)"
  by (auto simp: get_ents touch_def delete_conv' fun_eq_iff split: option.split)

lemma get_add: "inv c \<Longrightarrow> 0 < cap c \<Longrightarrow> fst (get k (add k v c)) = Some v"
  by (cases "cap c") (simp_all add: get_val add_inv add_ents remember_def)

text \<open>Reading and adding never invent an entry.\<close>

lemma add_only: "inv c \<Longrightarrow> map_of (ents (add k v c)) j = Some w \<Longrightarrow> j = k \<and> w = v \<or> map_of (ents c) j = Some w"
proof -
  assume c: "inv c" and j: "map_of (ents (add k v c)) j = Some w"
  then have "(j, w) \<in> set ((k, v) # AList.delete k (ents c))"
    by (auto simp: add_ents remember_def dest!: map_of_SomeD in_set_takeD)
  then show ?thesis using keys [OF c] by (auto simp: AList.delete_eq)
qed

text \<open>An entry with fewer than the capacity of other keys added behind it is still there.\<close>

lemma adds_keep:
  assumes "inv c" "ents c = as @ (k, v) # bs" "k \<notin> fst ` set xs"
    and "card (fst ` (set as \<union> set xs)) < cap c"
  shows "map_of (ents (fold (\<lambda>(j, w). add j w) xs c)) k = Some v"
  using assms
proof (induction xs arbitrary: c as bs)
  case Nil
  then show ?case using keys [OF Nil(1)] by (intro map_of_is_SomeI) simp_all
next
  case (Cons x xs)
  obtain j w where x: "x = (j, w)" by (cases x)
  let ?as = "(j, w) # AList.delete j as"
  have j: "j \<noteq> k" using Cons.prems(3) x by auto
  have sub: "fst ` (set ?as \<union> set xs) \<subseteq> fst ` (set as \<union> set (x # xs))" by (auto simp: x AList.delete_eq)
  have "distinct (map fst ?as)"
    using keys [OF Cons.prems(1)] Cons.prems(2) delete_notin_dom [of j as] by (simp add: distinct_delete)
  from distinct_card [OF this] have "length ?as = card (fst ` set ?as)" by simp
  also have "\<dots> \<le> card (fst ` (set as \<union> set (x # xs)))" using sub by (intro card_mono) auto
  finally have len: "length ?as < cap c" using Cons.prems(4) by linarith
  have es: "ents (add j w c) = ?as @ (k, v) # take (cap c - length ?as - 1) (AList.delete j bs)"
    using len j Cons.prems(1,2) by (simp add: add_ents remember_def AList.delete_eq take_Cons')
  have "card (fst ` (set ?as \<union> set xs)) < cap (add j w c)"
    using card_mono [OF _ sub] Cons.prems(4) by (simp add: add_cap)
  then show ?case
    using Cons.IH [OF add_inv [OF Cons.prems(1)] es] Cons.prems(3) by (simp add: x)
qed

end

interpretation lru: bounded_cache lru_Get lru_Add lru_inv entries lc_capacity
  by unfold_locales
    (simp_all add: lru_inv_keys lru_Get_refines lru_Add_refines, simp add: lru_inv_def entries_def)

text \<open>
  C16: the LRU cache implements a bounded list of entries, most recent first. From a cache whose map
  and eviction list agree, reading a key returns the value of its entry and moves the entry to the
  front, adding one puts it in front, replaces an older entry of the key and drops the oldest entry
  beyond the capacity; both leave map and list in agreement and the size within the capacity.
\<close>

theorem lru_refines:
  assumes "lru_inv c"
  shows "fst (lru_Get k c) = map_of (entries c) k \<and> entries (snd (lru_Get k c)) = touch k (entries c) \<and>
         entries (lru_Add k v c) = remember (lc_capacity c) k v (entries c) \<and>
         lru_inv (snd (lru_Get k c)) \<and> lru_inv (lru_Add k v c) \<and>
         length (lc_evictList (lru_Add k v c)) \<le> lc_capacity c"
proof -
  have "lru_inv (lru_Add k v c)" using lru_Add_refines [OF assms] by blast
  then have "length (lc_evictList (lru_Add k v c)) \<le> lc_capacity c"
    by (metis lru_capacity(2) lru_inv_def)
  then show ?thesis using lru_Get_refines [OF assms, of k] lru_Add_refines [OF assms, of k v] by blast
qed

theorem lru_refines_witness:
  "entries (lru_Add (7 :: nat) ''c'' (lru_Add 6 ''b'' (lru_Add 5 ''a'' (newLRUCache 2)))) = [(7, ''c''), (6, ''b'')]"
proof -
  note step = lru_refines [THEN conjunct2, THEN conjunct2, THEN conjunct1]
  have i: "lru_inv (lru_Add (5 :: nat) ''a'' (newLRUCache 2))"
    "lru_inv (lru_Add 6 ''b'' (lru_Add (5 :: nat) ''a'' (newLRUCache 2)))"
    using lru_refines by (metis lru_inv_new(1))+
  show ?thesis
    by (simp add: step [OF i(2)] step [OF i(1)] step [OF lru_inv_new(1)] remember_def take_Cons')
qed

section \<open>The deduplicator\<close>

text \<open>Durations and instants in nanoseconds; the map of last emissions as an association list.\<close>

record Deduper =
  dd_window :: int
  dd_last :: "(gostring \<times> int) list"

definition NewDeduper :: "int \<Rightarrow> Deduper" where
  "NewDeduper window = \<lparr>dd_window = window, dd_last = []\<rparr>"

definition SetWindow :: "int \<Rightarrow> Deduper \<Rightarrow> Deduper" where
  "SetWindow window d = d\<lparr>dd_window := window\<rparr>"

definition Allow :: "int \<Rightarrow> gostring \<Rightarrow> Deduper \<Rightarrow> bool \<times> Deduper" where
  "Allow now key d =
     (if dd_window d \<le> 0 then (True, d)
      else if (case map_of (dd_last d) key of Some t \<Rightarrow> now - t < dd_window d | None \<Rightarrow> False)
      then (False, d)
      else let l = AList.update key now (dd_last d) in
        (True, d\<lparr>dd_last := if 2048 < length l then filter (\<lambda>(k, t). \<not> dd_window d < now - t) l else l\<rparr>))"

text \<open>A sequence of calls and their answers.\<close>

fun dedup_run :: "(int \<times> gostring) list \<Rightarrow> Deduper \<Rightarrow> bool list \<times> Deduper" where
  "dedup_run [] d = ([], d)"
| "dedup_run ((now, key) # calls) d =
     (let (b, d') = Allow now key d; (bs, d'') = dedup_run calls d' in (b # bs, d''))"

text \<open>
  The reference: all emissions are kept, and a call is allowed when none of its key lies within the
  window.
\<close>

fun dedup_spec :: "int \<Rightarrow> (int \<times> gostring) list \<Rightarrow> (int \<times> gostring) list \<Rightarrow> bool list" where
  "dedup_spec w emitted [] = []"
| "dedup_spec w emitted ((now, key) # calls) =
     (let b = list_all (\<lambda>(t, k). k \<noteq> key \<or> w \<le> now - t) emitted
      in b # dedup_spec w (if b then (now, key) # emitted else emitted) calls)"

definition dedup_rel :: "int \<Rightarrow> int \<Rightarrow> (int \<times> gostring) list \<Rightarrow> Deduper \<Rightarrow> bool" where
  "dedup_rel w now emitted d \<longleftrightarrow>
     dd_window d = w \<and> distinct (map fst (dd_last d)) \<and> (\<forall>(t, k) \<in> set emitted. t \<le> now) \<and>
     (\<forall>k t. map_of (dd_last d) k = Some t \<longrightarrow> (t, k) \<in> set emitted) \<and>
     (\<forall>(t, k) \<in> set emitted. now - t < w \<longrightarrow> (\<exists>t' \<ge> t. map_of (dd_last d) k = Some t'))"

lemma map_of_filter_distinct:
  "distinct (map fst l) \<Longrightarrow> map_of (filter P l) k = Some t \<longleftrightarrow> map_of l k = Some t \<and> P (k, t)"
  using distinct_map_filter [of fst l P] by (auto simp: map_of_eq_Some_iff)

lemma dedup_rel_later: "dedup_rel w now em d \<Longrightarrow> now \<le> now' \<Longrightarrow> dedup_rel w now' em d"
  unfolding dedup_rel_def by fastforce

lemma Allow_answer:
  assumes "dedup_rel w now em d" "0 < w"
  shows "fst (Allow now key d) \<longleftrightarrow> list_all (\<lambda>(t, k). k \<noteq> key \<or> w \<le> now - t) em"
proof (cases "map_of (dd_last d) key")
  case None
  then have "w \<le> now - t" if "(t, key) \<in> set em" for t
    using assms(1) that unfolding dedup_rel_def by fastforce
  then show ?thesis using assms None by (auto simp: Allow_def dedup_rel_def Let_def list_all_iff)
next
  case (Some t0)
  then have t0: "(t0, key) \<in> set em" "\<And>t. (t, key) \<in> set em \<Longrightarrow> now - t < w \<Longrightarrow> t \<le> t0"
    using assms(1) unfolding dedup_rel_def by fastforce+
  have "list_all (\<lambda>(t, k). k \<noteq> key \<or> w \<le> now - t) em \<longleftrightarrow> \<not> now - t0 < w"
  proof
    assume "\<not> now - t0 < w"
    then show "list_all (\<lambda>(t, k). k \<noteq> key \<or> w \<le> now - t) em"
      unfolding list_all_iff using t0(2) by fastforce
  qed (use t0(1) in \<open>auto simp: list_all_iff\<close>)
  then show ?thesis using assms Some by (auto simp: Allow_def dedup_rel_def Let_def)
qed

lemma Allow_rel:
  assumes "dedup_rel w now em d" "0 < w" "fst (Allow now key d)"
  shows "dedup_rel w now ((now, key) # em) (snd (Allow now key d))"
proof -
  let ?l = "AList.update key now (dd_last d)"
  define f where "f = (if 2048 < length ?l then filter (\<lambda>(k, t). \<not> w < now - t) ?l else ?l)"
  have d: "snd (Allow now key d) = d\<lparr>dd_last := f\<rparr>" "dd_window d = w"
    using assms by (auto simp: f_def Allow_def dedup_rel_def Let_def split: if_splits)
  have dl: "distinct (map fst ?l)" using assms(1) by (simp add: dedup_rel_def distinct_update)
  have l: "map_of ?l k = (if k = key then Some now else map_of (dd_last d) k)" for k
    by (simp add: update_conv')
  have sub: "map_of ?l k = Some t" if "map_of f k = Some t" for k t
    using that dl by (auto simp: f_def map_of_filter_distinct split: if_splits)
  have keep: "map_of f k = Some t" if "map_of ?l k = Some t" "now - t \<le> w" for k t
    using that dl by (auto simp: f_def map_of_filter_distinct)
  have f1: "distinct (map fst f)" using dl by (simp add: f_def distinct_map_filter)
  have f2: "(t, k) \<in> set ((now, key) # em)" if "map_of f k = Some t" for k t
    using sub [OF that] l [of k] assms(1) by (auto simp: dedup_rel_def split: if_splits)
  have f3: "\<exists>t' \<ge> t. map_of f k = Some t'" if h: "(t, k) \<in> set ((now, key) # em)" and lt: "now - t < w" for t k
  proof (cases "k = key")
    case True
    moreover have "t \<le> now" using h assms(1) by (auto simp: dedup_rel_def)
    ultimately show ?thesis using keep [of key now] l [of key] assms(2) by auto
  next
    case False
    then have "(t, k) \<in> set em" using h by auto
    then obtain t' where "t' \<ge> t" "map_of (dd_last d) k = Some t'"
      using assms(1) lt unfolding dedup_rel_def by fastforce
    then show ?thesis using keep [of k t'] l [of k] False lt by auto
  qed
  have f4: "\<forall>(t, k) \<in> set ((now, key) # em). t \<le> now" using assms(1) by (simp add: dedup_rel_def)
  show ?thesis using d f1 f2 f3 f4 by (simp add: dedup_rel_def) blast
qed

lemma dedup_run_spec:
  assumes "dedup_rel w now em d" "0 < w" "sorted (now # map fst calls)"
  shows "fst (dedup_run calls d) = dedup_spec w em calls"
  using assms
proof (induction calls arbitrary: now em d)
  case (Cons c calls)
  obtain t k where c: "c = (t, k)" by (cases c)
  have "now \<le> t" using Cons.prems(3) c by simp
  with Cons.prems(1) have r: "dedup_rel w t em d" by (rule dedup_rel_later)
  have s: "sorted (t # map fst calls)" using Cons.prems(3) c by simp
  show ?case
  proof (cases "fst (Allow t k d)")
    case True
    then show ?thesis
      using Cons.IH [OF Allow_rel [OF r assms(2) True] assms(2) s] Allow_answer [OF r assms(2), of k]
      by (simp add: c case_prod_unfold Let_def)
  next
    case False
    then have "snd (Allow t k d) = d" by (auto simp: Allow_def Let_def split: if_splits)
    then show ?thesis
      using False Cons.IH [OF r assms(2) s] Allow_answer [OF r assms(2), of k]
      by (simp add: c case_prod_unfold Let_def)
  qed
qed simp

text \<open>
  C18: forgetting old entries never changes an answer of the deduplicator. On any sequence of calls
  with a monotone clock, a call is allowed exactly when no allowed call with the same key lies less
  than a window before it, as if every emission had been kept: alerts of one key are at least a window
  apart, and one is suppressed only when the same key was emitted within the window.
\<close>

theorem dedup_exact:
  assumes "0 < w" "sorted (map fst calls)"
  shows "fst (dedup_run calls (NewDeduper w)) = dedup_spec w [] calls"
proof (cases calls)
  case (Cons c cs)
  have "dedup_rel w (fst c) [] (NewDeduper w)" by (simp add: dedup_rel_def NewDeduper_def)
  then show ?thesis using assms Cons by (intro dedup_run_spec [of w "fst c"]) simp_all
qed simp

theorem dedup_exact_witness:
  "fst (dedup_run [(0, [7]), (5, [7]), (6, [8]), (10, [7])] (NewDeduper 10)) = [True, False, True, True]"
  using dedup_exact [of 10 "[(0, [7]), (5, [7]), (6, [8]), (10, [7])]"] by (simp add: Let_def)

end
