(* ===== verification/KG_Correlator.thy ===== *)
theory KG_Correlator
  imports KG_Cache
begin

text \<open>
  The correlator of \<open>internal/processor/correlate.go\<close>: short-lived memories of executions, of the
  names addresses were resolved from and of writes to protected files, each an LRU cache. The walk
  up the process tree, a loop over data of the host, is shown to end and to follow parent links.
\<close>

record ProcessNode =
  pn_Pid :: u32
  pn_Ppid :: u32
  pn_Comm :: gostring
  pn_Filename :: gostring
  pn_At :: int

record fileWriteRecord =
  fw_writtenAt :: int
  fw_writerPID :: u32
  fw_writerComm :: gostring

record ipRecord =
  ip_domain :: gostring
  ip_at :: int

record Correlator =
  co_cache :: "(u32, ProcessNode) lruCache"
  co_ipScoped :: "(u64 \<times> ip_text, ipRecord) lruCache"
  co_ipFallback :: "(ip_text, ipRecord) lruCache"
  co_recentPathWrites :: "(gostring, fileWriteRecord) lruCache"
  co_recentIDWrites :: "(file_id, fileWriteRecord) lruCache"

definition NewCorrelator :: Correlator where
  "NewCorrelator =
     \<lparr>co_cache = newLRUCache 1000, co_ipScoped = newLRUCache 5000, co_ipFallback = newLRUCache 5000,
      co_recentPathWrites = newLRUCache 2000, co_recentIDWrites = newLRUCache 2000\<rparr>"

definition RecordExec :: "int \<Rightarrow> u32 \<Rightarrow> u32 \<Rightarrow> gostring \<Rightarrow> gostring \<Rightarrow> Correlator \<Rightarrow> Correlator" where
  "RecordExec now pid ppid comm filename co =
     co\<lparr>co_cache := lru_Add pid
          \<lparr>pn_Pid = pid, pn_Ppid = ppid, pn_Comm = comm, pn_Filename = filename, pn_At = now\<rparr> (co_cache co)\<rparr>"

section \<open>The process tree\<close>

text \<open>The loop of \<open>BuildTree\<close>; every lookup also moves the entry to the front of the cache.\<close>

function build_tree ::
    "(u32, ProcessNode) lruCache \<Rightarrow> u32 list \<Rightarrow> u32 \<Rightarrow> ProcessNode list \<times> (u32, ProcessNode) lruCache" where
  "build_tree c visited cur =
     (if cur \<le> 1 \<or> cur \<in> set visited then ([], c)
      else case lru_Get cur c of
        (None, c') \<Rightarrow> ([], c')
      | (Some node, c') \<Rightarrow>
          let (tree, c'') = build_tree c' (cur # visited) (pn_Ppid node) in (node # tree, c''))"
  by pat_completeness auto

termination build_tree
proof (relation "measure (\<lambda>(c, visited, cur). card (- set visited))")
  fix c :: "(u32, ProcessNode) lruCache" and visited :: "u32 list" and cur node c' and x :: "ProcessNode option \<times> (u32, ProcessNode) lruCache"
  assume "\<not> (cur \<le> 1 \<or> cur \<in> set visited)"
  then have "- set (cur # visited) \<subset> - set visited" by auto
  then have "card (- set (cur # visited)) < card (- set visited)" by (intro psubset_card_mono) simp_all
  then show "((c', cur # visited, pn_Ppid node), c, visited, cur)
      \<in> measure (\<lambda>(c, visited, cur). card (- set visited))" for c' node by simp
qed simp

declare build_tree.simps [simp del]

definition BuildTree :: "u32 \<Rightarrow> Correlator \<Rightarrow> ProcessNode list \<times> Correlator" where
  "BuildTree startPid co =
     (let (tree, c) = build_tree (co_cache co) [] startPid in (tree, co\<lparr>co_cache := c\<rparr>))"

text \<open>\<open>FormatTree\<close> prints the nodes from the oldest ancestor down to the process.\<close>

definition FormatTree :: "u32 \<Rightarrow> Correlator \<Rightarrow> ProcessNode list \<times> Correlator" where
  "FormatTree startPid co = (let (nodes, co') = BuildTree startPid co in (rev nodes, co'))"

text \<open>A chain of cached nodes, each the parent of the one before.\<close>

fun ancestry :: "(u32 \<Rightarrow> ProcessNode option) \<Rightarrow> u32 \<Rightarrow> ProcessNode list \<Rightarrow> bool" where
  "ancestry m p [] \<longleftrightarrow> True"
| "ancestry m p (n # ns) \<longleftrightarrow> 1 < p \<and> m p = Some n \<and> ancestry m (pn_Ppid n) ns"

lemma build_tree_spec:
  assumes "lru_inv c"
  shows "lru_inv (snd (build_tree c visited cur)) \<and>
         map_of (entries (snd (build_tree c visited cur))) = map_of (entries c) \<and>
         ancestry (map_of (entries c)) cur (fst (build_tree c visited cur)) \<and>
         length (fst (build_tree c visited cur)) \<le> card (fst ` set (entries c) - set visited)"
  using assms
proof (induction c visited cur rule: build_tree.induct)
  case (1 c visited cur)
  let ?c = "snd (lru_Get cur c)"
  note g = lru.get_inv [OF 1(2), of cur] lru.get_val [OF 1(2), of cur] lru.get_keeps [OF 1(2), of cur]
  show ?case
  proof (cases "cur \<le> 1 \<or> cur \<in> set visited")
    case True
    then show ?thesis using 1(2) by (simp add: build_tree.simps [of c])
  next
    case new: False
    show ?thesis
    proof (cases "fst (lru_Get cur c)")
      case None
      then show ?thesis using new g by (simp add: build_tree.simps [of c] case_prod_unfold)
    next
      case (Some node)
      let ?K = "fst ` set (entries c)" and ?t = "build_tree ?c (cur # visited) (pn_Ppid node)"
      have t: "build_tree c visited cur = (node # fst ?t, snd ?t)"
        using new Some by (simp add: build_tree.simps [of c] case_prod_unfold Let_def)
      have m: "map_of (entries c) cur = Some node" using Some g(2) by simp
      then have k: "cur \<in> ?K - set visited" using new by (auto dest: map_of_SomeD intro: rev_image_eqI)
      have "fst ` set (entries ?c) = ?K" using g(3) by (metis dom_map_of_conv_image_fst)
      moreover have "?K - set (cur # visited) = (?K - set visited) - {cur}" by auto
      ultimately have card: "card (fst ` set (entries ?c) - set (cur # visited)) < card (?K - set visited)"
        using card_Diff1_less [OF _ k] by simp
      have "lru_inv (snd ?t) \<and> map_of (entries (snd ?t)) = map_of (entries ?c) \<and>
          ancestry (map_of (entries ?c)) (pn_Ppid node) (fst ?t) \<and>
          length (fst ?t) \<le> card (fst ` set (entries ?c) - set (cur # visited))"
        using 1(1) [OF new _ Some, of ?c] g(1) by simp
      then show ?thesis using t m new g(3) card by auto
    qed
  qed
qed

text \<open>
  C17: the walk up the process tree ends, on any cache, also when recorded parents form a cycle. Its
  result follows cached parent links from the process upwards, has at most one node per cached
  process, so at most 1000, and the lookups leave the contents of the cache as they were.
\<close>

theorem BuildTree_ends:
  assumes "lru_inv (co_cache co)"
  shows "ancestry (map_of (entries (co_cache co))) p (fst (BuildTree p co)) \<and>
         length (fst (BuildTree p co)) \<le> lc_capacity (co_cache co) \<and>
         map_of (entries (co_cache (snd (BuildTree p co)))) = map_of (entries (co_cache co)) \<and>
         lru_inv (co_cache (snd (BuildTree p co)))"
proof -
  let ?c = "co_cache co"
  note b = build_tree_spec [OF assms, of "[]" p]
  have "length (fst (build_tree ?c [] p)) \<le> card (fst ` set (entries ?c))" using b by simp
  also have "\<dots> \<le> length (entries ?c)" using card_length [of "map fst (entries ?c)"] by simp
  also have "\<dots> \<le> lc_capacity ?c" by (rule lru.bound [OF assms])
  finally show ?thesis using b by (simp add: BuildTree_def case_prod_unfold Let_def)
qed

text \<open>Two processes recorded as each other's parent.\<close>

theorem BuildTree_ends_witness:
  "length (fst (BuildTree 20 (RecordExec 0 10 20 [] [] (RecordExec 0 20 10 [] [] NewCorrelator)))) \<le> 1000"
proof -
  have "lru_inv (co_cache (RecordExec 0 10 20 [] [] (RecordExec 0 20 10 [] [] NewCorrelator)))"
    by (simp add: RecordExec_def NewCorrelator_def lru.add_inv)
  from BuildTree_ends [OF this, of 20] show ?thesis by (simp add: RecordExec_def NewCorrelator_def)
qed

section \<open>Names of addresses\<close>

definition fresh_for :: "int \<Rightarrow> int \<Rightarrow> int \<Rightarrow> bool" where
  "fresh_for within now at \<longleftrightarrow> now - at \<le> within"

definition five_minutes :: int where "five_minutes = 5 * 60 * 10 ^ 9"

text \<open>
  \<open>RecordIPDomain\<close>; the address is one \<open>net.IP.String\<close> printed, so \<open>normalizeIP\<close> returns it as it is.
\<close>

definition RecordIPDomain :: "int \<Rightarrow> u64 \<Rightarrow> ip_text \<Rightarrow> gostring \<Rightarrow> Correlator \<Rightarrow> Correlator" where
  "RecordIPDomain now cgroupID ip domain co =
     (if domain = [] then co
      else let rec = \<lparr>ip_domain = domain, ip_at = now\<rparr> in
        co\<lparr>co_ipScoped := lru_Add (cgroupID, ip) rec (co_ipScoped co),
           co_ipFallback := lru_Add ip rec (co_ipFallback co)\<rparr>)"

text \<open>
  \<open>normalizeIP\<close> of a destination: the brackets around an IPv6 address are removed, and an IPv4
  address mapped into IPv6 is printed like the IPv4 address. Other destinations are no addresses
  and never recorded.
\<close>

fun normalizeIP :: "dest \<Rightarrow> ip_text option" where
  "normalizeIP (DestIP4 ip) = Some ip"
| "normalizeIP (DestIP6 ip) = Some ip"
| "normalizeIP _ = None"

definition GetDomainByIP :: "int \<Rightarrow> u64 \<Rightarrow> dest \<Rightarrow> Correlator \<Rightarrow> (gostring \<times> bool) \<times> Correlator" where
  "GetDomainByIP now cgroupID d co =
     (case normalizeIP d of
        None \<Rightarrow> (([], False), co)
      | Some ip \<Rightarrow>
          let (r, c) = lru_Get (cgroupID, ip) (co_ipScoped co); co1 = co\<lparr>co_ipScoped := c\<rparr> in
          if (case r of Some rec \<Rightarrow> fresh_for five_minutes now (ip_at rec) | None \<Rightarrow> False)
          then ((ip_domain (the r), True), co1)
          else
            let (r', c') = lru_Get ip (co_ipFallback co1); co2 = co1\<lparr>co_ipFallback := c'\<rparr> in
            if (case r' of Some rec \<Rightarrow> fresh_for five_minutes now (ip_at rec) | None \<Rightarrow> False)
            then ((ip_domain (the r'), False), co2)
            else (([], False), co2))"

section \<open>Recent writes\<close>

definition no_id :: "file_id \<Rightarrow> bool" where
  "no_id i \<longleftrightarrow> fi_dev i = 0 \<and> fi_ino i = 0"

definition co_RecordFileWrite :: "int \<Rightarrow> gostring \<Rightarrow> file_id \<Rightarrow> u32 \<Rightarrow> gostring \<Rightarrow> Correlator \<Rightarrow> Correlator" where
  "co_RecordFileWrite now path i pid comm co =
     (let rec = \<lparr>fw_writtenAt = now, fw_writerPID = pid, fw_writerComm = comm\<rparr>;
          co1 = (if path \<noteq> [] then co\<lparr>co_recentPathWrites := lru_Add path rec (co_recentPathWrites co)\<rparr> else co)
      in if \<not> no_id i then co1\<lparr>co_recentIDWrites := lru_Add i rec (co_recentIDWrites co1)\<rparr> else co1)"

definition GetRecentWrite ::
    "int \<Rightarrow> gostring \<Rightarrow> file_id \<Rightarrow> int \<Rightarrow> Correlator \<Rightarrow> fileWriteRecord option \<times> Correlator" where
  "GetRecentWrite now path i within co =
     (let (byid, co1) =
        (if no_id i then (None, co)
         else let (r, c) = lru_Get i (co_recentIDWrites co) in (r, co\<lparr>co_recentIDWrites := c\<rparr>))
      in if (case byid of Some rec \<Rightarrow> fresh_for within now (fw_writtenAt rec) | None \<Rightarrow> False) then (byid, co1)
         else
           let (bypath, co2) =
             (if path = [] then (None, co1)
              else let (r, c) = lru_Get path (co_recentPathWrites co1) in (r, co1\<lparr>co_recentPathWrites := c\<rparr>))
           in if (case bypath of Some rec \<Rightarrow> fresh_for within now (fw_writtenAt rec) | None \<Rightarrow> False)
              then (bypath, co2) else (None, co2))"

definition correlator_inv :: "Correlator \<Rightarrow> bool" where
  "correlator_inv co \<longleftrightarrow>
     lru_inv (co_cache co) \<and> lc_capacity (co_cache co) = 1000 \<and>
     lru_inv (co_ipScoped co) \<and> lc_capacity (co_ipScoped co) = 5000 \<and>
     lru_inv (co_ipFallback co) \<and> lc_capacity (co_ipFallback co) = 5000 \<and>
     lru_inv (co_recentPathWrites co) \<and> lc_capacity (co_recentPathWrites co) = 2000 \<and>
     lru_inv (co_recentIDWrites co) \<and> lc_capacity (co_recentIDWrites co) = 2000"

lemma correlator_inv_new: "correlator_inv NewCorrelator"
  by (simp add: correlator_inv_def NewCorrelator_def)

lemma build_tree_capacity: "lc_capacity (snd (build_tree c v p)) = lc_capacity c"
proof (induction c v p rule: build_tree.induct)
  case (1 c v p)
  obtain r d where g: "lru_Get p c = (r, d)" by (cases "lru_Get p c")
  then have "lc_capacity d = lc_capacity c" using lru_capacity(3) [of p c] by simp
  then show ?case
    using 1 [OF _ g [symmetric]] g
    by (cases r) (auto simp: build_tree.simps [of c] case_prod_unfold Let_def)
qed

text \<open>Every operation keeps all five caches within their bounds and consistent.\<close>

lemma correlator_inv_steps:
  assumes "correlator_inv co"
  shows "correlator_inv (RecordExec now pid ppid comm file co)"
    and "correlator_inv (snd (BuildTree p co))"
    and "correlator_inv (RecordIPDomain now cg ip domain co)"
    and "correlator_inv (snd (GetDomainByIP now cg d co))"
    and "correlator_inv (co_RecordFileWrite now path i pid comm co)"
    and "correlator_inv (snd (GetRecentWrite now path i within co))"
proof -
  note lru = lru.add_inv lru.get_inv
  show "correlator_inv (RecordExec now pid ppid comm file co)"
    using assms by (simp add: correlator_inv_def RecordExec_def lru)
  show "correlator_inv (snd (BuildTree p co))"
    using assms build_tree_spec [of "co_cache co" "[]" p]
    by (simp add: correlator_inv_def BuildTree_def case_prod_unfold Let_def build_tree_capacity)
  show "correlator_inv (RecordIPDomain now cg ip domain co)"
    using assms by (simp add: correlator_inv_def RecordIPDomain_def Let_def lru)
  show "correlator_inv (snd (GetDomainByIP now cg d co))"
    using assms
    by (cases "normalizeIP d") (simp_all add: correlator_inv_def GetDomainByIP_def Let_def case_prod_unfold lru)
  show "correlator_inv (co_RecordFileWrite now path i pid comm co)"
    using assms by (simp add: correlator_inv_def co_RecordFileWrite_def Let_def lru)
  show "correlator_inv (snd (GetRecentWrite now path i within co))"
    using assms by (simp add: correlator_inv_def GetRecentWrite_def Let_def case_prod_unfold lru)
qed

end
