(* ===== verification/KG_Engine.thy ===== *)
theory KG_Engine
  imports KG_Correlator
begin

text \<open>
  The policy engine of \<open>internal/processor/engine.go\<close> and the kill guard of
  \<open>internal/safety/safety.go\<close>: what user space does with a decoded event. The state holds the
  configuration, the deduplicator, the correlator and everything the engine has put out: alerts
  handed to the dispatcher, audit records, processes killed, metrics, container cgroups added to the
  kernel map. One clock reading serves a whole call. Texts are represented by format and arguments;
  the strings that serve as keys of the deduplicator are built as in the source, since two of them
  may coincide.
\<close>

section \<open>Strings built by the engine\<close>

definition itoa :: "nat \<Rightarrow> gostring" where
  "itoa n = str (digits n)"

definition hex_digit :: "nat \<Rightarrow> u8" where
  "hex_digit n = (if n < 10 then word_of_nat (48 + n) else word_of_nat (87 + n))"

fun hex :: "nat \<Rightarrow> gostring" where
  "hex n = (if n < 16 then [hex_digit n] else hex (n div 16) @ [hex_digit (n mod 16)])"

declare hex.simps [simp del]

definition ip6_groups :: "bytes \<Rightarrow> nat list" where
  "ip6_groups ip = map (\<lambda>i. 256 * unat (ip ! (2 * i)) + unat (ip ! (2 * i + 1))) [0..<8]"

text \<open>The first longest run of at least two zero groups, as its start and end.\<close>

definition zero_run :: "nat list \<Rightarrow> nat \<times> nat" where
  "zero_run gs =
     fold (\<lambda>i (s, e). let l = length (takeWhile (\<lambda>g. g = 0) (drop i gs)) in
                        if 2 \<le> l \<and> e - s < l then (i, i + l) else (s, e)) [0..<8] (255, 255)"

fun ip_string :: "ip_text \<Rightarrow> gostring" where
  "ip_string (Dotted b) = strings_Join (str ''.'') (map (\<lambda>x. itoa (unat x)) b)"
| "ip_string (Colons b) =
     (let gs = ip6_groups b; (s, e) = zero_run gs in
      if s = 255 then strings_Join (str '':'') (map hex gs)
      else strings_Join (str '':'') (map hex (take s gs)) @ str ''::'' @
           strings_Join (str '':'') (map hex (drop e gs)))"

fun dest_string :: "dest \<Rightarrow> gostring" where
  "dest_string (DestUnix path) = str ''unix:'' @ path"
| "dest_string (DestIP4 ip) = ip_string ip"
| "dest_string (DestIP6 ip) = str ''['' @ ip_string ip @ str '']''"
| "dest_string (DestNetlink proto) = str ''netlink:proto='' @ itoa (unat proto)"
| "dest_string (DestUnknown fam) = str ''(unknown address family '' @ itoa (unat fam) @ str '')''"

text \<open>\<open>filepath.Base\<close> and \<open>strings.Fields\<close>.\<close>

definition Base :: "gostring \<Rightarrow> gostring" where
  "Base p =
     (let q = rev (dropWhile (\<lambda>c. c = 0x2F) (rev p)) in
      if p = [] then [0x2E] else if q = [] then [0x2F] else last (components q))"

function fields_loop :: "gostring \<Rightarrow> gostring \<Rightarrow> gostring list" where
  "fields_loop word [] = (if word = [] then [] else [word])"
| "fields_loop word (b # bs) =
     (case find (\<lambda>q. q \<noteq> [] \<and> prefix q (b # bs)) space_seqs of
        Some q \<Rightarrow> (if word = [] then [] else [word]) @ fields_loop [] (drop (length q) (b # bs))
      | None \<Rightarrow> fields_loop (word @ [b]) bs)"
  by pat_completeness auto

termination fields_loop
proof (relation "measure (length \<circ> snd)")
  fix word b bs and q :: bytes
  assume "find (\<lambda>q. q \<noteq> [] \<and> prefix q (b # bs)) space_seqs = Some q"
  then have "0 < length q" by (auto simp: find_Some_iff)
  then show "(([], drop (length q) (b # bs)), word, b # bs) \<in> measure (length \<circ> snd)" by simp
qed auto

definition Fields :: "gostring \<Rightarrow> gostring list" where
  "Fields s = fields_loop [] s"

section \<open>Alerts, audit records, state\<close>

record alert =
  al_Timestamp :: int
  al_EventType :: string
  al_Severity :: severity
  al_Action :: rule_action
  al_RuleName :: gostring
  al_Mode :: "rule_mode option"
  al_Blocked :: bool
  al_Meta :: ProcessMeta
  al_Dest :: "(dest \<times> u16) option"
  al_Detail :: "detail list"
  al_LineageTree :: "ProcessNode list"
  al_ResponseErr :: bool
  al_Pod :: "gostring option"

datatype decision = DecisionBlock | DecisionKill

record audit_record =
  ar_Decision :: decision
  ar_EventType :: string
  ar_RuleName :: gostring
  ar_Meta :: ProcessMeta
  ar_Target :: gostring

datatype metric =
    IncBlock | IncKill | IncKillError | IncHashCheckError
  | IncRuleHit gostring severity rule_action

text \<open>The variables of a CEL expression.\<close>

record EventContext =
  ec_Type :: string
  ec_AncestorSuspicious :: bool
  ec_AncestorFilename :: gostring
  ec_IsSuspiciousPath :: bool
  ec_Path :: gostring
  ec_Basename :: gostring
  ec_Sha256 :: gostring
  ec_Pid :: u32
  ec_Ppid :: u32
  ec_Uid :: u32
  ec_Gid :: u32
  ec_Comm :: gostring
  ec_Args :: "gostring list"
  ec_IsFileless :: bool

record engine =
  en_cfg :: config
  en_protectedPIDs :: "int list"
  en_dedup :: Deduper
  en_corr :: Correlator
  en_alerts :: "alert list"
  en_audit :: "audit_record list"
  en_kills :: "u32 list"
  en_metrics :: "metric list"
  en_cgroups :: "u64 list"

text \<open>
  The world of one call: the clock; the CEL library's verdict on a rule, false when the rule has no
  program or its evaluation fails; the digest of a process's executable and whether some rule asks
  for it; the identity of a process's executable and the trust set of protected ones; the answers
  of \<open>pidfd_open\<close> and \<open>pidfd_send_signal\<close>; the agent's own process; whether the exec hook is
  attached, whether an audit log is configured, and the pod a process belongs to.
\<close>

datatype errno = ESRCH | OtherErrno

record eenv =
  ee_now :: int
  ee_cel :: "rule \<Rightarrow> EventContext \<Rightarrow> bool"
  ee_requires_sha :: bool
  ee_sha :: "u32 \<Rightarrow> gostring option"
  ee_exe :: "u32 \<Rightarrow> file_id option"
  ee_protected :: "file_id \<Rightarrow> bool"
  ee_pidfd_open :: "u32 \<Rightarrow> errno option"
  ee_pidfd_signal :: "u32 \<Rightarrow> errno option"
  ee_selfPID :: int
  ee_lsm :: bool
  ee_audit :: bool
  ee_pod :: "u64 \<Rightarrow> u32 \<Rightarrow> gostring option"

section \<open>The guard\<close>

definition IsProtected :: "eenv \<Rightarrow> engine \<Rightarrow> u32 \<Rightarrow> bool" where
  "IsProtected E s pid \<longleftrightarrow>
     pid = 1 \<or> int (unat pid) = ee_selfPID E \<or> int (unat pid) \<in> set (en_protectedPIDs s) \<or>
     (case ee_exe E pid of None \<Rightarrow> False | Some i \<Rightarrow> ee_protected E i)"

datatype kill_error =
    RefusedProtected | AlreadyExited | PidfdOpenFailed | ExitedBeforeKill | SigkillFailed

definition SafeKill :: "eenv \<Rightarrow> u32 \<Rightarrow> engine \<Rightarrow> kill_error option \<times> engine" where
  "SafeKill E pid s =
     (if IsProtected E s pid then (Some RefusedProtected, s)
      else case ee_pidfd_open E pid of
        Some e \<Rightarrow> (Some (if e = ESRCH then AlreadyExited else PidfdOpenFailed), s)
      | None \<Rightarrow>
          (case ee_pidfd_signal E pid of
             Some e \<Rightarrow> (Some (if e = ESRCH then ExitedBeforeKill else SigkillFailed), s)
           | None \<Rightarrow> (None, s\<lparr>en_kills := en_kills s @ [pid]\<rparr>)))"

section \<open>Output\<close>

fun Rank :: "severity \<Rightarrow> nat" where
  "Rank SeverityLow = 1"
| "Rank SeverityMedium = 2"
| "Rank SeverityHigh = 3"
| "Rank SeverityCritical = 4"

definition isSuspiciousPath :: "gostring \<Rightarrow> gostring list \<Rightarrow> bool" where
  "isSuspiciousPath target filenames \<longleftrightarrow> list_ex (\<lambda>v. prefix v target) filenames"

definition isAllowlisted :: "config \<Rightarrow> gostring \<Rightarrow> bool" where
  "isAllowlisted cfg filename \<longleftrightarrow> list_ex (\<lambda>a. a = filename \<or> a = Base filename) (c_Allowlist cfg)"

definition ToAlert :: "ProcessMeta \<Rightarrow> string \<Rightarrow> severity \<Rightarrow> rule_action \<Rightarrow> detail list \<Rightarrow> alert" where
  "ToAlert m eventType sev actn detail =
     \<lparr>al_Timestamp = 0, al_EventType = eventType, al_Severity = sev, al_Action = actn, al_RuleName = [],
      al_Mode = None, al_Blocked = False, al_Meta = m, al_Dest = None, al_Detail = detail,
      al_LineageTree = [], al_ResponseErr = False, al_Pod = None\<rparr>"

definition ToAuditRecord :: "ProcessMeta \<Rightarrow> decision \<Rightarrow> string \<Rightarrow> gostring \<Rightarrow> gostring \<Rightarrow> audit_record" where
  "ToAuditRecord m dec eventType ruleName target =
     \<lparr>ar_Decision = dec, ar_EventType = eventType, ar_RuleName = ruleName, ar_Meta = m, ar_Target = target\<rparr>"

definition enrichAlert :: "eenv \<Rightarrow> engine \<Rightarrow> alert \<Rightarrow> alert \<times> Correlator" where
  "enrichAlert E s a =
     (let a1 = a\<lparr>al_Timestamp := ee_now E\<rparr>; m = al_Meta a;
          (a2, co) =
            (if m_AncestorSuspicious m \<and> \<not> isSuspiciousPath (m_Filename m) (c_SuspiciousPaths (en_cfg s)) then
               (let (tree, co) = FormatTree (m_PID m) (en_corr s) in (a1\<lparr>al_LineageTree := tree\<rparr>, co))
             else (a1, en_corr s))
      in (a2\<lparr>al_Pod := ee_pod E (m_CgroupID m) (m_PID m)\<rparr>, co))"

definition emit_alert :: "eenv \<Rightarrow> alert \<Rightarrow> engine \<Rightarrow> engine" where
  "emit_alert E a s =
     (let (a', co) = enrichAlert E s a in s\<lparr>en_corr := co, en_alerts := en_alerts s @ [a']\<rparr>)"

definition emitAudit :: "eenv \<Rightarrow> audit_record \<Rightarrow> engine \<Rightarrow> engine" where
  "emitAudit E r s = (if ee_audit E then s\<lparr>en_audit := en_audit s @ [r]\<rparr> else s)"

definition emitAuditAndAlert :: "eenv \<Rightarrow> alert \<Rightarrow> audit_record \<Rightarrow> engine \<Rightarrow> engine" where
  "emitAuditAndAlert E a r s = emit_alert E a (emitAudit E r s)"

definition count_metric :: "metric \<Rightarrow> engine \<Rightarrow> engine" where
  "count_metric m s = s\<lparr>en_metrics := en_metrics s @ [m]\<rparr>"

definition dedup_allow :: "eenv \<Rightarrow> gostring \<Rightarrow> engine \<Rightarrow> bool \<times> engine" where
  "dedup_allow E key s = (let (b, d) = Allow (ee_now E) key (en_dedup s) in (b, s\<lparr>en_dedup := d\<rparr>))"

definition key_of :: "gostring list \<Rightarrow> gostring" where
  "key_of parts = strings_Join (str ''|'') parts"

section \<open>Executions\<close>

definition exec_context :: "eenv \<Rightarrow> engine \<Rightarrow> string \<Rightarrow> gostring \<Rightarrow> ProcessMeta \<Rightarrow> EventContext" where
  "exec_context E s ty sha m =
     \<lparr>ec_Type = ty, ec_AncestorSuspicious = m_AncestorSuspicious m,
      ec_AncestorFilename = m_AncestorFilename m,
      ec_IsSuspiciousPath = isSuspiciousPath (m_Filename m) (c_SuspiciousPaths (en_cfg s)),
      ec_Path = m_Filename m, ec_Basename = Base (m_Filename m), ec_Sha256 = sha, ec_Pid = m_PID m,
      ec_Ppid = m_PPID m, ec_Uid = m_UID m, ec_Gid = m_GID m, ec_Comm = m_Comm m,
      ec_Args = Fields (m_Args m), ec_IsFileless = m_IsFileless m\<rparr>"

definition handleFilelessExec :: "eenv \<Rightarrow> ProcessMeta \<Rightarrow> engine \<Rightarrow> engine" where
  "handleFilelessExec E m s =
     emit_alert E (ToAlert m ''FILELESS_EXEC'' SeverityMedium ActionAlert [TextDetail ''Fileless execution detected''])
       (count_metric (IncRuleHit (str ''FilelessExecution'') SeverityMedium ActionKill) s)"

text \<open>The rule an \<open>EXEC_BLOCKED\<close> alert names: the first blocking one that matches.\<close>

definition blocked_rule :: "eenv \<Rightarrow> engine \<Rightarrow> ProcessMeta \<Rightarrow> rule option" where
  "blocked_rule E s m =
     find (\<lambda>r. r_action r = ActionBlock \<and>
       (r_ExactBlockPath r = m_Filename m \<or>
        r_ExactBlockPrefix r \<noteq> [] \<and> prefix (r_ExactBlockPrefix r) (m_Filename m) \<or>
        ee_cel E r (exec_context E s ''EXEC_BLOCKED'' [] m))) (c_Rules (en_cfg s))"

definition handleExecBlocked :: "eenv \<Rightarrow> ProcessMeta \<Rightarrow> engine \<Rightarrow> engine" where
  "handleExecBlocked E m s =
     (let s1 = count_metric IncBlock s;
          detail = (if m_PathTruncated m then [TextDetail ''path truncated (blocked_paths)''] else []);
          r = blocked_rule E s m;
          ruleName = (case r of Some r \<Rightarrow> r_name r | None \<Rightarrow> []);
          ruleMode = (case r of Some r \<Rightarrow> r_mode r | None \<Rightarrow> RuleModeEnforce);
          isActuallyBlocked = (ruleMode = RuleModeEnforce);
          detail' = (if isActuallyBlocked then detail
                     else detail @ [TextDetail ''[SHADOW/AUDIT] dry-run matched (execution allowed)'']);
          a = (ToAlert m ''EXEC_BLOCKED'' SeverityCritical ActionAlert detail')
                \<lparr>al_RuleName := ruleName, al_Mode := Some ruleMode, al_Blocked := isActuallyBlocked\<rparr>
      in emitAuditAndAlert E a (ToAuditRecord m DecisionBlock ''EXEC_BLOCKED'' ruleName (m_Filename m)) s1)"

text \<open>The first component of the result says whether the loop over the rules ends here.\<close>

definition processExecRuleMatch :: "eenv \<Rightarrow> rule \<Rightarrow> ProcessMeta \<Rightarrow> engine \<Rightarrow> bool \<times> engine" where
  "processExecRuleMatch E r m s =
     (let sev = (if m_PathTruncated m \<and> Rank (r_Severity r) < Rank SeverityMedium then SeverityMedium
                 else r_Severity r);
          s1 = count_metric (IncRuleHit (r_name r) sev (r_action r)) s;
          detail = (if m_PathTruncated m then [TextDetail ''path truncated (configured path lists)''] else []);
          a = (ToAlert m ''EXEC'' sev (r_action r) detail)\<lparr>al_RuleName := r_name r, al_Mode := Some (r_mode r)\<rparr>
      in if r_mode r = RuleModeAudit then
           (False, emit_alert E (a\<lparr>al_Detail := detail @ [Suppressed (r_action r)]\<rparr>) s1)
         else if r_action r = ActionKill \<or> r_action r = ActionBlock then
           (case SafeKill E (m_PID m) s1 of
              (Some err, s2) \<Rightarrow>
                (True, emit_alert E (a\<lparr>al_ResponseErr := True\<rparr>) (count_metric IncKillError s2))
            | (None, s2) \<Rightarrow>
                (True, emit_alert E a
                   (emitAudit E (ToAuditRecord m DecisionKill ''EXEC'' (r_name r) (m_Filename m))
                      (count_metric IncKill s2))))
         else (False, emit_alert E a s1))"

fun exec_rules :: "eenv \<Rightarrow> ProcessMeta \<Rightarrow> EventContext \<Rightarrow> rule list \<Rightarrow> engine \<Rightarrow> engine" where
  "exec_rules E m ctx [] s = s"
| "exec_rules E m ctx (r # rs) s =
     (if \<not> ee_cel E r ctx then exec_rules E m ctx rs s
      else
        let s1 = count_metric (IncRuleHit (r_name r) (r_Severity r) (r_action r)) s;
            (allowed, s2) = dedup_allow E (key_of [r_name r, itoa (unat (m_PID m))]) s1
        in if \<not> allowed then exec_rules E m ctx rs s2
           else
             let (terminated, s3) = processExecRuleMatch E r m s2
             in if terminated then s3 else exec_rules E m ctx rs s3)"

definition thirty_seconds :: int where "thirty_seconds = 30 * 10 ^ 9"

definition Engine_AnalyzeExec :: "eenv \<Rightarrow> ProcessMeta \<Rightarrow> bool \<Rightarrow> engine \<Rightarrow> engine" where
  "Engine_AnalyzeExec E m blocked s =
     (let s1 = s\<lparr>en_corr := RecordExec (ee_now E) (m_PID m) (m_PPID m) (m_Comm m) (m_Filename m) (en_corr s)\<rparr>
      in if isAllowlisted (en_cfg s) (m_Filename m) then s1
         else
           let (found, co) = GetRecentWrite (ee_now E) (m_Filename m)
                 \<lparr>fi_dev = m_ExeDev m, fi_ino = m_ExeIno m\<rparr> thirty_seconds (en_corr s1);
               s2 = s1\<lparr>en_corr := co\<rparr>
           in case found of
                Some w \<Rightarrow>
                  emit_alert E (ToAlert m ''DROP_AND_EXEC'' SeverityCritical ActionAlert
                    [DroppedBy (ee_now E - fw_writtenAt w) (fw_writerPID w) (fw_writerComm w)]) s2
              | None \<Rightarrow>
                  if m_IsFileless m then handleFilelessExec E m s2
                  else if blocked then handleExecBlocked E m s2
                  else
                    let sha = (if ee_requires_sha E then ee_sha E (m_PID m) else Some []);
                        s3 = (if sha = None then count_metric IncHashCheckError s2 else s2)
                    in exec_rules E m
                         (exec_context E s ''EXEC'' (case sha of Some h \<Rightarrow> h | None \<Rightarrow> []) m)
                         (c_Rules (en_cfg s)) s3)"

definition Engine_AnalyzeReverseShell :: "eenv \<Rightarrow> ProcessMeta \<Rightarrow> engine \<Rightarrow> engine" where
  "Engine_AnalyzeReverseShell E m s =
     (let enforced = c_EnforcementEnabled (en_cfg s) \<and> ee_lsm E;
          detail = TextDetail ''Reverse-shell vector detected'';
          a = (ToAlert m ''REVERSE_SHELL'' SeverityCritical (if enforced then ActionBlock else ActionKill) [detail])
                \<lparr>al_Blocked := enforced\<rparr>
      in if enforced then
           emitAuditAndAlert E (a\<lparr>al_Detail := [detail, TextDetail ''[LSM Pre-flight Blocked]'']\<rparr>)
             (ToAuditRecord m DecisionBlock ''REVERSE_SHELL'' [] (m_Filename m)) (count_metric IncBlock s)
         else
           let s1 = emitAudit E (ToAuditRecord m DecisionKill ''REVERSE_SHELL'' [] (m_Filename m)) s
           in case SafeKill E (m_PID m) s1 of
                (Some err, s2) \<Rightarrow> emit_alert E (a\<lparr>al_ResponseErr := True\<rparr>) (count_metric IncKillError s2)
              | (None, s2) \<Rightarrow> emit_alert E a (count_metric IncKill s2))"

section \<open>The other sensors\<close>

definition Engine_AnalyzeNetworkEgress :: "eenv \<Rightarrow> ProcessMeta \<Rightarrow> string \<Rightarrow> dest \<Rightarrow> u16 \<Rightarrow> engine \<Rightarrow> engine" where
  "Engine_AnalyzeNetworkEgress E m eventType d port s =
     (let (allowed, s1) = dedup_allow E (key_of [str eventType, itoa (unat (m_PID m)), dest_string d]) s in
      if \<not> allowed then s1
      else
        let ((domain, exact), co) = GetDomainByIP (ee_now E) (m_CgroupID m) d (en_corr s1);
            detail = (if domain \<noteq> [] then [ResolvedDomain domain exact] else []);
            sev = (if m_AncestorSuspicious m then SeverityCritical else SeverityLow)
        in emit_alert E ((ToAlert m eventType sev ActionAlert detail)\<lparr>al_Dest := Some (d, port)\<rparr>)
             (s1\<lparr>en_corr := co\<rparr>))"

definition Engine_AnalyzeGeneric :: "eenv \<Rightarrow> ProcessMeta \<Rightarrow> string \<Rightarrow> severity \<Rightarrow> detail list \<Rightarrow> engine \<Rightarrow> engine" where
  "Engine_AnalyzeGeneric E m eventType defaultSeverity detail s =
     (let (allowed, s1) = dedup_allow E (key_of [str eventType, itoa (unat (m_PID m)), m_Filename m]) s in
      if \<not> allowed then s1
      else
        let sev = (if m_AncestorSuspicious m then SeverityCritical else defaultSeverity);
            raised = m_PathTruncated m \<and> Rank sev < Rank SeverityMedium
        in emit_alert E (ToAlert m eventType (if raised then SeverityMedium else sev) ActionAlert
             (if raised then detail @ [TextDetail ''path truncated (manual check)''] else detail)) s1)"

definition block_report :: "eenv \<Rightarrow> ProcessMeta \<Rightarrow> string \<Rightarrow> gostring \<Rightarrow> gostring \<Rightarrow> detail list \<Rightarrow> engine \<Rightarrow> engine" where
  "block_report E m eventType shown target detail s =
     emitAuditAndAlert E
       ((ToAlert (m\<lparr>m_Filename := shown\<rparr>) eventType SeverityCritical ActionAlert detail)\<lparr>al_Blocked := True\<rparr>)
       (ToAuditRecord m DecisionBlock eventType [] target) (count_metric IncBlock s)"

definition Engine_AnalyzeWriteBlocked :: "eenv \<Rightarrow> ProcessMeta \<Rightarrow> engine \<Rightarrow> engine" where
  "Engine_AnalyzeWriteBlocked E m =
     block_report E m ''WRITE_BLOCKED'' (m_Filename m) (m_Filename m)
       (TextDetail ''write intent blocked'' #
        (if m_PathTruncated m then [TextDetail ''path truncated during read''] else []))"

definition Engine_AnalyzePtraceBlocked :: "eenv \<Rightarrow> ProcessMeta \<Rightarrow> gostring \<Rightarrow> u32 \<Rightarrow> u32 \<Rightarrow> engine \<Rightarrow> engine" where
  "Engine_AnalyzePtraceBlocked E m targetComm targetPid mode =
     block_report E m ''PTRACE_BLOCKED'' targetComm targetComm [PtraceMode mode targetPid targetComm]"

definition via_ancestor :: "ProcessMeta \<Rightarrow> detail list" where
  "via_ancestor m = (if m_AncestorSuspicious m then [ViaAncestor (m_AncestorFilename m)] else [])"

definition Engine_AnalyzeKmodBlocked :: "eenv \<Rightarrow> ProcessMeta \<Rightarrow> engine \<Rightarrow> engine" where
  "Engine_AnalyzeKmodBlocked E m =
     block_report E m ''KMOD_BLOCKED'' (m_Filename m) [] (LoadedBy (m_Comm m) # via_ancestor m)"

definition Engine_AnalyzeLpeBlocked :: "eenv \<Rightarrow> ProcessMeta \<Rightarrow> u32 \<Rightarrow> u32 \<Rightarrow> engine \<Rightarrow> engine" where
  "Engine_AnalyzeLpeBlocked E m oldUID newUID =
     block_report E m ''LPE_BLOCKED'' (m_Filename m) [] (UidChange (m_Comm m) oldUID newUID # via_ancestor m)"

text \<open>The three sensors with a key, a default severity and a detail of their own.\<close>

definition sensor_alert :: "eenv \<Rightarrow> ProcessMeta \<Rightarrow> gostring \<Rightarrow> string \<Rightarrow> severity \<Rightarrow> detail \<Rightarrow> engine \<Rightarrow> engine" where
  "sensor_alert E m key eventType sev detail s =
     (let (allowed, s1) = dedup_allow E key s in
      if \<not> allowed then s1
      else emit_alert E (ToAlert m eventType
             (if m_AncestorSuspicious m then SeverityCritical else sev) ActionAlert [detail]) s1)"

definition Engine_AnalyzeIoUring :: "eenv \<Rightarrow> ProcessMeta \<Rightarrow> u8 \<Rightarrow> engine \<Rightarrow> engine" where
  "Engine_AnalyzeIoUring E m opcode =
     sensor_alert E m (key_of [str ''iouring'', itoa (unat (m_PID m)), itoa (unat opcode)])
       ''IO_URING'' SeverityMedium (UringOpcode opcode)"

definition Engine_AnalyzePmu :: "eenv \<Rightarrow> ProcessMeta \<Rightarrow> u64 \<Rightarrow> engine \<Rightarrow> engine" where
  "Engine_AnalyzePmu E m mispredCount =
     sensor_alert E m (key_of [str ''pmu_mispredict'', itoa (unat (m_PID m))])
       ''BRANCH_MISPREDICT'' SeverityMedium (Mispredictions mispredCount)"

definition Engine_AnalyzeNsChange :: "eenv \<Rightarrow> ProcessMeta \<Rightarrow> u32 \<Rightarrow> u64 \<Rightarrow> u32 \<Rightarrow> engine \<Rightarrow> engine" where
  "Engine_AnalyzeNsChange E m op flags nstype =
     sensor_alert E m (key_of [str ''ns_change'', itoa (unat (m_PID m)), itoa (unat op)])
       ''NS_CHANGE'' SeverityHigh (NsOperation (if op = 2 then ''setns'' else ''unshare'') flags nstype)"

section \<open>Running the calls of a record\<close>

fun run_call :: "eenv \<Rightarrow> call \<Rightarrow> engine \<Rightarrow> engine" where
  "run_call E (AnalyzeExec m blocked) s = Engine_AnalyzeExec E m blocked s"
| "run_call E (AnalyzeReverseShell m) s = Engine_AnalyzeReverseShell E m s"
| "run_call E (AnalyzeNetworkEgress m t d p) s = Engine_AnalyzeNetworkEgress E m t d p s"
| "run_call E (AddContainerCgroup cg) s = s\<lparr>en_cgroups := en_cgroups s @ [cg]\<rparr>"
| "run_call E (AnalyzeNsChange m op fl ty) s = Engine_AnalyzeNsChange E m op fl ty s"
| "run_call E (AnalyzeGeneric m t sev det) s = Engine_AnalyzeGeneric E m t sev det s"
| "run_call E (RecordFileWrite path i pid comm) s =
     s\<lparr>en_corr := co_RecordFileWrite (ee_now E) path i pid comm (en_corr s)\<rparr>"
| "run_call E (AnalyzeWriteBlocked m) s = Engine_AnalyzeWriteBlocked E m s"
| "run_call E (AnalyzePtraceBlocked m c p md) s = Engine_AnalyzePtraceBlocked E m c p md s"
| "run_call E (AnalyzeKmodBlocked m) s = Engine_AnalyzeKmodBlocked E m s"
| "run_call E (AnalyzeIoUring m op) s = Engine_AnalyzeIoUring E m op s"
| "run_call E (AnalyzeLpeBlocked m old new) s = Engine_AnalyzeLpeBlocked E m old new s"
| "run_call E (AnalyzePmu m n) s = Engine_AnalyzePmu E m n s"
| "run_call E (RecordDNSAnswer cg ip domain) s =
     s\<lparr>en_corr := RecordIPDomain (ee_now E) cg ip domain (en_corr s)\<rparr>"

definition run_record :: "renv \<Rightarrow> eenv \<Rightarrow> bytes \<Rightarrow> engine \<Rightarrow> engine" where
  "run_record R E raw s =
     (case snd (ProcessRawRecord R raw) of
        Handled et calls \<Rightarrow> fold (run_call E) calls s
      | _ \<Rightarrow> s)"

text \<open>The part of \<open>Engine.applyConfig\<close> that stays in user space.\<close>

definition engine_config :: "config \<Rightarrow> engine \<Rightarrow> engine" where
  "engine_config c s =
     s\<lparr>en_cfg := c, en_dedup := SetWindow (c_DedupWindowSeconds c * 10 ^ 9) (en_dedup s),
       en_protectedPIDs := c_ProtectedPIDs c\<rparr>"

section \<open>What every call guarantees\<close>

text \<open>
  A call leaves the configuration and the protected processes alone, only adds to the outputs, kills
  no protected process and keeps the caches of the correlator consistent.
\<close>

definition engine_step :: "eenv \<Rightarrow> engine \<Rightarrow> engine \<Rightarrow> bool" where
  "engine_step E s s' \<longleftrightarrow>
     en_cfg s' = en_cfg s \<and> en_protectedPIDs s' = en_protectedPIDs s \<and>
     (correlator_inv (en_corr s) \<longrightarrow> correlator_inv (en_corr s')) \<and>
     (\<exists>as. en_alerts s' = en_alerts s @ as) \<and> (\<exists>rs. en_audit s' = en_audit s @ rs) \<and>
     (\<exists>ks. en_kills s' = en_kills s @ ks \<and> (\<forall>p \<in> set ks. \<not> IsProtected E s p))"

named_theorems engine_steps \<open>calls as engine steps\<close>

lemma engine_step_refl [engine_steps]: "engine_step E s s"
  by (simp add: engine_step_def)

lemma engine_step_trans:
  assumes "engine_step E s t" "engine_step E t u"
  shows "engine_step E s u"
proof -
  have p: "IsProtected E t p = IsProtected E s p" for p
    using assms(1) by (simp add: engine_step_def IsProtected_def)
  show ?thesis using assms unfolding engine_step_def p by auto
qed

lemma step_corr:
  "(correlator_inv (en_corr s) \<Longrightarrow> correlator_inv co) \<Longrightarrow> engine_step E s (s\<lparr>en_corr := co\<rparr>)"
  by (simp add: engine_step_def)

lemma step_emit: "engine_step E s (emit_alert E a s)"
proof -
  have "correlator_inv (en_corr s) \<Longrightarrow> correlator_inv (snd (enrichAlert E s a))"
    by (simp add: enrichAlert_def FormatTree_def Let_def case_prod_unfold correlator_inv_steps)
  then show ?thesis by (simp add: emit_alert_def engine_step_def case_prod_unfold Let_def)
qed

lemma step_parts:
  "engine_step E s (emitAudit E r s)" "engine_step E s (count_metric m s)"
  "engine_step E s (snd (dedup_allow E k s))" "engine_step E s (s\<lparr>en_cgroups := cgs\<rparr>)"
  by (simp_all add: engine_step_def emitAudit_def count_metric_def dedup_allow_def case_prod_unfold Let_def)

lemma step_kill: "engine_step E s (snd (SafeKill E pid s))"
  by (auto simp: engine_step_def SafeKill_def split: option.split)

lemmas engine_steps_after [engine_steps] =
  step_emit [THEN engine_step_trans [rotated]]
  step_parts [THEN engine_step_trans [rotated]]
  step_kill [THEN engine_step_trans [rotated]]

lemma step_corr_after [engine_steps]:
  "engine_step E s t \<Longrightarrow> (correlator_inv (en_corr t) \<Longrightarrow> correlator_inv co) \<Longrightarrow>
   engine_step E s (t\<lparr>en_corr := co\<rparr>)"
  by (erule engine_step_trans) (rule step_corr)

lemma step_exec_match: "engine_step E s t \<Longrightarrow> engine_step E s (snd (processExecRuleMatch E r m t))"
  unfolding processExecRuleMatch_def Let_def case_prod_unfold
  by (simp split: option.split, intro conjI impI allI engine_steps; assumption)

lemma step_exec_rules: "engine_step E s t \<Longrightarrow> engine_step E s (exec_rules E m ctx rs t)"
proof (induction rs arbitrary: t)
  case (Cons r rs)
  let ?t = "snd (dedup_allow E (key_of [r_name r, itoa (unat (m_PID m))])
              (count_metric (IncRuleHit (r_name r) (r_Severity r) (r_action r)) t))"
  have a: "engine_step E s ?t" by (intro engine_steps Cons.prems)
  note b = step_exec_match [OF a, of r m]
  show ?case using Cons.IH [OF Cons.prems] Cons.IH [OF a] Cons.IH [OF b] b
    by (simp add: case_prod_unfold Let_def)
qed simp

lemma step_exec_blocked: "engine_step E s t \<Longrightarrow> engine_step E s (handleExecBlocked E m t)"
  unfolding handleExecBlocked_def emitAuditAndAlert_def Let_def by (intro engine_steps; assumption)

lemma step_fileless: "engine_step E s t \<Longrightarrow> engine_step E s (handleFilelessExec E m t)"
  unfolding handleFilelessExec_def by (intro engine_steps; assumption)

lemma step_AnalyzeExec: "engine_step E s (Engine_AnalyzeExec E m b s)"
proof -
  let ?s1 = "s\<lparr>en_corr := RecordExec (ee_now E) (m_PID m) (m_PPID m) (m_Comm m) (m_Filename m) (en_corr s)\<rparr>"
  let ?g = "GetRecentWrite (ee_now E) (m_Filename m) \<lparr>fi_dev = m_ExeDev m, fi_ino = m_ExeIno m\<rparr>
              thirty_seconds (en_corr ?s1)"
  have 1: "engine_step E s ?s1" by (intro step_corr correlator_inv_steps)
  have "engine_step E ?s1 (?s1\<lparr>en_corr := snd ?g\<rparr>)" by (rule step_corr) (rule correlator_inv_steps(6))
  with 1 have 2: "engine_step E s (?s1\<lparr>en_corr := snd ?g\<rparr>)" by (rule engine_step_trans)
  note 3 = step_emit [THEN engine_step_trans [OF 2]] step_fileless [OF 2] step_exec_blocked [OF 2]
    step_exec_rules [OF 2] step_exec_rules [OF step_parts(2) [THEN engine_step_trans [OF 2]]]
  show ?thesis
    unfolding Engine_AnalyzeExec_def Let_def case_prod_unfold
    using 1 3 by (simp split: option.split)
qed

lemma step_report: "engine_step E s (block_report E m ty shown target det s)"
  unfolding block_report_def emitAuditAndAlert_def by (intro engine_steps)

lemma step_sensor: "engine_step E s (sensor_alert E m key ty sev det s)"
  unfolding sensor_alert_def Let_def case_prod_unfold by (simp, intro conjI impI engine_steps)

lemma step_AnalyzeReverseShell: "engine_step E s (Engine_AnalyzeReverseShell E m s)"
  unfolding Engine_AnalyzeReverseShell_def emitAuditAndAlert_def Let_def case_prod_unfold
  by (simp split: option.split, intro conjI impI allI engine_steps)

lemma step_AnalyzeGeneric: "engine_step E s (Engine_AnalyzeGeneric E m ty sev det s)"
  unfolding Engine_AnalyzeGeneric_def Let_def case_prod_unfold by (simp, intro conjI impI engine_steps)

lemma step_AnalyzeNetworkEgress: "engine_step E s (Engine_AnalyzeNetworkEgress E m ty d p s)"
  unfolding Engine_AnalyzeNetworkEgress_def Let_def case_prod_unfold
  by (simp, intro conjI impI engine_steps correlator_inv_steps; assumption)

lemma run_call_step: "engine_step E s (run_call E c s)"
  by (cases c)
    (simp_all add: step_AnalyzeExec step_AnalyzeReverseShell step_AnalyzeGeneric step_AnalyzeNetworkEgress
      Engine_AnalyzeNsChange_def Engine_AnalyzeIoUring_def Engine_AnalyzePmu_def step_sensor
      Engine_AnalyzeWriteBlocked_def Engine_AnalyzePtraceBlocked_def Engine_AnalyzeKmodBlocked_def
      Engine_AnalyzeLpeBlocked_def step_report step_parts step_corr correlator_inv_steps)

locale engine_op =
  fixes run :: "eenv \<Rightarrow> 'c \<Rightarrow> engine \<Rightarrow> engine"
  assumes step: "engine_step E s (run E c s)"
begin

lemma run_all: "engine_step E s (fold (run E) cs s)"
proof (induction cs arbitrary: s)
  case (Cons c cs)
  show ?case using engine_step_trans [OF step Cons.IH] by simp
qed (simp add: engine_step_refl)

lemma unprotected_kills:
  "p \<in> set (en_kills (fold (run E) cs s)) \<Longrightarrow> p \<in> set (en_kills s) \<or> \<not> IsProtected E s p"
  using run_all [of E s cs] by (auto simp: engine_step_def)

end

interpretation calls: engine_op run_call
  by unfold_locales (rule run_call_step)

lemma run_record_step: "engine_step E s (run_record R E raw s)"
  by (cases "snd (ProcessRawRecord R raw)") (simp_all add: run_record_def calls.run_all engine_step_refl)

interpretation records: engine_op "\<lambda>E (R, raw). run_record R E raw"
  by unfold_locales (simp add: case_prod_unfold run_record_step)

text \<open>
  C7: whatever records arrive, valid samples or arbitrary bytes, and whatever the rules say, the
  agent never kills a protected process: not the init process, not itself, none of the configured
  process ids and none whose executable is one of the pinned ones. Nothing that was put out is
  taken back, and the caches of the correlator keep their bounds.
\<close>

theorem protected_never_killed:
  assumes "correlator_inv (en_corr s)"
  shows "let s' = fold (\<lambda>(R, raw). run_record R E raw) recs s in
         (\<exists>ks. en_kills s' = en_kills s @ ks \<and>
            (\<forall>p \<in> set ks. p \<noteq> 1 \<and> int (unat p) \<noteq> ee_selfPID E \<and> int (unat p) \<notin> set (en_protectedPIDs s) \<and>
               (\<forall>i. ee_exe E p = Some i \<longrightarrow> \<not> ee_protected E i))) \<and>
         (\<exists>as. en_alerts s' = en_alerts s @ as) \<and> (\<exists>rs. en_audit s' = en_audit s @ rs) \<and>
         correlator_inv (en_corr s')"
proof -
  note st = records.run_all [of E s recs, unfolded engine_step_def]
  obtain ks where ks: "en_kills (fold (\<lambda>(R, raw). run_record R E raw) recs s) = en_kills s @ ks"
    "\<forall>p \<in> set ks. \<not> IsProtected E s p" using st by blast
  have "p \<noteq> 1 \<and> int (unat p) \<noteq> ee_selfPID E \<and> int (unat p) \<notin> set (en_protectedPIDs s) \<and>
      (\<forall>i. ee_exe E p = Some i \<longrightarrow> \<not> ee_protected E i)" if "p \<in> set ks" for p
    using ks(2) that by (auto simp: IsProtected_def)
  then show ?thesis using st ks(1) assms unfolding Let_def by blast
qed

definition NewEngine :: "config \<Rightarrow> engine" where
  "NewEngine c = engine_config c
     \<lparr>en_cfg = c, en_protectedPIDs = [], en_dedup = NewDeduper (c_DedupWindowSeconds c * 10 ^ 9),
      en_corr = NewCorrelator, en_alerts = [], en_audit = [], en_kills = [], en_metrics = [],
      en_cgroups = []\<rparr>"

definition eenv_plain :: eenv where
  "eenv_plain =
     \<lparr>ee_now = 0, ee_cel = (\<lambda>_ _. True), ee_requires_sha = False, ee_sha = (\<lambda>_. None),
      ee_exe = (\<lambda>_. None), ee_protected = (\<lambda>_. False), ee_pidfd_open = (\<lambda>_. None),
      ee_pidfd_signal = (\<lambda>_. None), ee_selfPID = 99, ee_lsm = True, ee_audit = True,
      ee_pod = (\<lambda>_ _. None)\<rparr>"

lemma NewEngine_sel [simp]:
  "en_cfg (NewEngine c) = c" "en_corr (NewEngine c) = NewCorrelator" "en_alerts (NewEngine c) = []"
  "en_kills (NewEngine c) = []" "en_audit (NewEngine c) = []" "en_metrics (NewEngine c) = []"
  by (simp_all add: NewEngine_def engine_config_def)

theorem protected_never_killed_witness:
  "99 \<notin> set (en_kills (run_record renv_plain eenv_plain (sample_image (zeros 360) lpe_sample)
                     (NewEngine (config_rules []))))"
proof -
  have "correlator_inv (en_corr (NewEngine (config_rules [])))" by (simp add: correlator_inv_new)
  from protected_never_killed [OF this, of eenv_plain "[(renv_plain, sample_image (zeros 360) lpe_sample)]"]
  obtain ks where
    "en_kills (run_record renv_plain eenv_plain (sample_image (zeros 360) lpe_sample)
       (NewEngine (config_rules []))) = ks" "\<forall>p \<in> set ks. int (unat p) \<noteq> 99"
    by (auto simp: eenv_plain_def Let_def)
  then show ?thesis by auto
qed

end
