(* ===== verification/KG_Response.thy ===== *)
theory KG_Response
  imports KG_Engine
begin

text \<open>
  What the engine does with the events of the kernel side: when it kills, what it reports of a denied
  operation, and how the correlation of writes and executions answers. The results compose the
  engine with the decoder, with the synchronised policy and with the LSM hook.
\<close>

section \<open>What the parts leave alone\<close>

lemma emit_alert_frame [simp]:
  "en_kills (emit_alert E a s) = en_kills s" "en_audit (emit_alert E a s) = en_audit s"
  "en_cfg (emit_alert E a s) = en_cfg s" "en_metrics (emit_alert E a s) = en_metrics s"
  "en_alerts (emit_alert E a s) = en_alerts s @ [fst (enrichAlert E s a)]"
  "co_recentIDWrites (en_corr (emit_alert E a s)) = co_recentIDWrites (en_corr s)"
  by (simp_all add: emit_alert_def enrichAlert_def FormatTree_def BuildTree_def case_prod_unfold Let_def)

lemma enrichAlert_keeps [simp]:
  "al_EventType (fst (enrichAlert E s a)) = al_EventType a" "al_Blocked (fst (enrichAlert E s a)) = al_Blocked a"
  "al_Severity (fst (enrichAlert E s a)) = al_Severity a" "al_Meta (fst (enrichAlert E s a)) = al_Meta a"
  "al_Action (fst (enrichAlert E s a)) = al_Action a" "al_RuleName (fst (enrichAlert E s a)) = al_RuleName a"
  by (simp_all add: enrichAlert_def case_prod_unfold Let_def)

lemma ToAlert_sel [simp]:
  "al_EventType (ToAlert m t sv ac d) = t" "al_Severity (ToAlert m t sv ac d) = sv"
  "al_Action (ToAlert m t sv ac d) = ac" "al_Blocked (ToAlert m t sv ac d) = False"
  "al_Meta (ToAlert m t sv ac d) = m"
  by (simp_all add: ToAlert_def)

lemma output_frame [simp]:
  "en_kills (emitAudit E r s) = en_kills s" "en_alerts (emitAudit E r s) = en_alerts s"
  "en_corr (emitAudit E r s) = en_corr s" "en_cfg (emitAudit E r s) = en_cfg s"
  "en_metrics (emitAudit E r s) = en_metrics s"
  "en_audit (emitAudit E r s) = en_audit s @ (if ee_audit E then [r] else [])"
  "en_kills (count_metric c s) = en_kills s" "en_alerts (count_metric c s) = en_alerts s"
  "en_audit (count_metric c s) = en_audit s" "en_corr (count_metric c s) = en_corr s"
  "en_cfg (count_metric c s) = en_cfg s" "en_metrics (count_metric c s) = en_metrics s @ [c]"
  "en_kills (snd (dedup_allow E k s)) = en_kills s" "en_alerts (snd (dedup_allow E k s)) = en_alerts s"
  "en_audit (snd (dedup_allow E k s)) = en_audit s" "en_corr (snd (dedup_allow E k s)) = en_corr s"
  "en_cfg (snd (dedup_allow E k s)) = en_cfg s"
  by (simp_all add: emitAudit_def count_metric_def dedup_allow_def case_prod_unfold Let_def)

lemma SafeKill_cases:
  obtains e where "SafeKill E pid s = (Some e, s)"
  | "SafeKill E pid s = (None, s\<lparr>en_kills := en_kills s @ [pid]\<rparr>)"
proof -
  have "(\<exists>e. SafeKill E pid s = (Some e, s)) \<or> SafeKill E pid s = (None, s\<lparr>en_kills := en_kills s @ [pid]\<rparr>)"
    by (simp add: SafeKill_def split: option.split)
  then show thesis using that by blast
qed

section \<open>Kills\<close>

definition kill_rule :: "eenv \<Rightarrow> EventContext \<Rightarrow> rule \<Rightarrow> bool" where
  "kill_rule E ctx r \<longleftrightarrow>
     ee_cel E r ctx \<and> r_mode r = RuleModeEnforce \<and> (r_action r = ActionKill \<or> r_action r = ActionBlock)"

lemma match_kills:
  "en_kills (snd (processExecRuleMatch E r m s)) = en_kills s \<or>
   en_kills (snd (processExecRuleMatch E r m s)) = en_kills s @ [m_PID m] \<and>
   r_mode r = RuleModeEnforce \<and> (r_action r = ActionKill \<or> r_action r = ActionBlock) \<and>
   fst (processExecRuleMatch E r m s)"
proof -
  have "r_mode r = RuleModeAudit \<or> r_mode r = RuleModeEnforce" by (cases "r_mode r") simp_all
  then show ?thesis
    by (cases rule: SafeKill_cases [of E "m_PID m"
          "count_metric (IncRuleHit (r_name r) (if m_PathTruncated m \<and> Rank (r_Severity r) < Rank SeverityMedium
             then SeverityMedium else r_Severity r) (r_action r)) s"])
      (auto simp: processExecRuleMatch_def Let_def)
qed

lemma exec_rules_kills:
  "en_kills (exec_rules E m ctx rs s) = en_kills s \<or>
   en_kills (exec_rules E m ctx rs s) = en_kills s @ [m_PID m] \<and> (\<exists>r \<in> set rs. kill_rule E ctx r)"
proof (induction rs arbitrary: s)
  case (Cons r rs)
  let ?t = "snd (dedup_allow E (key_of [r_name r, itoa (unat (m_PID m))])
              (count_metric (IncRuleHit (r_name r) (r_Severity r) (r_action r)) s))"
  show ?case
    using Cons.IH [of s] Cons.IH [of ?t] Cons.IH [of "snd (processExecRuleMatch E r m ?t)"]
      match_kills [of E r m ?t]
    by (auto simp: case_prod_unfold Let_def kill_rule_def)
qed simp

text \<open>
  C11: an execution gets a process killed only through an enforcing rule. Analysing an exec event kills
  nothing, or exactly the process of the event; and then the event was not a blocked or a fileless
  execution, its path is not on the allow list, and some rule in enforce mode with action kill or
  block matches it. Rules in audit mode and alert rules never kill.
\<close>

theorem exec_kill_needs_rule:
  assumes "en_kills (Engine_AnalyzeExec E m blocked s) \<noteq> en_kills s"
  shows "en_kills (Engine_AnalyzeExec E m blocked s) = en_kills s @ [m_PID m] \<and>
         \<not> blocked \<and> \<not> m_IsFileless m \<and> \<not> isAllowlisted (en_cfg s) (m_Filename m) \<and>
         (\<exists>r \<in> set (c_Rules (en_cfg s)). \<exists>sha. kill_rule E (exec_context E s ''EXEC'' sha m) r)"
proof -
  let ?g = "GetRecentWrite (ee_now E) (m_Filename m) \<lparr>fi_dev = m_ExeDev m, fi_ino = m_ExeIno m\<rparr> thirty_seconds
     (RecordExec (ee_now E) (m_PID m) (m_PPID m) (m_Comm m) (m_Filename m) (en_corr s))"
  let ?s2 = "s\<lparr>en_corr := snd ?g\<rparr>"
  let ?sha = "if ee_requires_sha E then ee_sha E (m_PID m) else Some []"
  let ?s3 = "if ?sha = None then count_metric IncHashCheckError ?s2 else ?s2"
  let ?ctx = "exec_context E s ''EXEC'' (case ?sha of Some h \<Rightarrow> h | None \<Rightarrow> []) m"
  have k: "en_kills ?s3 = en_kills s" by simp
  have "\<not> blocked \<and> \<not> m_IsFileless m \<and> \<not> isAllowlisted (en_cfg s) (m_Filename m) \<and>
      Engine_AnalyzeExec E m blocked s = exec_rules E m ?ctx (c_Rules (en_cfg s)) ?s3"
    using assms unfolding Engine_AnalyzeExec_def Let_def case_prod_unfold
    by (simp add: handleFilelessExec_def handleExecBlocked_def emitAuditAndAlert_def Let_def
        split: if_splits option.splits)
  then show ?thesis
    using exec_rules_kills [of E m ?ctx "c_Rules (en_cfg s)" ?s3] assms unfolding k by auto
qed

text \<open>An execution with no write on record.\<close>

definition no_writes :: "Correlator \<Rightarrow> bool" where
  "no_writes co \<longleftrightarrow> lc_items (co_recentPathWrites co) = Map.empty \<and> lc_items (co_recentIDWrites co) = Map.empty"

lemma no_writes_new [simp]: "no_writes NewCorrelator"
  by (simp add: no_writes_def NewCorrelator_def newLRUCache_def)

lemma no_writes_RecordExec [simp]: "no_writes (RecordExec now pid ppid comm file co) = no_writes co"
  by (simp add: no_writes_def RecordExec_def)

lemma GetRecentWrite_none: "no_writes co \<Longrightarrow> GetRecentWrite now path i w co = (None, co)"
  by (simp add: GetRecentWrite_def no_writes_def lru_Get_def)

definition meta_sample :: ProcessMeta where
  "meta_sample = process_meta (event_meta (event_hdr_zero\<lparr>eh_event_type := EVT_EXEC, eh_pid := 42\<rparr>))
     (str ''/usr/bin/nc'') [] False False"

theorem exec_kill_needs_rule_witness:
  "\<exists>r \<in> set [block_rule RuleModeEnforce [] []]. \<exists>sha.
     kill_rule eenv_plain (exec_context eenv_plain (NewEngine (config_rules [block_rule RuleModeEnforce [] []]))
       ''EXEC'' sha meta_sample) r"
proof -
  let ?s = "NewEngine (config_rules [block_rule RuleModeEnforce [] []])"
  have "en_kills (Engine_AnalyzeExec eenv_plain meta_sample False ?s) \<noteq> en_kills ?s"
    by (simp add: Engine_AnalyzeExec_def GetRecentWrite_none isAllowlisted_def config_rules_def meta_sample_def
        eenv_plain_def Let_def dedup_allow_def Allow_def NewEngine_def engine_config_def NewDeduper_def
        SetWindow_def count_metric_def processExecRuleMatch_def block_rule_def SafeKill_def IsProtected_def
        emitAudit_def event_hdr_zero_def)
  from exec_kill_needs_rule [OF this] show ?thesis by (simp add: config_rules_def)
qed

section \<open>Denied operations are reported\<close>

lemma run_record_image:
  assumes "event_wf e" "length mem = struct_size (event_fields e)"
    and "map_of handlers (eh_event_type (hdr_of e)) = Some h"
    and "h R (event_meta (hdr_of e)) (sample_image mem e) = Some cs"
  shows "run_record R E (sample_image mem e) s = fold (run_call E) cs s"
  using ProcessRawRecord_image [OF assms(1) _ assms(3,4)] assms(2) by (simp add: run_record_def)

definition denial_codes :: "u32 list" where
  "denial_codes = [EVT_BLOCKED_WRITE, EVENT_PTRACE_BLOCKED, EVENT_KMOD_BLOCKED, EVENT_LPE_BLOCKED]"

lemma denial_event_cases:
  assumes "event_wf e" "eh_event_type (hdr_of e) \<in> set denial_codes"
  obtains x where "e = OpenEv x" "eh_event_type (op_hdr x) = EVT_BLOCKED_WRITE"
  | x where "e = PtraceEv x" "eh_event_type (pt_hdr x) = EVENT_PTRACE_BLOCKED"
  | x where "e = KmodEv x" "eh_event_type (km_hdr x) = EVENT_KMOD_BLOCKED"
  | x where "e = LpeEv x" "eh_event_type (lp_hdr x) = EVENT_LPE_BLOCKED"
proof -
  have "eh_event_type (hdr_of e) \<in> set (event_codes e) \<inter> set denial_codes"
    using assms by (simp add: event_wf_def)
  then show thesis using that by (cases e) (auto simp: denial_codes_def evt_defs)
qed

text \<open>The call a denial is decoded into, as far as all four agree.\<close>

fun report_meta :: "call \<Rightarrow> ProcessMeta option" where
  "report_meta (AnalyzeWriteBlocked m) = Some m"
| "report_meta (AnalyzePtraceBlocked m c p md) = Some m"
| "report_meta (AnalyzeKmodBlocked m) = Some m"
| "report_meta (AnalyzeLpeBlocked m old new) = Some m"
| "report_meta _ = None"

lemma report_call:
  assumes "report_meta c = Some m"
  shows "\<exists>ty shown target det. \<forall>s. run_call E c s = block_report E m ty shown target det s"
  using assms
  by (cases c; simp add: Engine_AnalyzeWriteBlocked_def Engine_AnalyzePtraceBlocked_def
      Engine_AnalyzeKmodBlocked_def Engine_AnalyzeLpeBlocked_def; blast)

lemma denial_calls:
  assumes "event_wf e" "eh_event_type (hdr_of e) \<in> set denial_codes" "read_as e raw = Some e"
  shows "\<exists>h c m. map_of handlers (eh_event_type (hdr_of e)) = Some h \<and>
     h R (event_meta (hdr_of e)) raw = Some [c] \<and> report_meta c = Some m \<and> m_PID m = eh_pid (hdr_of e)"
  using assms(1,2)
proof (cases rule: denial_event_cases)
  case (1 x)
  then show ?thesis using assms(3) by (simp add: handler_of_code decodeWriteBlocked_def)
next
  case (2 x)
  then show ?thesis using assms(3) by (simp add: handler_of_code decodePtraceBlocked_def)
next
  case (3 x)
  then show ?thesis using assms(3) by (simp add: handler_of_code decodeKmodBlocked_def Let_def)
next
  case (4 x)
  then show ?thesis using assms(3) by (simp add: handler_of_code decodeLpeBlocked_def)
qed

lemma block_report_output:
  "en_alerts (block_report E m ty shown target det s) = en_alerts s @ [a] \<Longrightarrow>
     al_Blocked a \<and> al_Severity a = SeverityCritical \<and> m_PID (al_Meta a) = m_PID m"
  "\<exists>a. en_alerts (block_report E m ty shown target det s) = en_alerts s @ [a]"
  "ee_audit E \<Longrightarrow> en_audit (block_report E m ty shown target det s) =
     en_audit s @ [ToAuditRecord m DecisionBlock ty [] target]"
  by (auto simp: block_report_def emitAuditAndAlert_def)

text \<open>
  C10: what the kernel denies, the operator sees. For every sample of a denied write, ptrace access,
  module load or privilege escalation that the BPF object can produce, processing the record raises
  exactly one alert, critical, marked as blocked and with the process of the event, and writes one
  audit record of a block decision; neither deduplication nor the allow list nor any rule can
  suppress it.
\<close>

theorem denials_reported:
  assumes "reachable b" "e \<in> set (rb b)" "length mem = struct_size (event_fields e)"
    and "eh_event_type (hdr_of e) \<in> set denial_codes" "ee_audit E"
  shows "\<exists>a r. en_alerts (run_record R E (sample_image mem e) s) = en_alerts s @ [a] \<and>
           al_Blocked a \<and> al_Severity a = SeverityCritical \<and> m_PID (al_Meta a) = eh_pid (hdr_of e) \<and>
           en_audit (run_record R E (sample_image mem e) s) = en_audit s @ [r] \<and> ar_Decision r = DecisionBlock"
proof -
  have wf: "event_wf e" using reachable_wf [OF assms(1)] assms(2) by (simp add: bstate_wf_def)
  have len: "struct_size (event_fields e) \<le> length mem" using assms(3) by simp
  from denial_calls [OF wf assms(4) read_as_image [OF wf len]] obtain h c m where
    h: "map_of handlers (eh_event_type (hdr_of e)) = Some h"
      "h R (event_meta (hdr_of e)) (sample_image mem e) = Some [c]" and
    c: "report_meta c = Some m" "m_PID m = eh_pid (hdr_of e)" by blast
  from report_call [OF c(1), of E] obtain ty shown target det where
    r: "\<forall>s. run_call E c s = block_report E m ty shown target det s" by blast
  have "run_record R E (sample_image mem e) s = block_report E m ty shown target det s"
    using run_record_image [OF wf assms(3) h] r by simp
  moreover obtain a where "en_alerts (block_report E m ty shown target det s) = en_alerts s @ [a]"
    using block_report_output(2) by blast
  ultimately show ?thesis
    using block_report_output(1,3) assms(5) c(2) by (auto simp: ToAuditRecord_def)
qed

definition policy_kmod :: policy where
  "policy_kmod = policy_off\<lparr>kmod_enforcement_enabled := 1, container_cgroups := [7 \<mapsto> 1]\<rparr>"

theorem denials_reported_witness:
  "\<exists>e a. rb (snd (kguard_kernel_load_data kenv_quiet (2, True) (bstate_init policy_kmod))) = [e] \<and>
     en_alerts (run_record renv_plain eenv_plain (sample_image (zeros (struct_size (event_fields e))) e)
                  (NewEngine (config_rules []))) = [a] \<and> al_Blocked a"
proof -
  let ?b = "snd (kguard_kernel_load_data kenv_quiet (2, True) (bstate_init policy_kmod))"
  have "reachable (snd (run_hook (KernelLoadData (2, True)) kenv_quiet (bstate_init policy_kmod)))"
    by (rule reachable.step [OF reachable.init kstep.program [OF kenv_quiet_ok]])
  then have r: "reachable ?b" by simp
  have "ke_cgroup_id kenv_quiet = 7" "ke_rb kenv_quiet 0 = Some (\<lambda>_. 0)" by (simp_all add: kenv_quiet_def)
  then obtain x where e: "rb ?b = [KmodEv x]" "eh_event_type (km_hdr x) = EVENT_KMOD_BLOCKED"
    by (simp add: kguard_kernel_load_data_def handle_kmod_check_def emit_kmod_event_def emit_rb policy_kmod_def)
  then have "KmodEv x \<in> set (rb ?b)" "eh_event_type (hdr_of (KmodEv x)) \<in> set denial_codes" "ee_audit eenv_plain"
    by (simp_all add: denial_codes_def eenv_plain_def)
  from denials_reported [OF r this(1) _ this(2,3), of "zeros (struct_size (event_fields (KmodEv x)))"
      renv_plain "NewEngine (config_rules [])"] e(1)
  show ?thesis by auto
qed

section \<open>Writes and executions correlated\<close>










section \<open>What is said of a denied execution\<close>

text \<open>
  C24: the report of a denied execution can say it was allowed. The engine names the first blocking
  rule that matches the path and takes its mode for the verdict; the kernel lets an enforcing rule
  for the exact path decide. With an auditing prefix rule listed before the enforcing rule, the hook
  denies the execution, and the critical alert says that it was not blocked.
\<close>

theorem denied_exec_reported_allowed:
  assumes "applied ae c k (pol b)" "c_EnforcementEnabled c" "c_Rules c = a # rs"
    and "kenv_ok K" "get_scratch K b \<noteq> None" "bprm_path K bprm = Some p"
    and "\<not> redirected (ke_current K) b" "\<not> bprm_fileless K bprm"
    and "r_action a = ActionBlock" "r_mode a = RuleModeAudit" "r_ExactBlockPrefix a \<noteq> []" "prefix (r_ExactBlockPrefix a) p"
    and "r \<in> set rs" "r_action r = ActionBlock" "r_mode r = RuleModeEnforce" "r_ExactBlockPath r = p" "p \<noteq> []"
    and "en_cfg s = c" "no_writes (en_corr s)" "m_Filename m = p" "\<not> m_IsFileless m" "c_Allowlist c = []"
  shows "fst (lsm_bprm_check K bprm b) = -1 \<and>
         (\<exists>al. en_alerts (Engine_AnalyzeExec E m True s) = en_alerts s @ [al] \<and>
            al_EventType al = ''EXEC_BLOCKED'' \<and> al_RuleName al = r_name a \<and> \<not> al_Blocked al)"
proof
  have "r \<in> set (c_Rules c)" using assms(3,13) by simp
  then show "fst (lsm_bprm_check K bprm b) = -1"
    using exec_verdict_of_rules [OF assms(1,2,4-8)] assms(14-17) by blast
  let ?co = "RecordExec (ee_now E) (m_PID m) (m_PPID m) (m_Comm m) (m_Filename m) (en_corr s)"
  have x: "Engine_AnalyzeExec E m True s = handleExecBlocked E m (s\<lparr>en_corr := ?co\<rparr>)"
    using assms(18,19,21,22) by (simp add: Engine_AnalyzeExec_def Let_def isAllowlisted_def GetRecentWrite_none)
  have f: "blocked_rule E (s\<lparr>en_corr := ?co\<rparr>) m = Some a"
    using assms(3,9-12,18,20) by (simp add: blocked_rule_def)
  show "\<exists>al. en_alerts (Engine_AnalyzeExec E m True s) = en_alerts s @ [al] \<and>
      al_EventType al = ''EXEC_BLOCKED'' \<and> al_RuleName al = r_name a \<and> \<not> al_Blocked al"
    unfolding x using assms(10) by (simp add: handleExecBlocked_def f emitAuditAndAlert_def Let_def)
qed

theorem denied_exec_reported_allowed_witness:
  "let rs = [block_rule RuleModeAudit [] (str ''/usr''), block_rule RuleModeEnforce (str ''/usr/bin/nc'') []] in
   fst (lsm_bprm_check kenv_exec 0x2000 (configured rs)) = -1 \<and>
   (\<exists>al. en_alerts (Engine_AnalyzeExec eenv_plain meta_sample True (NewEngine (config_rules rs))) = [al] \<and> \<not> al_Blocked al)"
proof -
  let ?rs = "[block_rule RuleModeAudit [] (str ''/usr''), block_rule RuleModeEnforce (str ''/usr/bin/nc'') []]"
  have ap: "applied ae_plain (config_rules ?rs) kmaps_empty (pol (configured ?rs))"
    by (rule applied_plain) (simp add: block_rule_def pattern_ok_def str_def)
  have rl: "c_EnforcementEnabled (config_rules ?rs)" "c_Rules (config_rules ?rs) = ?rs ! 0 # [?rs ! 1]"
    "get_scratch kenv_exec (configured ?rs) \<noteq> None" "\<not> redirected (ke_current kenv_exec) (configured ?rs)"
    by (simp_all add: config_rules_def redirected_def)
  have ra: "r_action (?rs ! 0) = ActionBlock" "r_mode (?rs ! 0) = RuleModeAudit" "r_ExactBlockPrefix (?rs ! 0) \<noteq> []"
    "prefix (r_ExactBlockPrefix (?rs ! 0)) (str ''/usr/bin/nc'')" "?rs ! 1 \<in> set [?rs ! 1]"
    "r_action (?rs ! 1) = ActionBlock" "r_mode (?rs ! 1) = RuleModeEnforce"
    "r_ExactBlockPath (?rs ! 1) = str ''/usr/bin/nc''" "str ''/usr/bin/nc'' \<noteq> []"
    by (simp_all add: block_rule_def str_def)
  have en: "en_cfg (NewEngine (config_rules ?rs)) = config_rules ?rs" "no_writes (en_corr (NewEngine (config_rules ?rs)))"
    "m_Filename meta_sample = str ''/usr/bin/nc''" "\<not> m_IsFileless meta_sample" "c_Allowlist (config_rules ?rs) = []"
    by (simp_all add: meta_sample_def config_rules_def)
  from denied_exec_reported_allowed [OF ap rl(1,2) kenv_exec_ok rl(3) kenv_exec_path rl(4) kenv_exec_regular ra en, of eenv_plain]
  show ?thesis unfolding Let_def by auto
qed

text \<open>
  A fileless execution is counted as killed and is not. When no write is on record and the path is
  not allowed, the event raises one alert of medium severity and hits the rule metric with the action
  kill; no process is killed and no rule of the configuration is consulted, whatever it says.
\<close>

theorem fileless_counted_not_killed:
  assumes "m_IsFileless m" "no_writes (en_corr s)" "\<not> isAllowlisted (en_cfg s) (m_Filename m)"
  shows "\<exists>a. en_alerts (Engine_AnalyzeExec E m blocked s) = en_alerts s @ [a] \<and>
           al_EventType a = ''FILELESS_EXEC'' \<and> al_Action a = ActionAlert \<and>
           en_kills (Engine_AnalyzeExec E m blocked s) = en_kills s \<and>
           en_metrics (Engine_AnalyzeExec E m blocked s) =
             en_metrics s @ [IncRuleHit (str ''FilelessExecution'') SeverityMedium ActionKill]"
  using assms by (simp add: Engine_AnalyzeExec_def Let_def GetRecentWrite_none handleFilelessExec_def)

theorem fileless_counted_not_killed_witness:
  "en_kills (Engine_AnalyzeExec eenv_plain (meta_sample\<lparr>m_IsFileless := True\<rparr>) False
     (NewEngine (config_rules [block_rule RuleModeEnforce [] []]))) = []"
  using fileless_counted_not_killed [of "meta_sample\<lparr>m_IsFileless := True\<rparr>"
      "NewEngine (config_rules [block_rule RuleModeEnforce [] []])" eenv_plain False]
  by (auto simp: isAllowlisted_def config_rules_def)

end
