(* ===== verification/KG_Trust.thy ===== *)
theory KG_Trust
  imports KG_Loader
begin

text \<open>
  Trusted executables (\<open>internal/trust/set.go\<close>): the identity of a file as user space computes it from
  \<open>stat\<close>, the hot-reloadable set of pinned binaries, and how the set reaches the kernel's allow list
  of ptrace callers. \<open>unix.Major\<close> and \<open>unix.Minor\<close>, from a library outside the repository, are
  parameters; the file system is the environment.
\<close>

section \<open>File identities\<close>

definition IDFromStat :: "(u64 \<Rightarrow> u32) \<Rightarrow> (u64 \<Rightarrow> u32) \<Rightarrow> u64 \<Rightarrow> u64 \<Rightarrow> file_id" where
  "IDFromStat major minor st_dev st_ino =
     \<lparr>fi_dev = push_bit 20 (ucast (major st_dev)) OR (ucast (minor st_dev) AND 0xfffff), fi_ino = st_ino\<rparr>"

text \<open>
  What the program relies on: from the device number \<open>stat\<close> reports for a super block with device
  \<open>d\<close>, the two functions recover the major number, the upper twelve bits of \<open>d\<close>, and the minor
  number, the lower twenty.
\<close>

definition dev_contract :: "(u32 \<Rightarrow> u64) \<Rightarrow> (u64 \<Rightarrow> u32) \<Rightarrow> (u64 \<Rightarrow> u32) \<Rightarrow> bool" where
  "dev_contract stat_dev major minor \<longleftrightarrow>
     (\<forall>d. major (stat_dev d) = drop_bit 20 d \<and> minor (stat_dev d) = d AND 0xfffff)"

lemma mask20: "(0xfffff :: 'a::len word) = mask 20"
  by (simp add: mask_eq_exp_minus_1)

lemma dev_recombined:
  "push_bit 20 (ucast (drop_bit 20 (d :: u32)) :: u64) OR (ucast (d AND 0xfffff) AND 0xfffff) = ucast d"
  by (intro bit_word_eqI) (auto simp: mask20 bit_simps)

text \<open>
  Both sides name an executable alike. With the documented decoding of device numbers, the
  identity user space computes from the \<open>stat\<close> of a file is the one the BPF object reads from the
  super block and the inode of a task's executable, so identities can be matched across the two.
\<close>

theorem exe_identity_agrees:
  assumes "dev_contract stat_dev major minor" "get_task_exe_id E t = Some i"
    and "exe = core_read (ke_mms E) (core_read (ke_tasks E) t ts_mm) mm_exe_file"
    and "ino = core_read (ke_kfiles E) exe f_inode"
  shows "IDFromStat major minor (stat_dev (core_read (ke_sbs E) (core_read (ke_inodes E) ino i_sb) s_dev))
           (core_read (ke_inodes E) ino i_ino) = i"
  using assms by (auto simp: get_task_exe_id_def IDFromStat_def dev_contract_def dev_recombined Let_def
      split: if_splits)

text \<open>The encoding of Linux and the functions that decode it.\<close>

definition new_encode_dev :: "u32 \<Rightarrow> u64" where
  "new_encode_dev d =
     (let major = ucast (drop_bit 20 d); minor = ucast (d AND 0xfffff) in
      (minor AND 0xff) OR push_bit 8 major OR push_bit 12 (minor AND NOT 0xff))"

definition linux_Major :: "u64 \<Rightarrow> u32" where
  "linux_Major dev = ucast (drop_bit 8 (dev AND 0xfff00)) OR ucast (drop_bit 32 (dev AND 0xfffff00000000000))"

definition linux_Minor :: "u64 \<Rightarrow> u32" where
  "linux_Minor dev = ucast (dev AND 0xff) OR ucast (drop_bit 12 (dev AND 0x00000ffffff00000))"

lemma dev_masks:
  "(0xff :: u64) = mask 8" "(0xfff00 :: u64) = push_bit 8 (mask 12)"
  "(0xfffff00000000000 :: u64) = push_bit 44 (mask 20)" "(0x00000ffffff00000 :: u64) = push_bit 20 (mask 24)"
  by (simp_all add: mask_eq_exp_minus_1 push_bit_eq_mult)

lemma linux_dev_contract: "dev_contract new_encode_dev linux_Major linux_Minor"
  unfolding dev_contract_def
proof (intro allI conjI bit_word_eqI)
  fix d :: u32 and n
  assume n: "n < LENGTH(32)"
  show "bit (linux_Major (new_encode_dev d)) n = bit (drop_bit 20 d) n"
    using n unfolding linux_Major_def new_encode_dev_def dev_masks mask20 Let_def
    by (auto simp: bit_simps dest: bit_imp_le_length)
  show "bit (linux_Minor (new_encode_dev d)) n = bit (d AND 0xfffff) n"
    using n unfolding linux_Minor_def new_encode_dev_def dev_masks mask20 Let_def
    by (auto simp: bit_simps dest: bit_imp_le_length)
qed

text \<open>A task that runs inode 77 of device 8:2.\<close>

definition kenv_exe :: kenv where
  "kenv_exe = kenv_quiet
     \<lparr>ke_tasks := [0x1000 \<mapsto> \<lparr>ts_pid = 42, ts_tgid = 42, ts_real_parent = 0, ts_mm = 0x2000, ts_files = 0,
                              ts_nsproxy = 0, ts_comm = zeros 16\<rparr>],
      ke_mms := [0x2000 \<mapsto> \<lparr>mm_exe_file = 0x3000, mm_arg_start = 0, mm_arg_end = 0\<rparr>],
      ke_kfiles := [0x3000 \<mapsto> \<lparr>f_inode = 0x4000, f_flags = 0, f_path_dentry = 0\<rparr>],
      ke_inodes := [0x4000 \<mapsto> \<lparr>i_mode = 0, i_ino = 77, i_nlink = 1, i_sb = 0x5000\<rparr>],
      ke_sbs := [0x5000 \<mapsto> \<lparr>s_dev = 0x800002, s_magic = 0\<rparr>]\<rparr>"

abbreviation exe_77 :: file_id where "exe_77 \<equiv> \<lparr>fi_dev = 0x800002, fi_ino = 77\<rparr>"

lemma kenv_exe_id: "get_task_exe_id kenv_exe 0x1000 = Some exe_77" "get_current_exe_id kenv_exe = Some exe_77"
  by (simp_all add: get_current_exe_id_def get_task_exe_id_def kenv_exe_def core_read_def kenv_quiet_def)

theorem exe_identity_agrees_witness:
  "IDFromStat linux_Major linux_Minor (new_encode_dev 0x800002) 77 = exe_77"
  using exe_identity_agrees [OF linux_dev_contract kenv_exe_id(1) refl refl]
  by (simp add: kenv_exe_def core_read_def kenv_quiet_def)

section \<open>The set of pinned binaries\<close>

text \<open>An opened file: whether \<open>fstat\<close> succeeds, its mode, owner and identity.\<close>

record ofile =
  of_stat_ok :: bool
  of_regular :: bool
  of_perm :: u32
  of_uid :: u32
  of_fstat :: "file_id option"

record tenv =
  te_statPath :: "bytes \<Rightarrow> file_id option"
  te_open :: "bytes \<Rightarrow> ofile option"
  te_euid :: u32

record tset =
  ts_pinned :: "(bytes \<times> file_id) list"
  ts_ids :: "(file_id \<times> nat) list"

definition NewSet :: tset where
  "NewSet = \<lparr>ts_pinned = [], ts_ids = []\<rparr>"

definition verifyBinaryIntegrity :: "tenv \<Rightarrow> ofile \<Rightarrow> bool" where
  "verifyBinaryIntegrity te f \<longleftrightarrow>
     of_stat_ok f \<and> of_regular f \<and> of_perm f AND 0x12 = 0 \<and> \<not> (te_euid te = 0 \<and> of_uid f \<noteq> 0)"

text \<open>Opening, verifying and identifying a path; any failure leaves it out.\<close>

definition open_id :: "tenv \<Rightarrow> bytes \<Rightarrow> file_id option" where
  "open_id te p =
     (case te_open te p of
        None \<Rightarrow> None
      | Some f \<Rightarrow> if verifyBinaryIntegrity te f then of_fstat f else None)"

definition bump :: "file_id \<Rightarrow> (file_id \<times> nat) list \<Rightarrow> (file_id \<times> nat) list" where
  "bump i ids = AList.update i (Suc (case map_of ids i of Some n \<Rightarrow> n | None \<Rightarrow> 0)) ids"

definition pin :: "tenv \<Rightarrow> bytes \<Rightarrow> (bytes \<times> file_id) list \<Rightarrow> (file_id \<times> nat) list \<Rightarrow>
    (bytes \<times> file_id) list \<times> (file_id \<times> nat) list" where
  "pin te p pinned ids =
     (case open_id te p of None \<Rightarrow> (pinned, ids) | Some i \<Rightarrow> (AList.update p i pinned, bump i ids))"

definition sync_path :: "tenv \<Rightarrow> bytes \<Rightarrow> (bytes \<times> file_id) list \<times> (file_id \<times> nat) list \<Rightarrow>
    (bytes \<times> file_id) list \<times> (file_id \<times> nat) list" where
  "sync_path te p st =
     (let (pinned, ids) = st in
      if p = [] then st
      else case map_of pinned p of
        Some j \<Rightarrow>
          if te_statPath te p = Some j then (pinned, bump j ids) else pin te p (AList.delete p pinned) ids
      | None \<Rightarrow> pin te p pinned ids)"

definition Set_Sync :: "tenv \<Rightarrow> bytes list \<Rightarrow> tset \<Rightarrow> file_id list \<times> tset" where
  "Set_Sync te paths ts =
     (let (pinned, ids) = fold (sync_path te) paths (ts_pinned ts, []) in
      (map fst ids,
       \<lparr>ts_pinned = filter (\<lambda>(p, _). p \<noteq> [] \<and> p \<in> set paths) pinned, ts_ids = ids\<rparr>))"


text \<open>The identity a listed path is trusted under.\<close>

definition trusted_id :: "tenv \<Rightarrow> (bytes \<times> file_id) list \<Rightarrow> bytes \<Rightarrow> file_id option" where
  "trusted_id te pinned p =
     (case map_of pinned p of
        Some j \<Rightarrow> if te_statPath te p = Some j then Some j else open_id te p
      | None \<Rightarrow> open_id te p)"

lemma keys_bump [simp]: "fst ` set (bump i ids) = insert i (fst ` set ids)"
  by (simp add: bump_def dom_update)

lemma sync_path_ids:
  "fst ` set (snd (sync_path te p (pinned, ids))) =
     fst ` set ids \<union> (if p = [] then {} else set_option (trusted_id te pinned p))"
  by (simp add: sync_path_def pin_def trusted_id_def split: option.split)

lemma sync_path_trusted:
  "trusted_id te (fst (sync_path te p (pinned, ids))) q = trusted_id te pinned q"
  by (simp add: sync_path_def pin_def trusted_id_def update_conv' delete_conv' split: option.split)

lemma sync_fold_ids:
  "fst ` set (snd (fold (sync_path te) paths (pinned, ids))) =
     fst ` set ids \<union> {i. \<exists>p \<in> set paths. p \<noteq> [] \<and> trusted_id te pinned p = Some i}"
proof (induction paths arbitrary: pinned ids)
  case (Cons p paths)
  obtain pinned' ids' where s: "sync_path te p (pinned, ids) = (pinned', ids')" by (cases "sync_path te p (pinned, ids)")
  then have "fst ` set ids' = fst ` set ids \<union> (if p = [] then {} else set_option (trusted_id te pinned p))"
    "\<And>q. trusted_id te pinned' q = trusted_id te pinned q"
    using sync_path_ids [of te p pinned ids] sync_path_trusted [of te p pinned ids] by simp_all
  then show ?case using Cons.IH [of pinned' ids'] s by (auto split: if_splits)
qed simp

lemma Set_Sync_ids:
  "set (fst (Set_Sync te paths ts)) = {i. \<exists>p \<in> set paths. p \<noteq> [] \<and> trusted_id te (ts_pinned ts) p = Some i}"
  using sync_fold_ids [of te paths "ts_pinned ts" "[]"] by (simp add: Set_Sync_def case_prod_unfold Let_def)


definition tenv_sample :: tenv where
  "tenv_sample =
     \<lparr>te_statPath = (\<lambda>_. None),
      te_open = (\<lambda>_. Some \<lparr>of_stat_ok = True, of_regular = True, of_perm = 0x1ED, of_uid = 0, of_fstat = Some exe_77\<rparr>),
      te_euid = 0\<rparr>"


section \<open>Ptrace callers\<close>

text \<open>
  C22: who may attach. Once the trust set for the configured callers is synchronised into the kernel and
  the switch is on, an access check that asks for more than reading is allowed exactly when the
  executable of the calling process is the trusted file of one of the configured paths.
\<close>

theorem ptrace_allowed_iff_pinned:
  assumes "ae_ptrace_ids ae = fst (Set_Sync te paths ts)" "sync_succeeds (ae_ptrace ae)"
    and "distinct (map fst (km_ptrace k))" "\<forall>i v. map_of (km_ptrace k) i = Some v \<longrightarrow> v = 1"
    and "c_PtraceEnforcementEnabled c" "ae_set_ok ae ''ptrace''"
    and "pol b = with_maps (applyConfig ae c k) q"
    and "mode AND PTRACE_MODE_READ = 0" "get_current_exe_id E = Some i"
  shows "fst (lsm_ptrace_access_check E (child, mode) b) = 0 \<longleftrightarrow>
           (\<exists>p \<in> set paths. p \<noteq> [] \<and> trusted_id te (ts_pinned ts) p = Some i)"
proof -
  let ?ids = "remdups (ae_ptrace_ids ae)"
  have "fst (syncKeyedMap (ae_ptrace ae) ?ids (km_ptrace k)) = None"
    using assms(2) by (simp add: sync_succeeds_def syncKeyedMap_def sync_run_ok)
  then have "allowed_ptrace_attaches (pol b) i = (if i \<in> set ?ids then Some 1 else None)"
    using syncKeyedMap_exact [of "ae_ptrace ae" "km_ptrace k" ?ids i] assms(2-4,7)
    by (simp add: sync_succeeds_def with_maps_def applyConfig_def)
  moreover have "ptrace_enforcement_enabled (pol b) \<noteq> 0"
    using assms(5-7) by (simp add: with_maps_def applyConfig_def set_switch_def)
  ultimately show ?thesis
    using assms(1,8,9) Set_Sync_ids [of te paths ts] by (simp add: lsm_ptrace_access_check_def Let_def)
qed

definition ptrace_config :: config where
  "ptrace_config = (config_rules [])\<lparr>c_PtraceEnforcementEnabled := True\<rparr>"

abbreviation ae_gdb :: apply_env where
  "ae_gdb \<equiv> ae_plain\<lparr>ae_ptrace_ids := fst (Set_Sync tenv_sample [str ''/usr/bin/gdb''] NewSet)\<rparr>"

theorem ptrace_allowed_iff_pinned_witness:
  "fst (lsm_ptrace_access_check kenv_exe (0x1000, 2)
     (bstate_init (with_maps (applyConfig ae_gdb ptrace_config kmaps_empty) policy_off))) = 0"
proof -
  let ?b = "bstate_init (with_maps (applyConfig ae_gdb ptrace_config kmaps_empty) policy_off)"
  have a: "ae_ptrace_ids ae_gdb = fst (Set_Sync tenv_sample [str ''/usr/bin/gdb''] NewSet)"
    "sync_succeeds (ae_ptrace ae_gdb)" "distinct (map fst (km_ptrace kmaps_empty))"
    "\<forall>i v. map_of (km_ptrace kmaps_empty) i = Some v \<longrightarrow> v = 1" "c_PtraceEnforcementEnabled ptrace_config"
    "ae_set_ok ae_gdb ''ptrace''" "pol ?b = with_maps (applyConfig ae_gdb ptrace_config kmaps_empty) policy_off"
    "(2 :: u32) AND PTRACE_MODE_READ = 0"
    by (simp_all add: ae_plain_def sync_succeeds_def sync_plain_def ranges_all_def kmaps_empty_def ptrace_config_def
        PTRACE_MODE_READ_def)
  show ?thesis
    unfolding ptrace_allowed_iff_pinned [OF a kenv_exe_id(2)]
    by (simp add: trusted_id_def open_id_def verifyBinaryIntegrity_def tenv_sample_def NewSet_def str_def)
qed

end
