(* ===== verification/KG_Config.thy ===== *)
theory KG_Config
  imports KG_Engine "HOL-Library.Monad_Syntax"
begin

text \<open>
  Reading a configuration: \<open>internal/config/rules.go\<close> (the structs, \<open>Rule.Validate\<close>,
  \<open>Config.Validate\<close>) and the loading half of \<open>internal/config/config.go\<close> (the two regular expressions
  that find kernel block patterns in rule texts, the permission check, \<open>Load\<close>, \<open>parseConfig\<close>). The
  decoders of YAML and JSON and the CEL library are parameters. The last part composes validation
  with the loader and the exec hook: the text of the rules decides what the kernel denies.
\<close>

section \<open>Go library functions\<close>

text \<open>
  \<open>strings.ToLower\<close> as far as a comparison with an ASCII text can tell: besides the ASCII capitals only
  U+0130 and U+212A have an ASCII lower case.
\<close>

fun ToLower :: "gostring \<Rightarrow> gostring" where
  "ToLower [] = []"
| "ToLower (b # bs) =
     (if 0x41 \<le> b \<and> b \<le> 0x5A then (b + 0x20) # ToLower bs
      else if b = 0xC4 \<and> take 1 bs = [0xB0] then 0x69 # ToLower (drop 1 bs)
      else if b = 0xE2 \<and> take 2 bs = [0x84, 0xAA] then 0x6B # ToLower (drop 2 bs)
      else b # ToLower bs)"

fun Contains :: "gostring \<Rightarrow> gostring \<Rightarrow> bool" where
  "Contains [] sub \<longleftrightarrow> sub = []"
| "Contains (b # bs) sub \<longleftrightarrow> prefix sub (b # bs) \<or> Contains bs sub"

text \<open>\<open>filepath.Ext\<close>: from the last dot of the last path element.\<close>

definition Ext :: "gostring \<Rightarrow> gostring" where
  "Ext p =
     (let e = takeWhile (\<lambda>c. c \<noteq> 0x2F) (rev p) in
      if 0x2E \<in> set e then 0x2E # rev (takeWhile (\<lambda>c. c \<noteq> 0x2E) e) else [])"

section \<open>The two patterns\<close>

text \<open>
  \<open>exactPathRe\<close> and \<open>prefixPathRe\<close> as scanners. Every part of the expressions is delimited by a character
  the part itself cannot contain, so the match is unique and greedy scanning finds it. A bracket
  class of the source excludes only ASCII characters: reading bytes instead of runes is the same.
\<close>

definition is_ws :: "u8 \<Rightarrow> bool" where
  "is_ws b \<longleftrightarrow> b \<in> {0x09, 0x0A, 0x0C, 0x0D, 0x20}"

definition lit :: "gostring \<Rightarrow> gostring \<Rightarrow> gostring option" where
  "lit s bs = (if prefix s bs then Some (drop (length s) bs) else None)"

definition quoted :: "u8 \<Rightarrow> gostring \<Rightarrow> (gostring \<times> gostring) option" where
  "quoted q bs =
     do {
       r \<leftarrow> lit [q] bs;
       let body = takeWhile (\<lambda>b. b \<noteq> q \<and> b \<noteq> 0x5C) r;
       r' \<leftarrow> lit [q] (drop (length body) r);
       (if body = [] then None else Some (body, r'))
     }"

text \<open>The two groups of the alternative, the one that takes no part empty.\<close>

definition quoted_groups :: "gostring \<Rightarrow> (gostring list \<times> gostring) option" where
  "quoted_groups bs =
     (case quoted 0x27 bs of
        Some (p, r) \<Rightarrow> Some ([p, []], r)
      | None \<Rightarrow> map_option (\<lambda>(p, r). ([[], p], r)) (quoted 0x22 bs))"

definition exactPathRe :: "gostring \<Rightarrow> gostring list option" where
  "exactPathRe e =
     do {
       r1 \<leftarrow> lit (str ''process.path'') (dropWhile is_ws e);
       r2 \<leftarrow> lit (str ''=='') (dropWhile is_ws r1);
       (gs, r3) \<leftarrow> quoted_groups (dropWhile is_ws r2);
       (if dropWhile is_ws r3 = [] then Some (e # gs) else None)
     }"

definition prefixPathRe :: "gostring \<Rightarrow> gostring list option" where
  "prefixPathRe e =
     do {
       r1 \<leftarrow> lit (str ''process.path.startsWith('') (dropWhile is_ws e);
       (gs, r2) \<leftarrow> quoted_groups (dropWhile is_ws r1);
       r3 \<leftarrow> lit (str '')'') (dropWhile is_ws r2);
       (if dropWhile is_ws r3 = [] then Some (e # gs) else None)
     }"

definition firstGroup :: "gostring list \<Rightarrow> gostring" where
  "firstGroup m = (case find (\<lambda>g. g \<noteq> []) (tl m) of Some g \<Rightarrow> g | None \<Rightarrow> [])"

section \<open>Rules\<close>

record MitreMeta =
  mi_Tactic :: gostring
  mi_TechniqueID :: gostring
  mi_Technique :: gostring
  mi_Tags :: "gostring list"

type_synonym cel_program = "EventContext \<Rightarrow> bool option"

record Rule =
  ru_Name :: gostring
  ru_Severity :: gostring
  ru_Action :: gostring
  ru_Mode :: gostring
  ru_Expression :: gostring
  ru_Mitre :: "MitreMeta option"
  ru_Program :: "cel_program option"
  ru_ExactBlockPath :: gostring
  ru_ExactBlockPrefix :: gostring

text \<open>
  The CEL environment: compiling a text, whether the type of the compiled expression is bool or dynamic,
  and the program of a compiled expression, whose evaluation may fail.
\<close>

record 'a celEnv =
  ce_Compile :: "gostring \<Rightarrow> 'a option"
  ce_OutputOk :: "'a \<Rightarrow> bool"
  ce_Program :: "'a \<Rightarrow> cel_program option"

datatype config_error =
    MissingName | UnknownSeverity gostring | UnknownAction gostring | UnknownMode gostring
  | EmptyExpression | CelSyntaxError | NotBool | ProgramFailed
  | BlockPathRelative gostring | BlockPathTooLong nat | BlockPrefixBad gostring
  | DuplicateRuleName gostring | InvalidProtectedPID int | NegativeDedupWindow | CertWithoutKey
  | EmptyEntry string | EntryTooLong string gostring | EntryRelative string gostring
  | OpenFailed | StatFailed | WritableByOthers | NotRegular | ForeignOwner | ReadFailed | TooLarge
  | DecodeFailed

definition maxBPFPathLen :: nat where "maxBPFPathLen = 255"

definition block_pattern :: "Rule \<Rightarrow> config_error + Rule" where
  "block_pattern r =
     (if ru_Action r \<noteq> str ''BLOCK'' then Inr r
      else case exactPathRe (ru_Expression r) of
        Some m \<Rightarrow>
          (let p = firstGroup m in
           if \<not> IsAbs p then Inl (BlockPathRelative p)
           else if maxBPFPathLen < length p then Inl (BlockPathTooLong (length p))
           else Inr (r\<lparr>ru_ExactBlockPath := p\<rparr>))
      | None \<Rightarrow>
          (case prefixPathRe (ru_Expression r) of
             Some m \<Rightarrow>
               (let p = firstGroup m in
                if \<not> IsAbs p \<or> length p < 2 then Inl (BlockPrefixBad p)
                else if maxBPFPathLen < length p then Inl (BlockPathTooLong (length p))
                else Inr (r\<lparr>ru_ExactBlockPrefix := p\<rparr>))
           | None \<Rightarrow> Inr r))"

definition Rule_Validate :: "'a celEnv \<Rightarrow> Rule \<Rightarrow> config_error + Rule" where
  "Rule_Validate env r =
     (if ru_Name r = [] then Inl MissingName
      else if ru_Severity r \<notin> {str ''low'', str ''medium'', str ''high'', str ''critical''}
        then Inl (UnknownSeverity (ru_Severity r))
      else if ru_Action r \<notin> {str ''ALERT'', str ''KILL'', str ''BLOCK''} then Inl (UnknownAction (ru_Action r))
      else
        let r1 = (if ru_Mode r = [] then r\<lparr>ru_Mode := str ''enforce''\<rparr> else r) in
        if ru_Mode r1 \<notin> {str ''enforce'', str ''audit''} then Inl (UnknownMode (ru_Mode r1))
        else if bytes_TrimSpace (ru_Expression r1) = [] then Inl EmptyExpression
        else case ce_Compile env (ru_Expression r1) of
          None \<Rightarrow> Inl CelSyntaxError
        | Some ast \<Rightarrow>
            if \<not> ce_OutputOk env ast then Inl NotBool
            else case ce_Program env ast of
              None \<Rightarrow> Inl ProgramFailed
            | Some prg \<Rightarrow>
                block_pattern (r1\<lparr>ru_Program := Some prg, ru_ExactBlockPath := [], ru_ExactBlockPrefix := []\<rparr>))"

section \<open>Configurations\<close>

record SinksConfig =
  si_Stdout :: bool
  si_Syslog :: bool
  si_WebhookURL :: gostring
  si_SlackWebhookURL :: gostring
  si_StorePath :: gostring
  si_MetricsListenAddr :: gostring
  si_DashboardListenAddr :: gostring
  si_DashboardAuthToken :: gostring
  si_MetricsAuthToken :: gostring
  si_AuditLogPath :: gostring

record Config =
  cf_Rules :: "Rule list"
  cf_Allowlist :: "gostring list"
  cf_ProtectedPIDs :: "int list"
  cf_ProtectedComms :: "gostring list"
  cf_EnforcementEnabled :: bool
  cf_MaxMemoryMB :: u64
  cf_DedupWindowSeconds :: int
  cf_Sinks :: SinksConfig
  cf_SuspiciousPaths :: "gostring list"
  cf_IgnoredConnectComms :: "gostring list"
  cf_SensitiveWritePaths :: "gostring list"
  cf_BlockedWritePaths :: "gostring list"
  cf_PtraceEnforcementEnabled :: bool
  cf_AllowedPtraceAttached :: "gostring list"
  cf_KmodEnforcementEnabled :: bool
  cf_KubeletURL :: gostring
  cf_ProcPath :: gostring
  cf_CgroupPath :: gostring
  cf_KubeletInsecure :: bool
  cf_KubeletCertFile :: gostring
  cf_KubeletKeyFile :: gostring
  cf_requiresSHA256 :: bool

definition no_sinks :: SinksConfig where
  "no_sinks =
     \<lparr>si_Stdout = False, si_Syslog = False, si_WebhookURL = [], si_SlackWebhookURL = [], si_StorePath = [],
      si_MetricsListenAddr = [], si_DashboardListenAddr = [], si_DashboardAuthToken = [],
      si_MetricsAuthToken = [], si_AuditLogPath = []\<rparr>"

definition applyDefaults :: "Config \<Rightarrow> Config" where
  "applyDefaults c =
     (let c1 = (if cf_DedupWindowSeconds c = 0 then c\<lparr>cf_DedupWindowSeconds := 10\<rparr> else c) in
      if cf_Sinks c1 = no_sinks then c1\<lparr>cf_Sinks := (cf_Sinks c1)\<lparr>si_Stdout := True\<rparr>\<rparr> else c1)"

text \<open>The loop over the rules, with the names seen and whether some expression mentions the digest.\<close>

fun validate_rules :: "'a celEnv \<Rightarrow> gostring list \<Rightarrow> bool \<Rightarrow> Rule list \<Rightarrow> config_error + Rule list \<times> bool" where
  "validate_rules env seen sha [] = Inr ([], sha)"
| "validate_rules env seen sha (r # rs) =
     (case Rule_Validate env r of
        Inl e \<Rightarrow> Inl e
      | Inr r' \<Rightarrow>
          (let sha' = (sha \<or> Contains (ToLower (ru_Expression r')) (str ''sha256'')) in
           if ru_Name r' \<in> set seen then Inl (DuplicateRuleName (ru_Name r'))
           else case validate_rules env (ru_Name r' # seen) sha' rs of
             Inl e \<Rightarrow> Inl e
           | Inr (rs', b) \<Rightarrow> Inr (r' # rs', b)))"

definition nonEmptyPathLists :: "Config \<Rightarrow> (string \<times> gostring list) list" where
  "nonEmptyPathLists c =
     [(''suspicious_path'', cf_SuspiciousPaths c), (''sensitive_write_paths'', cf_SensitiveWritePaths c),
      (''blocked_write_paths'', cf_BlockedWritePaths c), (''allowlist'', cf_Allowlist c)]"

definition commLists :: "Config \<Rightarrow> (string \<times> gostring list) list" where
  "commLists c =
     [(''protected_comms'', cf_ProtectedComms c), (''ignored_connect_comms'', cf_IgnoredConnectComms c),
      (''allowed_ptrace_attaches'', cf_AllowedPtraceAttached c)]"

definition entry_error :: "string \<Rightarrow> gostring \<Rightarrow> config_error option" where
  "entry_error field p =
     (if p = [] then Some (EmptyEntry field)
      else if maxBPFPathLen < length p then Some (EntryTooLong field p)
      else if \<not> IsAbs p then Some (EntryRelative field p) else None)"

fun first_error :: "config_error option list \<Rightarrow> config_error option" where
  "first_error [] = None"
| "first_error (None # es) = first_error es"
| "first_error (Some e # es) = Some e"

text \<open>\<open>ord\<close> is the order in which the map of all path lists is ranged over.\<close>

definition Config_Validate ::
    "((string \<times> gostring list) list \<Rightarrow> (string \<times> gostring list) list) \<Rightarrow> 'a celEnv \<Rightarrow> Config \<Rightarrow>
     config_error + Config" where
  "Config_Validate ord env c =
     (case validate_rules env [] False (cf_Rules c) of
        Inl e \<Rightarrow> Inl e
      | Inr (rules, sha) \<Rightarrow>
          (let c1 = c\<lparr>cf_Rules := rules, cf_requiresSHA256 := sha\<rparr> in
           case find (\<lambda>pid. pid \<le> 0) (cf_ProtectedPIDs c1) of
             Some pid \<Rightarrow> Inl (InvalidProtectedPID pid)
           | None \<Rightarrow>
               if cf_DedupWindowSeconds c1 < 0 then Inl NegativeDedupWindow
               else if (cf_KubeletCertFile c1 = []) \<noteq> (cf_KubeletKeyFile c1 = []) then Inl CertWithoutKey
               else case first_error (concat (map (\<lambda>(field, entries). map (entry_error field) entries)
                      (ord (nonEmptyPathLists c1 @ commLists c1)))) of
                 Some e \<Rightarrow> Inl e
               | None \<Rightarrow> Inr c1))"

section \<open>Loading a file\<close>

record decoders =
  de_JSON :: "bytes \<Rightarrow> Config option"
  de_YAML :: "bytes \<Rightarrow> Config option"

definition parseConfig ::
    "((string \<times> gostring list) list \<Rightarrow> (string \<times> gostring list) list) \<Rightarrow> 'a celEnv \<Rightarrow> decoders \<Rightarrow> bytes \<Rightarrow>
     gostring \<Rightarrow> config_error + Config" where
  "parseConfig ord env D b ext =
     (case (if ext = str ''.json'' then de_JSON D b
            else if ext = str ''.yaml'' \<or> ext = str ''.yml'' then de_YAML D b
            else case de_YAML D b of Some c \<Rightarrow> Some c | None \<Rightarrow> de_JSON D b) of
        None \<Rightarrow> Inl DecodeFailed
      | Some c \<Rightarrow> Config_Validate ord env (applyDefaults c))"

record file_stat =
  fs_mode :: u32
  fs_regular :: bool
  fs_uid :: int

text \<open>An opened file: what \<open>fstat\<close> and reading to the end return, when they succeed.\<close>

record open_file =
  of_stat :: "file_stat option"
  of_content :: "bytes option"

definition checkConfigPermissionsFD :: "int \<Rightarrow> open_file \<Rightarrow> config_error option" where
  "checkConfigPermissionsFD uid f =
     (case of_stat f of
        None \<Rightarrow> Some StatFailed
      | Some st \<Rightarrow>
          if fs_mode st AND 0x12 \<noteq> 0 then Some WritableByOthers
          else if \<not> fs_regular st then Some NotRegular
          else if uid \<noteq> 0 \<and> fs_uid st \<noteq> uid then Some ForeignOwner else None)"

definition maxConfigBytes :: nat where "maxConfigBytes = 2 ^ 20"

definition Load ::
    "((string \<times> gostring list) list \<Rightarrow> (string \<times> gostring list) list) \<Rightarrow> 'a celEnv \<Rightarrow> decoders \<Rightarrow> int \<Rightarrow>
     gostring \<Rightarrow> open_file option \<Rightarrow> config_error + Config" where
  "Load ord env D uid path file =
     (case file of
        None \<Rightarrow> Inl OpenFailed
      | Some f \<Rightarrow>
          (case checkConfigPermissionsFD uid f of
             Some e \<Rightarrow> Inl e
           | None \<Rightarrow>
               (case of_content f of
                  None \<Rightarrow> Inl ReadFailed
                | Some content \<Rightarrow>
                    (let b = take (maxConfigBytes + 1) content in
                     if maxConfigBytes < length b then Inl TooLarge
                     else parseConfig ord env D b (ToLower (Ext path))))))"

section \<open>What the engine and the loader use of a configuration\<close>

definition rule_view :: "Rule \<Rightarrow> rule" where
  "rule_view r =
     \<lparr>r_name = ru_Name r,
      r_Severity =
        (if ru_Severity r = str ''low'' then SeverityLow else if ru_Severity r = str ''medium'' then SeverityMedium
         else if ru_Severity r = str ''high'' then SeverityHigh else SeverityCritical),
      r_action =
        (if ru_Action r = str ''BLOCK'' then ActionBlock else if ru_Action r = str ''KILL'' then ActionKill
         else ActionAlert),
      r_mode = (if ru_Mode r = str ''audit'' then RuleModeAudit else RuleModeEnforce),
      r_ExactBlockPath = ru_ExactBlockPath r, r_ExactBlockPrefix = ru_ExactBlockPrefix r\<rparr>"

definition config_view :: "Config \<Rightarrow> config" where
  "config_view c =
     \<lparr>c_Rules = map rule_view (cf_Rules c), c_Allowlist = cf_Allowlist c, c_ProtectedPIDs = cf_ProtectedPIDs c,
      c_DedupWindowSeconds = cf_DedupWindowSeconds c, c_SuspiciousPaths = cf_SuspiciousPaths c,
      c_SensitiveWritePaths = cf_SensitiveWritePaths c, c_BlockedWritePaths = cf_BlockedWritePaths c,
      c_EnforcementEnabled = cf_EnforcementEnabled c,
      c_PtraceEnforcementEnabled = cf_PtraceEnforcementEnabled c,
      c_KmodEnforcementEnabled = cf_KmodEnforcementEnabled c\<rparr>"


section \<open>What the patterns match\<close>

text \<open>
  The expressions the two patterns describe: white space anywhere between the tokens, a quoted path
  without its quote and without a backslash.
\<close>

definition quoted_path :: "gostring \<Rightarrow> gostring \<Rightarrow> bool" where
  "quoted_path t p \<longleftrightarrow> (\<exists>q \<in> {0x27, 0x22}. t = q # p @ [q] \<and> p \<noteq> [] \<and> q \<notin> set p \<and> 0x5C \<notin> set p)"

definition blanks :: "gostring \<Rightarrow> bool" where
  "blanks w \<longleftrightarrow> (\<forall>b \<in> set w. is_ws b)"

definition exact_expr :: "gostring \<Rightarrow> gostring \<Rightarrow> bool" where
  "exact_expr e p \<longleftrightarrow>
     (\<exists>w1 w2 w3 w4 t. blanks w1 \<and> blanks w2 \<and> blanks w3 \<and> blanks w4 \<and> quoted_path t p \<and>
        e = w1 @ str ''process.path'' @ w2 @ str ''=='' @ w3 @ t @ w4)"

definition prefix_expr :: "gostring \<Rightarrow> gostring \<Rightarrow> bool" where
  "prefix_expr e p \<longleftrightarrow>
     (\<exists>w1 w2 w3 w4 t. blanks w1 \<and> blanks w2 \<and> blanks w3 \<and> blanks w4 \<and> quoted_path t p \<and>
        e = w1 @ str ''process.path.startsWith('' @ w2 @ t @ w3 @ str '')'' @ w4)"

lemma lit_iff: "lit s bs = Some r \<longleftrightarrow> bs = s @ r"
  by (auto simp: lit_def prefix_def)

lemma skip_blanks: "blanks w \<Longrightarrow> x = [] \<or> \<not> is_ws (hd x) \<Longrightarrow> dropWhile is_ws (w @ x) = x"
  by (cases x) (auto simp: blanks_def dropWhile_append)

lemma blanks_split: "\<exists>w. blanks w \<and> e = w @ dropWhile is_ws e"
  by (rule exI [of _ "takeWhile is_ws e"]) (auto simp: blanks_def dest: set_takeWhileD)

lemma quoted_iff:
  assumes "q \<noteq> 0x5C"
  shows "quoted q bs = Some (p, r) \<longleftrightarrow> bs = q # p @ q # r \<and> p \<noteq> [] \<and> q \<notin> set p \<and> 0x5C \<notin> set p"
proof -
  let ?P = "\<lambda>b. b \<noteq> q \<and> b \<noteq> 0x5C"
  have body: "takeWhile ?P (p @ q # r) = p" if "q \<notin> set p" "0x5C \<notin> set p" for p r :: bytes
    using that by (subst takeWhile_append2) auto
  have split: "r = takeWhile ?P r @ x" if "drop (length (takeWhile ?P r)) r = x" for r x :: bytes
    unfolding that [symmetric] by (simp flip: dropWhile_eq_drop)
  have clean: "q \<notin> set (takeWhile ?P r)" "0x5C \<notin> set (takeWhile ?P r)" for r :: bytes
    using set_takeWhileD [of q ?P r] set_takeWhileD [of "0x5C" ?P r] by blast+
  show ?thesis
  proof
    assume a: "quoted q bs = Some (p, r)"
    obtain y where y: "lit [q] bs = Some y" using a by (cases "lit [q] bs") (simp_all add: quoted_def)
    let ?b = "takeWhile ?P y"
    obtain z where z: "lit [q] (drop (length ?b) y) = Some z"
      using a y by (cases "lit [q] (drop (length ?b) y)") (simp_all add: quoted_def Let_def)
    have "(if ?b = [] then None else Some (?b, z)) = Some (p, r)"
      using a by (simp only: quoted_def Let_def y z bind.bind_lunit)
    then have "p = ?b" "z = r" "p \<noteq> []" by (auto split: if_splits)
    with y z have y: "bs = q # y" "p = ?b" "p \<noteq> []" "drop (length p) y = q # r" by (simp_all add: lit_iff)
    then have "y = p @ q # r" using split [of y "q # r"] by simp
    moreover have "q \<notin> set p \<and> 0x5C \<notin> set p" unfolding y(2) using clean by blast
    ultimately show "bs = q # p @ q # r \<and> p \<noteq> [] \<and> q \<notin> set p \<and> 0x5C \<notin> set p" using y(1,3) by simp
  next
    assume p: "bs = q # p @ q # r \<and> p \<noteq> [] \<and> q \<notin> set p \<and> 0x5C \<notin> set p"
    then have "takeWhile ?P (p @ q # r) = p" by (intro body) simp_all
    with p show "quoted q bs = Some (p, r)" by (simp add: quoted_def lit_def del: takeWhile_append)
  qed
qed

lemma firstGroup_simps [simp]: "firstGroup [e, p, []] = p" "firstGroup [e, [], p] = p"
  by (simp_all add: firstGroup_def)

lemma quoted_groups_iff:
  "(\<exists>gs. quoted_groups bs = Some (gs, r) \<and> firstGroup (e # gs) = p) \<longleftrightarrow>
   (\<exists>t. bs = t @ r \<and> quoted_path t p)"
proof -
  have "(0x27 :: u8) \<noteq> 0x5C" "(0x22 :: u8) \<noteq> 0x5C" by simp_all
  note q = this [THEN quoted_iff]
  have none: "quoted 0x27 (0x22 # x) = None" for x by (simp add: quoted_def lit_def)
  have "(\<exists>gs. quoted_groups bs = Some (gs, r) \<and> firstGroup (e # gs) = p) \<longleftrightarrow>
      quoted 0x27 bs = Some (p, r) \<or> quoted 0x27 bs = None \<and> quoted 0x22 bs = Some (p, r)"
    by (auto simp: quoted_groups_def split: option.split)
  also have "\<dots> \<longleftrightarrow> quoted 0x27 bs = Some (p, r) \<or> quoted 0x22 bs = Some (p, r)"
  proof -
    have "quoted 0x27 bs = None" if "quoted 0x22 bs = Some (p, r)"
      using that none unfolding q(2) by simp
    then show ?thesis by blast
  qed
  also have "\<dots> \<longleftrightarrow> (\<exists>t. bs = t @ r \<and> quoted_path t p)" by (auto simp: q quoted_path_def)
  finally show ?thesis .
qed

lemma quoted_path_head: "quoted_path t p \<Longrightarrow> t \<noteq> [] \<and> \<not> is_ws (hd (t @ x)) \<and> p \<noteq> []"
  by (auto simp: quoted_path_def is_ws_def)

lemma skip_quoted: "blanks w \<Longrightarrow> quoted_path t p \<Longrightarrow> dropWhile is_ws (w @ t @ x) = t @ x"
  using quoted_path_head [of t p x] by (intro skip_blanks) auto

lemma str_heads:
  "\<not> is_ws (hd (str ''process.path'' @ x))" "\<not> is_ws (hd (str ''=='' @ x))"
  "\<not> is_ws (hd (str ''process.path.startsWith('' @ x))" "\<not> is_ws (hd (str '')'' @ x))"
  by (simp_all add: str_def is_ws_def)

lemma exactPathRe_iff: "map_option firstGroup (exactPathRe e) = Some p \<longleftrightarrow> exact_expr e p"
proof
  assume "map_option firstGroup (exactPathRe e) = Some p"
  then obtain r1 r2 gs r3 where r: "dropWhile is_ws e = str ''process.path'' @ r1"
    "dropWhile is_ws r1 = str ''=='' @ r2" "quoted_groups (dropWhile is_ws r2) = Some (gs, r3)"
    "dropWhile is_ws r3 = []" "firstGroup (e # gs) = p"
    by (auto simp: exactPathRe_def lit_iff bind_eq_Some_conv split: if_splits)
  from r(3,5) quoted_groups_iff [of "dropWhile is_ws r2" r3 e p]
  obtain t where t: "dropWhile is_ws r2 = t @ r3" "quoted_path t p" by blast
  obtain w1 w2 w3 w4 where w: "blanks w1 \<and> e = w1 @ dropWhile is_ws e" "blanks w2 \<and> r1 = w2 @ dropWhile is_ws r1"
    "blanks w3 \<and> r2 = w3 @ dropWhile is_ws r2" "blanks w4 \<and> r3 = w4 @ dropWhile is_ws r3"
    using blanks_split by meson
  then have "e = w1 @ str ''process.path'' @ w2 @ str ''=='' @ w3 @ t @ w4" unfolding r(1,2,4) t(1) by simp
  then show "exact_expr e p" using w t(2) unfolding exact_expr_def by blast
next
  assume "exact_expr e p"
  then obtain w1 w2 w3 w4 t where w: "blanks w1" "blanks w2" "blanks w3" "blanks w4" "quoted_path t p"
    and e: "e = w1 @ str ''process.path'' @ w2 @ str ''=='' @ w3 @ t @ w4" unfolding exact_expr_def by blast
  obtain gs where g: "quoted_groups (t @ w4) = Some (gs, w4)" "firstGroup (e # gs) = p"
    using quoted_groups_iff [of "t @ w4" w4 e p] w(5) by blast
  have s: "dropWhile is_ws e = str ''process.path'' @ w2 @ str ''=='' @ w3 @ t @ w4"
    "dropWhile is_ws (w2 @ str ''=='' @ w3 @ t @ w4) = str ''=='' @ w3 @ t @ w4"
    "dropWhile is_ws (w3 @ t @ w4) = t @ w4" "dropWhile is_ws w4 = []"
    using w e str_heads skip_quoted [OF _ w(5)] skip_blanks [of w4 "[]"] by (simp_all add: skip_blanks)
  have "lit (str ''process.path'') (dropWhile is_ws e) = Some (w2 @ str ''=='' @ w3 @ t @ w4)"
    "lit (str ''=='') (dropWhile is_ws (w2 @ str ''=='' @ w3 @ t @ w4)) = Some (w3 @ t @ w4)"
    by (simp_all only: s lit_iff)
  then show "map_option firstGroup (exactPathRe e) = Some p"
    using g w(4) by (simp add: exactPathRe_def s(3) blanks_def)
qed

lemma prefixPathRe_iff: "map_option firstGroup (prefixPathRe e) = Some p \<longleftrightarrow> prefix_expr e p"
proof
  assume "map_option firstGroup (prefixPathRe e) = Some p"
  then obtain r1 gs r2 r3 where r: "dropWhile is_ws e = str ''process.path.startsWith('' @ r1"
    "quoted_groups (dropWhile is_ws r1) = Some (gs, r2)" "dropWhile is_ws r2 = str '')'' @ r3"
    "dropWhile is_ws r3 = []" "firstGroup (e # gs) = p"
    by (auto simp: prefixPathRe_def lit_iff bind_eq_Some_conv split: if_splits)
  from r(2,5) quoted_groups_iff [of "dropWhile is_ws r1" r2 e p]
  obtain t where t: "dropWhile is_ws r1 = t @ r2" "quoted_path t p" by blast
  obtain w1 w2 w3 w4 where w: "blanks w1 \<and> e = w1 @ dropWhile is_ws e" "blanks w2 \<and> r1 = w2 @ dropWhile is_ws r1"
    "blanks w3 \<and> r2 = w3 @ dropWhile is_ws r2" "blanks w4 \<and> r3 = w4 @ dropWhile is_ws r3"
    using blanks_split by meson
  then have "e = w1 @ str ''process.path.startsWith('' @ w2 @ t @ w3 @ str '')'' @ w4"
    unfolding r(1,3,4) t(1) by simp
  then show "prefix_expr e p" using w t(2) unfolding prefix_expr_def by blast
next
  assume "prefix_expr e p"
  then obtain w1 w2 w3 w4 t where w: "blanks w1" "blanks w2" "blanks w3" "blanks w4" "quoted_path t p"
    and e: "e = w1 @ str ''process.path.startsWith('' @ w2 @ t @ w3 @ str '')'' @ w4"
    unfolding prefix_expr_def by blast
  obtain gs where g: "quoted_groups (t @ w3 @ str '')'' @ w4) = Some (gs, w3 @ str '')'' @ w4)"
    "firstGroup (e # gs) = p"
    using quoted_groups_iff [of "t @ w3 @ str '')'' @ w4" "w3 @ str '')'' @ w4" e p] w(5) by blast
  have s: "dropWhile is_ws e = str ''process.path.startsWith('' @ w2 @ t @ w3 @ str '')'' @ w4"
    "dropWhile is_ws (w2 @ t @ w3 @ str '')'' @ w4) = t @ w3 @ str '')'' @ w4"
    "dropWhile is_ws (w3 @ str '')'' @ w4) = str '')'' @ w4" "dropWhile is_ws w4 = []"
    using w e str_heads skip_quoted [OF _ w(5)] skip_blanks [of w4 "[]"] by (simp_all add: skip_blanks)
  have "lit (str ''process.path.startsWith('') (dropWhile is_ws e) = Some (w2 @ t @ w3 @ str '')'' @ w4)"
    "lit (str '')'') (dropWhile is_ws (w3 @ str '')'' @ w4)) = Some w4"
    by (simp_all only: s lit_iff)
  then show "map_option firstGroup (prefixPathRe e) = Some p"
    using g w(4) by (simp add: prefixPathRe_def s(2) blanks_def)
qed


section \<open>Validated rules\<close>

lemma patterns_exclusive:
  assumes "exactPathRe e = Some m"
  shows "prefixPathRe e = None"
proof (rule ccontr)
  assume "prefixPathRe e \<noteq> None"
  then obtain r where "lit (str ''process.path.startsWith('') (dropWhile is_ws e) = Some r"
    by (cases "lit (str ''process.path.startsWith('') (dropWhile is_ws e)") (simp_all add: prefixPathRe_def)
  then have "dropWhile is_ws e = str ''process.path'' @ str ''.startsWith('' @ r"
    by (simp add: lit_iff str_def)
  then have "lit (str ''process.path'') (dropWhile is_ws e) = Some (str ''.startsWith('' @ r)"
    by (simp only: lit_iff)
  moreover have "lit (str ''=='') (dropWhile is_ws (str ''.startsWith('' @ r)) = None"
    by (simp add: lit_def str_def is_ws_def)
  ultimately show False using assms by (simp add: exactPathRe_def)
qed

lemma exactPathRe_Some: "exactPathRe e = Some m \<Longrightarrow> exact_expr e (firstGroup m)"
  using exactPathRe_iff [of e "firstGroup m"] by simp

lemma prefixPathRe_Some: "prefixPathRe e = Some m \<Longrightarrow> prefix_expr e (firstGroup m)"
  using prefixPathRe_iff [of e "firstGroup m"] by simp

lemma exact_expr_Some: "exact_expr e p \<Longrightarrow> \<exists>m. exactPathRe e = Some m \<and> firstGroup m = p"
  using exactPathRe_iff [of e p] by auto

lemma prefix_expr_Some: "prefix_expr e p \<Longrightarrow> \<exists>m. prefixPathRe e = Some m \<and> firstGroup m = p"
  using prefixPathRe_iff [of e p] by auto

lemma expr_nonempty: "exact_expr e p \<or> prefix_expr e p \<Longrightarrow> p \<noteq> []"
  by (auto simp: exact_expr_def prefix_expr_def quoted_path_def)

lemma expr_bytes: "exact_expr e p \<or> prefix_expr e p \<Longrightarrow> set p \<subseteq> set e"
  by (auto simp: exact_expr_def prefix_expr_def quoted_path_def)

text \<open>What validation writes into the two members that are synchronised with the kernel.\<close>

lemma block_pattern_members:
  assumes "block_pattern r = Inr r'" "ru_ExactBlockPath r = []" "ru_ExactBlockPrefix r = []"
  shows "p \<noteq> [] \<Longrightarrow> ru_ExactBlockPath r' = p \<longleftrightarrow> ru_Action r = str ''BLOCK'' \<and> exact_expr (ru_Expression r) p"
    and "p \<noteq> [] \<Longrightarrow> ru_ExactBlockPrefix r' = p \<longleftrightarrow> ru_Action r = str ''BLOCK'' \<and> prefix_expr (ru_Expression r) p"
    and "length (ru_ExactBlockPath r') \<le> 255 \<and> length (ru_ExactBlockPrefix r') \<le> 255"
    and "r'\<lparr>ru_ExactBlockPath := [], ru_ExactBlockPrefix := []\<rparr> = r"
proof -
  let ?e = "ru_Expression r"
  consider (other) "ru_Action r \<noteq> str ''BLOCK''" "r' = r"
    | (exact) m where "ru_Action r = str ''BLOCK''" "exactPathRe ?e = Some m" "length (firstGroup m) \<le> 255"
        "r' = r\<lparr>ru_ExactBlockPath := firstGroup m\<rparr>"
    | (pfx) m where "ru_Action r = str ''BLOCK''" "exactPathRe ?e = None" "prefixPathRe ?e = Some m"
        "length (firstGroup m) \<le> 255" "r' = r\<lparr>ru_ExactBlockPrefix := firstGroup m\<rparr>"
    | (none) "exactPathRe ?e = None" "prefixPathRe ?e = None" "r' = r"
    using assms(1) unfolding block_pattern_def maxBPFPathLen_def Let_def
    by (fastforce split: if_splits option.splits)
  note c = this
  show "r'\<lparr>ru_ExactBlockPath := [], ru_ExactBlockPrefix := []\<rparr> = r"
    "length (ru_ExactBlockPath r') \<le> 255 \<and> length (ru_ExactBlockPrefix r') \<le> 255"
    by (use assms(2,3) in \<open>cases rule: c; simp\<close>)+
  have x: "exact_expr ?e q \<longleftrightarrow> (\<exists>m. exactPathRe ?e = Some m \<and> firstGroup m = q)"
    "prefix_expr ?e q \<longleftrightarrow> (\<exists>m. prefixPathRe ?e = Some m \<and> firstGroup m = q)" for q
    using exact_expr_Some exactPathRe_Some prefix_expr_Some prefixPathRe_Some by blast+
  show "ru_ExactBlockPath r' = p \<longleftrightarrow> ru_Action r = str ''BLOCK'' \<and> exact_expr ?e p"
    "ru_ExactBlockPrefix r' = p \<longleftrightarrow> ru_Action r = str ''BLOCK'' \<and> prefix_expr ?e p" if "p \<noteq> []"
    unfolding x by (use assms(2,3) that patterns_exclusive in \<open>cases rule: c; auto\<close>)+
qed

lemma Rule_Validate_steps:
  assumes "Rule_Validate env r = Inr r'"
  obtains prg where "ru_Name r \<noteq> []" "ru_Mode r \<in> {[], str ''enforce'', str ''audit''}"
    "block_pattern ((if ru_Mode r = [] then r\<lparr>ru_Mode := str ''enforce''\<rparr> else r)
       \<lparr>ru_Program := Some prg, ru_ExactBlockPath := [], ru_ExactBlockPrefix := []\<rparr>) = Inr r'"
  using assms unfolding Rule_Validate_def Let_def
  by (fastforce split: if_splits option.splits)

lemma Rule_Validate_Inr:
  assumes "Rule_Validate env r = Inr r'"
  shows "ru_Name r' = ru_Name r" "ru_Expression r' = ru_Expression r"
    and "r_action (rule_view r') = ActionBlock \<longleftrightarrow> ru_Action r = str ''BLOCK''"
    and "r_mode (rule_view r') = RuleModeEnforce \<longleftrightarrow> ru_Mode r \<noteq> str ''audit''"
    and "p \<noteq> [] \<Longrightarrow> ru_ExactBlockPath r' = p \<longleftrightarrow> ru_Action r = str ''BLOCK'' \<and> exact_expr (ru_Expression r) p"
    and "p \<noteq> [] \<Longrightarrow> ru_ExactBlockPrefix r' = p \<longleftrightarrow> ru_Action r = str ''BLOCK'' \<and> prefix_expr (ru_Expression r) p"
    and "length (ru_ExactBlockPath r') \<le> 255" "length (ru_ExactBlockPrefix r') \<le> 255"
proof -
  from assms obtain prg where m: "ru_Mode r \<in> {[], str ''enforce'', str ''audit''}"
    and b: "block_pattern ((if ru_Mode r = [] then r\<lparr>ru_Mode := str ''enforce''\<rparr> else r)
       \<lparr>ru_Program := Some prg, ru_ExactBlockPath := [], ru_ExactBlockPrefix := []\<rparr>) = Inr r'"
    by (rule Rule_Validate_steps)
  let ?r1 = "(if ru_Mode r = [] then r\<lparr>ru_Mode := str ''enforce''\<rparr> else r)
       \<lparr>ru_Program := Some prg, ru_ExactBlockPath := [], ru_ExactBlockPrefix := []\<rparr>"
  have r1: "ru_Expression ?r1 = ru_Expression r" "ru_Action ?r1 = ru_Action r" "ru_Name ?r1 = ru_Name r"
    "ru_Mode ?r1 = (if ru_Mode r = [] then str ''enforce'' else ru_Mode r)"
    "ru_ExactBlockPath ?r1 = []" "ru_ExactBlockPrefix ?r1 = []" by simp_all
  note q = block_pattern_members [OF b r1(5,6), unfolded r1(1,2)]
  have keep: "ru_Name r' = ru_Name ?r1" "ru_Expression r' = ru_Expression ?r1" "ru_Action r' = ru_Action ?r1"
    "ru_Mode r' = ru_Mode ?r1"
    by (simp_all flip: q(4))
  show "ru_Name r' = ru_Name r" "ru_Expression r' = ru_Expression r" using keep r1 by simp_all
  show "r_action (rule_view r') = ActionBlock \<longleftrightarrow> ru_Action r = str ''BLOCK''"
    using keep(3) r1(2) by (simp add: rule_view_def)
  show "r_mode (rule_view r') = RuleModeEnforce \<longleftrightarrow> ru_Mode r \<noteq> str ''audit''"
    unfolding rule_view_def using keep(4) r1(4) by (simp add: str_def)
  show "length (ru_ExactBlockPath r') \<le> 255" "length (ru_ExactBlockPrefix r') \<le> 255" using q(3) by simp_all
  show "ru_ExactBlockPath r' = p \<longleftrightarrow> ru_Action r = str ''BLOCK'' \<and> exact_expr (ru_Expression r) p"
    "ru_ExactBlockPrefix r' = p \<longleftrightarrow> ru_Action r = str ''BLOCK'' \<and> prefix_expr (ru_Expression r) p" if "p \<noteq> []"
    using q(1,2) [OF that] by simp_all
qed


section \<open>Accepted configurations\<close>

abbreviation rule_accepted :: "'a celEnv \<Rightarrow> Rule \<Rightarrow> Rule \<Rightarrow> bool" where
  "rule_accepted env r r' \<equiv> Rule_Validate env r = Inr r'"

definition mentions_sha :: "Rule \<Rightarrow> bool" where
  "mentions_sha r \<longleftrightarrow> Contains (ToLower (ru_Expression r)) (str ''sha256'')"

lemma validate_rules_iff:
  "validate_rules env seen sha rs = Inr (rs', b) \<longleftrightarrow>
     list_all2 (rule_accepted env) rs rs' \<and> distinct (map ru_Name rs) \<and>
     set (map ru_Name rs) \<inter> set seen = {} \<and> b = (sha \<or> list_ex mentions_sha rs)"
proof (induction env seen sha rs arbitrary: rs' rule: validate_rules.induct)
  case (2 env seen sha r rs)
  show ?case
  proof (cases "Rule_Validate env r")
    case (Inr r')
    note f = Rule_Validate_Inr(1,2) [OF Inr]
    have sha: "Contains (ToLower (ru_Expression r')) (str ''sha256'') = mentions_sha r"
      by (simp add: mentions_sha_def f)
    note ih = "2.IH" [OF Inr refl, unfolded f(1) sha]
    show ?thesis
    proof (cases "ru_Name r \<in> set seen")
      case False
      let ?v = "validate_rules env (ru_Name r # seen) (sha \<or> mentions_sha r) rs"
      have v: "validate_rules env seen sha (r # rs) =
          (case ?v of Inl e \<Rightarrow> Inl e | Inr (ts, b) \<Rightarrow> Inr (r' # ts, b))"
        using Inr False f sha by (simp add: Let_def)
      have "validate_rules env seen sha (r # rs) = Inr (rs', b) \<longleftrightarrow> (\<exists>ts. rs' = r' # ts \<and> ?v = Inr (ts, b))"
        unfolding v by (auto split: sum.split)
      also have "\<dots> \<longleftrightarrow> (\<exists>ts. rs' = r' # ts \<and> list_all2 (rule_accepted env) rs ts \<and> distinct (map ru_Name rs) \<and>
          set (map ru_Name rs) \<inter> set (ru_Name r # seen) = {} \<and> b = (sha \<or> mentions_sha r \<or> list_ex mentions_sha rs))"
        using ih [OF False] by (simp only: disj_assoc)
      finally show ?thesis using False Inr by (auto simp: list_all2_Cons1)
    qed (use Inr f in \<open>auto simp: Let_def\<close>)
  qed (auto simp: list_all2_Cons1)
qed auto

lemma first_error_None: "first_error es = None \<longleftrightarrow> (\<forall>e \<in> set es. e = None)"
  by (induction es rule: first_error.induct) auto

definition entry_ok :: "gostring \<Rightarrow> bool" where
  "entry_ok p \<longleftrightarrow> IsAbs p \<and> length p \<le> 255"

lemma entry_error_None: "entry_error f p = None \<longleftrightarrow> entry_ok p"
  by (auto simp: entry_error_def entry_ok_def maxBPFPathLen_def IsAbs_def)

definition all_entries :: "Config \<Rightarrow> gostring set" where
  "all_entries c =
     set (cf_SuspiciousPaths c) \<union> set (cf_SensitiveWritePaths c) \<union> set (cf_BlockedWritePaths c) \<union>
     set (cf_Allowlist c) \<union> set (cf_ProtectedComms c) \<union> set (cf_IgnoredConnectComms c) \<union>
     set (cf_AllowedPtraceAttached c)"

text \<open>A range over a map visits every entry.\<close>

definition visits_all :: "((string \<times> gostring list) list \<Rightarrow> (string \<times> gostring list) list) \<Rightarrow> bool" where
  "visits_all ord \<longleftrightarrow> (\<forall>xs. set (ord xs) = set xs)"

lemma list_errors:
  assumes "visits_all ord"
  shows "first_error (concat (map (\<lambda>(field, entries). map (entry_error field) entries)
           (ord (nonEmptyPathLists c @ commLists c)))) = None \<longleftrightarrow> (\<forall>p \<in> all_entries c. entry_ok p)"
  using assms
  by (simp add: first_error_None visits_all_def nonEmptyPathLists_def commLists_def all_entries_def entry_error_None
      ball_Un conj_ac)

lemma all_entries_update [simp]: "all_entries (c\<lparr>cf_Rules := rs, cf_requiresSHA256 := b\<rparr>) = all_entries c"
  by (simp add: all_entries_def)

lemma find_None_conv: "find P xs = None \<longleftrightarrow> (\<forall>x \<in> set xs. \<not> P x)"
  by (induction xs) auto

lemma Config_Validate_iff:
  assumes "visits_all ord"
  shows "Config_Validate ord env c = Inr c' \<longleftrightarrow>
     (\<exists>rs'. list_all2 (rule_accepted env) (cf_Rules c) rs' \<and>
        c' = c\<lparr>cf_Rules := rs', cf_requiresSHA256 := list_ex mentions_sha (cf_Rules c)\<rparr>) \<and>
     distinct (map ru_Name (cf_Rules c)) \<and> (\<forall>pid \<in> set (cf_ProtectedPIDs c). 0 < pid) \<and>
     0 \<le> cf_DedupWindowSeconds c \<and> (cf_KubeletCertFile c = [] \<longleftrightarrow> cf_KubeletKeyFile c = []) \<and>
     (\<forall>p \<in> all_entries c. entry_ok p)"
proof (cases "validate_rules env [] False (cf_Rules c)")
  case (Inl e)
  have "\<nexists>rs'. list_all2 (rule_accepted env) (cf_Rules c) rs' \<and> distinct (map ru_Name (cf_Rules c))"
    using validate_rules_iff [of env "[]" False "cf_Rules c"] Inl by auto
  then show ?thesis using Inl by (auto simp: Config_Validate_def)
next
  case (Inr v)
  obtain rs' b where v: "v = (rs', b)" by (cases v)
  note i = Inr [unfolded v]
  have r: "list_all2 (rule_accepted env) (cf_Rules c) rs'" "distinct (map ru_Name (cf_Rules c))"
    "b = list_ex mentions_sha (cf_Rules c)"
    using i by (simp_all add: validate_rules_iff)
  have u: "ts = rs'" if "list_all2 (rule_accepted env) (cf_Rules c) ts" for ts
    using that r(2) i validate_rules_iff [of env "[]" False "cf_Rules c" ts b] r(3) by simp
  let ?c = "c\<lparr>cf_Rules := rs', cf_requiresSHA256 := b\<rparr>"
  have "Config_Validate ord env c = Inr c' \<longleftrightarrow> c' = ?c \<and> (\<forall>pid \<in> set (cf_ProtectedPIDs c). 0 < pid) \<and>
      0 \<le> cf_DedupWindowSeconds c \<and> (cf_KubeletCertFile c = [] \<longleftrightarrow> cf_KubeletKeyFile c = []) \<and>
      (\<forall>p \<in> all_entries c. entry_ok p)"
  proof -
    have pid: "find (\<lambda>pid. pid \<le> 0) (cf_ProtectedPIDs c) = None \<longleftrightarrow> (\<forall>pid \<in> set (cf_ProtectedPIDs c). 0 < pid)"
      by (simp add: find_None_conv linorder_not_le)
    let ?e = "first_error (concat (map (\<lambda>(field, entries). map (entry_error field) entries)
        (ord (nonEmptyPathLists ?c @ commLists ?c))))"
    have e: "?e = None \<longleftrightarrow> (\<forall>p \<in> all_entries c. entry_ok p)" using list_errors [OF assms, of ?c] by simp
    have "Config_Validate ord env c = Inr c' \<longleftrightarrow> find (\<lambda>pid. pid \<le> 0) (cf_ProtectedPIDs c) = None \<and>
        0 \<le> cf_DedupWindowSeconds c \<and> (cf_KubeletCertFile c = [] \<longleftrightarrow> cf_KubeletKeyFile c = []) \<and> ?e = None \<and> c' = ?c"
      by (cases "find (\<lambda>pid. pid \<le> 0) (cf_ProtectedPIDs c)"; cases ?e) (auto simp: Config_Validate_def i Let_def)
    then show ?thesis unfolding pid e by blast
  qed
  moreover have "(\<exists>ts. list_all2 (rule_accepted env) (cf_Rules c) ts \<and>
      c' = c\<lparr>cf_Rules := ts, cf_requiresSHA256 := list_ex mentions_sha (cf_Rules c)\<rparr>) \<longleftrightarrow> c' = ?c"
    using r(1) u unfolding r(3) by blast
  ultimately show ?thesis using r(2) by (simp only: simp_thms)
qed

text \<open>
  C27: a configuration is accepted exactly when every rule is, no two rules share a name, protected process ids
  are positive, the deduplication window is not negative, certificate and key come together, and
  every entry of the seven path lists is an absolute path of at most 255 bytes. The order in which Go visits its map of lists does not
  matter. Validation changes nothing but the rules and the note whether one of them needs digests.
\<close>

theorem config_accepted_iff:
  assumes "visits_all ord"
  shows "Config_Validate ord env c = Inr c' \<longleftrightarrow>
     (\<exists>rs'. list_all2 (\<lambda>r r'. Rule_Validate env r = Inr r') (cf_Rules c) rs' \<and>
        c' = c\<lparr>cf_Rules := rs', cf_requiresSHA256 :=
          list_ex (\<lambda>r. Contains (ToLower (ru_Expression r)) (str ''sha256'')) (cf_Rules c)\<rparr>) \<and>
     distinct (map ru_Name (cf_Rules c)) \<and> (\<forall>pid \<in> set (cf_ProtectedPIDs c). 0 < pid) \<and>
     0 \<le> cf_DedupWindowSeconds c \<and> (cf_KubeletCertFile c = [] \<longleftrightarrow> cf_KubeletKeyFile c = []) \<and>
     (\<forall>p \<in> all_entries c. IsAbs p \<and> length p \<le> 255)"
  using Config_Validate_iff [OF assms, of env c c'] unfolding mentions_sha_def entry_ok_def .

section \<open>From the text of the rules to the verdict\<close>

text \<open>A successful application of a configuration by the loader, whatever its rules.\<close>

definition synced :: "apply_env \<Rightarrow> config \<Rightarrow> kmaps \<Rightarrow> policy \<Rightarrow> bool" where
  "synced ae c k q \<longleftrightarrow>
     sync_succeeds (ae_prefix ae) \<and> sync_succeeds (ae_blocked ae) \<and> map_order (ae_patterns ae) \<and>
     ae_lsm ae \<and> ae_set_ok ae ''lsm'' \<and> distinct (map fst (km_prefix k)) \<and> distinct (map fst (km_blocked k)) \<and>
     lpm_contract (lpm_lookup q) \<and> q = with_maps (applyConfig ae c k) q"

definition enforcing_block :: "Rule \<Rightarrow> bool" where
  "enforcing_block r \<longleftrightarrow> ru_Action r = str ''BLOCK'' \<and> ru_Mode r \<noteq> str ''audit''"

lemma accepted_pattern_ok:
  assumes "Rule_Validate env r = Inr r'" "0 \<notin> set (ru_Expression r)"
  shows "pattern_ok (ru_ExactBlockPath r') \<and> pattern_ok (ru_ExactBlockPrefix r')"
proof -
  note v = Rule_Validate_Inr [OF assms(1)]
  have "0 \<notin> set (ru_ExactBlockPath r')"
    using v(5) [of "ru_ExactBlockPath r'"] expr_bytes assms(2) by (cases "ru_ExactBlockPath r' = []") auto
  moreover have "0 \<notin> set (ru_ExactBlockPrefix r')"
    using v(6) [of "ru_ExactBlockPrefix r'"] expr_bytes assms(2) by (cases "ru_ExactBlockPrefix r' = []") auto
  ultimately show ?thesis using v(7,8) by (simp add: pattern_ok_def)
qed

text \<open>The rules of the file and the rules the loader sees, one by one.\<close>

lemma accepted_rule_blocks:
  assumes "Rule_Validate env r = Inr r'"
  shows "ru_Action r = str ''BLOCK'' \<and> exact_expr (ru_Expression r) p \<longleftrightarrow>
           r_action (rule_view r') = ActionBlock \<and> r_ExactBlockPath (rule_view r') = p \<and> p \<noteq> []"
    and "ru_Action r = str ''BLOCK'' \<and> prefix_expr (ru_Expression r) p \<longleftrightarrow>
           r_action (rule_view r') = ActionBlock \<and> r_ExactBlockPrefix (rule_view r') = p \<and> p \<noteq> []"
proof -
  note v = Rule_Validate_Inr(3) [OF assms(1)] Rule_Validate_Inr(5,6) [OF assms]
  have sel: "r_ExactBlockPath (rule_view r') = ru_ExactBlockPath r'" "r_ExactBlockPrefix (rule_view r') = ru_ExactBlockPrefix r'"
    by (simp_all add: rule_view_def)
  have "p \<noteq> []" if "exact_expr (ru_Expression r) p \<or> prefix_expr (ru_Expression r) p"
    using that by (rule expr_nonempty)
  then show "ru_Action r = str ''BLOCK'' \<and> exact_expr (ru_Expression r) p \<longleftrightarrow>
      r_action (rule_view r') = ActionBlock \<and> r_ExactBlockPath (rule_view r') = p \<and> p \<noteq> []"
    "ru_Action r = str ''BLOCK'' \<and> prefix_expr (ru_Expression r) p \<longleftrightarrow>
      r_action (rule_view r') = ActionBlock \<and> r_ExactBlockPrefix (rule_view r') = p \<and> p \<noteq> []"
    unfolding sel v(1) using v(2,3) by blast+
qed

lemma list_all2_set2: "list_all2 R xs ys \<Longrightarrow> y \<in> set ys \<Longrightarrow> \<exists>x \<in> set xs. R x y"
  by (induction xs ys rule: list_all2_induct) auto

lemma list_all2_ex:
  "list_all2 R xs ys \<Longrightarrow> (\<And>x y. R x y \<Longrightarrow> P x \<longleftrightarrow> Q y) \<Longrightarrow> (\<exists>x \<in> set xs. P x) \<longleftrightarrow> (\<exists>y \<in> set ys. Q y)"
  by (induction xs ys rule: list_all2_induct) auto

lemma list_all2_all:
  "list_all2 R xs ys \<Longrightarrow> (\<And>x y. R x y \<Longrightarrow> P x \<longleftrightarrow> Q y) \<Longrightarrow> (\<forall>x \<in> set xs. P x) \<longleftrightarrow> (\<forall>y \<in> set ys. Q y)"
  by (induction xs ys rule: list_all2_induct) auto

definition text_prefix_enforced :: "Rule list \<Rightarrow> bytes \<Rightarrow> bool" where
  "text_prefix_enforced rs p \<longleftrightarrow>
     (\<exists>r \<in> set rs. \<exists>q. enforcing_block r \<and> prefix_expr (ru_Expression r) q \<and> prefix q p \<and>
        (\<forall>r' \<in> set rs. \<forall>q'. ru_Action r' = str ''BLOCK'' \<and> prefix_expr (ru_Expression r') q' \<and> prefix q' p \<longrightarrow>
           length q' \<le> length q))"

lemma text_prefix_enforced_view:
  assumes "list_all2 (rule_accepted env) rs rs'"
  shows "prefix_enforced (map rule_view rs') p \<longleftrightarrow> text_prefix_enforced rs p"
proof -
  let ?sel = "\<lambda>r. r_ExactBlockPrefix (rule_view r)"
  have longest: "(\<forall>r' \<in> set rs'. r_action (rule_view r') = ActionBlock \<and> prefix (?sel r') p \<longrightarrow> length (?sel r') \<le> n) \<longleftrightarrow>
      (\<forall>r \<in> set rs. \<forall>q. ru_Action r = str ''BLOCK'' \<and> prefix_expr (ru_Expression r) q \<and> prefix q p \<longrightarrow> length q \<le> n)" for n
  proof (rule list_all2_all [OF assms, symmetric])
    fix r r' assume a: "rule_accepted env r r'"
    show "(\<forall>q. ru_Action r = str ''BLOCK'' \<and> prefix_expr (ru_Expression r) q \<and> prefix q p \<longrightarrow> length q \<le> n) \<longleftrightarrow>
        (r_action (rule_view r') = ActionBlock \<and> prefix (?sel r') p \<longrightarrow> length (?sel r') \<le> n)"
      unfolding conj_assoc [symmetric] accepted_rule_blocks(2) [OF a] by auto
  qed
  have "(\<exists>r' \<in> set rs'. r_action (rule_view r') = ActionBlock \<and> r_mode (rule_view r') = RuleModeEnforce \<and>
        ?sel r' \<noteq> [] \<and> prefix (?sel r') p \<and> L (length (?sel r'))) \<longleftrightarrow>
      (\<exists>r \<in> set rs. \<exists>q. enforcing_block r \<and> prefix_expr (ru_Expression r) q \<and> prefix q p \<and> L (length q))" for L
  proof (rule list_all2_ex [OF assms, symmetric])
    fix r r' assume a: "rule_accepted env r r'"
    show "(\<exists>q. enforcing_block r \<and> prefix_expr (ru_Expression r) q \<and> prefix q p \<and> L (length q)) \<longleftrightarrow>
        (r_action (rule_view r') = ActionBlock \<and> r_mode (rule_view r') = RuleModeEnforce \<and>
         ?sel r' \<noteq> [] \<and> prefix (?sel r') p \<and> L (length (?sel r')))"
    proof -
      have "enforcing_block r \<and> prefix_expr (ru_Expression r) q \<longleftrightarrow> r_mode (rule_view r') = RuleModeEnforce \<and>
          r_action (rule_view r') = ActionBlock \<and> ?sel r' = q \<and> q \<noteq> []" for q
        unfolding accepted_rule_blocks(2) [OF a, of q, symmetric] Rule_Validate_Inr(4) [OF a]
        by (auto simp: enforcing_block_def)
      then show ?thesis unfolding conj_assoc [symmetric] by auto
    qed
  qed
  then show ?thesis unfolding prefix_enforced_def text_prefix_enforced_def by (simp add: longest)
qed

lemma text_exact_enforced_view:
  assumes "list_all2 (rule_accepted env) rs rs'"
  shows "(\<exists>r \<in> set (map rule_view rs'). r_action r = ActionBlock \<and> r_mode r = RuleModeEnforce \<and>
            r_ExactBlockPath r = p \<and> p \<noteq> []) \<longleftrightarrow>
         (\<exists>r \<in> set rs. enforcing_block r \<and> exact_expr (ru_Expression r) p)"
proof -
  have "(\<exists>r' \<in> set rs'. r_action (rule_view r') = ActionBlock \<and> r_mode (rule_view r') = RuleModeEnforce \<and>
      r_ExactBlockPath (rule_view r') = p \<and> p \<noteq> []) \<longleftrightarrow>
      (\<exists>r \<in> set rs. enforcing_block r \<and> exact_expr (ru_Expression r) p)"
  proof (rule list_all2_ex [OF assms, symmetric])
    fix r r' assume a: "rule_accepted env r r'"
    show "enforcing_block r \<and> exact_expr (ru_Expression r) p \<longleftrightarrow>
        r_action (rule_view r') = ActionBlock \<and> r_mode (rule_view r') = RuleModeEnforce \<and>
        r_ExactBlockPath (rule_view r') = p \<and> p \<noteq> []"
      using accepted_rule_blocks(1) [OF a] Rule_Validate_Inr(4) [OF a] unfolding enforcing_block_def by blast
  qed
  then show ?thesis by simp
qed


lemma synced_applied:
  assumes "visits_all ord" "Config_Validate ord env c = Inr c'" "\<forall>r \<in> set (cf_Rules c). 0 \<notin> set (ru_Expression r)"
    and "synced ae (config_view c') k q"
  shows "applied ae (config_view c') k q" "list_all2 (rule_accepted env) (cf_Rules c) (cf_Rules c')"
    "cf_EnforcementEnabled c' = cf_EnforcementEnabled c"
proof -
  from Config_Validate_iff [OF assms(1), of env c c'] assms(2)
  obtain rs' where r: "list_all2 (rule_accepted env) (cf_Rules c) rs'"
    "c' = c\<lparr>cf_Rules := rs', cf_requiresSHA256 := list_ex mentions_sha (cf_Rules c)\<rparr>" by blast
  then show l: "list_all2 (rule_accepted env) (cf_Rules c) (cf_Rules c')"
    "cf_EnforcementEnabled c' = cf_EnforcementEnabled c" by simp_all
  have "pattern_ok (ru_ExactBlockPath r') \<and> pattern_ok (ru_ExactBlockPrefix r')" if r': "r' \<in> set (cf_Rules c')" for r'
  proof -
    obtain r where r: "r \<in> set (cf_Rules c)" "rule_accepted env r r'"
      using list_all2_set2 [OF l(1) r'] by blast
    show ?thesis using accepted_pattern_ok [OF r(2)] assms(3) r(1) by blast
  qed
  then show "applied ae (config_view c') k q"
    using assms(4) by (auto simp: applied_def synced_def config_view_def rule_view_def)
qed

text \<open>
  C2: the text of a configuration file decides what the kernel denies. When a configuration is accepted and
  applied with enforcement on, an ordinary exec is denied exactly when some BLOCK rule that is not in
  audit mode says \<open>process.path == '<path>'\<close> with the resolved path of the binary, or says
  \<open>process.path.startsWith('<prefix>')\<close> with a prefix of that path and no BLOCK rule says so with a
  longer one; white space and the kind of quotes do not matter. Rules of any other form, with further
  conditions for instance, never make the kernel deny anything.
\<close>

theorem config_text_verdict:
  assumes "visits_all ord" "Config_Validate ord env c = Inr c'" "\<forall>r \<in> set (cf_Rules c). 0 \<notin> set (ru_Expression r)"
    and "synced ae (config_view c') k (pol s)" "cf_EnforcementEnabled c"
    and "kenv_ok E" "get_scratch E s \<noteq> None" "bprm_path E bprm = Some p"
    and "\<not> redirected (ke_current E) s" "\<not> bprm_fileless E bprm"
  shows "fst (lsm_bprm_check E bprm s) = -1 \<longleftrightarrow>
     (\<exists>r \<in> set (cf_Rules c). ru_Action r = str ''BLOCK'' \<and> ru_Mode r \<noteq> str ''audit'' \<and>
        exact_expr (ru_Expression r) p) \<or>
     (\<exists>r \<in> set (cf_Rules c). \<exists>q. ru_Action r = str ''BLOCK'' \<and> ru_Mode r \<noteq> str ''audit'' \<and>
        prefix_expr (ru_Expression r) q \<and> prefix q p \<and>
        (\<forall>r' \<in> set (cf_Rules c). \<forall>q'. ru_Action r' = str ''BLOCK'' \<and> prefix_expr (ru_Expression r') q' \<and>
           prefix q' p \<longrightarrow> length q' \<le> length q))"
proof -
  note a = synced_applied [OF assms(1-4)]
  have "c_EnforcementEnabled (config_view c')" using a(3) assms(5) by (simp add: config_view_def)
  note v = exec_verdict_of_rules [OF a(1) this assms(6-10)]
  have rules: "c_Rules (config_view c') = map rule_view (cf_Rules c')" by (simp add: config_view_def)
  show ?thesis
    using v unfolding rules text_exact_enforced_view [OF a(2)] text_prefix_enforced_view [OF a(2)]
      text_prefix_enforced_def enforcing_block_def conj_assoc .
qed

text \<open>A configuration with one rule, and a CEL library that compiles everything.\<close>

definition cel_all :: "gostring celEnv" where
  "cel_all = \<lparr>ce_Compile = Some, ce_OutputOk = (\<lambda>_. True), ce_Program = (\<lambda>_. Some (\<lambda>_. Some True))\<rparr>"

definition nc_rule :: Rule where
  "nc_rule =
     \<lparr>ru_Name = str ''Block netcat'', ru_Severity = str ''high'', ru_Action = str ''BLOCK'', ru_Mode = [],
      ru_Expression = str ''process.path == '' @ [0x27] @ str ''/usr/bin/nc'' @ [0x27],
      ru_Mitre = None, ru_Program = None, ru_ExactBlockPath = [], ru_ExactBlockPrefix = []\<rparr>"

definition config_with :: "Rule list \<Rightarrow> Config" where
  "config_with rs =
     \<lparr>cf_Rules = rs, cf_Allowlist = [], cf_ProtectedPIDs = [1], cf_ProtectedComms = [str ''/usr/bin/dockerd''],
      cf_EnforcementEnabled = True, cf_MaxMemoryMB = 0, cf_DedupWindowSeconds = 5,
      cf_Sinks = no_sinks\<lparr>si_Stdout := True\<rparr>, cf_SuspiciousPaths = [str ''/tmp/evil''], cf_IgnoredConnectComms = [],
      cf_SensitiveWritePaths = [], cf_BlockedWritePaths = [], cf_PtraceEnforcementEnabled = False,
      cf_AllowedPtraceAttached = [], cf_KmodEnforcementEnabled = False, cf_KubeletURL = [], cf_ProcPath = [],
      cf_CgroupPath = [], cf_KubeletInsecure = False, cf_KubeletCertFile = [], cf_KubeletKeyFile = [],
      cf_requiresSHA256 = False\<rparr>"

lemma nc_exact: "exact_expr (ru_Expression nc_rule) (str ''/usr/bin/nc'')"
proof -
  let ?t = "[0x27] @ str ''/usr/bin/nc'' @ [0x27]"
  have "quoted_path ?t (str ''/usr/bin/nc'')" by (simp add: quoted_path_def str_def)
  moreover have "ru_Expression nc_rule = [] @ str ''process.path'' @ [0x20] @ str ''=='' @ [0x20] @ ?t @ []"
    by (simp add: nc_rule_def str_def)
  moreover have "blanks []" "blanks [0x20]" by (simp_all add: blanks_def is_ws_def)
  ultimately show ?thesis unfolding exact_expr_def by blast
qed

lemma nc_validates: "\<exists>r'. Rule_Validate cel_all nc_rule = Inr r'"
proof -
  obtain m where m: "exactPathRe (ru_Expression nc_rule) = Some m" "firstGroup m = str ''/usr/bin/nc''"
    using exact_expr_Some [OF nc_exact] by blast
  have "trim_front space_seqs (ru_Expression nc_rule) = ru_Expression nc_rule"
    by (subst trim_front.simps) (simp add: nc_rule_def str_def space_seqs_def)
  moreover have "trim_front (map rev space_seqs) (rev (ru_Expression nc_rule)) = rev (ru_Expression nc_rule)"
    by (subst trim_front.simps) (simp add: nc_rule_def str_def space_seqs_def)
  ultimately have "bytes_TrimSpace (ru_Expression nc_rule) \<noteq> []"
    by (simp add: bytes_TrimSpace_def) (simp add: nc_rule_def)
  then show ?thesis
    using m unfolding Rule_Validate_def block_pattern_def Let_def
    by (simp add: nc_rule_def cel_all_def) (simp add: str_def IsAbs_def maxBPFPathLen_def)
qed


lemma nc_config_validates:
  "\<exists>c'. Config_Validate (\<lambda>xs. xs) cel_all (config_with [nc_rule]) = Inr c'"
proof -
  obtain r' where r: "Rule_Validate cel_all nc_rule = Inr r'" using nc_validates by blast
  let ?c = "config_with [nc_rule]"
  let ?c' = "?c\<lparr>cf_Rules := [r'], cf_requiresSHA256 := list_ex mentions_sha (cf_Rules ?c)\<rparr>"
  have "visits_all (\<lambda>xs. xs)" by (simp add: visits_all_def)
  moreover have "list_all2 (rule_accepted cel_all) (cf_Rules ?c) [r']" using r by (simp add: config_with_def)
  moreover have "\<forall>p \<in> all_entries ?c. entry_ok p" "\<forall>pid \<in> set (cf_ProtectedPIDs ?c). 0 < pid"
    by (simp_all add: all_entries_def config_with_def entry_ok_def IsAbs_def str_def)
  moreover have "distinct (map ru_Name (cf_Rules ?c))" "0 \<le> cf_DedupWindowSeconds ?c"
    "cf_KubeletCertFile ?c = [] \<longleftrightarrow> cf_KubeletKeyFile ?c = []"
    by (simp_all add: config_with_def)
  ultimately have "Config_Validate (\<lambda>xs. xs) cel_all ?c = Inr ?c'"
    by (subst Config_Validate_iff) blast+
  then show ?thesis by blast
qed

theorem config_text_verdict_witness:
  "\<exists>c'. Config_Validate (\<lambda>xs. xs) cel_all (config_with [nc_rule]) = Inr c' \<and>
     fst (lsm_bprm_check kenv_exec 0x2000
       (bstate_init (with_maps (applyConfig ae_plain (config_view c') kmaps_empty) policy_off))) = -1"
proof -
  obtain c' where c': "Config_Validate (\<lambda>xs. xs) cel_all (config_with [nc_rule]) = Inr c'"
    using nc_config_validates by blast
  let ?s = "bstate_init (with_maps (applyConfig ae_plain (config_view c') kmaps_empty) policy_off)"
  have v: "visits_all (\<lambda>xs. xs)" by (simp add: visits_all_def)
  have "\<forall>r \<in> set (cf_Rules (config_with [nc_rule])). 0 \<notin> set (ru_Expression r)"
    by (simp add: config_with_def nc_rule_def str_def)
  moreover have "synced ae_plain (config_view c') kmaps_empty (pol ?s)"
    using lpm_ref_contract
    by (simp add: synced_def ae_plain_def sync_succeeds_def sync_plain_def ranges_all_def map_order_def
        kmaps_empty_def with_maps_def policy_off_def)
  ultimately have "fst (lsm_bprm_check kenv_exec 0x2000 ?s) = -1"
    using config_text_verdict [OF v c' _ _ _ kenv_exec_ok _ kenv_exec_path _ kenv_exec_regular, of ae_plain kmaps_empty ?s] nc_exact
    by (simp add: config_with_def redirected_def nc_rule_def str_def)
  then show ?thesis using c' by blast
qed

theorem config_accepted_iff_witness:
  "\<exists>c'. Config_Validate (\<lambda>xs. xs) cel_all (config_with [nc_rule]) = Inr c' \<and>
     \<not> cf_requiresSHA256 c' \<and> map ru_Name (cf_Rules c') = [str ''Block netcat'']"
proof -
  obtain c' where c': "Config_Validate (\<lambda>xs. xs) cel_all (config_with [nc_rule]) = Inr c'"
    using nc_config_validates by blast
  have "visits_all (\<lambda>xs. xs)" by (simp add: visits_all_def)
  from config_accepted_iff [OF this, of cel_all "config_with [nc_rule]" c'] c'
  obtain rs' where "list_all2 (rule_accepted cel_all) (cf_Rules (config_with [nc_rule])) rs'"
    "c' = (config_with [nc_rule])\<lparr>cf_Rules := rs', cf_requiresSHA256 := list_ex mentions_sha (cf_Rules (config_with [nc_rule]))\<rparr>"
    unfolding mentions_sha_def by blast
  then obtain r' where "cf_Rules c' = [r']" "rule_accepted cel_all nc_rule r'"
    "cf_requiresSHA256 c' = mentions_sha nc_rule"
    by (auto simp: config_with_def list_all2_Cons1)
  then show ?thesis
    using c' Rule_Validate_Inr(1) [of cel_all nc_rule r'] by (simp add: mentions_sha_def nc_rule_def str_def)
qed

section \<open>Consequences\<close>

text \<open>
  C28: a file that is loaded was safe to load. It could be opened and inspected, nobody but its owner can write
  to it, it is a regular file, it belongs to the user the agent runs as unless that is root, it has
  at most a megabyte, and its contents, decoded by the decoder its extension names and with the defaults
  filled in, were accepted. A file that violates any of these leaves the error and no configuration.
\<close>

theorem Load_trusted:
  assumes "Load ord env D uid path file = Inr c"
  shows "\<exists>f st b raw. file = Some f \<and> of_stat f = Some st \<and> of_content f = Some b \<and>
     fs_mode st AND 0x12 = 0 \<and> fs_regular st \<and> (uid = 0 \<or> fs_uid st = uid) \<and> length b \<le> 2 ^ 20 \<and>
     Config_Validate ord env (applyDefaults raw) = Inr c \<and>
     (let ext = ToLower (Ext path) in
      if ext = str ''.json'' then de_JSON D b = Some raw
      else if ext \<in> {str ''.yaml'', str ''.yml''} then de_YAML D b = Some raw
      else de_YAML D b = Some raw \<or> de_YAML D b = None \<and> de_JSON D b = Some raw)"
proof -
  obtain f where f: "file = Some f" using assms by (cases "file") (simp_all add: Load_def)
  obtain st where st: "of_stat f = Some st"
    using assms f by (cases "of_stat f") (simp_all add: Load_def checkConfigPermissionsFD_def)
  have ok: "fs_mode st AND 0x12 = 0" "fs_regular st" "uid = 0 \<or> fs_uid st = uid"
    using assms f st by (auto simp: Load_def checkConfigPermissionsFD_def split: if_splits)
  then have perm: "checkConfigPermissionsFD uid f = None" using st by (auto simp: checkConfigPermissionsFD_def)
  obtain b where b: "of_content f = Some b"
    using assms f perm by (cases "of_content f") (simp_all add: Load_def)
  have len: "length b \<le> maxConfigBytes"
    using assms f perm b by (auto simp: Load_def Let_def split: if_splits)
  then have p: "parseConfig ord env D b (ToLower (Ext path)) = Inr c"
    using assms f perm b by (simp add: Load_def Let_def)
  let ?ext = "ToLower (Ext path)"
  let ?d = "if ?ext = str ''.json'' then de_JSON D b else if ?ext = str ''.yaml'' \<or> ?ext = str ''.yml'' then de_YAML D b
      else case de_YAML D b of Some c \<Rightarrow> Some c | None \<Rightarrow> de_JSON D b"
  obtain raw where d: "?d = Some raw" "Config_Validate ord env (applyDefaults raw) = Inr c"
    using p unfolding parseConfig_def by (cases ?d) simp_all
  have "if ?ext = str ''.json'' then de_JSON D b = Some raw
      else if ?ext \<in> {str ''.yaml'', str ''.yml''} then de_YAML D b = Some raw
      else de_YAML D b = Some raw \<or> de_YAML D b = None \<and> de_JSON D b = Some raw"
    using d(1) by (cases "de_YAML D b") (auto split: if_splits)
  then show ?thesis using f st ok b len d(2) unfolding Let_def maxConfigBytes_def by blast
qed

lemma Base_relative:
  assumes "\<exists>b \<in> set f. b \<noteq> 0x2F"
  shows "\<not> IsAbs (Base f)"
proof -
  let ?q = "rev (dropWhile (\<lambda>c. c = 0x2F) (rev f))"
  have q: "?q \<noteq> []" "f \<noteq> []" using assms by auto
  have "components x \<noteq> []" for x by (cases x) (simp_all split: list.split)
  then have "0x2F \<notin> set (last (components ?q))" using components_no_sep last_in_set by blast
  then have "\<not> IsAbs (last (components ?q))" unfolding IsAbs_def using hd_in_set by metis
  then show ?thesis using q assms by (auto simp: Base_def Let_def)
qed

text \<open>
  The allow list is a list of paths. The engine also compares its entries with the base name of the
  executable, but validation only lets absolute paths in, so that comparison never succeeds: a program
  is exempt from the rules exactly when its full path is listed.
\<close>

theorem allowlist_is_exact:
  assumes "visits_all ord" "Config_Validate ord env c = Inr c'" "\<exists>b \<in> set f. b \<noteq> 0x2F"
  shows "isAllowlisted (config_view c') f \<longleftrightarrow> f \<in> set (cf_Allowlist c)"
proof -
  have c': "cf_Allowlist c' = cf_Allowlist c" "\<forall>p \<in> set (cf_Allowlist c). IsAbs p"
    using Config_Validate_iff [OF assms(1), of env c c'] assms(2) by (auto simp: all_entries_def entry_ok_def)
  have "\<not> IsAbs (Base f)" using assms(3) by (rule Base_relative)
  then show ?thesis using c' unfolding isAllowlisted_def list_ex_iff config_view_def by auto
qed


theorem allowlist_is_exact_witness:
  "\<exists>c'. Config_Validate (\<lambda>xs. xs) cel_all (config_with [nc_rule]) = Inr c' \<and>
     \<not> isAllowlisted (config_view c') (str ''/usr/bin/nc'')"
proof -
  obtain c' where c': "Config_Validate (\<lambda>xs. xs) cel_all (config_with [nc_rule]) = Inr c'"
    using nc_config_validates by blast
  have v: "visits_all (\<lambda>xs. xs)" by (simp add: visits_all_def)
  have "\<exists>b \<in> set (str ''/usr/bin/nc''). b \<noteq> 0x2F" by (simp add: str_def)
  from allowlist_is_exact [OF v c' this] show ?thesis using c' by (simp add: config_with_def)
qed

definition nc_file :: open_file where
  "nc_file = \<lparr>of_stat = Some \<lparr>fs_mode = 0x180, fs_regular = True, fs_uid = 1000\<rparr>, of_content = Some [0x7B, 0x7D]\<rparr>"

theorem Load_trusted_witness:
  "\<exists>c st. Load (\<lambda>xs. xs) cel_all \<lparr>de_JSON = (\<lambda>_. Some (config_with [nc_rule])), de_YAML = (\<lambda>_. None)\<rparr> 0
       (str ''/etc/rules.JSON'') (Some nc_file) = Inr c \<and> of_stat nc_file = Some st \<and> fs_mode st AND 0x12 = 0"
proof -
  let ?D = "\<lparr>de_JSON = (\<lambda>_. Some (config_with [nc_rule])), de_YAML = (\<lambda>_. None)\<rparr>"
  obtain c where "Config_Validate (\<lambda>xs. xs) cel_all (config_with [nc_rule]) = Inr c"
    using nc_config_validates by blast
  moreover have "applyDefaults (config_with [nc_rule]) = config_with [nc_rule]"
    by (simp add: applyDefaults_def config_with_def no_sinks_def)
  moreover have "ToLower (Ext (str ''/etc/rules.JSON'')) = str ''.json''" by (simp add: Ext_def str_def)
  ultimately have "Load (\<lambda>xs. xs) cel_all ?D 0 (str ''/etc/rules.JSON'') (Some nc_file) = Inr c"
    by (simp add: Load_def nc_file_def checkConfigPermissionsFD_def parseConfig_def maxConfigBytes_def)
  from this Load_trusted [OF this] show ?thesis by blast
qed

end
