(* ===== verification/KG_Reload.thy ===== *)
theory KG_Reload
  imports KG_Config
begin

text \<open>
  Replacing the configuration of a running agent: \<open>internal/config/diff.go\<close>, which reports what changed, and the
  \<open>Manager\<close> of \<open>internal/config/config.go\<close>, which watches the file. A reported change is represented by its
  kind and its arguments, the order in which Go ranges over its maps is an input. The watcher runs
  against a file that others rewrite at any moment, also between its two accesses to it.
\<close>

section \<open>Reported changes\<close>

datatype rule_detail =
    ExpressionChanged gostring gostring | SeverityChanged gostring gostring
  | ActionChanged gostring gostring | ModeChanged gostring gostring

datatype change =
    FlagChanged string bool bool | MemoryChanged u64 u64 | WindowChanged int int
  | RuleAdded gostring gostring gostring gostring | RuleChanged gostring "rule_detail list"
  | RuleMitreChanged gostring | RuleRemoved gostring
  | EntryAdded string gostring | EntryRemoved string gostring | PidAdded string int | PidRemoved string int
  | SinkFlagChanged string bool bool | SinkSecretChanged string | SinkTextChanged string gostring gostring
  | StartupOnly string gostring gostring | CertificateChanged

text \<open>The orders in which maps with string and with integer keys are ranged over.\<close>

record range_order =
  ro_str :: "gostring list \<Rightarrow> gostring list"
  ro_int :: "int list \<Rightarrow> int list"

definition report :: "bool \<Rightarrow> change \<Rightarrow> change list" where
  "report differs ch = (if differs then [ch] else [])"

section \<open>Differences of configurations\<close>

fun tags_equal :: "gostring list \<Rightarrow> gostring list \<Rightarrow> bool" where
  "tags_equal (a # as) (b # bs) \<longleftrightarrow> a = b \<and> tags_equal as bs"
| "tags_equal _ _ \<longleftrightarrow> True"

definition mitreEqual :: "MitreMeta option \<Rightarrow> MitreMeta option \<Rightarrow> bool" where
  "mitreEqual a b =
     (case (a, b) of
        (None, None) \<Rightarrow> True
      | (Some x, Some y) \<Rightarrow>
          if mi_Tactic x \<noteq> mi_Tactic y \<or> mi_TechniqueID x \<noteq> mi_TechniqueID y \<or> mi_Technique x \<noteq> mi_Technique y then False
          else if length (mi_Tags x) \<noteq> length (mi_Tags y) then False
          else tags_equal (mi_Tags x) (mi_Tags y)
      | _ \<Rightarrow> False)"

definition ruleFieldDiff :: "Rule \<Rightarrow> Rule \<Rightarrow> rule_detail list" where
  "ruleFieldDiff old new =
     (if ru_Expression old \<noteq> ru_Expression new then [ExpressionChanged (ru_Expression old) (ru_Expression new)] else []) @
     (if ru_Severity old \<noteq> ru_Severity new then [SeverityChanged (ru_Severity old) (ru_Severity new)] else []) @
     (if ru_Action old \<noteq> ru_Action new then [ActionChanged (ru_Action old) (ru_Action new)] else []) @
     (if ru_Mode old \<noteq> ru_Mode new then [ModeChanged (ru_Mode old) (ru_Mode new)] else [])"

definition byName :: "Rule list \<Rightarrow> (gostring \<times> Rule) list" where
  "byName rs = fold (\<lambda>r m. AList.update (ru_Name r) r m) rs []"

definition rule_change :: "(gostring \<times> Rule) list \<Rightarrow> (gostring \<times> Rule) list \<Rightarrow> gostring \<Rightarrow> change list" where
  "rule_change oldByName newByName name =
     (let nr = the (map_of newByName name) in
      case map_of oldByName name of
        None \<Rightarrow> [RuleAdded name (ru_Severity nr) (ru_Action nr) (ru_Mode nr)]
      | Some r \<Rightarrow>
          if ru_Expression r \<noteq> ru_Expression nr \<or> ru_Severity r \<noteq> ru_Severity nr \<or> ru_Action r \<noteq> ru_Action nr \<or>
             ru_Mode r \<noteq> ru_Mode nr \<or> \<not> mitreEqual (ru_Mitre r) (ru_Mitre nr) then
            (let details = ruleFieldDiff r nr in
             if details \<noteq> [] then [RuleChanged name details] else [RuleMitreChanged name])
          else [])"

definition diffRules :: "range_order \<Rightarrow> Rule list \<Rightarrow> Rule list \<Rightarrow> change list" where
  "diffRules ro old new =
     (let oldByName = byName old; newByName = byName new in
      concat (map (rule_change oldByName newByName) (ro_str ro (map fst newByName))) @
      map RuleRemoved (filter (\<lambda>name. map_of newByName name = None) (ro_str ro (map fst oldByName))))"

definition stringSetDiff :: "range_order \<Rightarrow> gostring list \<Rightarrow> gostring list \<Rightarrow> gostring list \<times> gostring list" where
  "stringSetDiff ro old new =
     (filter (\<lambda>v. v \<notin> set old) (ro_str ro (remdups new)), filter (\<lambda>v. v \<notin> set new) (ro_str ro (remdups old)))"

definition diffStringList :: "range_order \<Rightarrow> string \<Rightarrow> gostring list \<Rightarrow> gostring list \<Rightarrow> change list" where
  "diffStringList ro field old new =
     (let (added, removed) = stringSetDiff ro old new in
      map (EntryAdded field) added @ map (EntryRemoved field) removed)"

definition diffIntList :: "range_order \<Rightarrow> string \<Rightarrow> int list \<Rightarrow> int list \<Rightarrow> change list" where
  "diffIntList ro field old new =
     map (PidAdded field) (filter (\<lambda>v. v \<notin> set old) (ro_int ro (remdups new))) @
     map (PidRemoved field) (filter (\<lambda>v. v \<notin> set new) (ro_int ro (remdups old)))"

definition diffSinks :: "SinksConfig \<Rightarrow> SinksConfig \<Rightarrow> change list" where
  "diffSinks old new =
     report (si_Stdout old \<noteq> si_Stdout new) (SinkFlagChanged ''stdout'' (si_Stdout old) (si_Stdout new)) @
     report (si_Syslog old \<noteq> si_Syslog new) (SinkFlagChanged ''syslog'' (si_Syslog old) (si_Syslog new)) @
     report (si_WebhookURL old \<noteq> si_WebhookURL new) (SinkSecretChanged ''webhook_url'') @
     report (si_SlackWebhookURL old \<noteq> si_SlackWebhookURL new) (SinkSecretChanged ''slack_webhook_url'') @
     report (si_StorePath old \<noteq> si_StorePath new) (SinkTextChanged ''store_path'' (si_StorePath old) (si_StorePath new)) @
     report (si_MetricsListenAddr old \<noteq> si_MetricsListenAddr new)
       (SinkTextChanged ''metrics_listen_addr'' (si_MetricsListenAddr old) (si_MetricsListenAddr new)) @
     report (si_DashboardListenAddr old \<noteq> si_DashboardListenAddr new)
       (SinkTextChanged ''dashboard_listen_addr'' (si_DashboardListenAddr old) (si_DashboardListenAddr new)) @
     report (si_DashboardAuthToken old \<noteq> si_DashboardAuthToken new) (SinkSecretChanged ''dashboard_auth_token'') @
     report (si_MetricsAuthToken old \<noteq> si_MetricsAuthToken new) (SinkSecretChanged ''metrics_auth_token'')"

definition diffConfig :: "range_order \<Rightarrow> Config \<Rightarrow> Config \<Rightarrow> change list" where
  "diffConfig ro old new =
     report (cf_EnforcementEnabled old \<noteq> cf_EnforcementEnabled new)
       (FlagChanged ''enforcement_enabled'' (cf_EnforcementEnabled old) (cf_EnforcementEnabled new)) @
     report (cf_MaxMemoryMB old \<noteq> cf_MaxMemoryMB new) (MemoryChanged (cf_MaxMemoryMB old) (cf_MaxMemoryMB new)) @
     report (cf_PtraceEnforcementEnabled old \<noteq> cf_PtraceEnforcementEnabled new)
       (FlagChanged ''ptrace_enforcement_enabled'' (cf_PtraceEnforcementEnabled old) (cf_PtraceEnforcementEnabled new)) @
     report (cf_KmodEnforcementEnabled old \<noteq> cf_KmodEnforcementEnabled new)
       (FlagChanged ''kmod_enforcement_enabled'' (cf_KmodEnforcementEnabled old) (cf_KmodEnforcementEnabled new)) @
     report (cf_DedupWindowSeconds old \<noteq> cf_DedupWindowSeconds new)
       (WindowChanged (cf_DedupWindowSeconds old) (cf_DedupWindowSeconds new)) @
     diffRules ro (cf_Rules old) (cf_Rules new) @
     diffStringList ro ''allowlist'' (cf_Allowlist old) (cf_Allowlist new) @
     diffStringList ro ''protected_comms'' (cf_ProtectedComms old) (cf_ProtectedComms new) @
     diffIntList ro ''protected_pids'' (cf_ProtectedPIDs old) (cf_ProtectedPIDs new) @
     diffStringList ro ''suspicious_path'' (cf_SuspiciousPaths old) (cf_SuspiciousPaths new) @
     diffStringList ro ''sensitive_write_paths'' (cf_SensitiveWritePaths old) (cf_SensitiveWritePaths new) @
     diffStringList ro ''blocked_write_paths'' (cf_BlockedWritePaths old) (cf_BlockedWritePaths new) @
     diffStringList ro ''ignored_connect_comms'' (cf_IgnoredConnectComms old) (cf_IgnoredConnectComms new) @
     diffStringList ro ''allowed_ptrace_attaches'' (cf_AllowedPtraceAttached old) (cf_AllowedPtraceAttached new) @
     diffSinks (cf_Sinks old) (cf_Sinks new) @
     report (cf_ProcPath old \<noteq> cf_ProcPath new) (StartupOnly ''proc_path'' (cf_ProcPath old) (cf_ProcPath new)) @
     report (cf_CgroupPath old \<noteq> cf_CgroupPath new) (StartupOnly ''cgroup_path'' (cf_CgroupPath old) (cf_CgroupPath new)) @
     report (cf_KubeletURL old \<noteq> cf_KubeletURL new) (StartupOnly ''kubelet_url'' (cf_KubeletURL old) (cf_KubeletURL new)) @
     report (cf_KubeletInsecure old \<noteq> cf_KubeletInsecure new)
       (FlagChanged ''kubelet_insecure'' (cf_KubeletInsecure old) (cf_KubeletInsecure new)) @
     report (cf_KubeletCertFile old \<noteq> cf_KubeletCertFile new \<or> cf_KubeletKeyFile old \<noteq> cf_KubeletKeyFile new)
       CertificateChanged"

section \<open>The manager\<close>

text \<open>
  \<open>mg_calls\<close> are the calls of subscribers, by their index; a subscriber that panics is recovered from and the
  next one is called. \<open>mg_log\<close> is what the last reloads reported.
\<close>

record Manager =
  mg_current :: Config
  mg_lastMod :: int
  mg_subscribers :: nat
  mg_calls :: "(nat \<times> Config) list"
  mg_log :: "change list list"

definition NewManager :: "config_error + Config \<Rightarrow> int option \<Rightarrow> config_error + Manager" where
  "NewManager loaded stat =
     (case loaded of
        Inl e \<Rightarrow> Inl e
      | Inr c \<Rightarrow> Inr \<lparr>mg_current = c, mg_lastMod = (case stat of Some t \<Rightarrow> t | None \<Rightarrow> 0), mg_subscribers = 0,
                     mg_calls = [], mg_log = []\<rparr>)"

definition OnChange :: "Manager \<Rightarrow> Manager" where
  "OnChange m = m\<lparr>mg_subscribers := Suc (mg_subscribers m)\<rparr>"

definition notify :: "Config \<Rightarrow> Manager \<Rightarrow> Manager" where
  "notify c m = m\<lparr>mg_calls := mg_calls m @ map (\<lambda>i. (i, c)) [0..<mg_subscribers m]\<rparr>"

definition ReloadNow :: "range_order \<Rightarrow> config_error + Config \<Rightarrow> int option \<Rightarrow> Manager \<Rightarrow> config_error option \<times> Manager" where
  "ReloadNow ro loaded stat m =
     (case loaded of
        Inl e \<Rightarrow> (Some e, m)
      | Inr c \<Rightarrow>
          (None, notify c (m\<lparr>mg_current := c, mg_lastMod := (case stat of Some t \<Rightarrow> t | None \<Rightarrow> mg_lastMod m),
                            mg_log := mg_log m @ [diffConfig ro (mg_current m) c]\<rparr>)))"

text \<open>One tick of \<open>WatchPoll\<close>: the first \<open>stat\<close>, and what the reload it may start finds.\<close>

definition WatchPoll_tick ::
    "range_order \<Rightarrow> int option \<Rightarrow> config_error + Config \<Rightarrow> int option \<Rightarrow> Manager \<Rightarrow> Manager" where
  "WatchPoll_tick ro seen loaded stat m =
     (case seen of
        None \<Rightarrow> m
      | Some t \<Rightarrow> if mg_lastMod m < t then snd (ReloadNow ro loaded stat m) else m)"


section \<open>Nothing is reported exactly when the policy is the same\<close>

definition ranges :: "range_order \<Rightarrow> bool" where
  "ranges ro \<longleftrightarrow> (\<forall>xs. set (ro_str ro xs) = set xs) \<and> (\<forall>xs. set (ro_int ro xs) = set xs)"

lemma report_Nil [simp]: "report b ch = [] \<longleftrightarrow> \<not> b"
  by (simp add: report_def)

lemma tags_equal_iff: "length as = length bs \<Longrightarrow> tags_equal as bs \<longleftrightarrow> as = bs"
  by (induction as bs rule: list_induct2) auto

lemma mitreEqual_iff: "mitreEqual a b \<longleftrightarrow> a = b"
  using tags_equal_iff by (auto simp: mitreEqual_def split: option.split)

lemma diffStringList_Nil: "ranges ro \<Longrightarrow> diffStringList ro f old new = [] \<longleftrightarrow> set old = set new"
  by (auto simp: diffStringList_def stringSetDiff_def ranges_def filter_empty_conv)

lemma diffIntList_Nil: "ranges ro \<Longrightarrow> diffIntList ro f old new = [] \<longleftrightarrow> set old = set new"
  by (auto simp: diffIntList_def ranges_def filter_empty_conv)

lemma byName_distinct:
  assumes "distinct (map ru_Name rs)"
  shows "byName rs = map (\<lambda>r. (ru_Name r, r)) rs"
proof -
  have "fold (\<lambda>r m. AList.update (ru_Name r) r m) rs acc = acc @ map (\<lambda>r. (ru_Name r, r)) rs"
    if "fst ` set acc \<inter> ru_Name ` set rs = {}" for acc
    using assms that by (induction rs arbitrary: acc) (auto simp: update_new)
  from this [of "[]"] show ?thesis by (simp add: byName_def)
qed

lemma map_of_byName:
  assumes "distinct (map ru_Name rs)"
  shows "map_of (byName rs) n = Some r \<longleftrightarrow> r \<in> set rs \<and> ru_Name r = n"
    and "map_of (byName rs) n = None \<longleftrightarrow> n \<notin> ru_Name ` set rs"
    and "set (map fst (byName rs)) = ru_Name ` set rs"
proof -
  let ?l = "map (\<lambda>r. (ru_Name r, r)) rs"
  have "distinct (map fst ?l)" using assms by (simp add: comp_def)
  then have "map_of ?l n = Some r \<longleftrightarrow> (n, r) \<in> set ?l" by (rule map_of_eq_Some_iff)
  then show "map_of (byName rs) n = Some r \<longleftrightarrow> r \<in> set rs \<and> ru_Name r = n"
    unfolding byName_distinct [OF assms] by auto
  show "map_of (byName rs) n = None \<longleftrightarrow> n \<notin> ru_Name ` set rs"
    "set (map fst (byName rs)) = ru_Name ` set rs"
    unfolding byName_distinct [OF assms] by (simp_all add: map_of_eq_None_iff image_image)
qed

text \<open>What of a rule is compared.\<close>

definition rule_text :: "Rule \<Rightarrow> gostring \<times> gostring \<times> gostring \<times> gostring \<times> gostring \<times> MitreMeta option" where
  "rule_text r = (ru_Name r, ru_Severity r, ru_Action r, ru_Mode r, ru_Expression r, ru_Mitre r)"

lemma rule_text_name: "rule_text a = rule_text b \<Longrightarrow> ru_Name a = ru_Name b"
  by (simp add: rule_text_def)

lemma rule_change_Nil:
  assumes "distinct (map ru_Name old)" "distinct (map ru_Name new)" "r \<in> set new"
  shows "rule_change (byName old) (byName new) (ru_Name r) = [] \<longleftrightarrow> (\<exists>r' \<in> set old. rule_text r' = rule_text r)"
proof -
  have n: "map_of (byName new) (ru_Name r) = Some r" using map_of_byName(1) [OF assms(2)] assms(3) by blast
  show ?thesis
  proof (cases "map_of (byName old) (ru_Name r)")
    case None
    then have "\<forall>r' \<in> set old. rule_text r' \<noteq> rule_text r"
      using map_of_byName(2) [OF assms(1), of "ru_Name r"] rule_text_name by (metis imageI)
    then show ?thesis using None by (auto simp: rule_change_def Let_def)
  next
    case (Some o')
    then have o: "o' \<in> set old" "ru_Name o' = ru_Name r" using map_of_byName(1) [OF assms(1)] by blast+
    have "r' = o'" if "r' \<in> set old" "ru_Name r' = ru_Name r" for r'
      using that o assms(1) by (metis distinct_map inj_on_eq_iff)
    then have "(\<exists>r' \<in> set old. rule_text r' = rule_text r) \<longleftrightarrow> rule_text o' = rule_text r"
      using o(1) rule_text_name by blast
    then show ?thesis
      using Some n o(2) by (auto simp: rule_change_def Let_def mitreEqual_iff rule_text_def)
  qed
qed

lemma image_match: "f ` A = f ` B \<longleftrightarrow> (\<forall>b \<in> B. \<exists>a \<in> A. f a = f b) \<and> (\<forall>a \<in> A. \<exists>b \<in> B. f b = f a)"
proof -
  have "f ` B \<subseteq> f ` A \<longleftrightarrow> (\<forall>b \<in> B. \<exists>a \<in> A. f a = f b)" for A B
    unfolding image_subset_iff image_iff by metis
  then show ?thesis by (auto simp: set_eq_subset)
qed

lemma diffRules_Nil:
  assumes "ranges ro" "distinct (map ru_Name old)" "distinct (map ru_Name new)"
  shows "diffRules ro old new = [] \<longleftrightarrow> rule_text ` set old = rule_text ` set new"
proof -
  let ?c = "rule_change (byName old) (byName new)"
  have "diffRules ro old new = [] \<longleftrightarrow> (\<forall>n \<in> ru_Name ` set new. ?c n = []) \<and>
      (\<forall>n \<in> ru_Name ` set old. n \<in> ru_Name ` set new)"
    using assms(1) map_of_byName(2,3) [OF assms(2)] map_of_byName(2,3) [OF assms(3)]
    unfolding diffRules_def Let_def ranges_def by (simp add: filter_empty_conv)
  also have "\<dots> \<longleftrightarrow> (\<forall>r \<in> set new. \<exists>r' \<in> set old. rule_text r' = rule_text r) \<and>
      (\<forall>r \<in> set old. ru_Name r \<in> ru_Name ` set new)"
    using rule_change_Nil [OF assms(2,3)] by simp
  also have "\<dots> \<longleftrightarrow> rule_text ` set old = rule_text ` set new"
    unfolding image_match
  proof (intro conj_cong refl ball_cong)
    fix r assume a: "\<forall>r \<in> set new. \<exists>r' \<in> set old. rule_text r' = rule_text r" and r: "r \<in> set old"
    show "ru_Name r \<in> ru_Name ` set new \<longleftrightarrow> (\<exists>r' \<in> set new. rule_text r' = rule_text r)"
    proof
      assume "ru_Name r \<in> ru_Name ` set new"
      then obtain r' where r': "r' \<in> set new" "ru_Name r' = ru_Name r" by auto
      then obtain q where q: "q \<in> set old" "rule_text q = rule_text r'" using a by blast
      then have "ru_Name q = ru_Name r" using r'(2) rule_text_name by metis
      then have "q = r" using inj_onD [of ru_Name "set old" q r] assms(2) r q(1) by (simp add: distinct_map)
      then show "\<exists>r' \<in> set new. rule_text r' = rule_text r" using r'(1) q(2) by metis
    next
      assume "\<exists>r' \<in> set new. rule_text r' = rule_text r"
      then show "ru_Name r \<in> ru_Name ` set new" using rule_text_name by (metis imageI)
    qed
  qed
  finally show ?thesis .
qed

text \<open>Everything of the sinks but the place of the audit log.\<close>

definition sinks_text :: "SinksConfig \<Rightarrow> SinksConfig" where
  "sinks_text s = s\<lparr>si_AuditLogPath := []\<rparr>"

lemma diffSinks_Nil: "diffSinks old new = [] \<longleftrightarrow> sinks_text old = sinks_text new"
  by (cases old; cases new) (simp add: diffSinks_def sinks_text_def)

text \<open>
  C38: a reload that reports no difference changed no policy. The list of changes is empty exactly when all switches,
  windows and limits agree, the rules are the same up to their order, the lists have the same entries,
  and the other settings are equal, with one exception: a new place for the audit log is never reported,
  and the reload is logged as one without effective differences.
\<close>

theorem diff_complete:
  assumes "ranges ro" "distinct (map ru_Name (cf_Rules old))" "distinct (map ru_Name (cf_Rules new))"
  shows "diffConfig ro old new = [] \<longleftrightarrow>
     cf_EnforcementEnabled old = cf_EnforcementEnabled new \<and> cf_MaxMemoryMB old = cf_MaxMemoryMB new \<and>
     cf_PtraceEnforcementEnabled old = cf_PtraceEnforcementEnabled new \<and>
     cf_KmodEnforcementEnabled old = cf_KmodEnforcementEnabled new \<and>
     cf_DedupWindowSeconds old = cf_DedupWindowSeconds new \<and>
     rule_text ` set (cf_Rules old) = rule_text ` set (cf_Rules new) \<and>
     set (cf_Allowlist old) = set (cf_Allowlist new) \<and> set (cf_ProtectedComms old) = set (cf_ProtectedComms new) \<and>
     set (cf_ProtectedPIDs old) = set (cf_ProtectedPIDs new) \<and>
     set (cf_SuspiciousPaths old) = set (cf_SuspiciousPaths new) \<and>
     set (cf_SensitiveWritePaths old) = set (cf_SensitiveWritePaths new) \<and>
     set (cf_BlockedWritePaths old) = set (cf_BlockedWritePaths new) \<and>
     set (cf_IgnoredConnectComms old) = set (cf_IgnoredConnectComms new) \<and>
     set (cf_AllowedPtraceAttached old) = set (cf_AllowedPtraceAttached new) \<and>
     (cf_Sinks old)\<lparr>si_AuditLogPath := p\<rparr> = (cf_Sinks new)\<lparr>si_AuditLogPath := p\<rparr> \<and>
     cf_ProcPath old = cf_ProcPath new \<and> cf_CgroupPath old = cf_CgroupPath new \<and>
     cf_KubeletURL old = cf_KubeletURL new \<and> cf_KubeletInsecure old = cf_KubeletInsecure new \<and>
     cf_KubeletCertFile old = cf_KubeletCertFile new \<and> cf_KubeletKeyFile old = cf_KubeletKeyFile new"
proof -
  have sinks: "sinks_text a = sinks_text b \<longleftrightarrow> a\<lparr>si_AuditLogPath := p\<rparr> = b\<lparr>si_AuditLogPath := p\<rparr>" for a b :: SinksConfig
    by (cases a; cases b) (simp add: sinks_text_def)
  show ?thesis
    unfolding diffConfig_def append_is_Nil_conv report_Nil diffRules_Nil [OF assms] diffStringList_Nil [OF assms(1)]
      diffIntList_Nil [OF assms(1)] diffSinks_Nil sinks de_Morgan_disj not_not ..
qed

theorem diff_complete_witness:
  "diffConfig \<lparr>ro_str = (\<lambda>xs. xs), ro_int = (\<lambda>xs. xs)\<rparr> (config_with [nc_rule])
     ((config_with [nc_rule])\<lparr>cf_Sinks := no_sinks\<lparr>si_Stdout := True, si_AuditLogPath := str ''/tmp/x''\<rparr>\<rparr>) = []"
proof -
  have "ranges \<lparr>ro_str = (\<lambda>xs. xs), ro_int = (\<lambda>xs. xs)\<rparr>" by (simp add: ranges_def)
  from diff_complete [OF this, of "config_with [nc_rule]"
      "(config_with [nc_rule])\<lparr>cf_Sinks := no_sinks\<lparr>si_Stdout := True, si_AuditLogPath := str ''/tmp/x''\<rparr>\<rparr>" "[]"]
  show ?thesis by (simp add: config_with_def no_sinks_def)
qed

section \<open>Watching a file that changes\<close>

text \<open>
  The versions the file has had, each with its modification time, and for either goroutine, the one that polls and the
  one that serves SIGHUP, what its reload has read when it has not yet asked for the modification time. A
  reload starts when a tick finds a newer modification time, or on SIGHUP; reloads of the two goroutines
  may overlap, as \<open>ReloadNow\<close> takes no lock around its reading; anybody may rewrite the file at
  any moment. The rest of a reload, from the store of the configuration to the last subscriber, is one step.
\<close>

type_synonym version = "open_file option \<times> int"
type_synonym watched = "Manager \<times> version list \<times> open_file option option \<times> open_file option option"

inductive watch_step :: "range_order \<Rightarrow> (open_file option \<Rightarrow> config_error + Config) \<Rightarrow> watched \<Rightarrow> watched \<Rightarrow> bool"
  for ro ld where
  rewrite: "snd (last vs) \<le> t \<Longrightarrow> watch_step ro ld (m, vs, rp, rh) (m, vs @ [(f, t)], rp, rh)"
| tick: "mg_lastMod m < snd (last vs) \<Longrightarrow>
    watch_step ro ld (m, vs, None, rh) (m, vs, Some (fst (last vs)), rh)"
| hup: "watch_step ro ld (m, vs, rp, None) (m, vs, rp, Some (fst (last vs)))"
| tick_end: "watch_step ro ld (m, vs, Some f, rh) (snd (ReloadNow ro (ld f) (Some (snd (last vs))) m), vs, None, rh)"
| hup_end: "watch_step ro ld (m, vs, rp, Some f) (snd (ReloadNow ro (ld f) (Some (snd (last vs))) m), vs, rp, None)"

definition watch_reachable ::
    "range_order \<Rightarrow> (open_file option \<Rightarrow> config_error + Config) \<Rightarrow> watched \<Rightarrow> watched \<Rightarrow> bool" where
  "watch_reachable ro ld = (watch_step ro ld)\<^sup>*\<^sup>*"

inductive_cases watch_stepE: "watch_step ro ld (m, vs, rp, rh) st"

text \<open>The active configuration, and everything a subscriber was called with, was accepted from some version of the file.\<close>

definition watch_inv :: "(open_file option \<Rightarrow> config_error + Config) \<Rightarrow> watched \<Rightarrow> bool" where
  "watch_inv ld = (\<lambda>(m, vs, rp, rh).
     vs \<noteq> [] \<and> (\<exists>f \<in> fst ` set vs. ld f = Inr (mg_current m)) \<and>
     (\<forall>(i, c) \<in> set (mg_calls m). i < mg_subscribers m \<and> (\<exists>f \<in> fst ` set vs. ld f = Inr c)) \<and>
     (\<forall>f. rp = Some f \<or> rh = Some f \<longrightarrow> f \<in> fst ` set vs))"

lemma ReloadNow_sel:
  "mg_current (snd (ReloadNow ro l st m)) = (case l of Inl _ \<Rightarrow> mg_current m | Inr c \<Rightarrow> c)"
  "mg_subscribers (snd (ReloadNow ro l st m)) = mg_subscribers m"
  "mg_calls (snd (ReloadNow ro l st m)) =
     mg_calls m @ (case l of Inl _ \<Rightarrow> [] | Inr c \<Rightarrow> map (\<lambda>i. (i, c)) [0..<mg_subscribers m])"
  "mg_lastMod (snd (ReloadNow ro l (Some t) m)) = (case l of Inl _ \<Rightarrow> mg_lastMod m | Inr c \<Rightarrow> t)"
  by (simp_all add: ReloadNow_def notify_def split: sum.split)

lemma watch_inv_reload:
  assumes "watch_inv ld (m, vs, rp, rh)" "f \<in> fst ` set vs"
    and "rp' = None \<or> rp' = rp" "rh' = None \<or> rh' = rh"
  shows "watch_inv ld (snd (ReloadNow ro (ld f) (Some (snd (last vs))) m), vs, rp', rh')"
proof (cases "ld f")
  case (Inl e)
  then show ?thesis using assms by (auto simp: watch_inv_def ReloadNow_def)
next
  case (Inr c)
  then show ?thesis using assms by (auto simp: watch_inv_def ReloadNow_sel)
qed

lemma watch_inv_step:
  assumes "watch_step ro ld st st'" "watch_inv ld st"
  shows "watch_inv ld st'"
  using assms
proof cases
  case (tick_end m vs f rh)
  then show ?thesis using watch_inv_reload [of ld m vs "Some f" rh f None rh ro] assms(2) by (auto simp: watch_inv_def)
next
  case (hup_end m vs rp f)
  then show ?thesis using watch_inv_reload [of ld m vs rp "Some f" f rp None ro] assms(2) by (auto simp: watch_inv_def)
next
  case (rewrite vs t m rp rh f)
  then show ?thesis using assms(2) by (auto simp: watch_inv_def)
next
  case (tick m vs rh)
  have "fst (last vs) \<in> fst ` set vs" using assms(2) tick by (simp add: watch_inv_def)
  then show ?thesis using assms(2) tick by (simp add: watch_inv_def)
next
  case (hup m vs rp)
  have "fst (last vs) \<in> fst ` set vs" using assms(2) hup by (simp add: watch_inv_def)
  then show ?thesis using assms(2) hup by (simp add: watch_inv_def)
qed

lemma watch_inv_reachable:
  assumes "watch_reachable ro ld st st'" "watch_inv ld st"
  shows "watch_inv ld st'"
  using assms unfolding watch_reachable_def by (induction rule: rtranclp_induct) (auto intro: watch_inv_step)

text \<open>
  C30: a rejected file never replaces a good configuration. After any sequence of rewrites, ticks, signals and
  interleavings, with reloads of the polling and of the signal goroutine overlapping, the active configuration is one that some version of the file contained and that
  passed every check of \<open>Load\<close>, and so is every configuration a subscriber was ever called with; and when a
  reload runs against a version that is accepted, that version becomes the active one and every
  subscriber is called with it once, in the order of registration.
\<close>

theorem watch_current_accepted:
  assumes "NewManager (ld f0) (Some t0) = Inr m0"
    and "watch_reachable ro ld (m0\<lparr>mg_subscribers := n\<rparr>, [(f0, t0)], None, None) (m, vs, rp, rh)"
  shows "(\<exists>f \<in> fst ` set vs. ld f = Inr (mg_current m)) \<and>
         (\<forall>(i, c) \<in> set (mg_calls m). i < mg_subscribers m \<and> (\<exists>f \<in> fst ` set vs. ld f = Inr c)) \<and>
         (\<forall>f c m' vs'. ld f = Inr c \<and>
            (rp = Some f \<and> watch_step ro ld (m, vs, rp, rh) (m', vs', None, rh) \<or>
             rh = Some f \<and> watch_step ro ld (m, vs, rp, rh) (m', vs', rp, None)) \<longrightarrow>
            mg_current m' = c \<and> mg_calls m' = mg_calls m @ map (\<lambda>i. (i, c)) [0..<mg_subscribers m])"
proof -
  have "watch_inv ld (m0\<lparr>mg_subscribers := n\<rparr>, [(f0, t0)], None, None)"
    using assms(1) by (auto simp: watch_inv_def NewManager_def split: sum.splits)
  note i = watch_inv_reachable [OF assms(2) this]
  have "mg_current m' = c \<and> mg_calls m' = mg_calls m @ map (\<lambda>i. (i, c)) [0..<mg_subscribers m]"
    if "rp = Some f \<and> watch_step ro ld (m, vs, rp, rh) (m', vs', None, rh) \<or>
        rh = Some f \<and> watch_step ro ld (m, vs, rp, rh) (m', vs', rp, None)" "ld f = Inr c" for f c m' vs'
    using that by (auto elim!: watch_stepE simp: ReloadNow_sel)
  then show ?thesis using i by (auto simp: watch_inv_def)
qed

text \<open>A file with an accepted configuration of the given rules, and a decoder for the sample files.\<close>

definition file_no :: "nat \<Rightarrow> open_file option" where
  "file_no n = Some \<lparr>of_stat = None, of_content = Some (replicate n 0)\<rparr>"

definition load_sample :: "open_file option \<Rightarrow> config_error + Config" where
  "load_sample f =
     (if f = file_no 1 then Inr (config_with []) else if f = file_no 2 then Inr (config_with [nc_rule]) else Inl DecodeFailed)"

definition ro_plain :: range_order where
  "ro_plain = \<lparr>ro_str = (\<lambda>xs. xs), ro_int = (\<lambda>xs. xs)\<rparr>"

definition mg_sample :: Manager where
  "mg_sample = \<lparr>mg_current = config_with [], mg_lastMod = 1, mg_subscribers = 2, mg_calls = [], mg_log = []\<rparr>"

lemma file_no_inj [simp]: "file_no i = file_no j \<longleftrightarrow> i = j"
  by (simp add: file_no_def)

theorem watch_current_accepted_witness:
  "let m = snd (ReloadNow ro_plain (load_sample (file_no 3)) (Some 5) mg_sample) in
   \<exists>f \<in> {file_no 1, file_no 3}. load_sample f = Inr (mg_current m)"
proof -
  let ?start = "mg_sample\<lparr>mg_subscribers := 0\<rparr>"
  let ?m = "snd (ReloadNow ro_plain (load_sample (file_no 3)) (Some 5) mg_sample)"
  let ?vs = "[(file_no 1, 1), (file_no 3, 5)] :: version list"
  have "NewManager (load_sample (file_no 1)) (Some 1) = Inr ?start"
    by (simp add: NewManager_def load_sample_def mg_sample_def)
  moreover have "watch_reachable ro_plain load_sample (?start\<lparr>mg_subscribers := 2\<rparr>, [(file_no 1, 1)], None, None) (?m, ?vs, None, None)"
  proof -
    have e: "?start\<lparr>mg_subscribers := 2\<rparr> = mg_sample" by (simp add: mg_sample_def)
    have "watch_step ro_plain load_sample (mg_sample, [(file_no 1, 1)], None, None) (mg_sample, [(file_no 1, 1)] @ [(file_no 3, 5)], None, None)"
      by (rule rewrite) simp
    moreover have "watch_step ro_plain load_sample (mg_sample, ?vs, None, None) (mg_sample, ?vs, Some (fst (last ?vs)), None)"
      by (rule tick) (simp add: mg_sample_def)
    moreover have "watch_step ro_plain load_sample (mg_sample, ?vs, Some (file_no 3), None)
        (snd (ReloadNow ro_plain (load_sample (file_no 3)) (Some (snd (last ?vs))) mg_sample), ?vs, None, None)"
      by (rule tick_end)
    ultimately show ?thesis unfolding watch_reachable_def e by (auto intro: converse_rtranclp_into_rtranclp)
  qed
  ultimately show ?thesis using watch_current_accepted [of load_sample "file_no 1" 1 ?start ro_plain 2 ?m ?vs None None] by (simp add: Let_def)
qed

text \<open>
  C39: an update can be lost. \<open>ReloadNow\<close> asks for the modification time after it has read the file. When the file is
  rewritten in between, the new time is recorded with the old contents: the agent goes on with the
  old configuration, and no later tick reloads the file until it is modified once more.
\<close>

theorem reload_misses_update:
  assumes "mg_lastMod m < t1" "t1 \<le> t2" "ld f1 = Inr c1"
  shows "\<exists>m'. watch_reachable ro ld (m, [(f1, t1)], None, None) (m', [(f1, t1), (f2, t2)], None, None) \<and>
     mg_current m' = c1 \<and> mg_lastMod m' = t2 \<and>
     (\<forall>loaded stat. WatchPoll_tick ro (Some t2) loaded stat m' = m')"
proof -
  let ?vs = "[(f1, t1), (f2, t2)]"
  let ?m' = "snd (ReloadNow ro (ld f1) (Some (snd (last ?vs))) m)"
  have "watch_step ro ld (m, [(f1, t1)], None, None) (m, [(f1, t1)], Some (fst (last [(f1, t1)])), None)"
    by (rule tick) (use assms in simp)
  moreover have "watch_step ro ld (m, [(f1, t1)], Some f1, None) (m, [(f1, t1)] @ [(f2, t2)], Some f1, None)"
    by (rule rewrite) (use assms in simp)
  moreover have "watch_step ro ld (m, ?vs, Some f1, None) (?m', ?vs, None, None)" by (rule tick_end)
  ultimately have "watch_reachable ro ld (m, [(f1, t1)], None, None) (?m', ?vs, None, None)"
    unfolding watch_reachable_def by (auto intro: converse_rtranclp_into_rtranclp)
  moreover have "mg_current ?m' = c1 \<and> mg_lastMod ?m' = t2" using assms(3) by (simp add: ReloadNow_sel)
  ultimately show ?thesis by (intro exI [of _ ?m']) (simp add: WatchPoll_tick_def)
qed

theorem reload_misses_update_witness:
  "\<exists>m'. watch_reachable ro_plain load_sample (mg_sample, [(file_no 1, 4)], None, None) (m', [(file_no 1, 4), (file_no 2, 5)], None, None) \<and>
     load_sample (file_no 2) = Inr (config_with [nc_rule]) \<and> mg_current m' = config_with [] \<and>
     WatchPoll_tick ro_plain (Some 5) (load_sample (file_no 2)) (Some 5) m' = m'"
proof -
  have "mg_lastMod mg_sample < 4" "(4 :: int) \<le> 5" "load_sample (file_no 1) = Inr (config_with [])"
    by (simp_all add: mg_sample_def load_sample_def)
  from reload_misses_update [where ld = load_sample, OF this, of ro_plain "file_no 2"]
  show ?thesis by (auto simp: load_sample_def)
qed

end
