(* ===== verification/KG_Pods.thy ===== *)
theory KG_Pods
  imports KG_Config KG_Prevent
begin

text \<open>
  Kubernetes enrichment, \<open>internal/k8s/\<close>: which pod a process belongs to. \<open>cgroup.go\<close> reads and parses cgroup
  paths, \<open>kubelet.go\<close> keeps the pods of the node, \<open>resolver.go\<close> puts both together and remembers answers in
  two LRU caches (\<open>cache.go\<close> is the cache of \<open>KG_Cache\<close>). The files under \<open>/proc\<close>, the tree under
  \<open>/sys/fs/cgroup\<close>, the answers of the kubelet and the clock are inputs. Resolving a container for the
  first time also registers its cgroup in the kernel, where the hooks treat it as a container.
\<close>

section \<open>Strings\<close>

fun SplitN :: "nat \<Rightarrow> u8 \<Rightarrow> gostring \<Rightarrow> gostring list" where
  "SplitN 0 sep s = []"
| "SplitN (Suc 0) sep s = [s]"
| "SplitN (Suc (Suc n)) sep s =
     (if sep \<in> set s
      then takeWhile (\<lambda>c. c \<noteq> sep) s # SplitN (Suc n) sep (tl (dropWhile (\<lambda>c. c \<noteq> sep) s))
      else [s])"

fun Index :: "gostring \<Rightarrow> gostring \<Rightarrow> nat option" where
  "Index [] sub = (if sub = [] then Some 0 else None)"
| "Index (b # bs) sub = (if prefix sub (b # bs) then Some 0 else map_option Suc (Index bs sub))"

definition ReplaceByte :: "u8 \<Rightarrow> u8 \<Rightarrow> gostring \<Rightarrow> gostring" where
  "ReplaceByte old new s = map (\<lambda>c. if c = old then new else c) s"

text \<open>
  \<open>bufio.Scanner\<close> with \<open>ScanLines\<close>: a line loses its newline and one carriage return before it; a line that
  does not fit with its newline into the buffer ends the scan.
\<close>

definition drop_cr :: "gostring \<Rightarrow> gostring" where
  "drop_cr l = (if l \<noteq> [] \<and> last l = 0x0D then butlast l else l)"

function scan_lines :: "nat \<Rightarrow> bytes \<Rightarrow> gostring list" where
  "scan_lines maxTok [] = []"
| "scan_lines maxTok (b # bs) =
     (let l = takeWhile (\<lambda>c. c \<noteq> 0x0A) (b # bs) in
      if maxTok \<le> length l then []
      else drop_cr l # scan_lines maxTok (drop (Suc (length l)) (b # bs)))"
  by pat_completeness auto

termination scan_lines
  by (relation "measure (length \<circ> snd)") simp_all

section \<open>Cgroup paths\<close>

definition is_word :: "u8 \<Rightarrow> bool" where
  "is_word b \<longleftrightarrow> 0x30 \<le> b \<and> b \<le> 0x39 \<or> 0x41 \<le> b \<and> b \<le> 0x5A \<or> 0x61 \<le> b \<and> b \<le> 0x7A \<or> b = 0x5F"

definition is_hex :: "u8 \<Rightarrow> bool" where
  "is_hex b \<longleftrightarrow> 0x30 \<le> b \<and> b \<le> 0x39 \<or> 0x41 \<le> b \<and> b \<le> 0x46 \<or> 0x61 \<le> b \<and> b \<le> 0x66"

definition is_uid :: "u8 \<Rightarrow> bool" where
  "is_uid b \<longleftrightarrow> is_hex b \<or> b = 0x5F \<or> b = 0x2D"

text \<open>
  \<open>podRegex\<close>: the leftmost \<open>pod\<close> at a word boundary with 32 to 36 characters of a uid behind it; the first
  argument says whether the byte before is a word character.
\<close>

fun podRegex :: "bool \<Rightarrow> gostring \<Rightarrow> gostring option" where
  "podRegex w [] = None"
| "podRegex w (b # bs) =
     (let u = takeWhile is_uid (drop 3 (b # bs)) in
      if \<not> w \<and> prefix (str ''pod'') (b # bs) \<and> 32 \<le> length u then Some (take 36 u)
      else podRegex (is_word b) bs)"

definition scope_names :: "gostring list" where
  "scope_names = [str ''cri-containerd'', str ''crio'', str ''docker'', str ''libpod'']"

definition scope_at :: "gostring \<Rightarrow> (gostring \<times> gostring) option" where
  "scope_at bs =
     (case find (\<lambda>n. let r = drop (Suc (length n)) bs in
                      prefix (n @ [0x2D]) bs \<and> 64 \<le> length r \<and> list_all is_hex (take 64 r) \<and>
                      prefix (str ''.scope'') (drop 64 r)) scope_names of
        Some n \<Rightarrow> Some (n, take 64 (drop (Suc (length n)) bs))
      | None \<Rightarrow> None)"

fun containerScopeRegex :: "gostring \<Rightarrow> (gostring \<times> gostring) option" where
  "containerScopeRegex [] = None"
| "containerScopeRegex (b # bs) =
     (case scope_at (b # bs) of Some m \<Rightarrow> Some m | None \<Rightarrow> containerScopeRegex bs)"

fun containerHexRegex :: "gostring \<Rightarrow> gostring" where
  "containerHexRegex [] = []"
| "containerHexRegex (b # bs) =
     (if 64 \<le> length (takeWhile is_hex (b # bs)) then take 64 (b # bs) else containerHexRegex bs)"

record ContainerContext =
  cx_CgroupID :: u64
  cx_ContainerID :: gostring
  cx_PodUID :: gostring
  cx_PodName :: gostring
  cx_Namespace :: gostring
  cx_Runtime :: gostring
  cx_ResolvedAt :: int

definition no_context :: ContainerContext where
  "no_context =
     \<lparr>cx_CgroupID = 0, cx_ContainerID = [], cx_PodUID = [], cx_PodName = [], cx_Namespace = [],
      cx_Runtime = [], cx_ResolvedAt = 0\<rparr>"

definition ParseCgroupPath :: "gostring \<Rightarrow> ContainerContext \<times> bool" where
  "ParseCgroupPath path =
     (let ctx = (case podRegex False path of
                   Some rawUID \<Rightarrow> no_context\<lparr>cx_PodUID := ReplaceByte 0x5F 0x2D rawUID\<rparr>
                 | None \<Rightarrow> no_context)
      in case containerScopeRegex path of
           Some (n, cid) \<Rightarrow>
             (ctx\<lparr>cx_Runtime :=
                   (if n = str ''cri-containerd'' then str ''containerd'' else if n = str ''crio'' then str ''cri-o''
                    else if n = str ''docker'' then str ''docker'' else if n = str ''libpod'' then str ''podman'' else n),
                 cx_ContainerID := cid\<rparr>, True)
         | None \<Rightarrow>
             (let h = containerHexRegex path in
              if h \<noteq> [] then
                (ctx\<lparr>cx_ContainerID := h,
                    cx_Runtime :=
                      (if Contains path (str ''docker'') then str ''docker''
                       else if Contains path (str ''crio'') then str ''cri-o''
                       else if Contains path (str ''containerd'') then str ''containerd'' else str ''unknown'')\<rparr>, True)
              else (ctx, cx_PodUID ctx \<noteq> [])))"

fun cgroup_loop :: "gostring \<Rightarrow> gostring list \<Rightarrow> gostring option" where
  "cgroup_loop fallback [] = (if fallback \<noteq> [] then Some fallback else None)"
| "cgroup_loop fallback (l # ls) =
     (case SplitN 3 0x3A l of
        [a, _, cPath] \<Rightarrow>
          if cPath = [] \<or> cPath = str ''/'' then cgroup_loop fallback ls
          else if a = str ''0'' then Some cPath
          else if Contains cPath (str ''kubepods'') \<or> Contains cPath (str ''docker'') \<or>
                  Contains cPath (str ''containerd'') \<or> Contains cPath (str ''crio'') then Some cPath
          else cgroup_loop (if fallback = [] then cPath else fallback) ls
      | _ \<Rightarrow> cgroup_loop fallback ls)"

text \<open>The contents of \<open>/proc/<pid>/cgroup\<close>, when it can be opened.\<close>

definition getCgroupPathFromProc :: "bytes option \<Rightarrow> gostring option" where
  "getCgroupPathFromProc file =
     (case file of None \<Rightarrow> None | Some content \<Rightarrow> cgroup_loop [] (scan_lines 65536 content))"

text \<open>
  The directories below the cgroup mount in the order they are walked, each with its inode when it could be
  read.
\<close>

definition TrimPrefix :: "gostring \<Rightarrow> gostring \<Rightarrow> gostring" where
  "TrimPrefix s p = (if prefix p s then drop (length p) s else s)"

definition findPathByCgroupID :: "gostring \<Rightarrow> (gostring \<times> u64 option) list \<Rightarrow> u64 \<Rightarrow> gostring" where
  "findPathByCgroupID cgroupPath dirs cgroupID =
     (case find (\<lambda>(_, ino). ino = Some cgroupID) dirs of
        Some (p, _) \<Rightarrow> TrimPrefix p cgroupPath
      | None \<Rightarrow> [])"

section \<open>The kubelet\<close>

record pod =
  po_UID :: gostring
  po_Name :: gostring
  po_Namespace :: gostring
  po_Containers :: "gostring list"
  po_InitContainers :: "gostring list"
  po_EphemeralContainers :: "gostring list"

record KubeletClient =
  kc_baseURL :: gostring
  kc_tls :: "(bool \<times> (gostring \<times> gostring) option) option"
  kc_podMetaMap :: "gostring \<Rightarrow> (gostring \<times> gostring) option"
  kc_containerToPodMap :: "gostring \<Rightarrow> (gostring \<times> gostring \<times> gostring \<times> gostring) option"

text \<open>\<open>load\<close> says whether a client certificate can be loaded from its files.\<close>

definition kubelet_transport ::
    "(gostring \<Rightarrow> gostring \<Rightarrow> bool) \<Rightarrow> gostring \<Rightarrow> bool \<Rightarrow> gostring \<Rightarrow> gostring \<Rightarrow>
     gostring \<times> (bool \<times> (gostring \<times> gostring) option) option" where
  "kubelet_transport ld url insecure cert key =
     (let baseURL = (if url = [] then str ''http://127.0.0.1:10255'' else url) in
      (baseURL,
       if prefix (str ''https://'') (ToLower baseURL)
       then Some (insecure, if cert \<noteq> [] \<and> key \<noteq> [] \<and> ld cert key then Some (cert, key) else None)
       else None))"

definition NewKubeletClient ::
    "(gostring \<Rightarrow> gostring \<Rightarrow> bool) \<Rightarrow> gostring \<Rightarrow> bool \<Rightarrow> gostring \<Rightarrow> gostring \<Rightarrow> KubeletClient" where
  "NewKubeletClient ld url insecure cert key =
     (let (baseURL, tr) = kubelet_transport ld url insecure cert key in
      \<lparr>kc_baseURL = baseURL, kc_tls = tr, kc_podMetaMap = Map.empty, kc_containerToPodMap = Map.empty\<rparr>)"

definition kubelet_UpdateConfig :: "(gostring \<Rightarrow> gostring \<Rightarrow> bool) \<Rightarrow> Config \<Rightarrow> KubeletClient \<Rightarrow> KubeletClient" where
  "kubelet_UpdateConfig ld c k =
     (let (baseURL, tr) =
            kubelet_transport ld (cf_KubeletURL c) (cf_KubeletInsecure c) (cf_KubeletCertFile c) (cf_KubeletKeyFile c)
      in k\<lparr>kc_baseURL := baseURL, kc_tls := tr\<rparr>)"

definition indexContainer ::
    "pod \<Rightarrow> gostring \<Rightarrow> (gostring \<Rightarrow> (gostring \<times> gostring \<times> gostring \<times> gostring) option) \<Rightarrow>
     (gostring \<Rightarrow> (gostring \<times> gostring \<times> gostring \<times> gostring) option)" where
  "indexContainer p rawID m =
     (if rawID = [] then m
      else
        let (runtime, cleanID) =
              (case Index rawID (str ''://'') of
                 Some i \<Rightarrow> (take i rawID, drop (i + 3) rawID)
               | None \<Rightarrow> (str ''unknown'', rawID))
        in m(cleanID \<mapsto> (po_Name p, po_Namespace p, po_UID p, runtime)))"

text \<open>\<open>None\<close> is every failure of the request: no answer, another status than 200, a body that cannot be decoded.\<close>

definition SyncPods :: "pod list option \<Rightarrow> KubeletClient \<Rightarrow> KubeletClient" where
  "SyncPods response k =
     (case response of
        None \<Rightarrow> k
      | Some items \<Rightarrow>
          k\<lparr>kc_podMetaMap := fold (\<lambda>p m. m(po_UID p \<mapsto> (po_Name p, po_Namespace p))) items Map.empty,
            kc_containerToPodMap :=
              fold (\<lambda>p m. fold (indexContainer p) (po_Containers p @ po_InitContainers p @ po_EphemeralContainers p) m)
                items Map.empty\<rparr>)"

section \<open>The resolver\<close>

record Resolver =
  rv_cgroupPath :: gostring
  rv_cgroupCache :: "(u64, ContainerContext) lruCache"
  rv_pidCache :: "(u32, ContainerContext) lruCache"
  rv_kubelet :: KubeletClient
  rv_discovered :: "u64 list"

text \<open>The world of one call; \<open>rv_discovered\<close> collects the calls of \<open>onContainerDiscovered\<close>.\<close>

record pods_env =
  pe_now :: int
  pe_proc :: "u32 \<Rightarrow> bytes option"
  pe_walk :: "(gostring \<times> u64 option) list"

definition NewResolver :: "gostring \<Rightarrow> KubeletClient \<Rightarrow> pod list option \<Rightarrow> Resolver" where
  "NewResolver sysCgroupPath k response =
     \<lparr>rv_cgroupPath = (if sysCgroupPath = [] then str ''/sys/fs/cgroup'' else sysCgroupPath),
      rv_cgroupCache = newLRUCache 10000, rv_pidCache = newLRUCache 10000,
      rv_kubelet = SyncPods response k, rv_discovered = []\<rparr>"

definition needsEnrichment :: "ContainerContext \<Rightarrow> bool" where
  "needsEnrichment ctx \<longleftrightarrow>
     cx_PodName ctx = [] \<or> cx_Namespace ctx = [] \<or> cx_Runtime ctx = [] \<or> cx_Runtime ctx = str ''unknown''"

definition enrichContext :: "KubeletClient \<Rightarrow> ContainerContext \<Rightarrow> ContainerContext" where
  "enrichContext k ctx =
     (let ctx1 =
            (if cx_PodUID ctx \<noteq> [] \<and> (cx_PodName ctx = [] \<or> cx_Namespace ctx = []) then
               (case kc_podMetaMap k (cx_PodUID ctx) of
                  Some (name, ns) \<Rightarrow> ctx\<lparr>cx_PodName := name, cx_Namespace := ns\<rparr>
                | None \<Rightarrow> ctx)
             else ctx)
      in if cx_ContainerID ctx1 \<noteq> [] then
           (case kc_containerToPodMap k (cx_ContainerID ctx1) of
              Some (name, ns, podUID, runtime) \<Rightarrow>
                ctx1\<lparr>cx_PodName := (if cx_PodName ctx1 = [] then name else cx_PodName ctx1),
                     cx_Namespace := (if cx_Namespace ctx1 = [] then ns else cx_Namespace ctx1),
                     cx_PodUID := (if cx_PodUID ctx1 = [] then podUID else cx_PodUID ctx1),
                     cx_Runtime := (if cx_Runtime ctx1 = [] \<or> cx_Runtime ctx1 = str ''unknown'' then runtime
                                    else cx_Runtime ctx1)\<rparr>
            | None \<Rightarrow> ctx1)
         else ctx1)"

definition raw_cgroup_path :: "pods_env \<Rightarrow> gostring \<Rightarrow> u64 \<Rightarrow> u32 \<Rightarrow> gostring" where
  "raw_cgroup_path P cgroupPath cgroupID pid =
     (let fromProc = (if pid \<noteq> 0 then getCgroupPathFromProc (pe_proc P pid) else Some []) in
      if (fromProc = None \<or> fromProc = Some []) \<and> cgroupID \<noteq> 0
      then findPathByCgroupID cgroupPath (pe_walk P) cgroupID
      else (case fromProc of Some p \<Rightarrow> p | None \<Rightarrow> []))"

definition remember_context :: "u64 \<Rightarrow> u32 \<Rightarrow> ContainerContext \<Rightarrow> Resolver \<Rightarrow> Resolver" where
  "remember_context cgroupID pid ctx r =
     (if cx_PodName ctx \<noteq> [] \<and> cx_Namespace ctx \<noteq> [] then
        (let r1 = (if cgroupID \<noteq> 0
                   then r\<lparr>rv_cgroupCache := lru_Add cgroupID ctx (rv_cgroupCache r),
                         rv_discovered := rv_discovered r @ [cgroupID]\<rparr>
                   else r)
         in if pid \<noteq> 0 then r1\<lparr>rv_pidCache := lru_Add pid ctx (rv_pidCache r1)\<rparr> else r1)
      else r)"

definition doResolve :: "pods_env \<Rightarrow> u64 \<Rightarrow> u32 \<Rightarrow> Resolver \<Rightarrow> ContainerContext option \<times> Resolver" where
  "doResolve P cgroupID pid r =
     (let raw = raw_cgroup_path P (rv_cgroupPath r) cgroupID pid in
      if raw = [] then (None, r)
      else
        let (ctx0, ok) = ParseCgroupPath raw in
        if \<not> ok then (None, r)
        else
          let ctx = enrichContext (rv_kubelet r) (ctx0\<lparr>cx_CgroupID := cgroupID, cx_ResolvedAt := pe_now P\<rparr>)
          in (Some ctx, remember_context cgroupID pid ctx r))"

definition from_cgroup_cache :: "u64 \<Rightarrow> ContainerContext \<Rightarrow> Resolver \<Rightarrow> ContainerContext \<times> Resolver" where
  "from_cgroup_cache cgroupID ctx r =
     (if needsEnrichment ctx then
        (let ctx' = enrichContext (rv_kubelet r) ctx in
         (ctx', if cx_PodName ctx' \<noteq> [] \<and> cx_Namespace ctx' \<noteq> []
                then r\<lparr>rv_cgroupCache := lru_Add cgroupID ctx' (rv_cgroupCache r)\<rparr> else r))
      else (ctx, r))"

definition from_pid_cache :: "u32 \<Rightarrow> ContainerContext \<Rightarrow> Resolver \<Rightarrow> ContainerContext \<times> Resolver" where
  "from_pid_cache pid ctx r =
     (if cx_PodName ctx = [] \<or> cx_Namespace ctx = [] then
        (let ctx' = enrichContext (rv_kubelet r) ctx in
         (ctx', if cx_PodName ctx' \<noteq> [] \<and> cx_Namespace ctx' \<noteq> []
                then r\<lparr>rv_pidCache := lru_Add pid ctx' (rv_pidCache r)\<rparr> else r))
      else (ctx, r))"

definition Resolve :: "pods_env \<Rightarrow> u64 \<Rightarrow> u32 \<Rightarrow> Resolver \<Rightarrow> ContainerContext option \<times> Resolver" where
  "Resolve P cgroupID pid r =
     (let (hit, r1) =
            (if cgroupID \<noteq> 0
             then (let (v, c) = lru_Get cgroupID (rv_cgroupCache r) in (v, r\<lparr>rv_cgroupCache := c\<rparr>))
             else (None, r))
      in case hit of
           Some ctx \<Rightarrow> (let (ctx', r2) = from_cgroup_cache cgroupID ctx r1 in (Some ctx', r2))
         | None \<Rightarrow>
             let (hit', r2) =
                   (if pid \<noteq> 0
                    then (let (v, c) = lru_Get pid (rv_pidCache r1) in (v, r1\<lparr>rv_pidCache := c\<rparr>))
                    else (None, r1))
             in case hit' of
                  Some ctx \<Rightarrow> (let (ctx', r3) = from_pid_cache pid ctx r2 in (Some ctx', r3))
                | None \<Rightarrow> doResolve P cgroupID pid r2)"

definition resolver_UpdateConfig :: "(gostring \<Rightarrow> gostring \<Rightarrow> bool) \<Rightarrow> Config \<Rightarrow> Resolver \<Rightarrow> Resolver" where
  "resolver_UpdateConfig ld c r = r\<lparr>rv_kubelet := kubelet_UpdateConfig ld c (rv_kubelet r)\<rparr>"

definition startKubeletSync :: "pod list option \<Rightarrow> Resolver \<Rightarrow> Resolver" where
  "startKubeletSync response r = r\<lparr>rv_kubelet := SyncPods response (rv_kubelet r)\<rparr>"


section \<open>The names kubelets give\<close>

text \<open>
  The cgroup of a container under the systemd driver, where the dashes of a uid become underscores, and under the
  cgroupfs driver.
\<close>

definition systemd_path :: "gostring \<Rightarrow> gostring \<Rightarrow> gostring \<Rightarrow> gostring \<Rightarrow> gostring" where
  "systemd_path qos uid name cid =
     str ''/kubepods.slice/kubepods-'' @ qos @ str ''.slice/kubepods-'' @ qos @ str ''-pod'' @
     ReplaceByte 0x2D 0x5F uid @ str ''.slice/'' @ name @ 0x2D # cid @ str ''.scope''"

definition cgroupfs_path :: "gostring \<Rightarrow> gostring \<Rightarrow> gostring \<Rightarrow> gostring" where
  "cgroupfs_path qos uid cid = str ''/kubepods/'' @ qos @ str ''/pod'' @ uid @ 0x2F # cid"

definition qos_classes :: "gostring set" where
  "qos_classes = {str ''burstable'', str ''besteffort''}"

definition uid_ok :: "gostring \<Rightarrow> bool" where
  "uid_ok u \<longleftrightarrow> 32 \<le> length u \<and> length u \<le> 36 \<and> (\<forall>b \<in> set u. is_hex b \<or> b = 0x2D)"

definition cid_ok :: "gostring \<Rightarrow> bool" where
  "cid_ok c \<longleftrightarrow> length c = 64 \<and> (\<forall>b \<in> set c. is_hex b)"

fun runtime_of :: "gostring \<Rightarrow> gostring" where
  "runtime_of n =
     (if n = str ''cri-containerd'' then str ''containerd'' else if n = str ''crio'' then str ''cri-o''
      else if n = str ''docker'' then str ''docker'' else if n = str ''libpod'' then str ''podman'' else n)"

lemma podRegex_skip:
  "podRegex True (b # bs) = podRegex (is_word b) bs"
  "b \<noteq> 0x70 \<Longrightarrow> podRegex w (b # bs) = podRegex (is_word b) bs"
  by (simp_all add: Let_def str_def)

lemma podRegex_hit:
  assumes "\<forall>b \<in> set u. is_uid b" "32 \<le> length u" "length u \<le> 36" "\<not> is_uid c"
  shows "podRegex False (str ''pod'' @ u @ c # r) = Some u"
proof -
  have "takeWhile is_uid (u @ c # r) = u" using assms(1,4) by (simp add: takeWhile_append2)
  then show ?thesis using assms(2,3) by (simp add: str_def)
qed

lemma pod_prefixes:
  assumes "qos \<in> qos_classes" "\<forall>b \<in> set u. is_uid b" "32 \<le> length u" "length u \<le> 36" "\<not> is_uid c"
  shows "podRegex False (str ''/kubepods.slice/kubepods-'' @ qos @ str ''.slice/kubepods-'' @ qos @ str ''-pod'' @ u @ c # r) = Some u"
    "podRegex False (str ''/kubepods/'' @ qos @ str ''/pod'' @ u @ c # r) = Some u"
proof -
  have hit: "podRegex False (0x70 # 0x6F # 0x64 # u @ c # r) = Some u"
    using podRegex_hit [OF assms(2-5), of r] by (simp add: str_def)
  show "podRegex False (str ''/kubepods.slice/kubepods-'' @ qos @ str ''.slice/kubepods-'' @ qos @ str ''-pod'' @ u @ c # r) = Some u"
    "podRegex False (str ''/kubepods/'' @ qos @ str ''/pod'' @ u @ c # r) = Some u"
    using assms(1) unfolding qos_classes_def
    by (auto simp del: podRegex.simps simp: str_def podRegex_skip hit is_word_def)
qed

text \<open>Where the pattern of scope names can begin at all.\<close>

lemma scope_skip:
  assumes "\<not> prefix [0x63, 0x72] (b # bs)" "\<not> prefix [0x64, 0x6F] (b # bs)" "\<not> prefix [0x6C, 0x69, 0x62] (b # bs)"
  shows "containerScopeRegex (b # bs) = containerScopeRegex bs"
proof -
  have "\<not> prefix (n @ [0x2D]) (b # bs)" if "n \<in> set scope_names" for n
    using assms that by (auto simp: scope_names_def str_def prefix_def)
  then have "find (\<lambda>n. let r = drop (Suc (length n)) (b # bs) in prefix (n @ [0x2D]) (b # bs) \<and> 64 \<le> length r \<and>
      list_all is_hex (take 64 r) \<and> prefix (str ''.scope'') (drop 64 r)) scope_names = None"
    by (simp only: find_None_conv Let_def) blast
  then have "scope_at (b # bs) = None" by (simp only: scope_at_def option.case)
  then show ?thesis by simp
qed

lemma scope_skip_uid:
  assumes "\<forall>b \<in> set u. is_uid b" "r = [] \<or> hd r \<notin> {0x72, 0x6F, 0x69}"
  shows "containerScopeRegex (u @ r) = containerScopeRegex r"
  using assms(1)
proof (induction u)
  case (Cons b u)
  have h: "u @ r = [] \<or> hd (u @ r) \<notin> {0x72, 0x6F, 0x69}"
    using Cons.prems assms(2) by (cases u) (auto simp: is_uid_def is_hex_def)
  have "containerScopeRegex (b # (u @ r)) = containerScopeRegex (u @ r)"
    using h by (intro scope_skip) (cases "u @ r"; auto)+
  then show ?case using Cons by simp
qed simp

lemma scope_prefixes:
  assumes "qos \<in> qos_classes" "r = [] \<or> hd r \<notin> {0x72, 0x6F, 0x69}"
  shows "containerScopeRegex (str ''/kubepods.slice/kubepods-'' @ qos @ str ''.slice/kubepods-'' @ qos @ str ''-pod'' @ r) = containerScopeRegex r"
    "containerScopeRegex (str ''/kubepods/'' @ qos @ str ''/pod'' @ r) = containerScopeRegex r"
proof -
  have d: "containerScopeRegex (0x64 # r) = containerScopeRegex r"
    using assms(2) by (intro scope_skip) (cases r; auto)+
  show "containerScopeRegex (str ''/kubepods.slice/kubepods-'' @ qos @ str ''.slice/kubepods-'' @ qos @ str ''-pod'' @ r) = containerScopeRegex r"
    "containerScopeRegex (str ''/kubepods/'' @ qos @ str ''/pod'' @ r) = containerScopeRegex r"
    using assms(1) unfolding qos_classes_def
    by (auto simp del: containerScopeRegex.simps simp: str_def scope_skip d)
qed

lemma find_unique: "n \<in> set xs \<Longrightarrow> \<forall>m \<in> set xs. P m \<longleftrightarrow> m = n \<Longrightarrow> find P xs = Some n"
  by (induction xs) auto

lemma scope_names_distinct:
  assumes "m \<in> set scope_names" "n \<in> set scope_names" "prefix (m @ [0x2D]) (n @ 0x2D # x)"
  shows "m = n"
  using assms unfolding scope_names_def by (auto simp: str_def)

lemma scope_hit:
  assumes "name \<in> set scope_names" "cid_ok cid"
  shows "containerScopeRegex (str ''.slice/'' @ name @ 0x2D # cid @ str ''.scope'') = Some (name, cid)"
proof -
  let ?t = "name @ 0x2D # cid @ str ''.scope''"
  have c: "length cid = 64" "list_all is_hex cid" using assms(2) by (simp_all add: cid_ok_def list_all_iff)
  have "scope_at ?t = Some (name, cid)"
  proof -
    let ?P = "\<lambda>n. let r = drop (Suc (length n)) ?t in prefix (n @ [0x2D]) ?t \<and> 64 \<le> length r \<and>
      list_all is_hex (take 64 r) \<and> prefix (str ''.scope'') (drop 64 r)"
    have "?P name" using c by simp
    moreover have "m = name" if "?P m" "m \<in> set scope_names" for m
      using that(1) scope_names_distinct [OF that(2) assms(1)] unfolding Let_def by blast
    ultimately have "find ?P scope_names = Some name" using assms(1) by (intro find_unique) blast+
    then show ?thesis using c(1) by (simp add: scope_at_def)
  qed
  moreover have "containerScopeRegex (str ''.slice/'' @ ?t) = containerScopeRegex ?t"
    by (simp del: containerScopeRegex.simps add: str_def scope_skip)
  moreover obtain b bs where "?t = b # bs" using assms(1) by (cases ?t) simp_all
  ultimately show ?thesis by simp
qed

lemma hex_skip:
  assumes "\<not> is_hex c" "length u < 64"
  shows "containerHexRegex (u @ c # r) = containerHexRegex r"
  using assms(2)
proof (induction u)
  case Nil
  show ?case using assms(1) by simp
next
  case (Cons b u)
  have "length (takeWhile is_hex (b # u @ c # r)) \<le> length (b # u)"
    using assms(1) length_takeWhile_le [of is_hex "b # u"] by (simp add: takeWhile_append split: if_splits)
  then have "length (takeWhile is_hex (b # u @ c # r)) < 64" using Cons.prems by linarith
  then show ?case using Cons by simp
qed

lemma hex_hit: "cid_ok c \<Longrightarrow> containerHexRegex c = c"
proof -
  assume c: "cid_ok c"
  then obtain b bs where b: "c = b # bs" by (cases c) (auto simp: cid_ok_def)
  have "length (takeWhile is_hex bs) = 63" using c b by (simp add: cid_ok_def takeWhile_eq_all_conv [THEN iffD2])
  then show ?thesis using c b by (simp add: cid_ok_def)
qed

lemma uid_chars: "uid_ok u \<Longrightarrow> \<forall>b \<in> set u. is_uid b" "uid_ok u \<Longrightarrow> \<forall>b \<in> set (ReplaceByte 0x2D 0x5F u). is_uid b"
  by (auto simp: uid_ok_def is_uid_def ReplaceByte_def)

lemma uid_restored: "uid_ok u \<Longrightarrow> ReplaceByte 0x5F 0x2D (ReplaceByte 0x2D 0x5F u) = u \<and> ReplaceByte 0x5F 0x2D u = u"
proof -
  assume u: "uid_ok u"
  have "\<not> (is_hex 0x5F \<or> (0x5F :: u8) = 0x2D)" by (simp add: is_hex_def)
  then have "0x5F \<notin> set u" using u by (auto simp: uid_ok_def)
  then show ?thesis unfolding ReplaceByte_def by (auto intro!: map_idI)
qed

lemma Contains_set: "Contains p sub \<Longrightarrow> set sub \<subseteq> set p"
  by (induction p) (fastforce dest: set_mono_prefix)+

text \<open>No runtime is named in a path of the cgroupfs driver.\<close>

lemma cgroupfs_no_runtime:
  assumes "qos \<in> qos_classes" "uid_ok uid" "cid_ok cid"
    and "rt \<in> {str ''docker'', str ''crio'', str ''containerd''}"
  shows "\<not> Contains (cgroupfs_path qos uid cid) rt"
proof
  let ?p = "cgroupfs_path qos uid cid"
  assume c: "Contains ?p rt"
  have h: "0x6B \<notin> set uid" "0x6B \<notin> set cid" "0x69 \<notin> set uid" "0x69 \<notin> set cid"
    using assms(2,3) by (auto simp: uid_ok_def cid_ok_def is_hex_def)
  let ?t = "str ''ubepods/'' @ qos @ str ''/pod'' @ uid @ 0x2F # cid"
  have p: "?p = 0x2F # 0x6B # ?t" by (simp add: cgroupfs_path_def str_def)
  have t: "0x6B \<notin> set ?t" "0x69 \<notin> set ?p"
    using assms(1) h unfolding p by (auto simp: qos_classes_def str_def)
  have "0x69 \<in> set rt \<or> rt = str ''docker''" using assms(4) by (auto simp: str_def)
  then have d: "rt = str ''docker''" using Contains_set [OF c] t(2) by blast
  then have "Contains ?t rt" using c unfolding p by (simp add: str_def)
  from Contains_set [OF this] t(1) d show False by (auto simp: str_def)
qed

lemma cgroup_parse:
  assumes "qos \<in> qos_classes" "uid_ok uid" "name \<in> set scope_names" "cid_ok cid"
  shows "ParseCgroupPath (systemd_path qos uid name cid) =
           (no_context\<lparr>cx_PodUID := uid, cx_ContainerID := cid, cx_Runtime := runtime_of name\<rparr>, True) \<and>
         ParseCgroupPath (cgroupfs_path qos uid cid) =
           (no_context\<lparr>cx_PodUID := uid, cx_ContainerID := cid, cx_Runtime := str ''unknown''\<rparr>, True)"
proof
  note u = uid_chars [OF assms(2)] and r = uid_restored [OF assms(2)]
  have len: "32 \<le> length (ReplaceByte 0x2D 0x5F uid)" "length (ReplaceByte 0x2D 0x5F uid) \<le> 36" "32 \<le> length uid" "length uid \<le> 36"
    using assms(2) by (simp_all add: uid_ok_def ReplaceByte_def)
  have hd: "ReplaceByte 0x2D 0x5F uid @ x = [] \<or> hd (ReplaceByte 0x2D 0x5F uid @ x) \<notin> {0x72, 0x6F, 0x69}"
    "uid @ x = [] \<or> hd (uid @ x) \<notin> {0x72, 0x6F, 0x69}" for x
    using u len by (cases uid; auto simp: ReplaceByte_def is_uid_def is_hex_def split: if_splits)+
  have dot: "\<not> is_uid 0x2E" "\<not> is_uid 0x2F" "\<not> is_hex 0x2F" by (simp_all add: is_uid_def is_hex_def)
  have slice: "str ''.slice/'' @ x = 0x2E # str ''slice/'' @ x" for x by (simp add: str_def)
  have "podRegex False (systemd_path qos uid name cid) = Some (ReplaceByte 0x2D 0x5F uid)"
    unfolding systemd_path_def slice by (rule pod_prefixes(1) [OF assms(1) u(2) len(1,2) dot(1)])
  moreover have "containerScopeRegex (systemd_path qos uid name cid) = Some (name, cid)"
    unfolding systemd_path_def scope_prefixes(1) [OF assms(1) hd(1)]
    by (subst scope_skip_uid [OF u(2)]) (simp add: str_def, rule scope_hit [OF assms(3,4)])
  ultimately show "ParseCgroupPath (systemd_path qos uid name cid) =
      (no_context\<lparr>cx_PodUID := uid, cx_ContainerID := cid, cx_Runtime := runtime_of name\<rparr>, True)"
    using r by (simp add: ParseCgroupPath_def)
  have "podRegex False (cgroupfs_path qos uid cid) = Some uid"
    unfolding cgroupfs_path_def by (rule pod_prefixes(2) [OF assms(1) u(1) len(3,4) dot(2)])
  moreover have "containerScopeRegex (cgroupfs_path qos uid cid) = None"
  proof -
    have "\<forall>b \<in> set cid. is_uid b" using assms(4) by (simp add: cid_ok_def is_uid_def)
    from scope_skip_uid [OF this, of "[]"] have "containerScopeRegex cid = None" by simp
    then have "containerScopeRegex (0x2F # cid) = None" by (subst scope_skip) simp_all
    then show ?thesis
      unfolding cgroupfs_path_def scope_prefixes(2) [OF assms(1) hd(2)] by (subst scope_skip_uid [OF u(1)]) simp_all
  qed
  moreover have "containerHexRegex (cgroupfs_path qos uid cid) = cid"
  proof -
    have "length (str ''/kubepods/'' @ qos @ str ''/pod'' @ uid) < 64"
      using assms(1) len by (auto simp: qos_classes_def str_def)
    from hex_skip [OF dot(3) this, of cid] show ?thesis by (simp add: cgroupfs_path_def hex_hit [OF assms(4)])
  qed
  moreover have "cid \<noteq> []" using assms(4) by (auto simp: cid_ok_def)
  ultimately show "ParseCgroupPath (cgroupfs_path qos uid cid) =
      (no_context\<lparr>cx_PodUID := uid, cx_ContainerID := cid, cx_Runtime := str ''unknown''\<rparr>, True)"
    using r cgroupfs_no_runtime [OF assms(1,2,4)] by (simp add: ParseCgroupPath_def Let_def)
qed


text \<open>
  C37: the cgroup paths of Kubernetes containers are parsed back to what they were made from. For either driver, both
  shared quality-of-service classes, every pod uid of 32 to 36 hexadecimal digits and dashes and every
  container id of 64 hexadecimal digits, the parser returns that uid, with its dashes restored, and that
  container id. Under the systemd driver, for every runtime whose scope name the agent knows, it
  also returns that runtime; under the cgroupfs driver the path names no runtime, and the parser
  says \<open>unknown\<close>.
\<close>

theorem cgroup_path_roundtrip:
  assumes "qos \<in> qos_classes" "uid_ok uid" "name \<in> set scope_names" "cid_ok cid"
  shows "ParseCgroupPath (systemd_path qos uid name cid) =
           (no_context\<lparr>cx_PodUID := uid, cx_ContainerID := cid, cx_Runtime := runtime_of name\<rparr>, True) \<and>
         ParseCgroupPath (cgroupfs_path qos uid cid) =
           (no_context\<lparr>cx_PodUID := uid, cx_ContainerID := cid, cx_Runtime := str ''unknown''\<rparr>, True)"
  using assms by (rule cgroup_parse)

theorem cgroup_path_roundtrip_witness:
  "cx_Runtime (fst (ParseCgroupPath (systemd_path (str ''burstable'') (replicate 32 0x61) (str ''crio'') (replicate 64 0x30)))) =
     str ''cri-o''"
proof -
  have "str ''burstable'' \<in> qos_classes" "uid_ok (replicate 32 0x61)" "str ''crio'' \<in> set scope_names" "cid_ok (replicate 64 0x30)"
    by (simp_all add: qos_classes_def uid_ok_def scope_names_def cid_ok_def is_hex_def)
  from cgroup_path_roundtrip [OF this] show ?thesis by (simp add: str_def)
qed

section \<open>What the caches hold\<close>

definition cache_all :: "('k \<Rightarrow> 'v \<Rightarrow> bool) \<Rightarrow> ('k, 'v) lruCache \<Rightarrow> bool" where
  "cache_all P c \<longleftrightarrow> lru_inv c \<and> (\<forall>k v. map_of (entries c) k = Some v \<longrightarrow> P k v)"

lemma cache_all_new [simp]: "cache_all P (newLRUCache n)"
  by (simp add: cache_all_def)

lemma cache_all_Get: "cache_all P c \<Longrightarrow> cache_all P (snd (lru_Get k c))"
  using lru.get_keeps [of c k] lru.get_inv [of c k] by (simp add: cache_all_def)

lemma cache_all_value: "cache_all P c \<Longrightarrow> fst (lru_Get k c) = Some v \<Longrightarrow> P k v"
  by (simp add: cache_all_def lru.get_val)

lemma cache_all_Add: "cache_all P c \<Longrightarrow> P k v \<Longrightarrow> cache_all P (lru_Add k v c)"
  using lru.add_inv [of c k v] lru.add_only [of c k v] by (auto simp: cache_all_def)

lemma cache_all_mono: "cache_all P c \<Longrightarrow> (\<And>k v. P k v \<Longrightarrow> Q k v) \<Longrightarrow> cache_all Q c"
  by (auto simp: cache_all_def)

definition named_pod :: "ContainerContext \<Rightarrow> bool" where
  "named_pod ctx \<longleftrightarrow> cx_PodName ctx \<noteq> [] \<and> cx_Namespace ctx \<noteq> []"

definition registered :: "Resolver \<Rightarrow> ContainerContext \<Rightarrow> bool" where
  "registered r ctx \<longleftrightarrow> cx_CgroupID ctx \<noteq> 0 \<longrightarrow> cx_CgroupID ctx \<in> set (rv_discovered r)"

definition resolver_inv :: "Resolver \<Rightarrow> bool" where
  "resolver_inv r \<longleftrightarrow>
     cache_all (\<lambda>cg ctx. named_pod ctx \<and> registered r ctx \<and> cx_CgroupID ctx = cg) (rv_cgroupCache r) \<and>
     cache_all (\<lambda>pid ctx. named_pod ctx \<and> registered r ctx) (rv_pidCache r) \<and>
     lc_capacity (rv_cgroupCache r) = 10000 \<and> lc_capacity (rv_pidCache r) = 10000"

lemma enrich_CgroupID [simp]: "cx_CgroupID (enrichContext k ctx) = cx_CgroupID ctx"
  by (auto simp: enrichContext_def Let_def split: option.split)

lemma enrich_named: "named_pod ctx \<Longrightarrow> named_pod (enrichContext k ctx)"
  by (auto simp: named_pod_def enrichContext_def Let_def split: option.split)

lemma registered_cong: "rv_discovered r' = rv_discovered r \<Longrightarrow> registered r' = registered r"
  by (auto simp: registered_def fun_eq_iff)

lemma resolver_inv_remember:
  assumes "resolver_inv r" "cx_CgroupID ctx = cg"
  shows "resolver_inv (remember_context cg pid ctx r) \<and> (named_pod ctx \<longrightarrow> registered (remember_context cg pid ctx r) ctx)"
proof (cases "named_pod ctx")
  case True
  define q where "q = remember_context cg pid ctx r"
  have d: "rv_discovered q = rv_discovered r @ (if cg \<noteq> 0 then [cg] else [])"
    using True by (simp add: q_def remember_context_def named_pod_def Let_def)
  have up: "registered r x \<Longrightarrow> registered q x" for x using d by (auto simp: registered_def)
  have here: "registered q ctx" using d assms(2) by (auto simp: registered_def)
  note c = assms(1) [unfolded resolver_inv_def]
  have "cache_all (\<lambda>cg ctx. named_pod ctx \<and> registered q ctx \<and> cx_CgroupID ctx = cg) (rv_cgroupCache r)"
    "cache_all (\<lambda>pid ctx. named_pod ctx \<and> registered q ctx) (rv_pidCache r)"
    using c up by (auto elim!: cache_all_mono)
  moreover have "rv_cgroupCache q = (if cg \<noteq> 0 then lru_Add cg ctx (rv_cgroupCache r) else rv_cgroupCache r)"
    "rv_pidCache q = (if pid \<noteq> 0 then lru_Add pid ctx (rv_pidCache r) else rv_pidCache r)"
    using True by (simp_all add: q_def remember_context_def named_pod_def Let_def)
  ultimately have "resolver_inv q"
    using c True here assms(2) by (simp add: resolver_inv_def cache_all_Add)
  then show ?thesis using here by (simp add: q_def)
next
  case False
  then have "remember_context cg pid ctx r = r" by (auto simp: remember_context_def named_pod_def)
  then show ?thesis using assms(1) False by simp
qed

lemma resolver_inv_doResolve:
  assumes "resolver_inv r" "doResolve P cg pid r = (res, r')"
  shows "resolver_inv r' \<and> (\<forall>ctx. res = Some ctx \<longrightarrow> named_pod ctx \<longrightarrow> registered r' ctx)"
proof -
  let ?raw = "raw_cgroup_path P (rv_cgroupPath r) cg pid"
  let ?ctx = "enrichContext (rv_kubelet r) ((fst (ParseCgroupPath ?raw))\<lparr>cx_CgroupID := cg, cx_ResolvedAt := pe_now P\<rparr>)"
  have "(res, r') = (None, r) \<or> (res, r') = (Some ?ctx, remember_context cg pid ?ctx r)"
    using assms(2) by (auto simp: doResolve_def Let_def case_prod_unfold split: if_splits)
  then show ?thesis using resolver_inv_remember [OF assms(1), of ?ctx cg pid] assms(1) by auto
qed

lemma resolver_inv_get:
  assumes "resolver_inv r"
  shows "resolver_inv (r\<lparr>rv_cgroupCache := snd (lru_Get cg (rv_cgroupCache r))\<rparr>)"
    "resolver_inv (r\<lparr>rv_pidCache := snd (lru_Get pid (rv_pidCache r))\<rparr>)"
  using assms by (simp_all add: resolver_inv_def cache_all_Get registered_def)

lemma from_cgroup_cache_inv:
  assumes "resolver_inv r" "named_pod ctx" "registered r ctx" "cx_CgroupID ctx = cg"
  shows "resolver_inv (snd (from_cgroup_cache cg ctx r)) \<and>
    registered (snd (from_cgroup_cache cg ctx r)) (fst (from_cgroup_cache cg ctx r))"
  using assms enrich_named [OF assms(2)]
  by (simp add: from_cgroup_cache_def Let_def resolver_inv_def registered_def cache_all_Add)

lemma from_pid_cache_same: "named_pod ctx \<Longrightarrow> from_pid_cache pid ctx r = (ctx, r)"
  by (simp add: from_pid_cache_def named_pod_def)

lemma Resolve_inv:
  assumes "resolver_inv r" "Resolve P cg pid r = (res, r')"
  shows "resolver_inv r' \<and> (\<forall>ctx. res = Some ctx \<longrightarrow> named_pod ctx \<longrightarrow> registered r' ctx)"
proof -
  define g where "g = (if cg \<noteq> 0 then fst (lru_Get cg (rv_cgroupCache r)) else None)"
  define r1 where "r1 = (if cg \<noteq> 0 then r\<lparr>rv_cgroupCache := snd (lru_Get cg (rv_cgroupCache r))\<rparr> else r)"
  define h where "h = (if pid \<noteq> 0 then fst (lru_Get pid (rv_pidCache r1)) else None)"
  define r2 where "r2 = (if pid \<noteq> 0 then r1\<lparr>rv_pidCache := snd (lru_Get pid (rv_pidCache r1))\<rparr> else r1)"
  have res: "(res, r') = (case g of Some ctx \<Rightarrow> (Some (fst (from_cgroup_cache cg ctx r1)), snd (from_cgroup_cache cg ctx r1))
      | None \<Rightarrow> (case h of Some ctx \<Rightarrow> (Some (fst (from_pid_cache pid ctx r2)), snd (from_pid_cache pid ctx r2))
         | None \<Rightarrow> doResolve P cg pid r2))"
    unfolding assms(2) [symmetric] Resolve_def g_def r1_def h_def r2_def
    by (simp add: Let_def case_prod_unfold split: option.split)
  have i1: "resolver_inv r1" unfolding r1_def using resolver_inv_get(1) [OF assms(1), of cg] assms(1) by presburger
  have i2: "resolver_inv r2" unfolding r2_def using resolver_inv_get(2) [OF i1, of pid] i1 by presburger
  note i = i1 i2
  have d: "registered r1 = registered r" "registered r2 = registered r"
    by (rule registered_cong, simp add: r1_def r2_def)+
  consider (cg) ctx where "g = Some ctx" | (pid) ctx where "g = None" "h = Some ctx" | (miss) "g = None" "h = None"
    by (cases g; cases h) auto
  then show ?thesis
  proof cases
    case cg
    then have "fst (lru_Get cg (rv_cgroupCache r)) = Some ctx" by (simp add: g_def split: if_splits)
    then have "named_pod ctx \<and> registered r ctx \<and> cx_CgroupID ctx = cg"
      using assms(1) by (auto simp: resolver_inv_def dest: cache_all_value)
    then show ?thesis using from_cgroup_cache_inv [OF i(1)] d res cg by auto
  next
    case pid
    then have "fst (lru_Get pid (rv_pidCache r1)) = Some ctx" by (simp add: h_def split: if_splits)
    then have "named_pod ctx \<and> registered r1 ctx"
      using i(1) by (auto simp: resolver_inv_def dest: cache_all_value)
    then show ?thesis using i(2) d res pid by (simp add: from_pid_cache_same)
  next
    case miss
    then have "doResolve P cg pid r2 = (res, r')" using res by simp
    with i(2) show ?thesis by (rule resolver_inv_doResolve)
  qed
qed

section \<open>Everything that happens to a resolver\<close>

datatype resolver_op =
    OpResolve pods_env u64 u32 | OpSync "pod list option" | OpConfig "gostring \<Rightarrow> gostring \<Rightarrow> bool" Config

fun run_resolver :: "resolver_op \<Rightarrow> Resolver \<Rightarrow> Resolver" where
  "run_resolver (OpResolve P cg pid) r = snd (Resolve P cg pid r)"
| "run_resolver (OpSync response) r = startKubeletSync response r"
| "run_resolver (OpConfig ld c) r = resolver_UpdateConfig ld c r"

lemma resolver_inv_run: "resolver_inv r \<Longrightarrow> resolver_inv (run_resolver op r)"
proof (cases op)
  case (OpResolve P cg pid)
  assume "resolver_inv r"
  then show ?thesis using Resolve_inv [of r P cg pid] OpResolve by (cases "Resolve P cg pid r") simp
qed (simp_all add: startKubeletSync_def resolver_UpdateConfig_def resolver_inv_def registered_def)

lemma resolver_inv_runs: "resolver_inv r \<Longrightarrow> resolver_inv (fold run_resolver ops r)"
  by (induction ops arbitrary: r) (simp_all add: resolver_inv_run)

lemma resolver_inv_new: "resolver_inv (NewResolver p k response)"
  by (simp add: resolver_inv_def NewResolver_def)

text \<open>
  C29: every container the agent puts a name to is known to the kernel. After any sequence of lookups, kubelet answers
  and configuration changes, when a lookup returns a context with a pod name, a namespace and a cgroup, the
  cgroup recorded in that context has been handed to the kernel's map of container cgroups. It is the cgroup
  the context was made for, which is not always the one looked up: a hit in the cache of process ids returns the context of an earlier
  cgroup. Both caches hold at most ten thousand entries, each with a pod name and a namespace and with its
  cgroup handed to the kernel; an entry of the cgroup cache carries the cgroup it is filed under.
\<close>

theorem named_pod_registered:
  assumes "r = fold run_resolver ops (NewResolver p k response)" "Resolve P cg pid r = (Some ctx, r')"
    and "cx_PodName ctx \<noteq> []" "cx_Namespace ctx \<noteq> []" "cx_CgroupID ctx \<noteq> 0"
  shows "cx_CgroupID ctx \<in> set (rv_discovered r') \<and>
     (\<forall>(c, x) \<in> set (entries (rv_cgroupCache r')).
        cx_CgroupID x = c \<and> cx_PodName x \<noteq> [] \<and> cx_Namespace x \<noteq> [] \<and> (c = 0 \<or> c \<in> set (rv_discovered r'))) \<and>
     (\<forall>(q, x) \<in> set (entries (rv_pidCache r')).
        cx_PodName x \<noteq> [] \<and> cx_Namespace x \<noteq> [] \<and> (cx_CgroupID x = 0 \<or> cx_CgroupID x \<in> set (rv_discovered r'))) \<and>
     length (entries (rv_cgroupCache r')) \<le> 10000 \<and> length (entries (rv_pidCache r')) \<le> 10000"
proof -
  have "resolver_inv r" unfolding assms(1) by (intro resolver_inv_runs resolver_inv_new)
  from Resolve_inv [OF this assms(2)] assms(3,4)
  have i: "resolver_inv r'" "registered r' ctx" by (auto simp: named_pod_def)
  note c = i(1) [unfolded resolver_inv_def cache_all_def]
  have "map_of (entries (rv_cgroupCache r')) a = Some x" if "(a, x) \<in> set (entries (rv_cgroupCache r'))" for a x
    using that c lru.keys by (metis map_of_is_SomeI)
  then have "\<forall>(a, x) \<in> set (entries (rv_cgroupCache r')).
      cx_CgroupID x = a \<and> cx_PodName x \<noteq> [] \<and> cx_Namespace x \<noteq> [] \<and> (a = 0 \<or> a \<in> set (rv_discovered r'))"
    using c by (fastforce simp: named_pod_def registered_def)
  moreover have "map_of (entries (rv_pidCache r')) a = Some x" if "(a, x) \<in> set (entries (rv_pidCache r'))" for a x
    using that c lru.keys by (metis map_of_is_SomeI)
  then have "\<forall>(a, x) \<in> set (entries (rv_pidCache r')).
      cx_PodName x \<noteq> [] \<and> cx_Namespace x \<noteq> [] \<and> (cx_CgroupID x = 0 \<or> cx_CgroupID x \<in> set (rv_discovered r'))"
    using c by (fastforce simp: named_pod_def registered_def)
  moreover have "length (entries (rv_cgroupCache r')) \<le> 10000" "length (entries (rv_pidCache r')) \<le> 10000"
    using c lru.bound by metis+
  ultimately show ?thesis using i(2) assms(5) by (simp add: registered_def)
qed


text \<open>A node with one pod that has one container, and the process that runs in it.\<close>

definition sample_uid :: gostring where "sample_uid = replicate 32 0x61"
definition sample_cid :: gostring where "sample_cid = replicate 64 0x30"

definition sample_pod :: pod where
  "sample_pod =
     \<lparr>po_UID = sample_uid, po_Name = str ''web-0'', po_Namespace = str ''prod'',
      po_Containers = [str ''containerd://'' @ sample_cid], po_InitContainers = [], po_EphemeralContainers = []\<rparr>"

definition kubelet_plain :: KubeletClient where
  "kubelet_plain = NewKubeletClient (\<lambda>_ _. False) [] False [] []"

definition resolver_sample :: Resolver where
  "resolver_sample = NewResolver [] kubelet_plain (Some [sample_pod])"

definition pods_plain :: pods_env where
  "pods_plain =
     \<lparr>pe_now = 1, pe_proc = (\<lambda>_. None),
      pe_walk = [(str ''/sys/fs/cgroup'' @ cgroupfs_path (str ''besteffort'') sample_uid sample_cid, Some 77)]\<rparr>"

lemma sample_ok: "str ''besteffort'' \<in> qos_classes" "uid_ok sample_uid" "cid_ok sample_cid" "str ''crio'' \<in> set scope_names"
  by (simp_all add: qos_classes_def uid_ok_def scope_names_def cid_ok_def is_hex_def sample_uid_def sample_cid_def)

lemma sample_parse:
  obtains rt where "ParseCgroupPath (cgroupfs_path (str ''besteffort'') sample_uid sample_cid) =
    (no_context\<lparr>cx_PodUID := sample_uid, cx_ContainerID := sample_cid, cx_Runtime := rt\<rparr>, True)"
  using cgroup_parse [OF sample_ok(1,2,4,3)] by blast

lemma sample_resolved:
  obtains ctx r' where "Resolve pods_plain 77 9 resolver_sample = (Some ctx, r')" "cx_PodName ctx = str ''web-0''"
    "cx_Namespace ctx = str ''prod''" "cx_CgroupID ctx = 77" "map_of (entries (rv_pidCache r')) 9 = Some ctx"
    "rv_discovered r' = [77]"
proof -
  let ?p = "cgroupfs_path (str ''besteffort'') sample_uid sample_cid"
  obtain rt where rt: "ParseCgroupPath ?p =
      (no_context\<lparr>cx_PodUID := sample_uid, cx_ContainerID := sample_cid, cx_Runtime := rt\<rparr>, True)"
    by (rule sample_parse)
  let ?r = "resolver_sample"
  have raw: "raw_cgroup_path pods_plain (rv_cgroupPath ?r) 77 9 = ?p" "?p \<noteq> []"
    by (simp_all add: raw_cgroup_path_def pods_plain_def getCgroupPathFromProc_def findPathByCgroupID_def
        resolver_sample_def NewResolver_def TrimPrefix_def cgroupfs_path_def str_def)
  have pods: "kc_podMetaMap (rv_kubelet ?r) sample_uid = Some (str ''web-0'', str ''prod'')"
    by (simp add: resolver_sample_def NewResolver_def SyncPods_def sample_pod_def)
  let ?ctx = "enrichContext (rv_kubelet ?r) (no_context\<lparr>cx_PodUID := sample_uid, cx_ContainerID := sample_cid,
      cx_Runtime := rt, cx_CgroupID := 77, cx_ResolvedAt := 1\<rparr>)"
  have names: "cx_PodName ?ctx = str ''web-0''" "cx_Namespace ?ctx = str ''prod''"
    using pods by (auto simp: enrichContext_def Let_def no_context_def sample_uid_def str_def split: option.split)
  have miss: "lru_Get k (newLRUCache n) = (None, newLRUCache n)" for k n
    by (simp add: lru_Get_def newLRUCache_def)
  have caches: "rv_cgroupCache ?r = newLRUCache 10000" "rv_pidCache ?r = newLRUCache 10000" "rv_discovered ?r = []"
    by (simp_all add: resolver_sample_def NewResolver_def)
  have "Resolve pods_plain 77 9 ?r = doResolve pods_plain 77 9 ?r"
    by (simp add: Resolve_def caches miss) (simp add: resolver_sample_def NewResolver_def)
  also have "\<dots> = (Some ?ctx, remember_context 77 9 ?ctx ?r)"
    using raw rt by (simp add: doResolve_def Let_def pods_plain_def)
  finally have r: "Resolve pods_plain 77 9 ?r = (Some ?ctx, remember_context 77 9 ?ctx ?r)" .
  have m: "remember_context 77 9 ?ctx ?r =
      ?r\<lparr>rv_cgroupCache := lru_Add 77 ?ctx (newLRUCache 10000), rv_discovered := [77], rv_pidCache := lru_Add 9 ?ctx (newLRUCache 10000)\<rparr>"
    using names by (simp add: remember_context_def Let_def caches str_def)
  have "map_of (entries (lru_Add (9 :: u32) ?ctx (newLRUCache 10000))) 9 = Some ?ctx"
    by (simp add: lru.add_ents remember_def)
  then have p: "map_of (entries (rv_pidCache (remember_context 77 9 ?ctx ?r))) 9 = Some ?ctx" unfolding m by simp
  have d: "rv_discovered (remember_context 77 9 ?ctx ?r) = [77]" unfolding m by simp
  have "cx_CgroupID ?ctx = 77" by simp
  from that [OF r names this p d] show thesis .
qed

theorem named_pod_registered_witness:
  "\<exists>ctx r'. Resolve pods_plain 77 9 resolver_sample = (Some ctx, r') \<and> 77 \<in> set (rv_discovered r')"
proof -
  obtain ctx r' where s: "Resolve pods_plain 77 9 resolver_sample = (Some ctx, r')" "cx_PodName ctx = str ''web-0''"
    "cx_Namespace ctx = str ''prod''" "cx_CgroupID ctx = 77" by (rule sample_resolved)
  have "resolver_sample = fold run_resolver [] (NewResolver [] kubelet_plain (Some [sample_pod]))"
    by (simp add: resolver_sample_def)
  from named_pod_registered [OF this s(1)] s show ?thesis by (simp add: str_def)
qed

text \<open>
  C40: a reused process id hides a container. The cache of process ids is consulted for a cgroup that is not known yet,
  and its entries say nothing of when a process started: when a process id that once belonged to a
  process of some pod is used again in a new container, the lookup answers with the old pod, whatever \<open>/proc\<close>
  and the kubelet say now, and the new cgroup is not registered in the kernel. A process of
  that container can then load a kernel module although module enforcement is on.
\<close>

theorem pid_reuse_hides_container:
  assumes "resolver_inv r" "map_of (entries (rv_pidCache r)) pid = Some ctx" "pid \<noteq> 0"
    and "map_of (entries (rv_cgroupCache r)) cg = None" "cg \<noteq> 0" "cg \<notin> set (rv_discovered r)"
  shows "\<exists>r'. Resolve P cg pid r = (Some ctx, r') \<and> rv_discovered r' = rv_discovered r \<and> cx_CgroupID ctx \<noteq> cg \<and>
     (\<forall>E s b. ke_cgroup_id E = cg \<and>
        container_cgroups (pol s) = (\<lambda>g. if g \<in> set (rv_discovered r') then Some 1 else None) \<longrightarrow>
        kguard_kernel_load_data E (2, b) s = (0, s))"
proof -
  note i = assms(1) [unfolded resolver_inv_def cache_all_def]
  have ctx: "named_pod ctx" "registered r ctx" using i assms(2) by blast+
  have c: "fst (lru_Get cg (rv_cgroupCache r)) = None" "fst (lru_Get pid (rv_pidCache r)) = Some ctx"
    using i assms(2,4) by (simp_all add: lru.get_val)
  let ?r = "r\<lparr>rv_cgroupCache := snd (lru_Get cg (rv_cgroupCache r)), rv_pidCache := snd (lru_Get pid (rv_pidCache r))\<rparr>"
  have "Resolve P cg pid r = (Some ctx, ?r)"
    using assms(3,5) c ctx(1) by (simp add: Resolve_def Let_def case_prod_unfold from_pid_cache_same)
  moreover have "cx_CgroupID ctx \<noteq> cg" using ctx(2) assms(5,6) by (auto simp: registered_def)
  ultimately show ?thesis
    using assms(6) by (intro exI [of _ ?r]) (simp add: kguard_kernel_load_data_def handle_kmod_check_def)
qed

theorem pid_reuse_hides_container_witness:
  "\<exists>r ctx r'. Resolve pods_plain 77 9 resolver_sample = (Some ctx, r) \<and> Resolve pods_plain 78 9 r = (Some ctx, r') \<and>
     rv_discovered r' = [77]"
proof -
  obtain ctx r where s: "Resolve pods_plain 77 9 resolver_sample = (Some ctx, r)" "cx_PodName ctx = str ''web-0''"
    "map_of (entries (rv_pidCache r)) 9 = Some ctx" "rv_discovered r = [77]" by (rule sample_resolved)
  have "resolver_inv resolver_sample" by (simp add: resolver_sample_def resolver_inv_new)
  then have i: "resolver_inv r" using Resolve_inv s(1) by blast
  have none: "map_of (entries (rv_cgroupCache r)) 78 = None"
  proof (cases "map_of (entries (rv_cgroupCache r)) 78")
    case (Some x)
    then have "registered r x" "cx_CgroupID x = 78" using i by (auto simp: resolver_inv_def cache_all_def)
    then show ?thesis using s(4) by (simp add: registered_def)
  qed
  show ?thesis using pid_reuse_hides_container [OF i s(3) _ none, of pods_plain] s(1,4) by auto
qed

end
