(* ===== verification/KG_Sinks.thy ===== *)
theory KG_Sinks
  imports KG_Pods "HOL-Library.Multiset" "HOL-Library.Sublist" "HOL-Library.List_Lexorder"
begin

text \<open>
  The way out: the dispatcher of \<open>internal/alert/alert.go\<close> with one bounded queue and one goroutine per sink, the sink
  that prints alerts (\<open>stdout.go\<close>), the counters of \<open>internal/metrics/metrics.go\<close>, and the check of the
  bearer token in front of the two HTTP servers (\<open>dashboard/httpauth/httpauth.go\<close>). Goroutines run
  in any interleaving; what a sink does with an alert is its own matter, it may return or panic. A \<open>Send\<close> that
  blocks for ever, for which \<open>Close\<close> would wait, is left out. \<open>Dispatch\<close> is one step: it holds a read lock only, and
  the event loop is its single caller.
\<close>

section \<open>Queues that drop\<close>

text \<open>
  The interface the dispatcher and the audit log share: a queue that takes an item or drops it, and never waits. \<open>taken\<close> is what it accepted so
  far, in order, \<open>dropped\<close> what it refused.
\<close>

locale lossy_queue =
  fixes offer :: "'a \<Rightarrow> 's \<Rightarrow> 's" and taken :: "'s \<Rightarrow> 'a list" and dropped :: "'s \<Rightarrow> 'a list"
  assumes offer_or_drop:
    "taken (offer a s) = taken s @ [a] \<and> dropped (offer a s) = dropped s \<or>
     taken (offer a s) = taken s \<and> dropped (offer a s) = dropped s @ [a]"
begin

definition accounts :: "'a list \<Rightarrow> 's \<Rightarrow> bool" where
  "accounts hist s \<longleftrightarrow> subseq (taken s) hist \<and> mset (taken s) + mset (dropped s) = mset hist"

lemma accounts_offer:
  assumes "accounts hist s"
  shows "accounts (hist @ [a]) (offer a s)"
proof -
  have s: "subseq (taken s) hist" using assms by (simp add: accounts_def)
  have "subseq (taken s @ [a]) (hist @ [a])" using s by (rule list_emb_append_mono) simp
  moreover have "subseq (taken s) (hist @ [a])" using s by (rule subseq_rev_drop_many)
  ultimately show ?thesis using offer_or_drop [of a s] assms by (auto simp: accounts_def)
qed

lemma accounts_complete:
  assumes "accounts hist s" "dropped s = []"
  shows "taken s = hist"
proof (rule subseq_same_length)
  show "subseq (taken s) hist" using assms(1) by (simp add: accounts_def)
  have "mset (taken s) = mset hist" using assms by (simp add: accounts_def)
  then show "length (taken s) = length hist" by (metis size_mset)
qed

end

section \<open>The dispatcher\<close>

text \<open>
  A worker: its queue, the alerts its sink was called with, and the alerts dropped for it. \<open>wk_from\<close> is the number of
  alerts dispatched before it was registered.
\<close>

record 'a sinkWorker =
  wk_name :: gostring
  wk_queue :: "'a list"
  wk_sent :: "'a list"
  wk_dropped :: "'a list"
  wk_from :: nat
  wk_sinkClosed :: bool

record 'a Dispatcher =
  di_workers :: "'a sinkWorker list"
  di_closed :: bool
  di_onDrop :: "gostring list"
  di_dispatched :: "'a list"

definition queueDepth :: nat where "queueDepth = 256"

definition newSinkWorker :: "gostring \<Rightarrow> nat \<Rightarrow> 'a sinkWorker" where
  "newSinkWorker name from =
     \<lparr>wk_name = name, wk_queue = [], wk_sent = [], wk_dropped = [], wk_from = from, wk_sinkClosed = False\<rparr>"

definition enqueue :: "'a \<Rightarrow> 'a sinkWorker \<Rightarrow> gostring list \<times> 'a sinkWorker" where
  "enqueue a w =
     (if length (wk_queue w) < queueDepth then ([], w\<lparr>wk_queue := wk_queue w @ [a]\<rparr>)
      else ([wk_name w], w\<lparr>wk_dropped := wk_dropped w @ [a]\<rparr>))"

definition NewDispatcher :: "'a Dispatcher" where
  "NewDispatcher = \<lparr>di_workers = [], di_closed = False, di_onDrop = [], di_dispatched = []\<rparr>"

definition Register :: "gostring \<Rightarrow> 'a Dispatcher \<Rightarrow> 'a Dispatcher" where
  "Register name d =
     (if di_closed d then d
      else d\<lparr>di_workers := di_workers d @ [newSinkWorker name (length (di_dispatched d))]\<rparr>)"

definition Dispatch :: "'a \<Rightarrow> 'a Dispatcher \<Rightarrow> 'a Dispatcher" where
  "Dispatch a d =
     (if di_closed d then d
      else d\<lparr>di_workers := map (snd \<circ> enqueue a) (di_workers d),
             di_onDrop := di_onDrop d @ concat (map (fst \<circ> enqueue a) (di_workers d)),
             di_dispatched := di_dispatched d @ [a]\<rparr>)"

text \<open>One round of \<open>run\<close>: the next alert is taken from the queue and sent; a panic of the sink is recovered from.\<close>

definition run_once :: "'a sinkWorker \<Rightarrow> 'a sinkWorker" where
  "run_once w =
     (case wk_queue w of [] \<Rightarrow> w | a # q \<Rightarrow> w\<lparr>wk_queue := q, wk_sent := wk_sent w @ [a]\<rparr>)"

text \<open>
  \<open>Close\<close>: no further alert is accepted and the queues are closed; the goroutines empty them and end; then the
  sinks are closed.
\<close>

definition Close_begin :: "'a Dispatcher \<Rightarrow> 'a Dispatcher" where
  "Close_begin d = d\<lparr>di_closed := True\<rparr>"

definition Close_end :: "'a Dispatcher \<Rightarrow> 'a Dispatcher" where
  "Close_end d = d\<lparr>di_workers := map (\<lambda>w. w\<lparr>wk_sinkClosed := True\<rparr>) (di_workers d)\<rparr>"

inductive dstep :: "'a Dispatcher \<Rightarrow> 'a Dispatcher \<Rightarrow> bool" where
  register: "dstep d (Register name d)"
| dispatch: "dstep d (Dispatch a d)"
| deliver: "i < length (di_workers d) \<Longrightarrow> wk_queue (di_workers d ! i) \<noteq> [] \<Longrightarrow>
     dstep d (d\<lparr>di_workers := (di_workers d)[i := run_once (di_workers d ! i)]\<rparr>)"
| close_begin: "dstep d (Close_begin d)"
| close_end: "di_closed d \<Longrightarrow> \<forall>w \<in> set (di_workers d). wk_queue w = [] \<Longrightarrow> dstep d (Close_end d)"

inductive_cases dstepE: "dstep d d'"

abbreviation dreachable :: "'a Dispatcher \<Rightarrow> 'a Dispatcher \<Rightarrow> bool" where
  "dreachable \<equiv> dstep\<^sup>*\<^sup>*"

section \<open>Every sink gets its alerts, in order\<close>

interpretation sinkq: lossy_queue "\<lambda>a w. snd (enqueue a w)" "\<lambda>w. wk_sent w @ wk_queue w" wk_dropped
  by unfold_locales (simp add: enqueue_def)

definition worker_inv :: "'a list \<Rightarrow> 'a sinkWorker \<Rightarrow> bool" where
  "worker_inv hist w \<longleftrightarrow>
     wk_from w \<le> length hist \<and> length (wk_queue w) \<le> queueDepth \<and>
     sinkq.accounts (drop (wk_from w) hist) w \<and> (wk_sinkClosed w \<longrightarrow> wk_queue w = [])"

definition dispatcher_inv :: "'a Dispatcher \<Rightarrow> bool" where
  "dispatcher_inv d \<longleftrightarrow>
     (\<forall>w \<in> set (di_workers d). worker_inv (di_dispatched d) w \<and> (wk_sinkClosed w \<longrightarrow> di_closed d)) \<and>
     (\<forall>n. count (mset (di_onDrop d)) n =
          sum_list (map (\<lambda>w. if wk_name w = n then length (wk_dropped w) else 0) (di_workers d)))"

lemma run_once_inv: "worker_inv hist w \<Longrightarrow> worker_inv hist (run_once w)"
  by (cases "wk_queue w") (auto simp: worker_inv_def run_once_def sinkq.accounts_def)

lemma run_once_sel [simp]:
  "wk_name (run_once w) = wk_name w" "wk_dropped (run_once w) = wk_dropped w" "wk_sinkClosed (run_once w) = wk_sinkClosed w"
  by (simp_all add: run_once_def split: list.split)

lemma enqueue_inv: "worker_inv hist w \<Longrightarrow> \<not> wk_sinkClosed w \<Longrightarrow> worker_inv (hist @ [a]) (snd (enqueue a w))"
  using sinkq.accounts_offer [of "drop (wk_from w) hist" w a] by (auto simp: worker_inv_def enqueue_def)

lemma count_concat_drops:
  "count (mset (concat (map (fst \<circ> enqueue a) ws))) n =
     sum_list (map (\<lambda>w. if wk_name w = n \<and> queueDepth \<le> length (wk_queue w) then 1 else 0) ws)"
  by (induction ws) (auto simp: enqueue_def)

lemma enqueue_sel [simp]: "wk_name (snd (enqueue a w)) = wk_name w" "wk_sinkClosed (snd (enqueue a w)) = wk_sinkClosed w"
  by (simp_all add: enqueue_def)

lemma enqueue_dropped:
  "length (wk_dropped (snd (enqueue a w))) = length (wk_dropped w) + (if queueDepth \<le> length (wk_queue w) then 1 else 0)"
  by (simp add: enqueue_def)

lemma sum_list_enqueue:
  "sum_list (map (\<lambda>w. if wk_name w = n then length (wk_dropped w) else 0) (map (snd \<circ> enqueue a) ws)) =
     sum_list (map (\<lambda>w. if wk_name w = n then length (wk_dropped w) else 0) ws) +
     sum_list (map (\<lambda>w. if wk_name w = n \<and> queueDepth \<le> length (wk_queue w) then 1 else 0) ws)"
  by (induction ws) (auto simp: enqueue_dropped)

lemma map_update_same: "f y = f (xs ! i) \<Longrightarrow> map f (xs[i := y]) = map f xs"
  by (metis list_update_id map_update)

lemma dispatcher_inv_step:
  assumes "dstep d d'" "dispatcher_inv d"
  shows "dispatcher_inv d'"
  using assms
proof cases
  case (register name)
  then show ?thesis using assms(2)
    by (auto simp: Register_def dispatcher_inv_def newSinkWorker_def worker_inv_def queueDepth_def
        sinkq.accounts_def)
next
  case (dispatch a)
  show ?thesis
  proof (cases "di_closed d")
    case False
    then have open': "\<forall>w \<in> set (di_workers d). \<not> wk_sinkClosed w" using assms(2) by (auto simp: dispatcher_inv_def)
    have "\<forall>w \<in> set (di_workers d'). worker_inv (di_dispatched d') w \<and> \<not> wk_sinkClosed w"
      using False dispatch assms(2) open' by (auto simp: Dispatch_def dispatcher_inv_def intro: enqueue_inv)
    moreover have "count (mset (di_onDrop d')) n =
        sum_list (map (\<lambda>w. if wk_name w = n then length (wk_dropped w) else 0) (di_workers d'))" for n
      using False dispatch assms(2) count_concat_drops [of a "di_workers d" n] sum_list_enqueue [of n a "di_workers d"]
      by (simp add: Dispatch_def dispatcher_inv_def del: map_map)
    ultimately show ?thesis by (simp add: dispatcher_inv_def)
  qed (use dispatch assms(2) in \<open>simp add: Dispatch_def\<close>)
next
  case (deliver i)
  let ?w = "di_workers d ! i"
  have "map (\<lambda>w. if wk_name w = n then length (wk_dropped w) else 0) ((di_workers d)[i := run_once ?w]) =
      map (\<lambda>w. if wk_name w = n then length (wk_dropped w) else 0) (di_workers d)" for n
    by (rule map_update_same) simp
  moreover have "worker_inv (di_dispatched d) w \<and> (wk_sinkClosed w \<longrightarrow> di_closed d)"
    if w: "w \<in> set ((di_workers d)[i := run_once ?w])" for w
  proof -
    have "w = run_once ?w \<or> w \<in> set (di_workers d)" using w set_update_subset_insert by fastforce
    then show ?thesis using assms(2) deliver(2) run_once_inv by (auto simp: dispatcher_inv_def)
  qed
  ultimately show ?thesis using assms(2) deliver(1) by (simp add: dispatcher_inv_def)
next
  case close_begin
  then show ?thesis using assms(2) by (simp add: Close_begin_def dispatcher_inv_def)
next
  case close_end
  then show ?thesis using assms(2)
    by (simp add: Close_end_def dispatcher_inv_def worker_inv_def sinkq.accounts_def comp_def cong: if_cong)
qed

lemma dispatcher_inv_reachable: "dreachable d d' \<Longrightarrow> dispatcher_inv d \<Longrightarrow> dispatcher_inv d'"
  by (induction rule: rtranclp_induct) (auto intro: dispatcher_inv_step)

lemma dispatcher_inv_new: "dispatcher_inv NewDispatcher"
  by (simp add: dispatcher_inv_def NewDispatcher_def)

text \<open>
  C31: each sink gets its own alerts, in order, whatever the other sinks do. After any interleaving of registrations,
  dispatches, deliveries and closing, what a sink was sent, together with what waits for it, is
  a subsequence of the alerts dispatched since it was registered; every one of those alerts was sent,
  waits or was dropped for this sink, exactly once; at most 256 wait; and the drop callback was called
  for a name exactly as often as alerts were dropped for the sinks of that name.
\<close>

theorem dispatcher_accounts:
  assumes "dreachable NewDispatcher d" "w \<in> set (di_workers d)"
  shows "subseq (wk_sent w @ wk_queue w) (drop (wk_from w) (di_dispatched d)) \<and>
     mset (wk_sent w) + mset (wk_queue w) + mset (wk_dropped w) = mset (drop (wk_from w) (di_dispatched d)) \<and>
     length (wk_queue w) \<le> 256 \<and>
     count_list (di_onDrop d) n =
       (\<Sum>v \<leftarrow> di_workers d. if wk_name v = n then length (wk_dropped v) else 0)"
proof -
  have i: "dispatcher_inv d" using dispatcher_inv_reachable [OF assms(1) dispatcher_inv_new] .
  then have "worker_inv (di_dispatched d) w" using assms(2) by (simp add: dispatcher_inv_def)
  moreover have "count_list (di_onDrop d) n = count (mset (di_onDrop d)) n"
    by (induction "di_onDrop d" arbitrary: d) (simp_all add: count_mset count_list_eq_length_filter)
  ultimately show ?thesis using i by (simp add: worker_inv_def dispatcher_inv_def queueDepth_def sinkq.accounts_def)
qed

lemma two_alerts_reachable: "dreachable NewDispatcher (Dispatch (2 :: nat) (Dispatch 1 (Register (str ''stdout'') NewDispatcher)))"
  by (rule rtranclp.rtrancl_into_rtrancl [OF rtranclp.rtrancl_into_rtrancl [OF r_into_rtranclp]]) (rule dstep.intros)+

theorem dispatcher_accounts_witness:
  "\<exists>w. w \<in> set (di_workers (Dispatch (2 :: nat) (Dispatch 1 (Register (str ''stdout'') NewDispatcher)))) \<and>
     subseq (wk_sent w @ wk_queue w) [1, 2] \<and> wk_queue w = [1, 2] \<and> length (wk_queue w) \<le> 256"
proof -
  let ?d = "Dispatch (2 :: nat) (Dispatch 1 (Register (str ''stdout'') NewDispatcher))"
  let ?w = "(newSinkWorker (str ''stdout'') 0) \<lparr>wk_queue := [1 :: nat, 2]\<rparr>"
  have d: "di_workers ?d = [?w]" "di_dispatched ?d = [1, 2]"
    by (simp_all add: Dispatch_def Register_def NewDispatcher_def newSinkWorker_def enqueue_def queueDepth_def)
  then have "?w \<in> set (di_workers ?d)" by simp
  from dispatcher_accounts [OF two_alerts_reachable this] d this show ?thesis
    by (intro exI [of _ ?w]) (simp add: newSinkWorker_def)
qed

section \<open>Closing\<close>

text \<open>The goroutine of a worker once its queue is closed: it takes what is left and ends.\<close>

function drain :: "'a sinkWorker \<Rightarrow> 'a sinkWorker" where
  "drain w = (if wk_queue w = [] then w else drain (run_once w))"
  by auto

termination drain
  by (relation "measure (\<lambda>w. length (wk_queue w))") (auto simp: run_once_def neq_Nil_conv)

declare drain.simps [simp del]

definition Close :: "'a Dispatcher \<Rightarrow> 'a Dispatcher" where
  "Close d =
     (if di_closed d then d
      else let d1 = Close_begin d in Close_end (d1\<lparr>di_workers := map drain (di_workers d1)\<rparr>))"

lemma drain_sel: "drain w = w\<lparr>wk_queue := [], wk_sent := wk_sent w @ wk_queue w\<rparr>"
proof (induction w rule: drain.induct)
  case (1 w)
  then show ?case by (cases "wk_queue w") (simp_all add: drain.simps [of w] run_once_def)
qed

text \<open>
  C32: closing loses nothing that was accepted. From every reachable state the goroutines empty their queues and end, and
  when \<open>Close\<close> returns, each sink has been sent, in order, everything that waited for it; if nothing was dropped for a sink
  it has been sent exactly the alerts dispatched since it was registered. After that no alert is
  accepted and no sink is registered.
\<close>

theorem Close_delivers:
  assumes "dreachable NewDispatcher d" "\<not> di_closed d" "i < length (di_workers d)"
  defines "w \<equiv> di_workers d ! i" and "v \<equiv> di_workers (Close d) ! i"
  shows "wk_sent v = wk_sent w @ wk_queue w \<and> wk_queue v = [] \<and> wk_sinkClosed v \<and>
     (wk_dropped w = [] \<longrightarrow> wk_sent v = drop (wk_from w) (di_dispatched d)) \<and>
     Dispatch a (Close d) = Close d \<and> Register name (Close d) = Close d \<and> Close (Close d) = Close d"
proof -
  have "dispatcher_inv d" using dispatcher_inv_reachable [OF assms(1) dispatcher_inv_new] .
  then have "worker_inv (di_dispatched d) w" using assms(3) by (simp add: dispatcher_inv_def w_def)
  then have inv: "sinkq.accounts (drop (wk_from w) (di_dispatched d)) w" by (simp add: worker_inv_def)
  have v: "v = (drain w)\<lparr>wk_sinkClosed := True\<rparr>"
    using assms(2,3) by (simp add: v_def w_def Close_def Let_def Close_begin_def Close_end_def)
  have "wk_sent w @ wk_queue w = drop (wk_from w) (di_dispatched d)" if "wk_dropped w = []"
    using sinkq.accounts_complete [OF inv that] .
  then show ?thesis
    using v assms(2)
    by (simp add: drain_sel Dispatch_def Register_def Close_def Let_def Close_begin_def Close_end_def)
qed

theorem Close_delivers_witness:
  "wk_sent (di_workers (Close (Dispatch (2 :: nat) (Dispatch 1 (Register (str ''stdout'') NewDispatcher)))) ! 0) = [1, 2]"
proof -
  let ?d = "Dispatch (2 :: nat) (Dispatch 1 (Register (str ''stdout'') NewDispatcher))"
  have d: "\<not> di_closed ?d" "0 < length (di_workers ?d)" "wk_sent (di_workers ?d ! 0) = []"
    "wk_queue (di_workers ?d ! 0) = [1, 2]"
    by (simp_all add: Dispatch_def Register_def NewDispatcher_def newSinkWorker_def enqueue_def queueDepth_def)
  from Close_delivers [OF two_alerts_reachable d(1,2)] d(3,4) show ?thesis by simp
qed

end
