(* ===== verification/KG_Alerts.thy ===== *)
theory KG_Alerts
  imports KG_Sinks
begin

text \<open>
  Where alerts end up: the console sink (\<open>internal/alert/stdout.go\<close>) and the history kept on disk
  (\<open>internal/alert/store.go\<close>), which the dashboard reads (\<open>internal/dashboard/dashboard.go\<close>). Printed lines are
  represented by format and arguments. The JSON encoder and decoder are parameters; the clock, the outcome of
  opening a file and the number of bytes a write puts into it are inputs.
\<close>

section \<open>The alert of a sink\<close>

record Alert =
  aa_RuleName :: gostring
  aa_Mitre :: "MitreMeta option"
  aa_Mode :: gostring
  aa_Severity :: gostring
  aa_Action :: gostring
  aa_Blocked :: bool
  aa_EventType :: gostring
  aa_Pid :: u32
  aa_Ppid :: u32
  aa_Uid :: u32
  aa_Comm :: gostring
  aa_CgroupID :: u64
  aa_Filename :: gostring
  aa_Args :: gostring
  aa_DestIP :: gostring
  aa_DestPort :: u16
  aa_AncestorSuspicious :: bool
  aa_AncestorFilename :: gostring
  aa_LineageTree :: gostring
  aa_Detail :: gostring
  aa_ResponseErr :: gostring
  aa_ContainerID :: gostring
  aa_PodName :: gostring
  aa_Namespace :: gostring
  aa_PodUID :: gostring
  aa_Runtime :: gostring

text \<open>The part of \<open>enrichAlert\<close> that asks the resolver.\<close>

definition enrich_pod :: "pods_env \<Rightarrow> Alert \<Rightarrow> Resolver \<Rightarrow> Alert \<times> Resolver" where
  "enrich_pod P a r =
     (case Resolve P (aa_CgroupID a) (aa_Pid a) r of
        (Some ctx, r') \<Rightarrow>
          (a\<lparr>aa_ContainerID := cx_ContainerID ctx, aa_PodName := cx_PodName ctx, aa_Namespace := cx_Namespace ctx,
             aa_PodUID := cx_PodUID ctx, aa_Runtime := cx_Runtime ctx\<rparr>, r')
      | (None, r') \<Rightarrow> (a, r'))"

section \<open>The console\<close>

datatype line =
    HeadLine string gostring gostring gostring bool gostring
  | ProcessLine gostring u32 u32 u32
  | PathLine gostring
  | MitreLine gostring gostring gostring
  | AuditModeLine gostring
  | K8sLine gostring gostring gostring gostring
  | LineageLine gostring
  | AncestorLine gostring
  | ArgsLine gostring
  | DestLine gostring u16
  | DetailLine gostring
  | ResponseLine gostring
  | TerminatedLine
  | BlockedLine

fun is_response :: "line \<Rightarrow> bool" where
  "is_response (ResponseLine e) = True"
| "is_response TerminatedLine = True"
| "is_response BlockedLine = True"
| "is_response _ = False"

text \<open>The lines before the one of the pod, and the lines after it.\<close>

definition stdout_head :: "Alert \<Rightarrow> line list" where
  "stdout_head a =
     [HeadLine (if aa_RuleName a \<noteq> [] \<or> aa_AncestorSuspicious a then ''SECURITY'' else ''AUDIT'')
        (aa_EventType a) (aa_Severity a) (aa_Action a) (aa_Blocked a) (aa_RuleName a),
      ProcessLine (aa_Comm a) (aa_Pid a) (aa_Ppid a) (aa_Uid a)] @
     (if aa_Filename a \<noteq> [] then [PathLine (aa_Filename a)] else []) @
     (case aa_Mitre a of Some m \<Rightarrow> [MitreLine (mi_TechniqueID m) (mi_Technique m) (mi_Tactic m)] | None \<Rightarrow> []) @
     (if aa_Mode a = str ''audit'' then [AuditModeLine (aa_Action a)] else [])"

definition stdout_tail :: "Alert \<Rightarrow> line list" where
  "stdout_tail a =
     (if aa_AncestorSuspicious a then
        (if aa_LineageTree a \<noteq> [] then [LineageLine (aa_LineageTree a)]
         else if aa_Filename a \<noteq> aa_AncestorFilename a then [AncestorLine (aa_AncestorFilename a)] else [])
      else []) @
     (if aa_Args a \<noteq> [] then [ArgsLine (aa_Args a)] else []) @
     (if aa_DestIP a \<noteq> [] then [DestLine (aa_DestIP a) (aa_DestPort a)] else []) @
     (if aa_Detail a \<noteq> [] then [DetailLine (aa_Detail a)] else []) @
     (if aa_ResponseErr a \<noteq> [] then [ResponseLine (aa_ResponseErr a)]
      else if aa_Action a = str ''KILL'' then [TerminatedLine]
      else if aa_Blocked a then [BlockedLine] else [])"

text \<open>What is printed, and whether \<open>Send\<close> returns; slicing \<open>ContainerID[:12]\<close> panics when there are fewer bytes.\<close>

definition Stdout_Send :: "Alert \<Rightarrow> line list \<times> bool" where
  "Stdout_Send a =
     (if aa_PodName a \<noteq> [] then
        (if length (aa_ContainerID a) < 12 then (stdout_head a, False)
         else (stdout_head a @
                 [K8sLine (aa_Namespace a) (aa_PodName a) (take 12 (aa_ContainerID a)) (aa_Runtime a)] @ stdout_tail a, True))
      else (stdout_head a @ stdout_tail a, True))"

lemma scope_at_length: "scope_at bs = Some (n, cid) \<Longrightarrow> length cid = 64"
  by (auto simp: scope_at_def Let_def find_Some_iff split: option.splits)

lemma containerScopeRegex_length: "containerScopeRegex bs = Some (n, cid) \<Longrightarrow> length cid = 64"
  by (induction bs) (auto split: option.splits dest: scope_at_length)

lemma containerHexRegex_length: "containerHexRegex bs \<noteq> [] \<Longrightarrow> length (containerHexRegex bs) = 64"
proof (induction bs)
  case (Cons b bs)
  have "length (takeWhile is_hex (b # bs)) \<le> length (b # bs)" by (rule length_takeWhile_le)
  then show ?case using Cons by (auto split: if_splits)
qed simp

text \<open>A container id found in a cgroup path has 64 characters.\<close>

lemma ParseCgroupPath_cid: "cx_ContainerID (fst (ParseCgroupPath p)) = [] \<or> length (cx_ContainerID (fst (ParseCgroupPath p))) = 64"
  using containerHexRegex_length [of p] containerScopeRegex_length [of p]
  by (auto simp: ParseCgroupPath_def Let_def no_context_def split: option.splits)

lemma enrichContext_cid [simp]: "cx_ContainerID (enrichContext k ctx) = cx_ContainerID ctx"
  by (simp add: enrichContext_def Let_def split: option.split)

lemma doResolve_cid:
  "doResolve P cg pid r = (Some ctx, r') \<Longrightarrow> cx_ContainerID ctx = [] \<or> length (cx_ContainerID ctx) = 64"
  using ParseCgroupPath_cid [of "raw_cgroup_path P (rv_cgroupPath r) cg pid"]
  by (auto simp: doResolve_def Let_def case_prod_unfold split: if_splits)

text \<open>
  The console drops the outcome for a process that is in a pod and in none of its containers. A fresh lookup names
  containers by 64 characters or not at all; when it finds the pod only, as for a process in the
  cgroup of the pod itself, printing the alert panics at the container id: lineage, arguments, destination, detail and the
  response are lost, so a kill is reported without saying whether it succeeded. For every other result
  of the lookup the whole alert is printed, with exactly one response line when there is
  a response to report.
\<close>

theorem stdout_loses_response:
  assumes "Resolve P (aa_CgroupID a) (aa_Pid a) r = doResolve P (aa_CgroupID a) (aa_Pid a) r"
    and "doResolve P (aa_CgroupID a) (aa_Pid a) r = (Some ctx, r')"
  defines "out \<equiv> Stdout_Send (fst (enrich_pod P a r))"
  shows "snd out = (cx_PodName ctx = [] \<or> cx_ContainerID ctx \<noteq> []) \<and>
     (snd out \<longrightarrow> length (filter is_response (fst out)) =
        (if aa_ResponseErr a \<noteq> [] \<or> aa_Action a = str ''KILL'' \<or> aa_Blocked a then 1 else 0)) \<and>
     (\<not> snd out \<longrightarrow> filter is_response (fst out) = [])"
proof -
  note e = enrich_pod_def [of P a r, unfolded assms(1,2), simplified]
  have h: "filter is_response (stdout_head b) = []" for b by (simp add: stdout_head_def split: option.split)
  have t: "length (filter is_response (stdout_tail b)) =
      (if aa_ResponseErr b \<noteq> [] \<or> aa_Action b = str ''KILL'' \<or> aa_Blocked b then 1 else 0)" for b
    by (simp add: stdout_tail_def)
  show ?thesis
    using doResolve_cid [OF assms(2)] by (auto simp: out_def e Stdout_Send_def h t)
qed

lemma short_no_container: "length bs < 64 \<Longrightarrow> containerScopeRegex bs = None \<and> containerHexRegex bs = []"
proof (induction bs)
  case (Cons b bs)
  have "scope_at (b # bs) = None" using Cons.prems by (auto simp: scope_at_def Let_def find_None_iff split: option.split)
  moreover have "length (takeWhile is_hex (b # bs)) < 64" using Cons.prems length_takeWhile_le [of is_hex "b # bs"] by linarith
  ultimately show ?case using Cons by simp
qed simp

definition pod_level_path :: gostring where "pod_level_path = str ''/pod'' @ sample_uid"

definition pod_level_env :: pods_env where
  "pod_level_env =
     \<lparr>pe_now = 1, pe_proc = (\<lambda>_. None), pe_walk = [(str ''/sys/fs/cgroup'' @ pod_level_path, Some 77)]\<rparr>"

definition kill_alert :: Alert where
  "kill_alert =
     \<lparr>aa_RuleName = str ''miner'', aa_Mitre = None, aa_Mode = str ''enforce'', aa_Severity = str ''high'',
      aa_Action = str ''KILL'', aa_Blocked = False, aa_EventType = str ''EXEC'', aa_Pid = 9, aa_Ppid = 1, aa_Uid = 0,
      aa_Comm = str ''xmrig'', aa_CgroupID = 77, aa_Filename = str ''/tmp/xmrig'', aa_Args = [], aa_DestIP = [],
      aa_DestPort = 0, aa_AncestorSuspicious = False, aa_AncestorFilename = [], aa_LineageTree = [], aa_Detail = [],
      aa_ResponseErr = str ''operation not permitted'', aa_ContainerID = [], aa_PodName = [], aa_Namespace = [],
      aa_PodUID = [], aa_Runtime = []\<rparr>"

lemma pod_level_parse: "ParseCgroupPath pod_level_path = (no_context\<lparr>cx_PodUID := sample_uid\<rparr>, True)"
proof -
  have "containerScopeRegex pod_level_path = None" "containerHexRegex pod_level_path = []"
    using short_no_container [of pod_level_path] by (simp_all add: pod_level_path_def sample_uid_def str_def)
  moreover have "podRegex False pod_level_path = Some sample_uid"
    by (simp add: pod_level_path_def sample_uid_def str_def is_word_def is_uid_def is_hex_def)
  moreover have "ReplaceByte 0x5F 0x2D sample_uid = sample_uid" "sample_uid \<noteq> []" by (simp_all add: ReplaceByte_def sample_uid_def)
  ultimately show ?thesis by (simp add: ParseCgroupPath_def Let_def)
qed

theorem stdout_loses_response_witness:
  "\<not> snd (Stdout_Send (fst (enrich_pod pod_level_env kill_alert resolver_sample))) \<and>
   filter is_response (fst (Stdout_Send (fst (enrich_pod pod_level_env kill_alert resolver_sample)))) = []"
proof -
  let ?r = "resolver_sample" and ?a = kill_alert
  let ?ctx = "enrichContext (rv_kubelet ?r) (no_context\<lparr>cx_PodUID := sample_uid, cx_CgroupID := 77, cx_ResolvedAt := 1\<rparr>)"
  have a: "aa_CgroupID ?a = 77" "aa_Pid ?a = 9" by (simp_all add: kill_alert_def)
  have "raw_cgroup_path pod_level_env (rv_cgroupPath ?r) 77 9 = pod_level_path" "pod_level_path \<noteq> []"
    by (simp_all add: raw_cgroup_path_def pod_level_env_def getCgroupPathFromProc_def findPathByCgroupID_def
        resolver_sample_def NewResolver_def TrimPrefix_def pod_level_path_def str_def)
  then have d: "doResolve pod_level_env 77 9 ?r = (Some ?ctx, remember_context 77 9 ?ctx ?r)"
    using pod_level_parse by (simp add: doResolve_def Let_def pod_level_env_def)
  have m: "lru_Get k (newLRUCache n) = (None, newLRUCache n)" for k n by (simp add: lru_Get_def newLRUCache_def)
  have c: "rv_cgroupCache ?r = newLRUCache 10000" "rv_pidCache ?r = newLRUCache 10000"
    by (simp_all add: resolver_sample_def NewResolver_def)
  have r: "Resolve pod_level_env 77 9 ?r = doResolve pod_level_env 77 9 ?r"
    by (simp add: Resolve_def c m) (simp add: resolver_sample_def NewResolver_def)
  have "kc_podMetaMap (rv_kubelet ?r) sample_uid = Some (str ''web-0'', str ''prod'')"
    by (simp add: resolver_sample_def NewResolver_def SyncPods_def sample_pod_def)
  then have n: "cx_PodName ?ctx \<noteq> []" "cx_ContainerID ?ctx = []"
    by (simp_all add: enrichContext_def Let_def no_context_def sample_uid_def str_def)
  have p: "Resolve pod_level_env (aa_CgroupID ?a) (aa_Pid ?a) ?r = doResolve pod_level_env (aa_CgroupID ?a) (aa_Pid ?a) ?r"
    "doResolve pod_level_env (aa_CgroupID ?a) (aa_Pid ?a) ?r = (Some ?ctx, remember_context 77 9 ?ctx ?r)"
    using r d a by simp_all
  show ?thesis using stdout_loses_response [OF p] n by simp
qed

end
