(* ===== verification/KG_Store.thy ===== *)
theory KG_Store
  imports KG_Alerts
begin

text \<open>
  The alert history: \<open>internal/alert/store.go\<close> appends one JSON line per alert to a file per day and reads the newest
  alerts back; \<open>internal/dashboard/dashboard.go\<close> shows them. The encoder and the decoder of JSON are parameters, and
  so is the date. A write puts some number of bytes into the file.
\<close>

section \<open>The directory\<close>

text \<open>A directory: its files with their contents. Reading it lists the files by name.\<close>

type_synonym directory = "(gostring \<times> bytes) list"

fun append_file :: "gostring \<Rightarrow> bytes \<Rightarrow> directory \<Rightarrow> directory" where
  "append_file n b [] = [(n, b)]"
| "append_file n b ((m, c) # fs) = (if m = n then (m, c @ b) # fs else (m, c) # append_file n b fs)"

definition ReadDir :: "directory \<Rightarrow> directory" where
  "ReadDir = sort_key fst"

record Store =
  st_files :: directory
  st_curDate :: gostring
  st_f :: "gostring option"

definition store_name :: "gostring \<Rightarrow> gostring" where
  "store_name date = str ''alerts-'' @ date @ str ''.jsonl''"

definition rotateIfNeeded :: "gostring \<Rightarrow> bool \<Rightarrow> Store \<Rightarrow> bool \<times> Store" where
  "rotateIfNeeded today opens s =
     (if today = st_curDate s \<and> st_f s \<noteq> None then (True, s)
      else if \<not> opens then (False, s)
      else (True, s\<lparr>st_files := append_file (store_name today) [] (st_files s), st_f := Some (store_name today),
                   st_curDate := today\<rparr>))"

definition NewStore :: "gostring \<Rightarrow> bool \<Rightarrow> directory \<Rightarrow> Store option" where
  "NewStore today opens files =
     (let (ok, s) = rotateIfNeeded today opens \<lparr>st_files = files, st_curDate = [], st_f = None\<rparr>
      in if ok then Some s else None)"

text \<open>\<open>n\<close> bytes of the line reach the file.\<close>

definition Store_Send :: "('a \<Rightarrow> bytes option) \<Rightarrow> gostring \<Rightarrow> bool \<Rightarrow> nat \<Rightarrow> 'a \<Rightarrow> Store \<Rightarrow> Store" where
  "Store_Send marshal today opens n a s =
     (let (ok, s1) = rotateIfNeeded today opens s in
      if \<not> ok then s1
      else case (marshal a, st_f s1) of
             (Some j, Some f) \<Rightarrow> s1\<lparr>st_files := append_file f (take n (j @ [0x0A])) (st_files s1)\<rparr>
           | _ \<Rightarrow> s1)"

definition is_alert_file :: "gostring \<Rightarrow> bool" where
  "is_alert_file n \<longleftrightarrow> prefix (str ''alerts-'') n \<and> suffix (str ''.jsonl'') n"

text \<open>The largest line \<open>readAlertsFile\<close> lets its scanner take.\<close>

definition maxAlertLine :: nat where "maxAlertLine = 1024 * 1024"

text \<open>Whether the scanner stops at a line that does not fit into its buffer.\<close>

function scan_err :: "nat \<Rightarrow> bytes \<Rightarrow> bool" where
  "scan_err maxTok [] = False"
| "scan_err maxTok (b # bs) =
     (let l = takeWhile (\<lambda>c. c \<noteq> 0x0A) (b # bs) in
      maxTok \<le> length l \<or> scan_err maxTok (drop (Suc (length l)) (b # bs)))"
  by pat_completeness auto

termination scan_err
  by (relation "measure (length \<circ> snd)") simp_all

definition readAlertsFile :: "(gostring \<Rightarrow> 'a option) \<Rightarrow> bytes \<Rightarrow> 'a list option" where
  "readAlertsFile unmarshal c =
     (if scan_err maxAlertLine c then None
      else Some (List.map_filter unmarshal (scan_lines maxAlertLine c)))"

fun recent_loop :: "(gostring \<Rightarrow> 'a option) \<Rightarrow> nat \<Rightarrow> directory \<Rightarrow> 'a list \<Rightarrow> 'a list" where
  "recent_loop unmarshal limit [] res = res"
| "recent_loop unmarshal limit ((n, c) # fs) res =
     (if length res < limit then
        recent_loop unmarshal limit fs (case readAlertsFile unmarshal c of None \<Rightarrow> res | Some alerts \<Rightarrow> alerts @ res)
      else res)"

definition Recent :: "(gostring \<Rightarrow> 'a option) \<Rightarrow> nat \<Rightarrow> Store \<Rightarrow> 'a list" where
  "Recent unmarshal limit s =
     (let res = recent_loop unmarshal limit (rev (filter (is_alert_file \<circ> fst) (ReadDir (st_files s)))) []
      in drop (length res - limit) res)"

definition CountBySeverity :: "(gostring \<Rightarrow> 'a option) \<Rightarrow> ('a \<Rightarrow> gostring) \<Rightarrow> Store \<Rightarrow> gostring \<Rightarrow> nat" where
  "CountBySeverity unmarshal sev s =
     fold (\<lambda>(n, c) counts.
             if is_alert_file n then
               (case readAlertsFile unmarshal c of
                  None \<Rightarrow> counts
                | Some alerts \<Rightarrow> fold (\<lambda>a k. k(sev a := k (sev a) + 1)) alerts counts)
             else counts) (ReadDir (st_files s)) (\<lambda>_. 0)"

text \<open>The pages of the dashboard: the newest 200 first, or the newest 500 as they are.\<close>

definition handleIndex :: "(gostring \<Rightarrow> 'a option) \<Rightarrow> Store \<Rightarrow> 'a list" where
  "handleIndex unmarshal s = rev (Recent unmarshal 200 s)"

definition handleAlertsJSON :: "(gostring \<Rightarrow> 'a option) \<Rightarrow> Store \<Rightarrow> 'a list" where
  "handleAlertsJSON unmarshal s = Recent unmarshal 500 s"

section \<open>What is read is the end of what can be read\<close>

definition readable :: "(gostring \<Rightarrow> 'a option) \<Rightarrow> Store \<Rightarrow> 'a list" where
  "readable unmarshal s =
     concat (List.map_filter (readAlertsFile unmarshal \<circ> snd) (filter (is_alert_file \<circ> fst) (ReadDir (st_files s))))"

lemma drop_last_append: "n \<le> length ys \<Longrightarrow> drop (length (xs @ ys) - n) (xs @ ys) = drop (length ys - n) ys"
  by simp

lemma recent_loop_suffix:
  "drop (length (recent_loop u limit (rev fs) res) - limit) (recent_loop u limit (rev fs) res) =
   (let h = concat (List.map_filter (readAlertsFile u \<circ> snd) fs) @ res in drop (length h - limit) h)"
proof (induction fs arbitrary: res rule: rev_induct)
  case (snoc f fs)
  obtain n c where f: "f = (n, c)" by fastforce
  show ?case
  proof (cases "length res < limit")
    case True
    then show ?thesis
      by (cases "readAlertsFile u c") (simp_all add: f snoc.IH List.map_filter_def Let_def)
  qed (simp add: f Let_def)
qed (simp add: Let_def List.map_filter_def)

lemma Recent_readable: "Recent u limit s = (let h = readable u s in drop (length h - limit) h)"
  using recent_loop_suffix [of u limit "filter (is_alert_file \<circ> fst) (ReadDir (st_files s))" "[]"]
  by (simp add: Recent_def readable_def Let_def)

section \<open>What was sent is what is read\<close>

lemma append_file_new: "n \<notin> fst ` set fs \<Longrightarrow> append_file n b fs = fs @ [(n, b)]"
  by (induction n b fs rule: append_file.induct) auto

lemma append_file_last: "n \<notin> fst ` set fs \<Longrightarrow> append_file n b (fs @ [(n, c)]) = fs @ [(n, c @ b)]"
  by (induction n b fs rule: append_file.induct) auto

lemma store_name_eq [simp]: "store_name d = store_name d' \<longleftrightarrow> d = d'"
  by (simp add: store_name_def)

lemma store_name_less: "length d = length d' \<Longrightarrow> d < d' \<Longrightarrow> store_name d < store_name d'"
  by (simp add: store_name_def list_less_def lexord_append_leftI lexord_sufI)

lemma is_alert_file_name [simp]: "is_alert_file (store_name d)"
  by (simp add: is_alert_file_def store_name_def suffix_append)

text \<open>A line the scanner gives back as it is.\<close>

definition line_ok :: "gostring \<Rightarrow> bool" where
  "line_ok j \<longleftrightarrow> length j < maxAlertLine \<and> 0x0A \<notin> set j \<and> (j \<noteq> [] \<longrightarrow> last j \<noteq> 0x0D)"

definition enc_lines :: "('a \<Rightarrow> bytes option) \<Rightarrow> 'a list \<Rightarrow> bytes" where
  "enc_lines marshal as = concat (map (\<lambda>a. the (marshal a) @ [0x0A]) as)"

lemma takeWhile_line: "0x0A \<notin> set j \<Longrightarrow> takeWhile (\<lambda>c. c \<noteq> 0x0A) (j @ 0x0A # r) = j" for j :: gostring
  by (induction j) auto

lemma scan_line: "line_ok j \<Longrightarrow> scan_lines maxAlertLine (j @ 0x0A # r) = j # scan_lines maxAlertLine r"
  using takeWhile_line [of j r] by (cases j) (auto simp: line_ok_def drop_cr_def Let_def)

lemma scan_err_line: "line_ok j \<Longrightarrow> scan_err maxAlertLine (j @ 0x0A # r) = scan_err maxAlertLine r"
  using takeWhile_line [of j r] by (cases j) (auto simp: line_ok_def Let_def)

definition storable :: "('a \<Rightarrow> bytes option) \<Rightarrow> (gostring \<Rightarrow> 'a option) \<Rightarrow> ('a \<Rightarrow> 'a) \<Rightarrow> 'a \<Rightarrow> bool" where
  "storable marshal unmarshal norm a \<longleftrightarrow>
     (case marshal a of None \<Rightarrow> False | Some j \<Rightarrow> line_ok j \<and> unmarshal j = Some (norm a))"

lemma read_enc_lines:
  "list_all (storable marshal unmarshal norm) as \<Longrightarrow> readAlertsFile unmarshal (enc_lines marshal as) = Some (map norm as)"
proof (induction as)
  case (Cons a as)
  then obtain j where "marshal a = Some j" "line_ok j" "unmarshal j = Some (norm a)"
    by (auto simp: storable_def split: option.splits)
  then show ?case using Cons
    by (auto simp: enc_lines_def readAlertsFile_def scan_line scan_err_line List.map_filter_def split: if_splits)
qed (simp add: enc_lines_def readAlertsFile_def List.map_filter_def)

text \<open>The files are one per day, in the order of the days, and together hold the history.\<close>

definition store_rel :: "('a \<Rightarrow> bytes option) \<Rightarrow> 'a list \<Rightarrow> Store \<Rightarrow> bool" where
  "store_rel marshal hist s \<longleftrightarrow>
     (\<exists>gs d as. st_files s = map (\<lambda>(d, as). (store_name d, enc_lines marshal as)) (gs @ [(d, as)]) \<and>
        sorted_wrt (<) (map fst (gs @ [(d, as)])) \<and> (\<forall>e \<in> set (gs @ [(d, as)]). length (fst e) = 10) \<and>
        st_curDate s = d \<and> st_f s = Some (store_name d) \<and> concat (map snd (gs @ [(d, as)])) = hist)"

lemma names_of: "fst ` set (map (\<lambda>(d, as). (store_name d, f as)) gs) = store_name ` fst ` set gs"
  by (force simp: image_iff)

lemma Store_Send_rel:
  assumes "store_rel marshal hist s" "st_curDate s \<le> today" "length today = 10" "marshal a = Some j" "length j < n"
  shows "store_rel marshal (hist @ [a]) (Store_Send marshal today True n a s) \<and>
     st_curDate (Store_Send marshal today True n a s) = today"
proof -
  obtain gs d as where s: "st_files s = map (\<lambda>(d, as). (store_name d, enc_lines marshal as)) (gs @ [(d, as)])"
    "sorted_wrt (<) (map fst (gs @ [(d, as)]))" "\<forall>e \<in> set (gs @ [(d, as)]). length (fst e) = 10"
    "st_curDate s = d" "st_f s = Some (store_name d)" "concat (map snd (gs @ [(d, as)])) = hist"
    using assms(1) by (auto simp: store_rel_def)
  have old: "fst e < d" if "e \<in> set gs" for e using s(2) that by (auto simp: sorted_wrt_append)
  have fresh: "store_name today \<notin> fst ` set (map (\<lambda>(d, as). (store_name d, enc_lines marshal as)) gs)"
    using old assms(2) s(4) by (force simp: names_of)
  show ?thesis
  proof (cases "today = d")
    case True
    have "Store_Send marshal today True n a s =
        s\<lparr>st_files := map (\<lambda>(d, as). (store_name d, enc_lines marshal as)) (gs @ [(d, as @ [a])])\<rparr>"
      using True s(1,4,5) assms(4,5) fresh
      by (simp add: Store_Send_def rotateIfNeeded_def append_file_last enc_lines_def)
    then show ?thesis
      using s True unfolding store_rel_def by (intro conjI exI [of _ gs] exI [of _ d] exI [of _ "as @ [a]"]) auto
  next
    case False
    then have "d < today" using assms(2) s(4) by simp
    then have f: "store_name today \<notin> fst ` set (st_files s)"
      using fresh s(1) by auto
    have "Store_Send marshal today True n a s =
        s\<lparr>st_files := st_files s @ [(store_name today, j @ [0x0A])], st_f := Some (store_name today), st_curDate := today\<rparr>"
      using False s(4) assms(4,5) append_file_new [OF f] append_file_last [OF f]
      by (simp add: Store_Send_def rotateIfNeeded_def)
    then have "Store_Send marshal today True n a s =
        s\<lparr>st_files := map (\<lambda>(d, as). (store_name d, enc_lines marshal as)) ((gs @ [(d, as)]) @ [(today, [a])]),
          st_f := Some (store_name today), st_curDate := today\<rparr>"
      using s(1) assms(4) by (simp add: enc_lines_def)
    moreover have "sorted_wrt (<) (map fst ((gs @ [(d, as)]) @ [(today, [a])]))"
      using s(2) old \<open>d < today\<close> by (auto simp: sorted_wrt_append intro: less_trans)
    ultimately show ?thesis
      using s(3,6) assms(3) unfolding store_rel_def
      by (intro conjI exI [of _ "gs @ [(d, as)]"] exI [of _ today] exI [of _ "[a]"]) auto
  qed
qed

lemma readable_rel:
  assumes "store_rel marshal hist s" "list_all (storable marshal unmarshal norm) hist"
  shows "readable unmarshal s = map norm hist"
proof -
  let ?file = "\<lambda>(d, as). (store_name d, enc_lines marshal as)"
  obtain gs where s: "st_files s = map ?file gs" "sorted_wrt (<) (map fst gs)" "\<forall>e \<in> set gs. length (fst e) = 10"
    "concat (map snd gs) = hist" using assms(1) unfolding store_rel_def by blast
  have "sorted_wrt (<) (map fst (map ?file gs))"
    using s(2,3) by (induction gs) (fastforce intro!: store_name_less)+
  then have "ReadDir (st_files s) = map ?file gs"
    unfolding ReadDir_def s(1) by (intro sort_key_id_if_sorted strict_sorted_imp_sorted)
  moreover have "filter (is_alert_file \<circ> fst) (map ?file gs) = map ?file gs" by (rule filter_True) auto
  moreover have "readAlertsFile unmarshal (snd (?file e)) = Some (map norm (snd e))" if "e \<in> set gs" for e
    using that assms(2) s(4) by (auto simp: case_prod_unfold list_all_iff intro!: read_enc_lines)
  then have "concat (List.map_filter (readAlertsFile unmarshal \<circ> snd) (map ?file gs)) = map norm (concat (map snd gs))"
    by (induction gs) (simp_all add: List.map_filter_simps)
  ultimately show ?thesis by (simp add: readable_def s(4))
qed

lemma fold_counts: "fold (\<lambda>a k. k(f a := Suc (k (f a)))) as c = (\<lambda>x. c x + length (filter (\<lambda>a. f a = x) as))" for c :: "'b \<Rightarrow> nat"
  by (induction as arbitrary: c) (auto simp: fun_eq_iff)

lemma CountBySeverity_readable: "CountBySeverity u sev s x = length (filter (\<lambda>a. sev a = x) (readable u s))"
proof -
  have "fold (\<lambda>(n, c) counts.
             if is_alert_file n then
               (case readAlertsFile u c of
                  None \<Rightarrow> counts
                | Some alerts \<Rightarrow> fold (\<lambda>a k. k(sev a := k (sev a) + 1)) alerts counts)
             else counts) fs k x =
     k x + length (filter (\<lambda>a. sev a = x) (concat (List.map_filter (readAlertsFile u \<circ> snd) (filter (is_alert_file \<circ> fst) fs))))"
    for fs k
    by (induction fs arbitrary: k) (auto simp: fold_counts List.map_filter_simps split: option.split)
  then show ?thesis by (simp add: CountBySeverity_def readable_def)
qed

fun send_all :: "('a \<Rightarrow> bytes option) \<Rightarrow> (gostring \<times> nat \<times> 'a) list \<Rightarrow> Store \<Rightarrow> Store" where
  "send_all marshal [] s = s"
| "send_all marshal ((today, n, a) # sends) s = send_all marshal sends (Store_Send marshal today True n a s)"

lemma send_all_rel:
  "store_rel marshal hist s \<Longrightarrow> sorted (st_curDate s # map fst sends) \<Longrightarrow>
   \<forall>(d, n, a) \<in> set sends. length d = 10 \<and> storable marshal unmarshal norm a \<and> length (the (marshal a)) < n \<Longrightarrow>
   store_rel marshal (hist @ map (snd \<circ> snd) sends) (send_all marshal sends s)"
proof (induction sends arbitrary: hist s)
  case (Cons e sends)
  obtain d n a where e: "e = (d, n, a)" by (cases e)
  obtain j where j: "marshal a = Some j" "length j < n"
    using Cons.prems(3) e by (auto simp: storable_def split: option.splits)
  from Store_Send_rel [OF Cons.prems(1) _ _ j, of d] Cons.prems(2,3) e
  have "store_rel marshal (hist @ [a]) (Store_Send marshal d True n a s)" "st_curDate (Store_Send marshal d True n a s) = d"
    by auto
  from Cons.IH [OF this(1)] this(2) Cons.prems(2,3) show ?case by (simp add: e)
qed simp

text \<open>
  C33: the history keeps every alert. Start the store on an empty directory, send alerts on days that do not go back, let every file
  open and every write be complete; then what \<open>Recent\<close> returns is the end of the sequence of
  alerts sent, in the order they were sent and across the files of all days, cut to the limit, the dashboard's page shows the
  newest 200 of them, newest first, and the tally by severity counts each alert once. \<open>norm\<close> is what encoding and
  decoding makes of an alert: invalid UTF-8 is replaced.
\<close>

theorem store_roundtrip:
  assumes "NewStore today True [] = Some s" "length today = 10" "sorted (today # map fst sends)"
    and "\<forall>(d, n, a) \<in> set sends. length d = 10 \<and> storable marshal unmarshal norm a \<and> length (the (marshal a)) < n"
  defines "h \<equiv> map (norm \<circ> snd \<circ> snd) sends" and "t \<equiv> send_all marshal sends s"
  shows "Recent unmarshal limit t = drop (length h - limit) h \<and> handleIndex unmarshal t = take 200 (rev h) \<and>
     CountBySeverity unmarshal sev t x = length (filter (\<lambda>a. sev a = x) h)"
proof -
  have s: "s = \<lparr>st_files = [(store_name today, [])], st_curDate = today, st_f = Some (store_name today)\<rparr>"
    using assms(1) by (simp add: NewStore_def rotateIfNeeded_def)
  have "store_rel marshal [] s"
    using assms(2) unfolding store_rel_def s
    by (intro exI [of _ "[]"] exI [of _ today] exI [of _ "[] :: 'a list"]) (simp add: enc_lines_def)
  from send_all_rel [OF this _ assms(4)] assms(3) s
  have "store_rel marshal (map (snd \<circ> snd) sends) t" by (simp add: t_def)
  moreover have "list_all (storable marshal unmarshal norm) (map (snd \<circ> snd) sends)"
    using assms(4) by (auto simp: list_all_iff)
  ultimately have "readable unmarshal t = h" by (simp add: readable_rel h_def comp_assoc)
  moreover have "rev (drop (length h - 200) h) = take 200 (rev h)" by (cases "length h \<le> 200") (simp_all add: rev_drop)
  ultimately show ?thesis
    by (simp add: Recent_readable handleIndex_def CountBySeverity_readable Let_def)
qed

text \<open>A codec of one digit, and three alerts on two days.\<close>

definition digit_enc :: "nat \<Rightarrow> bytes option" where
  "digit_enc a = (if a < 10 then Some [0x30 + word_of_nat a] else None)"

definition digit_dec :: "gostring \<Rightarrow> nat option" where
  "digit_dec j = (case j of [b] \<Rightarrow> if 0x30 \<le> b \<and> b \<le> 0x39 then Some (unat (b - 0x30)) else None | _ \<Rightarrow> None)"

theorem store_roundtrip_witness:
  "\<exists>s. NewStore (str ''2026-01-01'') True [] = Some s \<and>
     Recent digit_dec 2
       (send_all digit_enc [(str ''2026-01-01'', 9, 1), (str ''2026-01-01'', 9, 2), (str ''2026-01-02'', 9, 3)] s) = [2, 3]"
proof -
  let ?sends = "[(str ''2026-01-01'', 9, 1), (str ''2026-01-01'', 9, 2), (str ''2026-01-02'', 9, 3)] :: (gostring \<times> nat \<times> nat) list"
  obtain s where s: "NewStore (str ''2026-01-01'') True [] = Some s" by (simp add: NewStore_def rotateIfNeeded_def)
  have l: "length (str ''2026-01-01'') = 10" by (simp add: str_def)
  have o: "sorted (str ''2026-01-01'' # map fst ?sends)" by (simp add: str_def list_le_def list_less_def)
  have c: "\<forall>(d, n, a) \<in> set ?sends. length d = 10 \<and> storable digit_enc digit_dec id a \<and> length (the (digit_enc a)) < n"
    by (simp add: str_def storable_def digit_enc_def digit_dec_def line_ok_def maxAlertLine_def)
  from store_roundtrip [OF s l o c, of 2] s show ?thesis by auto
qed

end
