(* ===== verification/KG_Audit.thy ===== *)
theory KG_Audit
  imports KG_Sinks
begin

text \<open>
  The audit log, \<open>internal/audit/audit.go\<close>: a bounded queue, a goroutine that formats each record by hand and appends it to a file. The
  quoting of \<open>strconv.AppendQuote\<close> is written out, with the decoding of UTF-8 it does; \<open>isPrint\<close> is the table of printable
  code points of the standard library. The time of a record arrives as the text it is formatted to, and every write of a line may fail.
\<close>

section \<open>Quoting\<close>

definition cont :: "u8 \<Rightarrow> bool" where
  "cont b \<longleftrightarrow> 0x80 \<le> b \<and> b \<le> 0xBF"

text \<open>How many bytes the first character takes, 0 when the bytes begin no valid one; then the code point.\<close>

definition rune_len :: "bytes \<Rightarrow> nat" where
  "rune_len bs =
     (case bs of
        [] \<Rightarrow> 0
      | b # r \<Rightarrow>
          if b < 0x80 then 1
          else if 0xC2 \<le> b \<and> b \<le> 0xDF \<and> 1 \<le> length r \<and> cont (r ! 0) then 2
          else if 0xE0 \<le> b \<and> b \<le> 0xEF \<and> 2 \<le> length r \<and> cont (r ! 0) \<and> cont (r ! 1) \<and>
                  (b = 0xE0 \<longrightarrow> 0xA0 \<le> r ! 0) \<and> (b = 0xED \<longrightarrow> r ! 0 \<le> 0x9F) then 3
          else if 0xF0 \<le> b \<and> b \<le> 0xF4 \<and> 3 \<le> length r \<and> cont (r ! 0) \<and> cont (r ! 1) \<and> cont (r ! 2) \<and>
                  (b = 0xF0 \<longrightarrow> 0x90 \<le> r ! 0) \<and> (b = 0xF4 \<longrightarrow> r ! 0 \<le> 0x8F) then 4
          else 0)"

definition rune_val :: "bytes \<Rightarrow> nat" where
  "rune_val bs =
     (case map unat bs of
        [a] \<Rightarrow> a
      | [a, b] \<Rightarrow> (a mod 32) * 64 + b mod 64
      | [a, b, c] \<Rightarrow> (a mod 16) * 4096 + (b mod 64) * 64 + c mod 64
      | [a, b, c, d] \<Rightarrow> (a mod 8) * 262144 + (b mod 64) * 4096 + (c mod 64) * 64 + d mod 64
      | _ \<Rightarrow> 0)"

text \<open>A string as Go ranges over it: characters as their bytes, bytes that belong to none.\<close>

datatype rune = Rune bytes | BadByte u8

function runes :: "gostring \<Rightarrow> rune list" where
  "runes [] = []"
| "runes (b # bs) =
     (let n = rune_len (b # bs) in
      if n = 0 then BadByte b # runes bs else Rune (take n (b # bs)) # runes (drop n (b # bs)))"
  by pat_completeness auto

termination runes
  by (relation "measure length") auto

definition hex_pad :: "nat \<Rightarrow> nat \<Rightarrow> bytes" where
  "hex_pad w n = map (\<lambda>i. hex_digit (n div 16 ^ i mod 16)) (rev [0..<w])"

text \<open>The escapes with a letter: bell, backspace, form feed, newline, return, tab and vertical tab.\<close>

definition letter_escapes :: "nat \<Rightarrow> u8 option" where
  "letter_escapes = [7 \<mapsto> 0x61, 8 \<mapsto> 0x62, 12 \<mapsto> 0x66, 10 \<mapsto> 0x6E, 13 \<mapsto> 0x72, 9 \<mapsto> 0x74, 11 \<mapsto> 0x76]"

fun quote_rune :: "(nat \<Rightarrow> bool) \<Rightarrow> rune \<Rightarrow> bytes" where
  "quote_rune isPrint (BadByte b) = [0x5C, 0x78] @ hex_pad 2 (unat b)"
| "quote_rune isPrint (Rune bs) =
     (let r = rune_val bs in
      if r = 0x22 \<or> r = 0x5C then 0x5C # bs
      else if isPrint r then bs
      else case letter_escapes r of
             Some e \<Rightarrow> [0x5C, e]
           | None \<Rightarrow>
               if r < 0x20 \<or> r = 0x7F then [0x5C, 0x78] @ hex_pad 2 r
               else if r < 0x10000 then [0x5C, 0x75] @ hex_pad 4 r
               else [0x5C, 0x55] @ hex_pad 8 r)"

definition quote_body :: "(nat \<Rightarrow> bool) \<Rightarrow> gostring \<Rightarrow> bytes" where
  "quote_body isPrint s = concat (map (quote_rune isPrint) (runes s))"

definition AppendQuote :: "(nat \<Rightarrow> bool) \<Rightarrow> gostring \<Rightarrow> bytes" where
  "AppendQuote isPrint s = [0x22] @ quote_body isPrint s @ [0x22]"

section \<open>Records\<close>

record Record =
  rc_Timestamp :: gostring
  rc_Decision :: gostring
  rc_EventType :: gostring
  rc_RuleName :: gostring
  rc_Mitre :: "MitreMeta option"
  rc_PID :: u32
  rc_PPID :: u32
  rc_UID :: u32
  rc_Comm :: gostring
  rc_CgroupID :: u64
  rc_Target :: gostring
  rc_Reason :: gostring

text \<open>\<open>key\<close> is the text of a field's name in quotes with its colon.\<close>

definition jkey :: "string \<Rightarrow> bytes" where
  "jkey k = [0x22] @ str k @ [0x22, 0x3A]"

definition format_record :: "(nat \<Rightarrow> bool) \<Rightarrow> Record \<Rightarrow> bytes" where
  "format_record isPrint rec =
     [0x7B] @ jkey ''timestamp'' @ [0x22] @ rc_Timestamp rec @
     [0x22, 0x2C] @ jkey ''decision'' @ [0x22] @ rc_Decision rec @
     [0x22, 0x2C] @ jkey ''event_type'' @ [0x22] @ rc_EventType rec @ [0x22] @
     (if rc_RuleName rec \<noteq> [] then [0x2C] @ jkey ''rule_name'' @ AppendQuote isPrint (rc_RuleName rec) else []) @
     (case rc_Mitre rec of
        Some m \<Rightarrow>
          [0x2C] @ jkey ''mitre'' @ [0x7B] @ jkey ''tactic'' @ AppendQuote isPrint (mi_Tactic m) @
          [0x2C] @ jkey ''technique_id'' @ AppendQuote isPrint (mi_TechniqueID m) @
          [0x2C] @ jkey ''technique'' @ AppendQuote isPrint (mi_Technique m) @ [0x7D]
      | None \<Rightarrow> []) @
     [0x2C] @ jkey ''pid'' @ itoa (unat (rc_PID rec)) @
     [0x2C] @ jkey ''ppid'' @ itoa (unat (rc_PPID rec)) @
     [0x2C] @ jkey ''uid'' @ itoa (unat (rc_UID rec)) @
     [0x2C] @ jkey ''comm'' @ AppendQuote isPrint (rc_Comm rec) @
     [0x2C] @ jkey ''cgroup_id'' @ itoa (unat (rc_CgroupID rec)) @
     (if rc_Target rec \<noteq> [] then [0x2C] @ jkey ''target'' @ AppendQuote isPrint (rc_Target rec) else []) @
     [0x2C] @ jkey ''reason'' @ AppendQuote isPrint (rc_Reason rec) @ [0x7D, 0x0A]"

section \<open>One record, one line\<close>

text \<open>What the log relies on of the table: controls are not printable.\<close>

definition print_table :: "(nat \<Rightarrow> bool) \<Rightarrow> bool" where
  "print_table isPrint \<longleftrightarrow> (\<forall>r < 0x20. \<not> isPrint r) \<and> \<not> isPrint 0x7F"

lemma hex_digit_hex: "n < 16 \<Longrightarrow> is_hex (hex_digit n)"
proof -
  have "\<forall>n \<in> set [0..<16]. is_hex (hex_digit n)" by (simp add: upt_rec hex_digit_def is_hex_def)
  then show "n < 16 \<Longrightarrow> ?thesis" by simp
qed

lemma hex_pad_hex: "list_all is_hex (hex_pad w n)" "length (hex_pad w n) = w"
  by (auto simp: hex_pad_def list_all_iff hex_digit_hex)

lemma hex_not_nl: "list_all is_hex bs \<Longrightarrow> 0x0A \<notin> set bs"
  by (auto simp: list_all_iff is_hex_def)

text \<open>The characters of a string: one ASCII byte, or two to four bytes above ASCII that stand for a code point above it.\<close>

definition rune_ok :: "bytes \<Rightarrow> bool" where
  "rune_ok bs \<longleftrightarrow> (\<exists>b. bs = [b] \<and> b < 0x80) \<or> 2 \<le> length bs \<and> (\<forall>b \<in> set bs. 0x80 \<le> b) \<and> 0x80 \<le> rune_val bs"

lemma mod_ge: "k \<le> unat (b :: u8) \<Longrightarrow> unat b \<le> k + j \<Longrightarrow> k mod m + j < m \<Longrightarrow> k mod m \<le> unat b mod m"
proof -
  assume "k \<le> unat b" "unat b \<le> k + j" "k mod m + j < m"
  then obtain i where "unat b = k + i" "i \<le> j" by (metis le_Suc_ex add_le_cancel_left)
  moreover from this \<open>k mod m + j < m\<close> have "(k + i) mod m = k mod m + i"
    by (metis add.commute add_le_cancel_left le_less_trans mod_add_left_eq mod_less)
  ultimately show ?thesis by simp
qed

lemma unat_range: "word_of_nat lo \<le> (b :: u8) \<Longrightarrow> b \<le> word_of_nat hi \<Longrightarrow> lo < 256 \<Longrightarrow> hi < 256 \<Longrightarrow> lo \<le> unat b \<and> unat b \<le> hi"
  by (simp add: word_le_nat_alt unat_of_nat)

lemma rune_len_2:
  assumes "0xC2 \<le> a" "a \<le> 0xDF" "cont b"
  shows "rune_ok [a, b]"
proof -
  have "194 \<le> unat a" "unat a \<le> 223" using unat_range [of 194 a 223] assms by simp_all
  then have "2 \<le> unat a mod 32" using mod_ge [of 194 a 29 32] by simp
  moreover have "0x80 \<le> a" using order_trans [of "0x80" "0xC2" a] assms(1) by simp
  ultimately show ?thesis using assms by (simp add: rune_ok_def rune_val_def cont_def)
qed

lemma rune_len_3:
  assumes "0xE0 \<le> a" "a \<le> 0xEF" "cont b" "cont c" "a = 0xE0 \<longrightarrow> 0xA0 \<le> b"
  shows "rune_ok [a, b, c]"
proof -
  have r: "224 \<le> unat a" "unat a \<le> 239" using unat_range [of 224 a 239] assms by simp_all
  have "1 \<le> unat a mod 16 \<or> 32 \<le> unat b mod 64"
  proof (cases "a = 0xE0")
    case True
    then have "160 \<le> unat b" "unat b \<le> 191" using unat_range [of 160 b 191] assms by (simp_all add: cont_def)
    then show ?thesis using mod_ge [of 160 b 31 64] by simp
  next
    case False
    then have "225 \<le> unat a" using r by (simp add: unat_eq_nat_uint [symmetric] word_unat_eq_iff)
    then show ?thesis using r mod_ge [of 225 a 14 16] by simp
  qed
  then have "128 \<le> rune_val [a, b, c]" by (auto simp: rune_val_def)
  moreover have "0x80 \<le> a" using order_trans [of "0x80" "0xE0" a] assms(1) by simp
  ultimately show ?thesis using assms by (simp add: rune_ok_def cont_def)
qed

lemma rune_len_4:
  assumes "0xF0 \<le> a" "a \<le> 0xF4" "cont b" "cont c" "cont d" "a = 0xF0 \<longrightarrow> 0x90 \<le> b"
  shows "rune_ok [a, b, c, d]"
proof -
  have r: "240 \<le> unat a" "unat a \<le> 244" using unat_range [of 240 a 244] assms by simp_all
  have "1 \<le> unat a mod 8 \<or> 16 \<le> unat b mod 64"
  proof (cases "a = 0xF0")
    case True
    then have "144 \<le> unat b" "unat b \<le> 191" using unat_range [of 144 b 191] assms by (simp_all add: cont_def)
    then show ?thesis using mod_ge [of 144 b 47 64] by simp
  next
    case False
    then have "241 \<le> unat a" using r by (simp add: unat_eq_nat_uint [symmetric] word_unat_eq_iff)
    then show ?thesis using r mod_ge [of 241 a 3 8] by simp
  qed
  then have "128 \<le> rune_val [a, b, c, d]" by (auto simp: rune_val_def)
  moreover have "0x80 \<le> a" using order_trans [of "0x80" "0xF0" a] assms(1) by simp
  ultimately show ?thesis using assms by (simp add: rune_ok_def cont_def)
qed

lemma rune_len_ok:
  assumes "rune_len bs \<noteq> 0"
  shows "rune_ok (take (rune_len bs) bs)"
proof -
  from assms obtain b r where bs: "bs = b # r" by (cases bs) (simp_all add: rune_len_def)
  obtain n where n: "rune_len bs = n" by simp
  then have "n = 1 \<and> b < 0x80 \<or> n = 2 \<and> 0xC2 \<le> b \<and> b \<le> 0xDF \<and> 1 \<le> length r \<and> cont (r ! 0) \<or>
      n = 3 \<and> 0xE0 \<le> b \<and> b \<le> 0xEF \<and> 2 \<le> length r \<and> cont (r ! 0) \<and> cont (r ! 1) \<and> (b = 0xE0 \<longrightarrow> 0xA0 \<le> r ! 0) \<or>
      n = 4 \<and> 0xF0 \<le> b \<and> b \<le> 0xF4 \<and> 3 \<le> length r \<and> cont (r ! 0) \<and> cont (r ! 1) \<and> cont (r ! 2) \<and>
        (b = 0xF0 \<longrightarrow> 0x90 \<le> r ! 0)"
    using assms unfolding bs rune_len_def list.case by (simp split: if_splits)
  then consider "n = 1" "b < 0x80"
    | "n = 2" "0xC2 \<le> b" "b \<le> 0xDF" "1 \<le> length r" "cont (r ! 0)"
    | "n = 3" "0xE0 \<le> b" "b \<le> 0xEF" "2 \<le> length r" "cont (r ! 0)" "cont (r ! 1)" "b = 0xE0 \<longrightarrow> 0xA0 \<le> r ! 0"
    | "n = 4" "0xF0 \<le> b" "b \<le> 0xF4" "3 \<le> length r" "cont (r ! 0)" "cont (r ! 1)" "cont (r ! 2)" "b = 0xF0 \<longrightarrow> 0x90 \<le> r ! 0"
    by blast
  then have "rune_ok (take n bs)"
  proof cases
    case 1
    then show "rune_ok (take n bs)" by (simp add: bs rune_ok_def)
  next
    case 2
    then obtain x r' where "r = x # r'" by (cases r) auto
    then show "rune_ok (take n bs)" using 2 rune_len_2 [of b x] by (simp add: bs)
  next
    case 3
    then obtain x y r' where "r = x # y # r'" by (cases r; cases "tl r") auto
    then show "rune_ok (take n bs)" using 3 rune_len_3 [of b x y] by (simp add: bs)
  next
    case 4
    then obtain x y z r' where "r = x # y # z # r'" by (cases r; cases "tl r"; cases "tl (tl r)") auto
    then show "rune_ok (take n bs)" using 4 rune_len_4 [of b x y z] by (simp add: bs)
  qed
  then show ?thesis by (simp add: n)
qed

lemma runes_ok: "Rune bs \<in> set (runes s) \<Longrightarrow> rune_ok bs"
proof (induction s rule: runes.induct)
  case (2 b bs')
  then show ?case using rune_len_ok [of "b # bs'"] by (auto simp: Let_def split: if_splits)
qed simp

lemma rune_bytes:
  assumes "rune_ok bs" "b \<in> set bs"
  shows "b < 0x80 \<and> bs = [b] \<and> rune_val bs = unat b \<or> 0x80 \<le> b \<and> 0x80 \<le> rune_val bs"
  using assms by (auto simp: rune_ok_def rune_val_def)

lemma quote_rune_nl:
  assumes "print_table isPrint" "\<And>bs. r = Rune bs \<Longrightarrow> rune_ok bs"
  shows "0x0A \<notin> set (quote_rune isPrint r)"
proof (cases r)
  case (Rune bs)
  have "rune_val bs = 0x0A" if "0x0A \<in> set bs" using rune_bytes [OF assms(2) [OF Rune] that] by auto
  moreover have "\<not> isPrint 0x0A" using assms(1) by (simp add: print_table_def)
  ultimately show ?thesis
    using hex_not_nl [OF hex_pad_hex(1)]
    by (auto simp: Rune Let_def letter_escapes_def split: if_splits option.splits)
qed (use hex_not_nl [OF hex_pad_hex(1)] in simp)

lemma AppendQuote_nl: "print_table isPrint \<Longrightarrow> 0x0A \<notin> set (AppendQuote isPrint s)"
proof -
  assume "print_table isPrint"
  then have "0x0A \<notin> set (quote_rune isPrint r)" if "r \<in> set (runes s)" for r
    using that by (intro quote_rune_nl) (auto intro: runes_ok)
  then show ?thesis by (auto simp: AppendQuote_def quote_body_def)
qed

lemma digit_char: "k < 10 \<Longrightarrow> char_of (48 + k) \<in> set ''0123456789''" for k :: nat
proof -
  have "\<forall>k \<in> set [0..<10]. char_of (48 + k) \<in> set ''0123456789''" by code_simp
  then show "k < 10 \<Longrightarrow> ?thesis" by simp
qed

lemma digits_chars: "set (digits n) \<subseteq> set ''0123456789''"
proof (induction n rule: digits.induct)
  case (1 n)
  show ?case
  proof (cases "n < 10")
    case False
    have "set (digits n) = set (digits (n div 10)) \<union> {char_of (48 + n mod 10)}" using False by (subst digits.simps) simp
    then show ?thesis using 1 False digit_char [of "n mod 10"] by auto
  next
    case True
    have "set (digits n) = {char_of (48 + n)}" using True by (subst digits.simps) simp
    then show ?thesis using digit_char [OF True] by auto
  qed
qed

lemma itoa_nl: "0x0A \<notin> set (itoa n)"
proof -
  have "\<forall>c \<in> set ''0123456789''. of_char c \<noteq> (0x0A :: u8)" by simp
  then show ?thesis using digits_chars [of n] by (fastforce simp: itoa_def str_def simp del: insert_iff)
qed

text \<open>The texts the agent itself puts between quotes without quoting them: times, decisions and event types.\<close>

definition plain_fields :: "Record \<Rightarrow> bool" where
  "plain_fields rec \<longleftrightarrow> 0x0A \<notin> set (rc_Timestamp rec @ rc_Decision rec @ rc_EventType rec)"

lemma jkey_nl: "0x0A \<notin> set (str k) \<Longrightarrow> 0x0A \<notin> set (jkey k)"
  by (simp add: jkey_def)

lemma format_record_line:
  assumes "print_table isPrint" "plain_fields rec"
  shows "\<exists>l. format_record isPrint rec = l @ [0x0A] \<and> 0x0A \<notin> set l"
proof -
  have k: "0x0A \<notin> set (jkey k)" if "k \<in> {''timestamp'', ''decision'', ''event_type'', ''rule_name'', ''mitre'', ''tactic'',
      ''technique_id'', ''technique'', ''pid'', ''ppid'', ''uid'', ''comm'', ''cgroup_id'', ''target'', ''reason''}" for k
    using that by (auto intro!: jkey_nl simp: str_def)
  have "0x0A \<notin> set (butlast (format_record isPrint rec))" and "last (format_record isPrint rec) = 0x0A"
    "format_record isPrint rec \<noteq> []"
    using assms(2) AppendQuote_nl [OF assms(1)] k itoa_nl
    by (simp_all add: format_record_def plain_fields_def butlast_append split: option.split)
  then show ?thesis by (metis append_butlast_last_id)
qed

section \<open>JSON\<close>

text \<open>What may stand between the quotes of a JSON string.\<close>

function json_body :: "bytes \<Rightarrow> bool" where
  "json_body [] = True"
| "json_body (b # bs) =
     (if b = 0x5C then
        (case bs of
           [] \<Rightarrow> False
         | e # r \<Rightarrow>
             if e \<in> {0x22, 0x5C, 0x2F, 0x62, 0x66, 0x6E, 0x72, 0x74} then json_body r
             else e = 0x75 \<and> 4 \<le> length r \<and> list_all is_hex (take 4 r) \<and> json_body (drop 4 r))
      else 0x20 \<le> b \<and> b \<noteq> 0x22 \<and> json_body bs)"
  by pat_completeness auto

termination json_body
  by (relation "measure length") auto

text \<open>The characters whose escape is one of JSON's.\<close>

fun json_rune :: "(nat \<Rightarrow> bool) \<Rightarrow> rune \<Rightarrow> bool" where
  "json_rune isPrint (BadByte b) = False"
| "json_rune isPrint (Rune bs) =
     (let r = rune_val bs in
      isPrint r \<or> r \<in> {0x22, 0x5C, 8, 9, 10, 12, 13} \<or> 0x20 \<le> r \<and> r \<noteq> 0x7F \<and> r < 0x10000)"

lemma json_plain: "\<forall>b \<in> set bs. 0x80 \<le> b \<Longrightarrow> json_body (bs @ r) = json_body r"
proof (induction bs)
  case (Cons b bs)
  then have "0x80 \<le> b" by simp
  then have "b \<noteq> 0x5C" "b \<noteq> 0x22" "0x20 \<le> b" by (auto simp: word_le_nat_alt)
  then show ?case using Cons by simp
qed simp

lemma json_hex: "json_body ([0x5C, 0x75] @ hex_pad 4 n @ r) = json_body r"
  using hex_pad_hex [where w = 4 and n = n] by simp

lemma json_rune_step:
  assumes "print_table isPrint" "\<And>bs. x = Rune bs \<Longrightarrow> rune_ok bs"
  shows "json_body (quote_rune isPrint x @ r) = (json_rune isPrint x \<and> json_body r)"
proof (cases x)
  case (BadByte b)
  then show ?thesis by simp
next
  case (Rune bs)
  have np: "\<not> isPrint k" if "k < 0x20 \<or> k = 0x7F" for k using assms(1) that by (auto simp: print_table_def)
  consider b where "bs = [b]" "b < 0x80" "rune_val bs = unat b"
    | "\<forall>b \<in> set bs. 0x80 \<le> b" "0x80 \<le> rune_val bs"
    using assms(2) [OF Rune] by (auto simp: rune_ok_def rune_val_def)
  then show ?thesis
  proof cases
    case (1 b)
    let ?k = "unat b"
    consider (quote) "b = 0x22 \<or> b = 0x5C" | (print) "isPrint ?k" "b \<noteq> 0x22" "b \<noteq> 0x5C"
      | (other) "\<not> isPrint ?k" "b \<noteq> 0x22" "b \<noteq> 0x5C" by blast
    then show ?thesis
    proof cases
      case quote
      then show ?thesis using 1 by (auto simp: Rune)
    next
      case print
      then have "\<not> ?k < 0x20" using np [of ?k] by blast
      then have "0x20 \<le> b" by (simp add: word_le_nat_alt)
      moreover have "?k \<noteq> 0x22" "?k \<noteq> 0x5C" using print(2,3) by (auto simp: word_unat_eq_iff)
      ultimately show ?thesis using print 1 by (simp add: Rune)
    next
      case other
      have k: "?k \<noteq> 0x22" "?k \<noteq> 0x5C" "?k < 0x80" using other 1(2) by (auto simp: word_less_nat_alt word_unat_eq_iff)
      show ?thesis
      proof (cases "letter_escapes ?k")
        case (Some e)
        then have "?k \<in> {7, 8, 12, 10, 13, 9, 11}" by (simp add: letter_escapes_def split: if_splits)
        then show ?thesis using Some other 1 k by (auto simp: Rune letter_escapes_def)
      next
        case None
        then have n: "?k \<notin> {8, 9, 10, 12, 13}" by (auto simp: letter_escapes_def)
        show ?thesis
        proof (cases "?k < 0x20 \<or> ?k = 0x7F")
          case True
          then show ?thesis using None other 1 k n by (auto simp: Rune Let_def)
        next
          case False
          then have "quote_rune isPrint x = [0x5C, 0x75] @ hex_pad 4 ?k" using None other 1 k by (simp add: Rune Let_def)
          moreover have "json_rune isPrint x" using False 1 k by (simp add: Rune Let_def)
          ultimately show ?thesis using json_hex [of ?k r] by simp
        qed
      qed
    qed
  next
    case 2
    let ?k = "rune_val bs"
    have "letter_escapes ?k = None" using 2(2) by (simp add: letter_escapes_def)
    moreover have "\<not> json_body ([0x5C, 0x55] @ hex_pad 8 ?k @ r)" by simp
    ultimately show ?thesis using 2 json_plain [OF 2(1)] json_hex [of ?k r] by (auto simp: Rune Let_def simp del: append_Cons)
  qed
qed

lemma json_body_quote:
  assumes "print_table isPrint" "\<forall>bs. Rune bs \<in> set rs \<longrightarrow> rune_ok bs"
  shows "json_body (concat (map (quote_rune isPrint) rs)) = list_all (json_rune isPrint) rs"
  using assms(2)
proof (induction rs)
  case (Cons x rs)
  then show ?case using json_rune_step [OF assms(1), of x] by auto
qed simp

text \<open>
  C34: an audit record is always one line, and a line of JSON only if its strings are tame. However the process, its arguments and the
  files are named, a formatted record ends with the only newline it contains, so nothing logged can forge a
  second record. A quoted field is a JSON string exactly when it has no byte that is not UTF-8, no control character other
  than backspace, tab, newline, form feed and return, and no unprintable character beyond the basic plane: Go's escapes
  for the others are not JSON's.
\<close>

theorem audit_record_line:
  assumes "print_table isPrint" "plain_fields rec"
  shows "(\<exists>l. format_record isPrint rec = l @ [0x0A] \<and> 0x0A \<notin> set l) \<and>
     (json_body (quote_body isPrint (rc_Comm rec)) \<longleftrightarrow> list_all (json_rune isPrint) (runes (rc_Comm rec)))"
  using format_record_line [OF assms] json_body_quote [OF assms(1), of "runes (rc_Comm rec)"] runes_ok
  by (auto simp: quote_body_def)

text \<open>A process that has named itself with a control character and a newline.\<close>

definition ascii_print :: "nat \<Rightarrow> bool" where
  "ascii_print r \<longleftrightarrow> 0x20 \<le> r \<and> r < 0x7F"

definition record_sample :: Record where
  "record_sample =
     \<lparr>rc_Timestamp = str ''2026-01-01T00:00:00Z'', rc_Decision = str ''KILL'', rc_EventType = str ''EXEC'',
      rc_RuleName = str ''miner'', rc_Mitre = None, rc_PID = 9, rc_PPID = 1, rc_UID = 0, rc_Comm = [0x01, 0x0A, 0x78],
      rc_CgroupID = 0, rc_Target = [], rc_Reason = []\<rparr>"

theorem audit_record_line_witness:
  "(\<exists>l. format_record ascii_print record_sample = l @ [0x0A] \<and> 0x0A \<notin> set l) \<and>
   \<not> json_body (quote_body ascii_print (rc_Comm record_sample))"
proof -
  have "print_table ascii_print" "plain_fields record_sample"
    by (simp_all add: print_table_def ascii_print_def plain_fields_def record_sample_def str_def)
  from audit_record_line [OF this] show ?thesis
    by (simp add: record_sample_def rune_len_def rune_val_def Let_def ascii_print_def)
qed

section \<open>The logger\<close>

text \<open>
  The queue, what has been written, what was dropped because the queue was full, what a failing write lost, and
  whether the goroutine still runs. Written means taken by the buffered writer, whose errors stay.
\<close>

record 'a Logger =
  lg_ch :: "'a list"
  lg_written :: "'a list"
  lg_dropped :: "'a list"
  lg_lost :: "'a list"
  lg_running :: bool
  lg_logged :: "'a list"

definition NewLogger :: "'a Logger" where
  "NewLogger = \<lparr>lg_ch = [], lg_written = [], lg_dropped = [], lg_lost = [], lg_running = True, lg_logged = []\<rparr>"

definition Log :: "'a \<Rightarrow> 'a Logger \<Rightarrow> 'a Logger" where
  "Log rec l =
     (if length (lg_ch l) < 10000 then l\<lparr>lg_ch := lg_ch l @ [rec], lg_logged := lg_logged l @ [rec]\<rparr>
      else l\<lparr>lg_dropped := lg_dropped l @ [rec], lg_logged := lg_logged l @ [rec]\<rparr>)"

text \<open>One round of the loop of \<open>worker\<close>, with the outcome of the write.\<close>

definition worker_round :: "bool \<Rightarrow> 'a Logger \<Rightarrow> 'a Logger" where
  "worker_round ok l =
     (case lg_ch l of
        [] \<Rightarrow> l
      | rec # q \<Rightarrow>
          if \<not> lg_running l then l
          else if ok then l\<lparr>lg_ch := q, lg_written := lg_written l @ [rec]\<rparr>
          else l\<lparr>lg_ch := q, lg_lost := lg_lost l @ [rec], lg_running := False\<rparr>)"

datatype 'a log_op = OpLog 'a | OpRound bool

fun log_step :: "'a log_op \<Rightarrow> 'a Logger \<Rightarrow> 'a Logger" where
  "log_step (OpLog rec) l = Log rec l"
| "log_step (OpRound ok) l = worker_round ok l"

interpretation auditq: lossy_queue Log "\<lambda>l. lg_written l @ lg_lost l @ lg_ch l" lg_dropped
  by unfold_locales (simp add: Log_def)

definition logger_inv :: "'a Logger \<Rightarrow> bool" where
  "logger_inv l \<longleftrightarrow>
     length (lg_ch l) \<le> 10000 \<and> auditq.accounts (lg_logged l) l \<and>
     (lg_lost l = [] \<longleftrightarrow> lg_running l) \<and> length (lg_lost l) \<le> 1"

lemma Log_inv: "logger_inv l \<Longrightarrow> logger_inv (Log rec l)"
  using auditq.accounts_offer [of "lg_logged l" l rec] by (auto simp: logger_inv_def Log_def)

lemma worker_round_inv: "logger_inv l \<Longrightarrow> logger_inv (worker_round ok l)"
  by (cases "lg_ch l") (auto simp: logger_inv_def worker_round_def auditq.accounts_def)

lemma logger_inv_run: "logger_inv l \<Longrightarrow> logger_inv (fold log_step ops l)"
proof (induction ops arbitrary: l)
  case (Cons op ops)
  then show ?case by (cases op) (simp_all add: Log_inv worker_round_inv)
qed simp

lemma stopped_step: "\<not> lg_running l \<Longrightarrow> lg_written (log_step op l) = lg_written l \<and> \<not> lg_running (log_step op l)"
  by (cases op) (simp_all add: Log_def worker_round_def split: list.split)

lemma stopped_run: "\<not> lg_running l \<Longrightarrow> lg_written (fold log_step ops l) = lg_written l"
  by (induction ops arbitrary: l) (simp_all add: stopped_step)

text \<open>
  C26: the audit log loses records without a trace. Call a record written when the buffered writer in front of the file
  has taken it. In every run each record is written, waits, was dropped at a full queue or was the one
  whose write failed, exactly once; what is written is in the order of logging; and while the
  goroutine runs, with an empty queue and nothing dropped, everything logged has been written. But the
  first write that fails ends the goroutine for good: whatever is logged afterwards, no further
  record is written. What a failing write does to records still in the buffer is not covered.
\<close>

theorem audit_stops_at_error:
  assumes "l = fold log_step ops NewLogger"
  shows "subseq (lg_written l) (lg_logged l) \<and>
     mset (lg_written l) + mset (lg_lost l) + mset (lg_ch l) + mset (lg_dropped l) = mset (lg_logged l) \<and>
     (lg_running l \<and> lg_ch l = [] \<and> lg_dropped l = [] \<longrightarrow> lg_written l = lg_logged l) \<and>
     (lg_lost l \<noteq> [] \<longrightarrow> (\<forall>more. lg_written (fold log_step more l) = lg_written l))"
proof -
  have i: "logger_inv l" unfolding assms
    by (rule logger_inv_run) (simp add: logger_inv_def NewLogger_def auditq.accounts_def)
  then have acc: "auditq.accounts (lg_logged l) l" by (simp add: logger_inv_def)
  then have "subseq (lg_written l) (lg_logged l)"
    by (auto simp: auditq.accounts_def intro: subseq_order.trans [OF subseq_rev_drop_many [OF subseq_order.refl]])
  moreover have "lg_written l = lg_logged l" if "lg_running l" "lg_ch l = []" "lg_dropped l = []"
    using auditq.accounts_complete [OF acc that(3)] i that by (simp add: logger_inv_def)
  moreover have "lg_written (fold log_step more l) = lg_written l" if "lg_lost l \<noteq> []" for more
    using i that by (intro stopped_run) (simp add: logger_inv_def)
  ultimately show ?thesis using acc by (simp add: auditq.accounts_def union_assoc)
qed

theorem audit_stops_at_error_witness:
  "lg_written (fold log_step [OpLog (3 :: nat), OpRound True] (fold log_step [OpLog 1, OpRound True, OpLog 2, OpRound False] NewLogger)) = [1]"
proof -
  let ?l = "fold log_step [OpLog (1 :: nat), OpRound True, OpLog 2, OpRound False] NewLogger"
  have "lg_lost ?l \<noteq> []" "lg_written ?l = [1]" by (simp_all add: NewLogger_def Log_def worker_round_def)
  with audit_stops_at_error [OF refl, of "[OpLog (1 :: nat), OpRound True, OpLog 2, OpRound False]", THEN conjunct2,
      THEN conjunct2, THEN conjunct2, rule_format] show ?thesis by metis
qed

end
