(* ===== verification/KG_Metrics.thy ===== *)
theory KG_Metrics
  imports KG_Sinks KG_Response "HOL-Library.Product_Lexorder"
begin

text \<open>
  The counters of \<open>internal/metrics/metrics.go\<close>, and the two HTTP servers as far as they decide who may read: the bearer token
  of \<open>internal/dashboard/httpauth/httpauth.go\<close> and the way \<open>main.go\<close> mounts the handlers. A page of metrics is
  the list of its samples, a name, its labels and a value; the comment lines between them are constant.
\<close>

section \<open>The registry\<close>

text \<open>A Go map from labels to counters; its entries are listed in the order they were made, and shown sorted.\<close>

fun bump_key :: "'k \<Rightarrow> ('k \<times> u64) list \<Rightarrow> ('k \<times> u64) list" where
  "bump_key k [] = [(k, 1)]"
| "bump_key k ((j, v) # m) = (if j = k then (j, v + 1) # m else (j, v) # bump_key k m)"

type_synonym RuleHitKey = "gostring \<times> gostring \<times> gostring"

record Registry =
  rg_eventsTotal :: "(gostring \<times> u64) list"
  rg_ruleHitsTotal :: "(RuleHitKey \<times> u64) list"
  rg_killsTotal :: u64
  rg_killErrorsTotal :: u64
  rg_blocksTotal :: u64
  rg_ringbufDropsTotal :: u64
  rg_decodeErrorsTotal :: u64
  rg_sinkErrorsTotal :: "(gostring \<times> u64) list"
  rg_hashCheckErrorsTotal :: u64
  rg_sinkDropsTotal :: "(gostring \<times> u64) list"
  rg_buildInfo :: gostring

definition NewRegistry :: Registry where
  "NewRegistry =
     \<lparr>rg_eventsTotal = [], rg_ruleHitsTotal = [], rg_killsTotal = 0, rg_killErrorsTotal = 0, rg_blocksTotal = 0,
      rg_ringbufDropsTotal = 0, rg_decodeErrorsTotal = 0, rg_sinkErrorsTotal = [], rg_hashCheckErrorsTotal = 0,
      rg_sinkDropsTotal = [], rg_buildInfo = []\<rparr>"

definition SetBuildInfo :: "gostring \<Rightarrow> Registry \<Rightarrow> Registry" where
  "SetBuildInfo info r = r\<lparr>rg_buildInfo := info\<rparr>"

fun severity_text :: "severity \<Rightarrow> gostring" where
  "severity_text SeverityLow = str ''low''"
| "severity_text SeverityMedium = str ''medium''"
| "severity_text SeverityHigh = str ''high''"
| "severity_text SeverityCritical = str ''critical''"

fun action_text :: "rule_action \<Rightarrow> gostring" where
  "action_text ActionAlert = str ''ALERT''"
| "action_text ActionKill = str ''KILL''"
| "action_text ActionBlock = str ''BLOCK''"

datatype registry_op =
    EngineMetric metric | IncEvent gostring | IncDecodeError | IncRingbufDrop | IncSinkError gostring | IncSinkDrop gostring

fun inc :: "registry_op \<Rightarrow> Registry \<Rightarrow> Registry" where
  "inc (EngineMetric IncBlock) r = r\<lparr>rg_blocksTotal := rg_blocksTotal r + 1\<rparr>"
| "inc (EngineMetric IncKill) r = r\<lparr>rg_killsTotal := rg_killsTotal r + 1\<rparr>"
| "inc (EngineMetric IncKillError) r = r\<lparr>rg_killErrorsTotal := rg_killErrorsTotal r + 1\<rparr>"
| "inc (EngineMetric IncHashCheckError) r = r\<lparr>rg_hashCheckErrorsTotal := rg_hashCheckErrorsTotal r + 1\<rparr>"
| "inc (EngineMetric (IncRuleHit rule sev actn)) r =
     r\<lparr>rg_ruleHitsTotal := bump_key (rule, severity_text sev, action_text actn) (rg_ruleHitsTotal r)\<rparr>"
| "inc (IncEvent eventType) r = r\<lparr>rg_eventsTotal := bump_key eventType (rg_eventsTotal r)\<rparr>"
| "inc IncDecodeError r = r\<lparr>rg_decodeErrorsTotal := rg_decodeErrorsTotal r + 1\<rparr>"
| "inc IncRingbufDrop r = r\<lparr>rg_ringbufDropsTotal := rg_ringbufDropsTotal r + 1\<rparr>"
| "inc (IncSinkError sink) r = r\<lparr>rg_sinkErrorsTotal := bump_key sink (rg_sinkErrorsTotal r)\<rparr>"
| "inc (IncSinkDrop sink) r = r\<lparr>rg_sinkDropsTotal := bump_key sink (rg_sinkDropsTotal r)\<rparr>"

section \<open>The page\<close>

type_synonym series = "string \<times> (string \<times> gostring) list"
type_synonym samples = "(series \<times> int) list"

definition writeLabeled :: "string \<Rightarrow> string \<Rightarrow> (gostring \<times> u64) list \<Rightarrow> samples" where
  "writeLabeled metric label m = map (\<lambda>(k, v). ((metric, [(label, k)]), sint v)) (sort_key fst m)"

definition writeRuleHits :: "Registry \<Rightarrow> samples" where
  "writeRuleHits r =
     map (\<lambda>((rule, sev, actn), v).
            ((''kguard_rule_hits_total'', [(''rule'', rule), (''severity'', sev), (''action'', actn)]), sint v))
       (sort_key fst (rg_ruleHitsTotal r))"

definition Handler :: "Registry \<Rightarrow> samples" where
  "Handler r =
     writeLabeled ''kguard_events_total'' ''event_type'' (rg_eventsTotal r) @
     writeRuleHits r @
     [((''kguard_kills_total'', []), sint (rg_killsTotal r)),
      ((''kguard_kill_errors_total'', []), sint (rg_killErrorsTotal r)),
      ((''kguard_blocks_total'', []), sint (rg_blocksTotal r)),
      ((''kguard_ringbuf_drops_total'', []), sint (rg_ringbufDropsTotal r))] @
     writeLabeled ''kguard_sink_errors_total'' ''sink'' (rg_sinkErrorsTotal r) @
     writeLabeled ''kguard_sink_drops_total'' ''sink'' (rg_sinkDropsTotal r) @
     [((''kguard_hash_check_errors_total'', []), sint (rg_hashCheckErrorsTotal r)),
      ((''kguard_build_info'', [(''revision'', rg_buildInfo r)]), 1)]"

section \<open>Every increment is shown once\<close>

text \<open>The series an increment belongs to.\<close>

fun series_of :: "registry_op \<Rightarrow> series option" where
  "series_of (EngineMetric IncBlock) = Some (''kguard_blocks_total'', [])"
| "series_of (EngineMetric IncKill) = Some (''kguard_kills_total'', [])"
| "series_of (EngineMetric IncKillError) = Some (''kguard_kill_errors_total'', [])"
| "series_of (EngineMetric IncHashCheckError) = Some (''kguard_hash_check_errors_total'', [])"
| "series_of (EngineMetric (IncRuleHit rule sev actn)) =
     Some (''kguard_rule_hits_total'', [(''rule'', rule), (''severity'', severity_text sev), (''action'', action_text actn)])"
| "series_of (IncEvent eventType) = Some (''kguard_events_total'', [(''event_type'', eventType)])"
| "series_of IncDecodeError = None"
| "series_of IncRingbufDrop = Some (''kguard_ringbuf_drops_total'', [])"
| "series_of (IncSinkError sink) = Some (''kguard_sink_errors_total'', [(''sink'', sink)])"
| "series_of (IncSinkDrop sink) = Some (''kguard_sink_drops_total'', [(''sink'', sink)])"

definition hits :: "series \<Rightarrow> registry_op list \<Rightarrow> nat" where
  "hits sr ops = length (filter (\<lambda>op. series_of op = Some sr) ops)"

text \<open>A table of counters agrees with the increments of its series.\<close>

definition counts_of :: "('k \<Rightarrow> series) \<Rightarrow> registry_op list \<Rightarrow> ('k \<times> u64) list \<Rightarrow> bool" where
  "counts_of sr ops m \<longleftrightarrow>
     distinct (map fst m) \<and>
     (\<forall>k. map_of m k = (if hits (sr k) ops = 0 then None else Some (word_of_nat (hits (sr k) ops))))"

lemma bump_map_of: "map_of (bump_key k m) j = (if j = k then Some (case map_of m k of Some v \<Rightarrow> v + 1 | None \<Rightarrow> 1) else map_of m j)"
  by (induction k m rule: bump_key.induct) auto

lemma bump_keys: "set (map fst (bump_key k m)) = insert k (set (map fst m))"
  by (induction k m rule: bump_key.induct) auto

lemma bump_distinct: "distinct (map fst m) \<Longrightarrow> distinct (map fst (bump_key k m))"
proof (induction k m rule: bump_key.induct)
  case (2 k j v m)
  then show ?case using bump_keys [of k m] by auto
qed simp

lemma hits_Nil [simp]: "hits sr [] = 0" by (simp add: hits_def)

lemma hits_snoc: "hits sr (ops @ [op]) = hits sr ops + (if series_of op = Some sr then 1 else 0)"
  by (simp add: hits_def)

lemma hits_le: "hits sr ops \<le> length ops"
  by (simp add: hits_def)

lemma counts_bump:
  assumes "counts_of sr ops m" "series_of op = Some (sr k)" "inj sr"
  shows "counts_of sr (ops @ [op]) (bump_key k m)"
  using assms by (auto simp: counts_of_def bump_distinct bump_map_of hits_snoc inj_eq)

lemma counts_skip: "counts_of sr ops m \<Longrightarrow> (\<And>k. series_of op \<noteq> Some (sr k)) \<Longrightarrow> counts_of sr (ops @ [op]) m"
  by (simp add: counts_of_def hits_snoc)

abbreviation event_series :: "gostring \<Rightarrow> series" where "event_series k \<equiv> (''kguard_events_total'', [(''event_type'', k)])"
abbreviation rule_series :: "RuleHitKey \<Rightarrow> series" where
  "rule_series k \<equiv> (''kguard_rule_hits_total'', [(''rule'', fst k), (''severity'', fst (snd k)), (''action'', snd (snd k))])"
abbreviation error_series :: "gostring \<Rightarrow> series" where "error_series k \<equiv> (''kguard_sink_errors_total'', [(''sink'', k)])"
abbreviation drop_series :: "gostring \<Rightarrow> series" where "drop_series k \<equiv> (''kguard_sink_drops_total'', [(''sink'', k)])"

definition registry_rel :: "registry_op list \<Rightarrow> Registry \<Rightarrow> bool" where
  "registry_rel ops r \<longleftrightarrow>
     counts_of event_series ops (rg_eventsTotal r) \<and> counts_of rule_series ops (rg_ruleHitsTotal r) \<and>
     counts_of error_series ops (rg_sinkErrorsTotal r) \<and> counts_of drop_series ops (rg_sinkDropsTotal r) \<and>
     rg_killsTotal r = word_of_nat (hits (''kguard_kills_total'', []) ops) \<and>
     rg_killErrorsTotal r = word_of_nat (hits (''kguard_kill_errors_total'', []) ops) \<and>
     rg_blocksTotal r = word_of_nat (hits (''kguard_blocks_total'', []) ops) \<and>
     rg_ringbufDropsTotal r = word_of_nat (hits (''kguard_ringbuf_drops_total'', []) ops) \<and>
     rg_hashCheckErrorsTotal r = word_of_nat (hits (''kguard_hash_check_errors_total'', []) ops)"

lemma series_inj: "inj event_series" "inj rule_series" "inj error_series" "inj drop_series"
  by (auto intro!: injI)

lemma counts_bumps:
  "counts_of event_series ops m \<Longrightarrow> counts_of event_series (ops @ [IncEvent k]) (bump_key k m)"
  "counts_of rule_series ops m' \<Longrightarrow>
     counts_of rule_series (ops @ [EngineMetric (IncRuleHit rule sev actn)]) (bump_key (rule, severity_text sev, action_text actn) m')"
  "counts_of error_series ops m \<Longrightarrow> counts_of error_series (ops @ [IncSinkError k]) (bump_key k m)"
  "counts_of drop_series ops m \<Longrightarrow> counts_of drop_series (ops @ [IncSinkDrop k]) (bump_key k m)"
  by (simp_all add: counts_bump series_inj)

lemma registry_rel_inc: "registry_rel ops r \<Longrightarrow> registry_rel (ops @ [op]) (inc op r)"
  by (cases "(op, r)" rule: inc.cases) (simp_all add: registry_rel_def hits_snoc counts_bumps counts_skip)

lemma registry_rel_run: "registry_rel ops (fold inc ops (SetBuildInfo info NewRegistry))"
proof (induction ops rule: rev_induct)
  case Nil
  show ?case by (simp add: registry_rel_def counts_of_def NewRegistry_def SetBuildInfo_def)
qed (simp add: registry_rel_inc)

lemma sint_small: "n < 2 ^ 63 \<Longrightarrow> sint (word_of_nat n :: u64) = int n"
  using sint_sbintrunc' [where 'a = 64, of "int n"] by (simp add: signed_take_bit_int_eq_self)

lemma counts_samples:
  assumes "counts_of f ops m" "length ops < 2 ^ 63"
  shows "(sr, v) \<in> set (map (\<lambda>(k, w). (f k, sint w)) (sort_key fst m)) \<longleftrightarrow>
     (\<exists>k. sr = f k) \<and> 0 < hits sr ops \<and> v = int (hits sr ops)"
proof -
  have "(k, w) \<in> set m \<longleftrightarrow> 0 < hits (f k) ops \<and> w = word_of_nat (hits (f k) ops)" for k w
    using assms(1) map_of_eq_Some_iff [of m k w] by (auto simp: counts_of_def split: if_splits)
  then have "set m = (\<lambda>k. (k, word_of_nat (hits (f k) ops))) ` {k. 0 < hits (f k) ops}" by auto
  then have "(sr, v) \<in> set (map (\<lambda>(k, w). (f k, sint w)) (sort_key fst m)) \<longleftrightarrow>
      (\<exists>k. 0 < hits (f k) ops \<and> sr = f k \<and> v = sint (word_of_nat (hits (f k) ops) :: u64))"
    by (auto simp: image_iff)
  moreover have "sint (word_of_nat (hits (f k) ops) :: u64) = int (hits (f k) ops)" for k
    using hits_le [of "f k" ops] assms(2) by (intro sint_small) linarith
  ultimately show ?thesis by auto
qed

lemma counts_distinct:
  assumes "counts_of f ops m" "inj f"
  shows "distinct (map (\<lambda>(k, w). f k) (sort_key fst m))"
proof -
  have "mset (map fst (sort_key fst m)) = mset (map fst m)" by (simp add: mset_map)
  then have "distinct (map fst (sort_key fst m))"
    using assms(1) mset_eq_imp_distinct_iff by (fastforce simp: counts_of_def)
  then have "distinct (map f (map fst (sort_key fst m)))"
    using assms(2) by (simp only: distinct_map) (auto intro: inj_on_subset)
  then show ?thesis by (simp add: comp_def case_prod_unfold)
qed

lemma inc_buildInfo [simp]: "rg_buildInfo (inc op r) = rg_buildInfo r"
  by (cases "(op, r)" rule: inc.cases) simp_all

lemma run_buildInfo: "rg_buildInfo (fold inc ops r) = rg_buildInfo r"
  by (induction ops arbitrary: r) simp_all

definition scalar_series :: "series list" where
  "scalar_series =
     map (\<lambda>n. (n, [])) [''kguard_kills_total'', ''kguard_kill_errors_total'', ''kguard_blocks_total'',
       ''kguard_ringbuf_drops_total'', ''kguard_hash_check_errors_total'']"

lemma scalar_samples:
  "sr \<in> set scalar_series \<and> v = f sr \<longleftrightarrow>
     (sr, v) \<in> set (map (\<lambda>sr. (sr, f sr)) (butlast scalar_series)) \<or> (sr, v) = (last scalar_series, f (last scalar_series))"
  by (auto simp: scalar_series_def)

lemma hits_series:
  assumes "0 < hits sr ops"
  shows "sr \<in> set scalar_series \<or> (\<exists>k. sr = event_series k) \<or> (\<exists>k. sr = rule_series k) \<or>
     (\<exists>k. sr = error_series k) \<or> (\<exists>k. sr = drop_series k)"
proof -
  obtain op where "series_of op = Some sr" using assms by (auto simp: hits_def filter_empty_conv)
  then have "sr = the (series_of op)" "series_of op \<noteq> None" by simp_all
  then show ?thesis by (cases op rule: series_of.cases) (simp_all add: scalar_series_def)
qed

lemma Handler_decode: "Handler (r\<lparr>rg_decodeErrorsTotal := x\<rparr>) = Handler r"
  by (simp add: Handler_def writeRuleHits_def)

lemma inc_decode: "op \<noteq> IncDecodeError \<Longrightarrow> (inc op r)\<lparr>rg_decodeErrorsTotal := x\<rparr> = inc op (r\<lparr>rg_decodeErrorsTotal := x\<rparr>)"
  by (cases "(op, r)" rule: inc.cases) simp_all

lemma fold_inc_decode:
  "(fold inc ops r)\<lparr>rg_decodeErrorsTotal := x\<rparr> =
   fold inc (filter (\<lambda>op. op \<noteq> IncDecodeError) ops) (r\<lparr>rg_decodeErrorsTotal := x\<rparr>)"
proof (induction ops arbitrary: r)
  case (Cons op ops)
  then show ?case by (cases "op = IncDecodeError") (simp_all add: inc_decode)
qed simp

lemma decode_unseen:
  "Handler (fold inc ops r) = Handler (fold inc (filter (\<lambda>op. op \<noteq> IncDecodeError) ops) (r\<lparr>rg_decodeErrorsTotal := 0\<rparr>))"
  using fold_inc_decode [where x = 0] Handler_decode [where x = 0] by metis

lemma Handler_parts:
  assumes "registry_rel ops r" "length ops < 2 ^ 63"
  shows "Handler r =
     map (\<lambda>(k, w). (event_series k, sint w)) (sort_key fst (rg_eventsTotal r)) @
     map (\<lambda>(k, w). (rule_series k, sint w)) (sort_key fst (rg_ruleHitsTotal r)) @
     map (\<lambda>sr. (sr, int (hits sr ops))) (butlast scalar_series) @
     map (\<lambda>(k, w). (error_series k, sint w)) (sort_key fst (rg_sinkErrorsTotal r)) @
     map (\<lambda>(k, w). (drop_series k, sint w)) (sort_key fst (rg_sinkDropsTotal r)) @
     [(last scalar_series, int (hits (last scalar_series) ops)), ((''kguard_build_info'', [(''revision'', rg_buildInfo r)]), 1)]"
proof -
  have "hits sr ops < 2 ^ 63" for sr using hits_le [of sr ops] assms(2) by linarith
  then show ?thesis
    using assms(1)
    by (simp add: Handler_def writeLabeled_def writeRuleHits_def case_prod_unfold scalar_series_def registry_rel_def sint_small)
qed

lemma Handler_samples:
  assumes "registry_rel ops r" "length ops < 2 ^ 63" "rg_buildInfo r = info"
  shows "((n, l), v) \<in> set (Handler r) \<longleftrightarrow>
     (if n = ''kguard_build_info'' then l = [(''revision'', info)] \<and> v = 1
      else ((n, l) \<in> set scalar_series \<or> 0 < hits (n, l) ops) \<and> v = int (hits (n, l) ops))"
proof -
  have c1: "counts_of event_series ops (rg_eventsTotal r)" and c2: "counts_of rule_series ops (rg_ruleHitsTotal r)"
    and c3: "counts_of error_series ops (rg_sinkErrorsTotal r)" and c4: "counts_of drop_series ops (rg_sinkDropsTotal r)"
    using assms(1) by (simp_all add: registry_rel_def)
  note page = Handler_parts [OF assms(1,2), unfolded assms(3)]
  note s = counts_samples [OF _ assms(2)]
  let ?labelled = "\<lambda>sr. (\<exists>k. sr = event_series k) \<or> (\<exists>k. sr = rule_series k) \<or>
    (\<exists>k. sr = error_series k) \<or> (\<exists>k. sr = drop_series k)"
  have mem: "(sr, v) \<in> set (Handler r) \<longleftrightarrow>
      ?labelled sr \<and> 0 < hits sr ops \<and> v = int (hits sr ops) \<or> sr \<in> set scalar_series \<and> v = int (hits sr ops) \<or>
      (sr, v) = ((''kguard_build_info'', [(''revision'', info)]), 1)" for sr
    using scalar_samples [of sr v "\<lambda>sr. int (hits sr ops)"]
    unfolding page set_append Un_iff s [OF c1] s [OF c2] s [OF c3] s [OF c4] list.set insert_iff empty_iff by argo
  have form: "0 < hits (n, l) ops \<Longrightarrow> (n, l) \<in> set scalar_series \<or> ?labelled (n, l)" by (rule hits_series)
  have none: "n = ''kguard_build_info'' \<Longrightarrow> \<not> ?labelled (n, l) \<and> (n, l) \<notin> set scalar_series" by (simp add: scalar_series_def)
  show ?thesis
  proof (cases "n = ''kguard_build_info''")
    case True
    then show ?thesis using mem [of "(n, l)"] none [OF True] by (simp only: simp_thms if_True prod.inject)
  next
    case False
    then have "((n, l), v) \<noteq> ((''kguard_build_info'', [(''revision'', info)]), 1)" by simp
    then show ?thesis using mem [of "(n, l)"] form unfolding if_not_P [OF False] by argo
  qed
qed

text \<open>
  C35: the page of metrics shows every increment exactly once. After any sequence of fewer than \<open>2\<^sup>6\<^sup>3\<close> increments, no series occurs twice, the five
  plain counters are always there, a labelled series is there exactly when it was incremented, and every value is the number
  of increments of its series. Decoding errors are counted and belong to no series: no page shows them.
\<close>

theorem metrics_exposition:
  assumes "length ops < 2 ^ 63" and "page = Handler (fold inc ops (SetBuildInfo info NewRegistry))"
  shows "distinct (map fst page) \<and>
     (((n, l), v) \<in> set page \<longleftrightarrow>
        (if n = ''kguard_build_info'' then l = [(''revision'', info)] \<and> v = 1
         else ((n, l) \<in> set scalar_series \<or> 0 < hits (n, l) ops) \<and> v = int (hits (n, l) ops))) \<and>
     page = Handler (fold inc (filter (\<lambda>op. op \<noteq> IncDecodeError) ops) (SetBuildInfo info NewRegistry))"
proof -
  let ?r = "fold inc ops (SetBuildInfo info NewRegistry)"
  have rel: "registry_rel ops ?r" by (rule registry_rel_run)
  have info: "rg_buildInfo ?r = info" by (simp add: run_buildInfo SetBuildInfo_def NewRegistry_def)
  have c1: "counts_of event_series ops (rg_eventsTotal ?r)" and c2: "counts_of rule_series ops (rg_ruleHitsTotal ?r)"
    and c3: "counts_of error_series ops (rg_sinkErrorsTotal ?r)" and c4: "counts_of drop_series ops (rg_sinkDropsTotal ?r)"
    using rel by (simp_all add: registry_rel_def)
  note page = Handler_parts [OF rel assms(1), unfolded info, folded assms(2)]
  have "distinct (map fst page)"
    using counts_distinct [OF c1 series_inj(1)] counts_distinct [OF c2 series_inj(2)]
      counts_distinct [OF c3 series_inj(3)] counts_distinct [OF c4 series_inj(4)]
    by (auto simp: page comp_def case_prod_unfold scalar_series_def)
  moreover have "((n, l), v) \<in> set page \<longleftrightarrow>
        (if n = ''kguard_build_info'' then l = [(''revision'', info)] \<and> v = 1
         else ((n, l) \<in> set scalar_series \<or> 0 < hits (n, l) ops) \<and> v = int (hits (n, l) ops))"
    unfolding assms(2) by (rule Handler_samples [OF rel assms(1) info])
  moreover have "page = Handler (fold inc (filter (\<lambda>op. op \<noteq> IncDecodeError) ops) (SetBuildInfo info NewRegistry))"
    using decode_unseen [of ops "SetBuildInfo info NewRegistry"] assms(2) by (simp add: SetBuildInfo_def NewRegistry_def)
  ultimately show ?thesis by simp
qed

theorem metrics_exposition_witness:
  "((''kguard_events_total'', [(''event_type'', str ''EXEC'')]), 2)
     \<in> set (Handler (fold inc [IncEvent (str ''EXEC''), IncDecodeError, IncEvent (str ''EXEC'')] (SetBuildInfo [] NewRegistry)))"
proof -
  let ?ops = "[IncEvent (str ''EXEC''), IncDecodeError, IncEvent (str ''EXEC'')]"
  have "length ?ops < 2 ^ 63" by simp
  note p = metrics_exposition [OF this refl, where n = "''kguard_events_total''" and l = "[(''event_type'', str ''EXEC'')]"
      and v = 2 and info = "[]"]
  have "hits (''kguard_events_total'', [(''event_type'', str ''EXEC'')]) ?ops = 2" by (simp add: hits_def)
  with p [THEN conjunct2, THEN conjunct1] show ?thesis by (simp only: if_not_P) auto
qed

section \<open>Rule hits\<close>

lemma emit_alert_counts [simp]:
  "en_metrics (emit_alert E a s) = en_metrics s" "length (en_alerts (emit_alert E a s)) = Suc (length (en_alerts s))"
  by (simp_all add: emit_alert_def case_prod_unfold Let_def)

lemma match_hits:
  assumes "\<not> m_PathTruncated m"
  shows "length (en_alerts (snd (processExecRuleMatch E r m s))) = Suc (length (en_alerts s))"
    and "\<exists>ms. en_metrics (snd (processExecRuleMatch E r m s)) =
           en_metrics s @ IncRuleHit (r_name r) (r_Severity r) (r_action r) # ms \<and> set ms \<subseteq> {IncKill, IncKillError}"
  using assms
  by (cases rule: SafeKill_cases [of E "m_PID m" "count_metric (IncRuleHit (r_name r) (r_Severity r) (r_action r)) s"],
      auto simp: processExecRuleMatch_def Let_def)+

definition rule_hits :: "rule \<Rightarrow> engine \<Rightarrow> nat" where
  "rule_hits r s =
     hits (''kguard_rule_hits_total'',
       [(''rule'', r_name r), (''severity'', severity_text (r_Severity r)), (''action'', action_text (r_action r))])
       (map EngineMetric (en_metrics s))"

lemma hits_append: "hits sr (xs @ ys) = hits sr xs + hits sr ys"
  by (simp add: hits_def)

text \<open>
  A rule match is counted twice. When an execution is analysed, one rule matches it and the deduplicator lets the match
  through, exactly one alert is raised, and the counter of rule matches for the rule's name, severity and action goes up
  by two: it is incremented where the rule matches and again where the match is handled.
\<close>

theorem rule_hit_counted_twice:
  assumes "c_Rules (en_cfg s) = [r]" "\<And>ctx. ee_cel E r ctx" "\<not> isAllowlisted (en_cfg s) (m_Filename m)"
    and "no_writes (en_corr s)" "\<not> m_IsFileless m" "\<not> m_PathTruncated m"
    and "fst (Allow (ee_now E) (key_of [r_name r, itoa (unat (m_PID m))]) (en_dedup s))"
  defines "s' \<equiv> Engine_AnalyzeExec E m False s"
  shows "length (en_alerts s') = length (en_alerts s) + 1 \<and> rule_hits r s' = rule_hits r s + 2"
proof -
  let ?s2 = "s\<lparr>en_corr := RecordExec (ee_now E) (m_PID m) (m_PPID m) (m_Comm m) (m_Filename m) (en_corr s)\<rparr>"
  let ?sha = "if ee_requires_sha E then ee_sha E (m_PID m) else Some []"
  let ?s3 = "if ?sha = None then count_metric IncHashCheckError ?s2 else ?s2"
  let ?hit = "IncRuleHit (r_name r) (r_Severity r) (r_action r)"
  let ?s4 = "snd (dedup_allow E (key_of [r_name r, itoa (unat (m_PID m))]) (count_metric ?hit ?s3))"
  have "s' = exec_rules E m (exec_context E s ''EXEC'' (case ?sha of Some h \<Rightarrow> h | None \<Rightarrow> []) m) [r] ?s3"
    using assms(1,3-5) by (simp add: s'_def Engine_AnalyzeExec_def Let_def GetRecentWrite_none)
  also have "\<dots> = snd (processExecRuleMatch E r m ?s4)"
    using assms(2,7) by (auto simp: dedup_allow_def count_metric_def Let_def case_prod_unfold)
  finally have s': "s' = snd (processExecRuleMatch E r m ?s4)" .
  have a: "length (en_alerts ?s4) = length (en_alerts s)" by simp
  have m: "en_metrics ?s4 = en_metrics s @ (if ?sha = None then [IncHashCheckError] else []) @ [?hit]"
    by (simp add: dedup_allow_def Let_def case_prod_unfold)
  obtain ms where "en_metrics s' = en_metrics ?s4 @ ?hit # ms" "set ms \<subseteq> {IncKill, IncKillError}"
    using match_hits(2) [OF assms(6), of E r ?s4] s' by blast
  moreover have "hits (''kguard_rule_hits_total'', l) (map EngineMetric ms) = 0" if "set ms \<subseteq> {IncKill, IncKillError}" for l
    using that by (auto simp: hits_def filter_empty_conv)
  ultimately have "rule_hits r s' = rule_hits r s + 2"
    by (simp add: rule_hits_def m hits_append) (simp add: hits_def)
  then show ?thesis using match_hits(1) [OF assms(6), of E r ?s4] a s' by simp
qed

theorem rule_hit_counted_twice_witness:
  "rule_hits (block_rule RuleModeAudit [] []) (Engine_AnalyzeExec eenv_plain meta_sample False
     (NewEngine (config_rules [block_rule RuleModeAudit [] []]))) = 2"
proof -
  let ?r = "block_rule RuleModeAudit [] []"
  let ?s = "NewEngine (config_rules [?r])"
  have "c_Rules (en_cfg ?s) = [?r]" "\<And>ctx. ee_cel eenv_plain ?r ctx" "\<not> isAllowlisted (en_cfg ?s) (m_Filename meta_sample)"
    "no_writes (en_corr ?s)" "\<not> m_IsFileless meta_sample" "\<not> m_PathTruncated meta_sample"
    by (simp_all add: config_rules_def eenv_plain_def isAllowlisted_def meta_sample_def)
  moreover have "fst (Allow (ee_now eenv_plain) (key_of [r_name ?r, itoa (unat (m_PID meta_sample))]) (en_dedup ?s))"
    by (simp add: Allow_def NewEngine_def engine_config_def NewDeduper_def SetWindow_def Let_def)
  ultimately have "rule_hits ?r (Engine_AnalyzeExec eenv_plain meta_sample False ?s) = rule_hits ?r ?s + 2"
    by (intro rule_hit_counted_twice [THEN conjunct2])
  then show ?thesis by (simp add: rule_hits_def)
qed

section \<open>Who may read\<close>

text \<open>
  The answer to a request: refused, the handler's answer, or not found. A request is its path and its \<open>Authorization\<close> header, empty when
  absent. \<open>next\<close> is the handler behind the check.
\<close>

datatype 'a response = Unauthorized | NotFound | Serve 'a

definition RequireBearer :: "gostring \<Rightarrow> (gostring \<Rightarrow> 'a response) \<Rightarrow> gostring \<times> gostring \<Rightarrow> 'a response" where
  "RequireBearer token nxt req =
     (if token = [] then nxt (fst req)
      else let got = TrimPrefix (snd req) (str ''Bearer '') in
           if length got \<noteq> length token \<or> got \<noteq> token then Unauthorized else nxt (fst req))"

definition resolveToken :: "gostring \<Rightarrow> gostring \<Rightarrow> gostring" where
  "resolveToken envVal cfgVal = (if envVal \<noteq> [] then envVal else cfgVal)"

datatype page = HealthPage | MetricsPage | IndexPage | AlertsPage | RuleTestPage

text \<open>The two servers as \<open>main.go\<close> and \<open>dashboard.go\<close> mount them, for request paths without empty or dot elements.\<close>

definition metrics_server :: "gostring \<Rightarrow> gostring \<times> gostring \<Rightarrow> page response" where
  "metrics_server token req =
     (if fst req = str ''/healthz'' then Serve HealthPage
      else RequireBearer token (\<lambda>p. if p = str ''/metrics'' then Serve MetricsPage else NotFound) req)"

definition dashboard_server :: "gostring \<Rightarrow> gostring \<times> gostring \<Rightarrow> page response" where
  "dashboard_server token req =
     RequireBearer token
       (\<lambda>p. if p = str ''/api/alerts'' then Serve AlertsPage
             else if p = str ''/api/v1/rules/test'' then Serve RuleTestPage else Serve IndexPage) req"

lemma RequireBearer_passes:
  "RequireBearer token nxt req = Unauthorized \<longleftrightarrow>
     nxt (fst req) = Unauthorized \<or> token \<noteq> [] \<and> TrimPrefix (snd req) (str ''Bearer '') \<noteq> token"
  by (auto simp: RequireBearer_def Let_def)

text \<open>
  Nothing but the health page is served without the token. When a token is set, from the environment or else from the
  configuration, both servers refuse every request whose authorization header is neither the token behind \<open>Bearer\<close> nor, when
  the token does not itself begin so, the bare token; and they answer the others. The health page asks for nothing.
\<close>

theorem servers_need_token:
  assumes "token = resolveToken envVal cfgVal" "token \<noteq> []"
    and "ok = (auth = str ''Bearer '' @ token \<or> auth = token \<and> \<not> prefix (str ''Bearer '') token)"
  shows "(dashboard_server token (path, auth) \<noteq> Unauthorized \<longleftrightarrow> ok) \<and>
     (metrics_server token (path, auth) \<noteq> Unauthorized \<longleftrightarrow> ok \<or> path = str ''/healthz'') \<and>
     (metrics_server token (path, auth) = Serve MetricsPage \<longleftrightarrow> ok \<and> path = str ''/metrics'')"
proof (intro conjI)
  have t: "TrimPrefix auth (str ''Bearer '') = token \<longleftrightarrow> ok"
    unfolding assms(3) TrimPrefix_def by (auto simp: prefix_def)
  show "dashboard_server token (path, auth) \<noteq> Unauthorized \<longleftrightarrow> ok"
    using assms(2) t by (simp add: dashboard_server_def RequireBearer_passes)
  show "metrics_server token (path, auth) \<noteq> Unauthorized \<longleftrightarrow> ok \<or> path = str ''/healthz''"
    using assms(2) t by (simp add: metrics_server_def RequireBearer_passes)
  show "metrics_server token (path, auth) = Serve MetricsPage \<longleftrightarrow> ok \<and> path = str ''/metrics''"
    using assms(2) t by (auto simp: metrics_server_def RequireBearer_def Let_def str_def)
qed

theorem servers_need_token_witness:
  "dashboard_server (resolveToken (str ''s3cret'') []) (str ''/'', str ''Bearer guess'') = Unauthorized"
proof -
  have "resolveToken (str ''s3cret'') [] \<noteq> []" by (simp add: resolveToken_def str_def)
  from servers_need_token [OF refl this refl, of "str ''/''" "str ''Bearer guess''"] show ?thesis
    by (simp add: resolveToken_def str_def)
qed

end
