(* ===== verification/KG_Hash.thy ===== *)
theory KG_Hash
  imports KG_Pods KG_Response
begin

text \<open>
  Digests of executables, \<open>internal/processor/hash.go\<close>: one computation per event, behind a cache of digests by path that is trusted
  while inode, modification time and size of the file stay the same. SHA-256 with its hexadecimal output is a parameter; what the kernel says about
  \<open>/proc/<pid>/exe\<close> is the input of a call. The digest reaches the rules through \<open>AnalyzeExec\<close> in \<open>engine.go\<close>; \<open>matchesSHA256\<close>, which
  compares without regard to letter case, is called by the tests only.
\<close>

section \<open>The digest of an executable\<close>

text \<open>
  One look at an executable: its inode, modification time and size, with whether the platform gives them, unless \<open>Stat\<close> fails; the resolved path; and
  the contents, when the file can be opened and read.
\<close>

type_synonym identity = "u64 \<times> int \<times> int"

record exe_view =
  xv_stat :: "(identity \<times> bool) option"
  xv_path :: "gostring option"
  xv_data :: "bytes option"

datatype hash_error = StatFailed | OpenOrReadFailed

record execHash =
  xh_pid :: u32
  xh_result :: "hash_error + gostring"
  xh_computed :: bool

definition new_execHash :: "u32 \<Rightarrow> execHash" where
  "new_execHash pid = \<lparr>xh_pid = pid, xh_result = Inr [], xh_computed = False\<rparr>"

type_synonym hash_cache = "(gostring, gostring \<times> identity) lruCache"

definition globalHashCache :: hash_cache where
  "globalHashCache = newLRUCache 1000"

definition execHash_get ::
    "(bytes \<Rightarrow> gostring) \<Rightarrow> exe_view \<Rightarrow> execHash \<Rightarrow> hash_cache \<Rightarrow> (hash_error + gostring) \<times> execHash \<times> hash_cache" where
  "execHash_get sha V h c =
     (if xh_computed h then (xh_result h, h, c)
      else
        let done = (\<lambda>r c. (r, h\<lparr>xh_computed := True, xh_result := r\<rparr>, c));
            procPath = str ''/proc/'' @ itoa (unat (xh_pid h)) @ str ''/exe''
        in case xv_stat V of
             None \<Rightarrow> done (Inl StatFailed) c
           | Some (ident, ok) \<Rightarrow>
               let resolvedPath = (case xv_path V of Some p \<Rightarrow> p | None \<Rightarrow> procPath);
                   (cached, c1) = lru_Get resolvedPath c
               in case cached of
                    Some (hx, ident') \<Rightarrow>
                      if ok \<and> ident' = ident then done (Inr hx) c1
                      else (case xv_data V of
                              None \<Rightarrow> done (Inl OpenOrReadFailed) c1
                            | Some d \<Rightarrow> done (Inr (sha d)) (lru_Add resolvedPath (sha d, ident) c1))
                  | None \<Rightarrow>
                      (case xv_data V of
                         None \<Rightarrow> done (Inl OpenOrReadFailed) c1
                       | Some d \<Rightarrow> done (Inr (sha d)) (lru_Add resolvedPath (sha d, ident) c1)))"

definition matchesSHA256 ::
    "(bytes \<Rightarrow> gostring) \<Rightarrow> exe_view \<Rightarrow> execHash \<Rightarrow> gostring \<Rightarrow> hash_cache \<Rightarrow> (hash_error + bool) \<times> execHash \<times> hash_cache" where
  "matchesSHA256 sha V h wantHex c =
     (case execHash_get sha V h c of
        (Inl e, h', c') \<Rightarrow> (Inl e, h', c')
      | (Inr got, h', c') \<Rightarrow> (Inr (got = ToLower wantHex), h', c'))"

section \<open>When the cache can be trusted\<close>

text \<open>\<open>vers\<close> says what a file held at a path under an identity: the contents may change only together with the identity.\<close>

definition view_path :: "u32 \<Rightarrow> exe_view \<Rightarrow> gostring" where
  "view_path pid V = (case xv_path V of Some p \<Rightarrow> p | None \<Rightarrow> str ''/proc/'' @ itoa (unat pid) @ str ''/exe'')"

definition consistent :: "(gostring \<Rightarrow> identity \<Rightarrow> bytes) \<Rightarrow> u32 \<times> exe_view \<Rightarrow> bool" where
  "consistent vers e \<longleftrightarrow>
     (case xv_stat (snd e) of
        None \<Rightarrow> True
      | Some (ident, ok) \<Rightarrow>
          ok \<and> (case xv_data (snd e) of None \<Rightarrow> True | Some d \<Rightarrow> d = vers (view_path (fst e) (snd e)) ident))"

abbreviation hash_cache_ok :: "(bytes \<Rightarrow> gostring) \<Rightarrow> (gostring \<Rightarrow> identity \<Rightarrow> bytes) \<Rightarrow> hash_cache \<Rightarrow> bool" where
  "hash_cache_ok sha vers \<equiv> cache_all (\<lambda>p (hx, ident). hx = sha (vers p ident))"

definition hash_call :: "(bytes \<Rightarrow> gostring) \<Rightarrow> u32 \<times> exe_view \<Rightarrow> hash_cache \<Rightarrow> hash_cache" where
  "hash_call sha e c = snd (snd (execHash_get sha (snd e) (new_execHash (fst e)) c))"

lemma execHash_get_cases:
  assumes "hash_cache_ok sha vers c" "consistent vers (pid, V)" "xv_stat V = Some (ident, ok)"
  shows "hash_cache_ok sha vers (hash_call sha (pid, V) c) \<and>
     (case fst (execHash_get sha V (new_execHash pid) c) of
        Inr hx \<Rightarrow> hx = sha (vers (view_path pid V) ident)
      | Inl e \<Rightarrow> e = OpenOrReadFailed \<and> xv_data V = None)"
proof -
  let ?p = "view_path pid V"
  obtain v c1 where g: "lru_Get ?p c = (v, c1)" by fastforce
  have c1: "hash_cache_ok sha vers c1" using cache_all_Get [OF assms(1), of ?p] g by simp
  have v: "hx = sha (vers ?p i)" if "v = Some (hx, i)" for hx i
    using cache_all_value [OF assms(1), of ?p "(hx, i)"] g that by simp
  have ok: "ok" and d: "\<And>d. xv_data V = Some d \<Longrightarrow> d = vers ?p ident"
    using assms(2,3) by (auto simp: consistent_def)
  have a: "hash_cache_ok sha vers (lru_Add ?p (sha (vers ?p ident), ident) c1)" using c1 by (rule cache_all_Add) simp
  show ?thesis
    unfolding hash_call_def
    using c1 v ok d a g assms(3)
    by (cases "xv_data V"; cases v)
      (auto simp: execHash_get_def new_execHash_def view_path_def [symmetric] Let_def split: if_splits)
qed

lemma hash_call_ok: "hash_cache_ok sha vers c \<Longrightarrow> consistent vers e \<Longrightarrow> hash_cache_ok sha vers (hash_call sha e c)"
proof (cases "xv_stat (snd e)")
  case None
  then show "hash_cache_ok sha vers c \<Longrightarrow> ?thesis" by (simp add: hash_call_def execHash_get_def new_execHash_def Let_def)
next
  case (Some st)
  then show "hash_cache_ok sha vers c \<Longrightarrow> consistent vers e \<Longrightarrow> ?thesis"
    using execHash_get_cases [of sha vers c "fst e" "snd e" "fst st" "snd st"] by simp
qed

lemma hash_calls_ok:
  "hash_cache_ok sha vers c \<Longrightarrow> \<forall>e \<in> set calls. consistent vers e \<Longrightarrow> hash_cache_ok sha vers (fold (hash_call sha) calls c)"
  by (induction calls arbitrary: c) (simp_all add: hash_call_ok)

lemma hash_call_capacity: "lc_capacity (hash_call sha e c) = lc_capacity c"
  by (simp add: hash_call_def execHash_get_def new_execHash_def Let_def lru.get_cap lru.add_cap case_prod_unfold
      split: option.split prod.split)

lemma hash_calls_capacity: "lc_capacity (fold (hash_call sha) calls c) = lc_capacity c"
  by (induction calls arbitrary: c) (simp_all add: hash_call_capacity)

lemma execHash_get_digest:
  assumes "\<forall>e \<in> set calls. consistent vers e" "consistent vers (pid, V)"
    and "xv_stat V = Some (ident, ok)" "xv_data V = Some d" "c = fold (hash_call sha) calls globalHashCache"
  shows "fst (execHash_get sha V (new_execHash pid) c) = Inr (sha d)" "length (entries c) \<le> 1000"
proof -
  have c: "hash_cache_ok sha vers c" unfolding assms(5) globalHashCache_def using assms(1) by (intro hash_calls_ok) simp_all
  have "d = vers (view_path pid V) ident" using assms(2,3,4) by (simp add: consistent_def)
  then show "fst (execHash_get sha V (new_execHash pid) c) = Inr (sha d)"
    using execHash_get_cases [OF c assms(2,3)] assms(4) by (auto split: sum.splits)
  have "lc_capacity c = 1000" by (simp add: assms(5) hash_calls_capacity globalHashCache_def newLRUCache_def)
  then show "length (entries c) \<le> 1000" using c lru.bound [of c] by (simp add: cache_all_def)
qed

section \<open>The digest in the rules\<close>

text \<open>What the engine makes of the two results of \<open>get\<close>: the digest, or a counted error.\<close>

definition hash_value :: "(hash_error + gostring) \<times> execHash \<times> hash_cache \<Rightarrow> gostring option" where
  "hash_value r = (case fst r of Inl e \<Rightarrow> None | Inr hx \<Rightarrow> Some hx)"

lemma match_metrics:
  "\<exists>ms. en_metrics (snd (processExecRuleMatch E r m s)) = en_metrics s @ ms"
  by (cases rule: SafeKill_cases [of E "m_PID m"
        "count_metric (IncRuleHit (r_name r) (if m_PathTruncated m \<and> Rank (r_Severity r) < Rank SeverityMedium
           then SeverityMedium else r_Severity r) (r_action r)) s"])
    (auto simp: processExecRuleMatch_def Let_def)

lemma exec_rules_single:
  assumes "ee_cel E r ctx"
  shows "\<exists>ms. en_metrics (exec_rules E m ctx [r] s) =
     en_metrics s @ IncRuleHit (r_name r) (r_Severity r) (r_action r) # ms"
proof -
  let ?t = "snd (dedup_allow E (key_of [r_name r, itoa (unat (m_PID m))])
              (count_metric (IncRuleHit (r_name r) (r_Severity r) (r_action r)) s))"
  have "en_metrics ?t = en_metrics s @ [IncRuleHit (r_name r) (r_Severity r) (r_action r)]"
    by (simp add: dedup_allow_def Let_def case_prod_unfold)
  then show ?thesis using assms match_metrics [of E r m ?t] by (auto simp: case_prod_unfold Let_def)
qed

text \<open>
  C36: rules see the digest of the executable that runs. Suppose the platform reports inode, modification time and size of a file, and the
  contents at a path change only together with one of them. Whatever executables were hashed before, in whatever order and however full the
  cache is: when a rule mentions a digest and an exec event reaches the rules (it is not a blocked or a fileless execution, its path is not on
  the allow list, and no write to it is on record) and its executable can be read, then every rule is evaluated with
  \<open>process.sha256\<close> the digest of the current contents, and no hash error is counted. So a sole rule that tests
  \<open>process.sha256\<close> for equality with a text hits exactly when the text is that digest, letter case included; otherwise nothing but the
  correlator changes. The cache holds at most a thousand digests.
\<close>

theorem exec_hash_correct:
  assumes "\<forall>e \<in> set calls. consistent vers e" "consistent vers (m_PID m, V)"
    and "xv_stat V = Some (ident, ok)" "xv_data V = Some d" "c = fold (hash_call sha) calls globalHashCache"
    and "ee_requires_sha E" "ee_sha E (m_PID m) = hash_value (execHash_get sha V (new_execHash (m_PID m)) c)"
    and "\<not> isAllowlisted (en_cfg s) (m_Filename m)" "\<not> m_IsFileless m"
    and "GetRecentWrite (ee_now E) (m_Filename m) \<lparr>fi_dev = m_ExeDev m, fi_ino = m_ExeIno m\<rparr> thirty_seconds
           (RecordExec (ee_now E) (m_PID m) (m_PPID m) (m_Comm m) (m_Filename m) (en_corr s)) = (None, co)"
    and "s' = Engine_AnalyzeExec E m False s"
  shows "s' = exec_rules E m (exec_context E s ''EXEC'' (sha d) m) (c_Rules (en_cfg s)) (s\<lparr>en_corr := co\<rparr>) \<and>
     (\<forall>r want. c_Rules (en_cfg s) = [r] \<longrightarrow> (\<forall>ctx. ee_cel E r ctx \<longleftrightarrow> ec_Sha256 ctx = want) \<longrightarrow>
        (if sha d = want
         then \<exists>ms. en_metrics s' = en_metrics s @ IncRuleHit (r_name r) (r_Severity r) (r_action r) # ms
         else s' = s\<lparr>en_corr := co\<rparr>)) \<and>
     length (entries c) \<le> 1000"
proof -
  note h = execHash_get_digest [OF assms(1-5)]
  have s': "s' = exec_rules E m (exec_context E s ''EXEC'' (sha d) m) (c_Rules (en_cfg s)) (s\<lparr>en_corr := co\<rparr>)"
    using assms(6-11) h(1) by (simp add: Engine_AnalyzeExec_def Let_def hash_value_def)
  have "ec_Sha256 (exec_context E s ''EXEC'' (sha d) m) = sha d" by (simp add: exec_context_def)
  then show ?thesis
    using s' h(2) exec_rules_single [of E _ "exec_context E s ''EXEC'' (sha d) m" m "s\<lparr>en_corr := co\<rparr>"] by auto
qed

definition view_sample :: exe_view where
  "view_sample = \<lparr>xv_stat = Some ((7, 1, 2), True), xv_path = Some (str ''/usr/bin/nc''), xv_data = Some [1, 2]\<rparr>"

text \<open>An engine whose rules compare the digest with one text, with the reversal of the contents for the digest.\<close>

definition eenv_digest :: "gostring \<Rightarrow> hash_cache \<Rightarrow> eenv" where
  "eenv_digest want c = eenv_plain
     \<lparr>ee_cel := (\<lambda>r ctx. ec_Sha256 ctx = want), ee_requires_sha := True,
      ee_sha := (\<lambda>pid. hash_value (execHash_get rev view_sample (new_execHash pid) c))\<rparr>"

theorem exec_hash_correct_witness:
  "let c = fold (hash_call rev) [(8, view_sample)] globalHashCache;
       s = NewEngine (config_rules [block_rule RuleModeAudit [] []])
   in en_metrics (Engine_AnalyzeExec (eenv_digest [2, 1] c) meta_sample False s) \<noteq> [] \<and>
      en_metrics (Engine_AnalyzeExec (eenv_digest [2, 2] c) meta_sample False s) = []"
proof -
  let ?c = "fold (hash_call rev) [(8, view_sample)] globalHashCache"
  let ?r = "block_rule RuleModeAudit [] []"
  let ?s = "NewEngine (config_rules [?r])"
  have v: "\<forall>e \<in> set [(8, view_sample)]. consistent (\<lambda>_ _. [1, 2]) e" "consistent (\<lambda>_ _. [1, 2]) (m_PID meta_sample, view_sample)"
    "xv_stat view_sample = Some ((7, 1, 2), True)" "xv_data view_sample = Some [1, 2]"
    by (simp_all add: consistent_def view_sample_def)
  have e: "\<not> isAllowlisted (en_cfg ?s) (m_Filename meta_sample)" "\<not> m_IsFileless meta_sample" "c_Rules (en_cfg ?s) = [?r]"
    by (simp_all add: config_rules_def isAllowlisted_def meta_sample_def)
  have q: "ee_requires_sha (eenv_digest w ?c)" "ee_cel (eenv_digest w ?c) ?r ctx \<longleftrightarrow> ec_Sha256 ctx = w"
    "ee_sha (eenv_digest w ?c) (m_PID meta_sample) =
       hash_value (execHash_get rev view_sample (new_execHash (m_PID meta_sample)) ?c)" for w ctx
    by (simp_all add: eenv_digest_def)
  note t = exec_hash_correct [OF v refl q(1,3) e(1,2) GetRecentWrite_none refl, THEN conjunct2, THEN conjunct1,
      rule_format, OF _ e(3) q(2)]
  show ?thesis using t [of "[2, 1]"] t [of "[2, 2]"] by (auto simp: Let_def)
qed

text \<open>
  The device a file lives on is not part of the identity: an executable on another file system that agrees in resolved path, inode,
  modification time and size is given the digest of the first one.
\<close>

theorem hash_ignores_device:
  assumes "xv_stat V = Some (ident, True)" "xv_path V = Some p" "xv_data V = Some d"
    and "xv_stat W = Some (ident, True)" "xv_path W = Some p"
  shows "fst (execHash_get sha W (new_execHash pid') (hash_call sha (pid, V) globalHashCache)) = Inr (sha d)"
proof -
  have "hash_call sha (pid, V) globalHashCache = lru_Add p (sha d, ident) globalHashCache"
    using assms by (simp add: hash_call_def execHash_get_def new_execHash_def globalHashCache_def lru_Get_def newLRUCache_def)
  moreover have "fst (lru_Get p (lru_Add p (sha d, ident) globalHashCache)) = Some (sha d, ident)"
    by (rule lru.get_add) (simp_all add: globalHashCache_def newLRUCache_def lru_inv_def)
  ultimately show ?thesis
    using assms by (cases "lru_Get p (lru_Add p (sha d, ident) globalHashCache)") (simp add: execHash_get_def new_execHash_def)
qed

end
