(* ===== verification/KG_Sigma.thy ===== *)
theory KG_Sigma
  imports KG_Pods
begin

text \<open>
  The conversion of Sigma rules, \<open>internal/config/sigma.go\<close>: the detection section of a rule becomes the text of a CEL
  expression. The YAML decoder is not part of the model: a detection is its decoded value, a map being the list of its entries in
  the order the loop visits them. \<open>show\<close> is the text \<open>fmt\<close> prints for a value that is neither a string nor a list.
\<close>

section \<open>Detections\<close>

datatype yaml = YStr gostring | YList "yaml list" | YMap "(gostring \<times> yaml) list" | YOther nat

definition sigmaFieldMapping :: "gostring \<Rightarrow> gostring option" where
  "sigmaFieldMapping = map_of
     [(str ''image'', str ''process.path''), (str ''process.path'', str ''process.path''),
      (str ''originalfilename'', str ''process.basename''), (str ''process.basename'', str ''process.basename''),
      (str ''commandline'', str ''process.path''), (str ''hashes.sha256'', str ''process.sha256''),
      (str ''sha256'', str ''process.sha256''), (str ''user'', str ''process.uid''),
      (str ''parentimage'', str ''event.ancestor_filename'')]"

definition escape_quotes :: "gostring \<Rightarrow> gostring" where
  "escape_quotes v = concat (map (\<lambda>b. if b = 0x27 then [0x5C, 0x27] else [b]) v)"

definition formatSingleMatch :: "gostring \<Rightarrow> gostring \<Rightarrow> gostring \<Rightarrow> gostring" where
  "formatSingleMatch celVar modifier v =
     (if modifier = str ''endswith'' then celVar @ str ''.endsWith('' @ [0x27] @ escape_quotes v @ [0x27] @ str '')''
      else if modifier = str ''startswith'' then celVar @ str ''.startsWith('' @ [0x27] @ escape_quotes v @ [0x27] @ str '')''
      else if modifier = str ''contains'' then celVar @ str ''.contains('' @ [0x27] @ escape_quotes v @ [0x27] @ str '')''
      else celVar @ str '' == '' @ [0x27] @ escape_quotes v @ [0x27])"

definition parens_join :: "string \<Rightarrow> gostring list \<Rightarrow> gostring" where
  "parens_join op xs =
     (case xs of [] \<Rightarrow> [] | [x] \<Rightarrow> x | _ \<Rightarrow> str ''('' @ strings_Join (str op) xs @ str '')'')"

definition formatFieldConstraint :: "(yaml \<Rightarrow> gostring) \<Rightarrow> gostring \<Rightarrow> gostring \<Rightarrow> yaml \<Rightarrow> gostring" where
  "formatFieldConstraint shw celVar modifier v =
     (case v of
        YStr s \<Rightarrow> formatSingleMatch celVar modifier s
      | YList vs \<Rightarrow>
          parens_join '' || ''
            (List.map_filter (\<lambda>x. case x of YStr s \<Rightarrow> Some (formatSingleMatch celVar modifier s) | _ \<Rightarrow> None) vs)
      | _ \<Rightarrow> celVar @ str '' == '' @ shw v)"

definition field_parts :: "gostring \<Rightarrow> gostring \<times> gostring" where
  "field_parts fieldSpec =
     (let parts = SplitN 3 0x7C fieldSpec in
      (ToLower (hd parts), if 1 < length parts then ToLower (parts ! 1) else []))"

definition buildSelectionClause :: "(yaml \<Rightarrow> gostring) \<Rightarrow> (gostring \<times> yaml) list \<Rightarrow> gostring" where
  "buildSelectionClause shw selection =
     parens_join '' && ''
       (filter (\<lambda>e. e \<noteq> [])
          (map (\<lambda>(fieldSpec, v).
                  let (fieldName, modifier) = field_parts fieldSpec;
                      celVar = (case sigmaFieldMapping fieldName of Some x \<Rightarrow> x | None \<Rightarrow> str ''process.path'')
                  in formatFieldConstraint shw celVar modifier v) selection))"

datatype sigma_error = EmptyDetection | NoClauses

definition detection_clauses :: "(yaml \<Rightarrow> gostring) \<Rightarrow> (gostring \<times> yaml) list \<Rightarrow> gostring list" where
  "detection_clauses shw detection =
     filter (\<lambda>c. c \<noteq> [])
       (List.map_filter
          (\<lambda>(key, v). if key = str ''condition'' then None
                       else case v of YMap sel \<Rightarrow> Some (buildSelectionClause shw sel) | _ \<Rightarrow> None) detection)"

definition buildCELFromDetection :: "(yaml \<Rightarrow> gostring) \<Rightarrow> (gostring \<times> yaml) list \<Rightarrow> sigma_error + gostring" where
  "buildCELFromDetection shw detection =
     (if detection = [] then Inl EmptyDetection
      else let clauses = detection_clauses shw detection in
           if clauses = [] then Inl NoClauses else Inr (strings_Join (str '' && '') clauses))"

definition mapSigmaLevelToSeverity :: "gostring \<Rightarrow> gostring" where
  "mapSigmaLevelToSeverity level =
     (let l = ToLower level in
      if l = str ''critical'' then str ''critical'' else if l = str ''high'' then str ''high''
      else if l = str ''medium'' then str ''medium''
      else if l = str ''low'' \<or> l = str ''informational'' then str ''low'' else str ''medium'')"

section \<open>What becomes of the condition\<close>

lemma clauses_drop_condition:
  "detection_clauses shw (filter (\<lambda>e. fst e \<noteq> str ''condition'') detection) = detection_clauses shw detection"
  by (induction detection) (auto simp: detection_clauses_def List.map_filter_simps split: option.split)

text \<open>
  The condition of a Sigma rule is ignored. The expression depends only on the selections: whatever the condition says, every selection that
  yields a clause is required. A rule whose condition is \<open>selection and not filter\<close> is converted to the expression
  that demands the filter, and one whose condition is a disjunction to a conjunction.
\<close>

theorem sigma_condition_ignored:
  assumes "sel = buildSelectionClause shw s" "flt = buildSelectionClause shw f" "sel \<noteq> []" "flt \<noteq> []"
    and "k1 \<noteq> str ''condition''" "k2 \<noteq> str ''condition''"
  shows "buildCELFromDetection shw [(k1, YMap s), (k2, YMap f), (str ''condition'', cond)] = Inr (sel @ str '' && '' @ flt) \<and>
     (filter (\<lambda>e. fst e \<noteq> str ''condition'') detection \<noteq> [] \<longrightarrow>
        buildCELFromDetection shw detection = buildCELFromDetection shw (filter (\<lambda>e. fst e \<noteq> str ''condition'') detection))"
proof -
  have "detection_clauses shw [(k1, YMap s), (k2, YMap f), (str ''condition'', cond)] = [sel, flt]"
    using assms by (simp add: detection_clauses_def List.map_filter_simps)
  then show ?thesis by (auto simp: buildCELFromDetection_def clauses_drop_condition)
qed

theorem sigma_condition_ignored_witness:
  "buildCELFromDetection (\<lambda>_. [])
     [(str ''selection'', YMap [(str ''Image'', YStr (str ''/bin/nc''))]),
      (str ''filter'', YMap [(str ''User|contains'', YStr (str ''root''))]),
      (str ''condition'', YStr (str ''selection and not filter''))] =
   Inr (str ''process.path == '' @ [0x27] @ str ''/bin/nc'' @ [0x27] @ str '' && process.uid.contains('' @ [0x27] @ str ''root'' @ [0x27] @ str '')'')"
proof -
  let ?sel = "buildSelectionClause (\<lambda>_. []) [(str ''Image'', YStr (str ''/bin/nc''))]"
  let ?flt = "buildSelectionClause (\<lambda>_. []) [(str ''User|contains'', YStr (str ''root''))]"
  have s: "?sel = str ''process.path == '' @ [0x27] @ str ''/bin/nc'' @ [0x27]"
    and f: "?flt = str ''process.uid.contains('' @ [0x27] @ str ''root'' @ [0x27] @ str '')''"
    by code_simp+
  have n: "?sel \<noteq> []" "?flt \<noteq> []" unfolding s f by simp_all
  have k: "str ''selection'' \<noteq> str ''condition''" "str ''filter'' \<noteq> str ''condition''" by (simp_all add: str_def)
  from sigma_condition_ignored [OF refl refl n k, THEN conjunct1] show ?thesis unfolding s f by (simp add: str_def)
qed

section \<open>Quoting\<close>

text \<open>What follows a literal in single quotes, where a backslash takes the next byte with it.\<close>

fun after_literal :: "bytes \<Rightarrow> bytes option" where
  "after_literal [] = None"
| "after_literal (b # bs) =
     (if b = 0x27 then Some bs
      else if b = 0x5C then (case bs of [] \<Rightarrow> None | _ # r \<Rightarrow> after_literal r)
      else after_literal bs)"

text \<open>
  A value with a backslash escapes from its quotes. A value without one is read back as one literal. But backslashes are not escaped: for a value
  that begins with a backslash and a quote, the literal ends right there, and the rest of the value is read as a piece of the CEL
  expression.
\<close>

theorem sigma_value_escapes:
  assumes "0x5C \<notin> set v"
  shows "after_literal (escape_quotes v @ 0x27 # rest) = Some rest \<and>
     after_literal (escape_quotes ([0x5C, 0x27] @ w) @ 0x27 # rest) = Some (escape_quotes w @ 0x27 # rest)"
proof -
  have "after_literal (escape_quotes v @ 0x27 # rest) = Some rest"
    using assms by (induction v) (auto simp: escape_quotes_def)
  then show ?thesis by (simp add: escape_quotes_def)
qed

theorem sigma_value_escapes_witness:
  "after_literal (escape_quotes (str ''it'' @ [0x27] @ str ''s'') @ 0x27 # str '' && true'') = Some (str '' && true'')"
proof -
  have "0x5C \<notin> set (str ''it'' @ [0x27] @ str ''s'')" by (simp add: str_def)
  from sigma_value_escapes [OF this] show ?thesis by blast
qed

end
