(* ===== verification/KG_Supervisor.thy ===== *)
theory KG_Supervisor
  imports KG_Prelude
begin

text \<open>
  The supervisor of \<open>main.go\<close>: it starts the agent as a child process, waits for a signal or for the end of the child, and starts the
  next child. Times are in nanoseconds; the pids of the children, the times and what is waited for are inputs.
\<close>

section \<open>The supervisor\<close>

datatype wakeup = SigHup | SigTerm | ChildExit bool

text \<open>
  One round of the loop: when it begins, whether the child can be started and under which pid, what wakes
  the supervisor up, and when. The flag of \<open>ChildExit\<close> says that the child failed.
\<close>

record round =
  rd_begin :: int
  rd_pid :: "nat option"
  rd_wakeup :: wakeup
  rd_end :: int

record supervisor =
  sv_restarts :: "int list"
  sv_spawned :: "nat list"
  sv_running :: "nat list"
  sv_hups :: "nat list"
  sv_alarms :: nat

datatype sv_outcome = Again supervisor | Returned supervisor | ExitFailure supervisor

definition maxRestarts :: nat where "maxRestarts = 5"
definition windowDuration :: int where "windowDuration = 5 * 60 * 10 ^ 9"

definition sv_init :: supervisor where
  "sv_init = \<lparr>sv_restarts = [], sv_spawned = [], sv_running = [], sv_hups = [], sv_alarms = 0\<rparr>"

definition sv_purge :: "int \<Rightarrow> supervisor \<Rightarrow> supervisor" where
  "sv_purge now s =
     (let valid = filter (\<lambda>t. now - t < windowDuration) (sv_restarts s) in
      s\<lparr>sv_restarts := valid, sv_alarms := sv_alarms s + (if maxRestarts \<le> length valid then 1 else 0)\<rparr>)"

definition sv_round :: "round \<Rightarrow> supervisor \<Rightarrow> sv_outcome" where
  "sv_round r s =
     (let s1 = sv_purge (rd_begin r) s in
      case rd_pid r of
        None \<Rightarrow> ExitFailure s1
      | Some pid \<Rightarrow>
          let s2 = s1\<lparr>sv_spawned := sv_spawned s1 @ [pid], sv_running := sv_running s1 @ [pid]\<rparr> in
          case rd_wakeup r of
            SigHup \<Rightarrow> Again (s2\<lparr>sv_hups := sv_hups s2 @ [pid]\<rparr>)
          | SigTerm \<Rightarrow> Returned (s2\<lparr>sv_running := remove1 pid (sv_running s2)\<rparr>)
          | ChildExit failed \<Rightarrow>
              let s3 = s2\<lparr>sv_running := remove1 pid (sv_running s2), sv_restarts := sv_restarts s2 @ [rd_end r]\<rparr> in
              if failed then Again s3 else Returned s3)"

fun runSupervisor :: "round list \<Rightarrow> supervisor \<Rightarrow> sv_outcome" where
  "runSupervisor [] s = Again s"
| "runSupervisor (r # rs) s = (case sv_round r s of Again s' \<Rightarrow> runSupervisor rs s' | out \<Rightarrow> out)"

section \<open>It never gives up, and it multiplies the agent\<close>

lemma sv_purge_sel [simp]:
  "sv_spawned (sv_purge now s) = sv_spawned s" "sv_running (sv_purge now s) = sv_running s" "sv_hups (sv_purge now s) = sv_hups s"
  by (simp_all add: sv_purge_def Let_def)

text \<open>
  A crash loop is never broken. When every child that is started fails, however often and however quickly, the supervisor
  starts the next one: it reports an emergency and neither returns nor stops starting children.
\<close>

theorem crash_loop_not_broken:
  assumes "\<forall>r \<in> set rs. rd_pid r \<noteq> None \<and> rd_wakeup r = ChildExit True"
  shows "\<exists>s'. runSupervisor rs s = Again s' \<and> sv_spawned s' = sv_spawned s @ map (the \<circ> rd_pid) rs"
  using assms
proof (induction rs arbitrary: s)
  case (Cons r rs)
  obtain pid where "rd_pid r = Some pid" using Cons.prems by auto
  then obtain s' where "sv_round r s = Again s'" "sv_spawned s' = sv_spawned s @ [pid]"
    using Cons.prems by (simp add: sv_round_def Let_def)
  then show ?case using Cons.IH [of s'] Cons.prems \<open>rd_pid r = Some pid\<close> by auto
qed simp

definition crash_round :: "nat \<Rightarrow> round" where
  "crash_round n = \<lparr>rd_begin = 2 * int n, rd_pid = Some n, rd_wakeup = ChildExit True, rd_end = 2 * int n + 1\<rparr>"

theorem crash_loop_not_broken_witness:
  "\<exists>s'. runSupervisor (map crash_round [0..<100]) sv_init = Again s' \<and> length (sv_spawned s') = 100"
proof -
  have "\<forall>r \<in> set (map crash_round [0..<100]). rd_pid r \<noteq> None \<and> rd_wakeup r = ChildExit True" by (simp add: crash_round_def)
  from crash_loop_not_broken [OF this, of sv_init] show ?thesis by (auto simp: sv_init_def)
qed

text \<open>
  Every reload through the supervisor leaves one more agent running. A hangup is passed to the current child, which goes on running,
  and the loop starts another child: after any number of hangups all the children ever started
  run at once, each attached to the kernel, and only the last one is still waited for.
\<close>

theorem hangup_multiplies_agents:
  assumes "\<forall>r \<in> set rs. rd_pid r \<noteq> None \<and> rd_wakeup r = SigHup" "runSupervisor rs sv_init = Again s'"
  shows "sv_running s' = map (the \<circ> rd_pid) rs \<and> sv_hups s' = map (the \<circ> rd_pid) rs \<and> length (sv_running s') = length rs"
proof -
  have "\<exists>s'. runSupervisor rs s = Again s' \<and> sv_running s' = sv_running s @ map (the \<circ> rd_pid) rs \<and>
      sv_hups s' = sv_hups s @ map (the \<circ> rd_pid) rs" for s
    using assms(1)
  proof (induction rs arbitrary: s)
    case (Cons r rs)
    obtain pid where "rd_pid r = Some pid" using Cons.prems by auto
    then obtain s' where "sv_round r s = Again s'" "sv_running s' = sv_running s @ [pid]" "sv_hups s' = sv_hups s @ [pid]"
      using Cons.prems by (simp add: sv_round_def Let_def)
    then show ?case using Cons.IH [of s'] Cons.prems \<open>rd_pid r = Some pid\<close> by auto
  qed simp
  from this [of sv_init] assms(2) show ?thesis by (auto simp: sv_init_def)
qed

definition hup_round :: "nat \<Rightarrow> round" where
  "hup_round n = \<lparr>rd_begin = int n, rd_pid = Some n, rd_wakeup = SigHup, rd_end = int n\<rparr>"

theorem hangup_multiplies_agents_witness:
  "\<exists>s'. runSupervisor [hup_round 1, hup_round 2] sv_init = Again s' \<and> sv_running s' = [1, 2]"
proof -
  have "\<forall>r \<in> set [hup_round 1, hup_round 2]. rd_pid r \<noteq> None \<and> rd_wakeup r = SigHup" by (simp add: hup_round_def)
  moreover obtain s' where "runSupervisor [hup_round 1, hup_round 2] sv_init = Again s'"
    by (simp add: hup_round_def sv_round_def Let_def)
  ultimately show ?thesis using hangup_multiplies_agents [of "[hup_round 1, hup_round 2]" s'] by (auto simp: hup_round_def)
qed

end
