(* ===== verification/Spec2Isabelle.thy ===== *)
theory Spec2Isabelle
  imports KG_Response KG_Trust KG_Reload KG_Store KG_Audit KG_Metrics KG_Hash KG_Sigma KG_Supervisor
begin

text \<open>
  K-Guard is a host intrusion detection and prevention agent. Its kernel part, the directory \<open>bpf/\<close>, is
  one BPF object of 35 programs on tracepoints, LSM hooks, traffic control and a perf event. The
  programs share maps; each watches one kind of event, may submit a sample to a ring buffer, and
  the LSM hooks may deny the operation. User space, written in Go under \<open>internal/\<close>, turns a
  configuration into the maps that hold the policy, decodes the samples, and alerts, audits or
  kills. This development models the whole object, with the kernel types it reads through, and the
  agent around it: the configuration and its reloading, map synchronisation, decoding, correlation, the
  rule engine, the kill guard and the trust set, pods, and the ways out, alerts, history, audit log and
  metrics. It proves what the programs report and deny, which states the shared maps can
  reach, and what the two halves guarantee together.

  \<^bold>\<open>Theories and sources\<close>

  \<^item> \<open>KG_Prelude\<close>: bytes, words in memory, C strings, the probe-read helpers of the kernel; the
    collections \<open>kg_frame\<close> and \<open>kg_len\<close>. \<open>KG_Layout\<close>: offsets and sizes of C structs, and the locale
    \<open>c_struct\<close> (members in bounds and disjoint).
  \<^item> \<open>KG_Btf\<close>, \<open>KG_Vm_Embedded\<close>, \<open>KG_Vmlinux\<close>: the part of \<open>bpf/include/vmlinux.h\<close> the sensors
    depend on, member by member, with bit fields and unions; the locale \<open>kstruct\<close>. Sizes and offsets
    are computed from the declarations, so \<open>task_struct\<close> comes with every struct embedded in it.
  \<^item> \<open>KG_Types\<close> (\<open>types.h\<close>): the event structs as records and layouts, the event codes, the datatype
    \<open>event\<close> of samples and their well-formedness.
  \<^item> \<open>KG_Kernel\<close>: what one invocation sees of the kernel, the record \<open>kenv\<close>. \<open>KG_CoreRead\<close> ties its typed
    heaps to raw kernel memory laid out as in \<open>vmlinux.h\<close>.
  \<^item> \<open>KG_Maps\<close> (\<open>maps.h\<close>, and the map of \<open>selfprotect.h\<close>): the records \<open>policy\<close> and \<open>bstate\<close>, the map and
    ring-buffer operations, the invariant \<open>bstate_wf\<close>, and the locales \<open>bpf_program\<close>, \<open>sensor\<close> and
    \<open>lsm_hook\<close>, which every program interprets.
  \<^item> \<open>KG_Helpers\<close> and \<open>KG_Sample\<close> (\<open>helpers.h\<close>): path lookup, path resolution, common header, process
    arguments, prefix rules, and their specifications; a sample kernel for the witnesses.
  \<^item> \<open>KG_Exec\<close> (\<open>sensors/exec.h\<close>), \<open>KG_File\<close> (\<open>sensors/file.h\<close>), \<open>KG_Lsm\<close> and \<open>KG_Prevent\<close>
    (\<open>sensors/lsm.h\<close>), \<open>KG_Net\<close> and \<open>KG_Dns\<close> (\<open>sensors/net.h\<close>), \<open>KG_Sys\<close> (\<open>sensors/sys.h\<close>, \<open>pmu.h\<close>,
    \<open>iouring.h\<close>), \<open>KG_SelfProtect\<close> (\<open>sensors/selfprotect.h\<close>): one definition per C function, with its
    name.
  \<^item> \<open>KG_System\<close> (\<open>kguard.c\<close>): all programs as one step function \<open>run_hook\<close>, the step relation \<open>kstep\<close> (a
    program runs, user space replaces the policy, a task exits) and the reachable states.
    \<open>KG_Lineage\<close>: the reverse-shell rule across programs, as a refinement of an abstract machine, and
    the set-user-id rule over interleavings.
  \<^item> \<open>KG_Loader\<close> (\<open>config/rules.go\<close>, the synchronisation in \<open>ebpf/loader.go\<close>, \<open>Engine.applyConfig\<close>):
    block lists of the rules, one map brought to its wanted contents call by call, the policy that
    results. \<open>KG_Trust\<close> (\<open>trust/set.go\<close>): file identities, pinned binaries, ptrace callers.
  \<^item> \<open>KG_Wire\<close> (\<open>ebpf/bpf_x86_bpfel.go\<close>): the Go structs, \<open>binary.Read\<close>, and the bytes of a sample.
    \<open>KG_Text\<close> and \<open>KG_Router\<close> (\<open>processor/event.go\<close>, \<open>types/types.go\<close>): the string functions, the
    decoders and \<open>ProcessRawRecord\<close>, whose result is the list of calls on the engine.
  \<^item> \<open>KG_Cache\<close> (\<open>processor/hash.go\<close>, \<open>dedup.go\<close>): the LRU cache and the deduplicator, with the locale
    \<open>bounded_cache\<close>. \<open>KG_Correlator\<close> (\<open>correlate.go\<close>): the memories built on it.
  \<^item> \<open>KG_Engine\<close> (\<open>processor/engine.go\<close>, \<open>safety/safety.go\<close>): one definition per \<open>Analyze\<close> function, over
    the record \<open>engine\<close> of configuration, memories and outputs; the locale \<open>engine_op\<close>.
    \<open>KG_Response\<close>: kills, reports of denied operations, correlation, composed with the kernel side.
    \<open>KG_Hash\<close> (\<open>processor/hash.go\<close>): digests of executables behind the cache.
  \<^item> \<open>KG_Config\<close> (\<open>config/rules.go\<close>, \<open>config/config.go\<close>): loading and validating a configuration, the two
    patterns that turn rule expressions into block lists, composed with the loader and the exec hook.
    \<open>KG_Reload\<close> (\<open>config.go\<close>, \<open>diff.go\<close>): the manager as a state machine over the versions of the file, and
    the report of differences. \<open>KG_Sigma\<close> (\<open>sigma.go\<close>): Sigma detections to CEL text.
  \<^item> \<open>KG_Pods\<close> (\<open>k8s/\<close>): cgroup paths, kubelet, resolver, composed with the module hook of the kernel.
  \<^item> \<open>KG_Sinks\<close> (\<open>alert/alert.go\<close>): the dispatcher as a step relation; the locale \<open>lossy_queue\<close>, which the
    audit log interprets too. \<open>KG_Alerts\<close> (\<open>stdout.go\<close>), \<open>KG_Store\<close> (\<open>store.go\<close>, the pages of
    \<open>dashboard.go\<close>), \<open>KG_Audit\<close> (\<open>audit/audit.go\<close>), \<open>KG_Metrics\<close> (\<open>metrics/metrics.go\<close>, \<open>httpauth.go\<close>),
    \<open>KG_Supervisor\<close> (\<open>runSupervisor\<close> of \<open>main.go\<close>).

  \<^bold>\<open>Modelling\<close>

  A program is a function from the kernel inputs of the invocation, its context and the shared state to
  a return value and the new state. Every early return of the source is a branch. Integers keep
  their width. A struct in user, kernel or ring-buffer memory is read at the offset its
  declaration gives. A reserved sample starts with arbitrary bytes, so a member that a program
  forgets to assign is visibly stale. A reservation, the creation of task storage and the update
  of an LRU map may fail, as the inputs say. In the traffic programs a direct access outside the
  packet is the value \<open>None\<close>.

  Code outside the repository is a parameter with its documented contract as a hypothesis:
  \<open>bpf_d_path\<close> (\<open>d_path_contract\<close>), the longest-prefix-match trie (\<open>lpm_contract\<close>), the eviction of the
  LRU map (\<open>ke_lru_evict\<close>, unconstrained), the contents of memory; in user space the CEL library
  (\<open>ee_cel\<close>), the decoding of device numbers (\<open>dev_contract\<close>), the outcomes of calls into the eBPF
  library, the order in which a Go map is ranged over, the file system and the clock; for the configuration
  the YAML and JSON decoders and the CEL compiler (\<open>decoders\<close>, \<open>celEnv\<close>); for the outputs the JSON codec
  (\<open>storable\<close>), SHA-256, the table of printable code points (\<open>print_table\<close>), the answers of the kubelet, and
  the outcomes of writes.

  In user space a Go map is an association list or a HOL map, a Go string a byte list. A text made by
  \<open>fmt.Sprintf\<close> for a reader is represented by its format and arguments; strings that are compared,
  such as paths, names and the keys of the deduplicator, are built byte by byte. The outputs of the
  engine (alerts, audit records, kills, metrics) are sequences of its state.

  \<^bold>\<open>Results\<close>

  \<^item> Helpers: \<open>path_in_map\<close> equals a search for a listed path or directory; a resolved path is the one
    map key of that path; argument copies stay in their buffer; prefix rules are decided by a
    longest prefix.
  \<^item> Prevention: the exact verdict of each hook, that denials are reported, that switched-off hooks do
    nothing, that becoming root needs a set-user-id binary, and that a task that put a socket on a
    standard stream by \<open>dup2\<close> or \<open>dup3\<close>, or a child of one, cannot execute anything, after any
    interleaving. The last holds where the kernel grants the lineage record of the task at the dup
    and of the child at the fork; where it refuses one the mark is lost, and no mark is ever made up.
  \<^item> Sensors: which samples are submitted and what they say, the agreement of the declared
    tracepoint records with what the kernel writes, and the members that are stale or wrong.
  \<^item> DNS: no direct access outside the packet, and the round trip from query to attributed answer, with
    the name that is in the query packet. The helper call that copies the name is not bounded by the packet.
  \<^item> The object: every reachable state and every sample ever submitted is well formed; only eight hooks
    ever deny; no program changes the policy or withdraws a sample.
  \<^item> Policy: an exec is denied exactly as the configured rules say, through synchronisation, maps and
    hook; while a map is synchronised no key ever has a value that is neither the old nor the new
    one; trusted executables are named alike on both sides.
  \<^item> Samples: the bindings match the C layouts; a submitted sample is decoded to what the sensor
    stored; every sample of a reachable state is dispatched without error; a DNS lookup is recorded
    under its name.
  \<^item> Engine: protected processes are never killed; an exec is killed only through an enforcing rule;
    denied operations are alerted and audited; caches stay bounded, the tree walk ends, forgetting
    never changes an answer of the deduplicator; the digest that rules see is that of the current
    executable while identities tell contents apart; and the cases where a report is wrong.
  \<^item> Configuration: exactly which configurations are accepted; only a file that nobody else could have
    written is loaded; the text of the rules decides what the kernel denies; whatever happens to the
    file, the current configuration was accepted; the report of differences is complete but for one
    member; an update can be missed.
  \<^item> Pods: parsing inverts the cgroup paths of the two drivers; the cgroup a context was made for is registered
    in the kernel when the context has names, but a reused process id can answer with another cgroup's context.
  \<^item> Outputs: every sink gets its alerts in order, each sent, waiting or dropped exactly once, and closing
    delivers what waits; the history returns the newest alerts sent; an audit record is one line; the page of
    metrics counts every increment once; the pages need the token; the audit log hands on everything it does
    not drop until its first failing write, and nothing after it; and the cases where output is lost, counted twice or not JSON. The supervisor neither breaks a crash loop nor keeps a single agent.

  \<^bold>\<open>Bounds\<close>

  The loops of the object are bounded by constants of the source: 256 bytes in \<open>path_in_map\<close> and in the
  clearing loops, 16 labels in a DNS question, 8 labels in an answer name, 2 answer records. The model
  uses these constants as recursion counters, so no fuel is chosen and every function is total. In user
  space the walk up the process tree ends because a process id is visited once; the other loops
  shorten their input. Queues hold 256 alerts and 10000 audit records, caches 1000 digests and 10000 pods,
  as in the source. Counters are words of 64 bits, and the result on metrics asks for fewer than
  \<open>2\<^sup>6\<^sup>3\<close> increments.

  \<^bold>\<open>Not modelled\<close>

  Of user space, loading and attaching the object, the decoding of YAML and JSON, CEL itself, the syslog,
  webhook and Slack sinks, the HTML of the dashboard, the telemetry file, the rule test helper and the wiring in
  \<open>main\<close> are left out: they are I/O or calls into libraries. Of the Sigma importer the MITRE tags and
  the validation of the result are left out, of the resolver concurrent lookups of one process. One clock
  reading serves a whole call of the engine, and locks are not modelled: calls of the engine run one at a time;
  only the dispatcher, the audit log and the configuration manager are given as interleavings. In the manager
  the reloads of the two goroutines overlap, but the part of a reload after its reading is one step. A sink whose
  \<open>Send\<close> never returns is left out; \<open>Close\<close> would wait for it. Reason texts
  of audit records are not represented in the engine.
  Programs run one at a time too: races between CPUs on task storage and on map values are left out, and
  so are the capacities of the plain hash maps, which only user space fills. The text printed by
  \<open>bpf_printk\<close> is left out. CO-RE relocation is taken to be the identity, that is, the running kernel has
  the layout of \<open>vmlinux.h\<close>; types of that header which no sensor reaches are not translated.
\<close>

end
